(* ===== verification/Prelude.thy ===== *)
theory Prelude imports Complex_Main "HOL-Library.Word" begin

text \<open>
  The vocabulary every component shares: Python's exceptions as values, computations that
  may raise (with and without a mutable object), the dynamically typed values that come
  out of a YAML or JSON file, and the generic lemmas the component proofs rest on.

  A Python \<open>float\<close> is modelled by a real number: arithmetic is exact, and rounding,
  NaN and the infinities are outside the model.
\<close>

section \<open>Exceptions and results\<close>

datatype py_error =
    KeyError string
  | ValueError string
  | RuntimeError string
  | TypeError string
  | AttributeError string
  | IndexError
  | OSError string
  | FileNotFoundError string
  | PermissionError string
  | TimeoutExpired
  | NotImplementedError string
  | AssertionError string
  | OtherException string

type_synonym 'a res = "py_error + 'a"

text \<open>The subclasses of \<open>OSError\<close> among them, for \<open>except OSError\<close> clauses.\<close>

fun is_os_error :: "py_error \<Rightarrow> bool" where
  "is_os_error (OSError _) = True"
| "is_os_error (FileNotFoundError _) = True"
| "is_os_error (PermissionError _) = True"
| "is_os_error _ = False"

fun is_value_error :: "py_error \<Rightarrow> bool" where
  "is_value_error (ValueError _) = True"
| "is_value_error _ = False"

text \<open>\<open>str(error)\<close>: a \<open>KeyError\<close> shows the repr of its key.\<close>

fun error_text :: "py_error \<Rightarrow> string" where
  "error_text (KeyError k) = [CHR 0x27] @ k @ [CHR 0x27]"
| "error_text (ValueError m) = m"
| "error_text (RuntimeError m) = m"
| "error_text (TypeError m) = m"
| "error_text (AttributeError m) = m"
| "error_text IndexError = ''list index out of range''"
| "error_text (OSError m) = m"
| "error_text (FileNotFoundError m) = m"
| "error_text (PermissionError m) = m"
| "error_text TimeoutExpired = ''timed out''"
| "error_text (NotImplementedError m) = m"
| "error_text (AssertionError m) = m"
| "error_text (OtherException m) = m"

definition res_bind :: "'a res \<Rightarrow> ('a \<Rightarrow> 'b res) \<Rightarrow> 'b res" where
  "res_bind r f = (case r of Inl e \<Rightarrow> Inl e | Inr x \<Rightarrow> f x)"

lemma res_bind_simps [simp]:
  "res_bind (Inl e) f = Inl e"
  "res_bind (Inr x) f = f x"
  by (simp_all add: res_bind_def)

lemma res_bind_Inr_iff:
  "res_bind r f = Inr y \<longleftrightarrow> (\<exists>x. r = Inr x \<and> f x = Inr y)"
  by (cases r) simp_all

lemma res_bind_Inl_iff:
  "res_bind r f = Inl e \<longleftrightarrow> r = Inl e \<or> (\<exists>x. r = Inr x \<and> f x = Inl e)"
  by (cases r) simp_all

text \<open>A loop whose body may raise: it stops at the first exception.\<close>

fun res_map :: "('a \<Rightarrow> 'b res) \<Rightarrow> 'a list \<Rightarrow> 'b list res" where
  "res_map f [] = Inr []"
| "res_map f (x # xs) =
     res_bind (f x) (\<lambda>y. res_bind (res_map f xs) (\<lambda>ys. Inr (y # ys)))"

lemma res_map_Inr_iff:
  "res_map f xs = Inr ys \<longleftrightarrow> list_all2 (\<lambda>x y. f x = Inr y) xs ys"
  by (induction xs arbitrary: ys) (auto simp: res_bind_Inr_iff list_all2_Cons1)

lemma res_map_Inl:
  "res_map f xs = Inl e \<Longrightarrow> \<exists>x \<in> set xs. f x = Inl e"
  by (induction xs) (auto simp: res_bind_Inl_iff)

lemma res_map_map: "res_map (\<lambda>x. Inr (g x)) xs = Inr (map g xs)"
  by (induction xs) simp_all

lemma res_map_cong: "(\<And>x. x \<in> set xs \<Longrightarrow> f x = g x) \<Longrightarrow> res_map f xs = res_map g xs"
  by (induction xs) simp_all

section \<open>Methods: an object's state and an exception\<close>

text \<open>
  A method takes the object's state and returns its result or the exception it raises,
  with the state it leaves behind in either case.
\<close>

type_synonym ('s, 'a) meth = "'s \<Rightarrow> 'a res \<times> 's"

definition m_return :: "'a \<Rightarrow> ('s, 'a) meth" where
  "m_return x = (\<lambda>s. (Inr x, s))"

definition m_raise :: "py_error \<Rightarrow> ('s, 'a) meth" where
  "m_raise e = (\<lambda>s. (Inl e, s))"

definition m_bind :: "('s, 'a) meth \<Rightarrow> ('a \<Rightarrow> ('s, 'b) meth) \<Rightarrow> ('s, 'b) meth" where
  "m_bind m f = (\<lambda>s. case m s of (Inl e, t) \<Rightarrow> (Inl e, t) | (Inr x, t) \<Rightarrow> f x t)"

text \<open>Two calls in sequence, reading a field, assigning fields.\<close>

definition m_seq :: "('s, 'a) meth \<Rightarrow> ('s, 'b) meth \<Rightarrow> ('s, 'b) meth" where
  "m_seq m n = m_bind m (\<lambda>_. n)"

definition m_gets :: "('s \<Rightarrow> 'a) \<Rightarrow> ('s, 'a) meth" where
  "m_gets f = (\<lambda>s. (Inr (f s), s))"

definition m_modify :: "('s \<Rightarrow> 's) \<Rightarrow> ('s, unit) meth" where
  "m_modify f = (\<lambda>s. (Inr (), f s))"

text \<open>\<open>try: m except Exception as e: h(e)\<close>.\<close>

definition m_catch :: "('s, 'a) meth \<Rightarrow> (py_error \<Rightarrow> ('s, 'a) meth) \<Rightarrow> ('s, 'a) meth" where
  "m_catch m h = (\<lambda>s. case m s of (Inl e, t) \<Rightarrow> h e t | (Inr x, t) \<Rightarrow> (Inr x, t))"

text \<open>\<open>for x in xs: body(x)\<close>.\<close>

fun m_for :: "'x list \<Rightarrow> ('x \<Rightarrow> ('s, unit) meth) \<Rightarrow> ('s, unit) meth" where
  "m_for [] f = m_return ()"
| "m_for (x # xs) f = m_bind (f x) (\<lambda>_. m_for xs f)"

lemma m_return_app [simp]: "m_return x s = (Inr x, s)"
  by (simp add: m_return_def)

lemma m_raise_app [simp]: "m_raise e s = (Inl e, s)"
  by (simp add: m_raise_def)

lemma m_gets_app [simp]: "m_gets f s = (Inr (f s), s)"
  by (simp add: m_gets_def)

lemma m_modify_app [simp]: "m_modify f s = (Inr (), f s)"
  by (simp add: m_modify_def)

lemma m_bind_Inl: "m s = (Inl e, t) \<Longrightarrow> m_bind m f s = (Inl e, t)"
  by (simp add: m_bind_def)

lemma m_bind_Inr: "m s = (Inr x, t) \<Longrightarrow> m_bind m f s = f x t"
  by (simp add: m_bind_def)

lemma m_bind_gets [simp]: "m_bind (m_gets g) f s = f (g s) s"
  by (simp add: m_bind_def)

lemma m_bind_modify [simp]: "m_bind (m_modify g) f s = f () (g s)"
  by (simp add: m_bind_def)

lemma m_bind_return [simp]: "m_bind (m_return x) f s = f x s"
  by (simp add: m_bind_def)

lemma m_bind_Inr_iff:
  "m_bind m f s = (Inr y, u) \<longleftrightarrow> (\<exists>x t. m s = (Inr x, t) \<and> f x t = (Inr y, u))"
  by (auto simp: m_bind_def split: prod.splits sum.splits)

lemma m_bind_assoc: "m_bind (m_bind m f) g = m_bind m (\<lambda>x. m_bind (f x) g)"
  by (simp add: m_bind_def fun_eq_iff split: prod.split sum.split)

text \<open>
  What a method keeps: a predicate on the object that holds whenever the method returns or
  raises. The rules below lift it through the combinators, so an invariant of a handler is
  proved from the invariants of the calls it makes.
\<close>

definition keeps :: "('s \<Rightarrow> bool) \<Rightarrow> ('s, 'a) meth \<Rightarrow> bool" where
  "keeps P m \<longleftrightarrow> (\<forall>s. P s \<longrightarrow> P (snd (m s)))"

named_theorems keeps_rules

lemma keepsI: "(\<And>s. P s \<Longrightarrow> P (snd (m s))) \<Longrightarrow> keeps P m"
  by (simp add: keeps_def)

lemma keepsD: "keeps P m \<Longrightarrow> P s \<Longrightarrow> P (snd (m s))"
  by (simp add: keeps_def)

lemma keeps_return [keeps_rules]: "keeps P (m_return x)"
  by (simp add: keeps_def)

lemma keeps_raise [keeps_rules]: "keeps P (m_raise e)"
  by (simp add: keeps_def)

lemma keeps_gets [keeps_rules]: "keeps P (m_gets f)"
  by (simp add: keeps_def)

lemma keeps_modify: "(\<And>s. P s \<Longrightarrow> P (f s)) \<Longrightarrow> keeps P (m_modify f)"
  by (simp add: keeps_def)

lemma keeps_bind [keeps_rules]:
  "keeps P m \<Longrightarrow> (\<And>x. keeps P (f x)) \<Longrightarrow> keeps P (m_bind m f)"
  unfolding keeps_def m_bind_def by (simp split: prod.split sum.split) (metis snd_conv)

lemma keeps_catch [keeps_rules]:
  "keeps P m \<Longrightarrow> (\<And>e. keeps P (h e)) \<Longrightarrow> keeps P (m_catch m h)"
  unfolding keeps_def m_catch_def by (simp split: prod.split sum.split) (metis snd_conv)

lemma keeps_seq [keeps_rules]: "keeps P m \<Longrightarrow> keeps P n \<Longrightarrow> keeps P (m_seq m n)"
  unfolding m_seq_def by (intro keeps_bind)

lemma keeps_if [keeps_rules]:
  "(b \<Longrightarrow> keeps P m) \<Longrightarrow> (\<not> b \<Longrightarrow> keeps P n) \<Longrightarrow> keeps P (if b then m else n)"
  by simp

text \<open>Bodies that look at the state before they go on.\<close>

lemma keeps_pure [keeps_rules]: "keeps P (\<lambda>s. (g s, s))"
  by (simp add: keeps_def)

lemma keeps_test [keeps_rules]: "keeps P m \<Longrightarrow> keeps P n \<Longrightarrow> keeps P (\<lambda>s. if b s then m s else n s)"
  by (simp add: keeps_def)

lemma keeps_case_res [keeps_rules]:
  "(\<And>x. keeps P (n x)) \<Longrightarrow> keeps P (\<lambda>s. case f s of Inl e \<Rightarrow> (Inl e, s) | Inr x \<Rightarrow> n x s)"
  by (simp add: keeps_def split: sum.split)

lemma keeps_for [keeps_rules]:
  "(\<And>x. x \<in> set xs \<Longrightarrow> keeps P (f x)) \<Longrightarrow> keeps P (m_for xs f)"
  by (induction xs) (auto intro: keeps_rules)

text \<open>
  More generally, what holds after a method that starts where \<open>P\<close> holds: \<open>Q\<close> of the result
  when it returns, \<open>E\<close> when it raises.
\<close>

definition valid ::
    "('s \<Rightarrow> bool) \<Rightarrow> ('s, 'a) meth \<Rightarrow> ('a \<Rightarrow> 's \<Rightarrow> bool) \<Rightarrow> ('s \<Rightarrow> bool) \<Rightarrow> bool" where
  "valid P m Q E \<longleftrightarrow>
     (\<forall>s r t. P s \<longrightarrow> m s = (r, t) \<longrightarrow> (case r of Inr x \<Rightarrow> Q x t | Inl e \<Rightarrow> E t))"

lemma validI:
  "(\<And>s x t. P s \<Longrightarrow> m s = (Inr x, t) \<Longrightarrow> Q x t) \<Longrightarrow>
   (\<And>s e t. P s \<Longrightarrow> m s = (Inl e, t) \<Longrightarrow> E t) \<Longrightarrow> valid P m Q E"
  by (auto simp: valid_def split: sum.split)

lemma validD: "valid P m Q E \<Longrightarrow> P s \<Longrightarrow> m s = (Inr x, t) \<Longrightarrow> Q x t"
  by (fastforce simp: valid_def)

lemma validE: "valid P m Q E \<Longrightarrow> P s \<Longrightarrow> m s = (Inl e, t) \<Longrightarrow> E t"
  by (fastforce simp: valid_def)

lemma keepsE: "keeps P m \<Longrightarrow> P s \<Longrightarrow> m s = (r, t) \<Longrightarrow> P t"
  unfolding keeps_def by (metis snd_conv)

lemma keeps_valid: "keeps P m \<longleftrightarrow> valid P m (\<lambda>_. P) P"
proof
  assume k: "keeps P m"
  show "valid P m (\<lambda>_. P) P" by (rule validI) (rule keepsE [OF k], assumption, assumption)+
next
  assume v: "valid P m (\<lambda>_. P) P"
  show "keeps P m"
  proof (rule keepsI)
    fix s assume s: "P s"
    obtain r t where m: "m s = (r, t)" by (cases "m s")
    have "P t"
    proof (cases r)
      case (Inl e)
      show ?thesis by (rule validE [OF v s m [unfolded Inl]])
    next
      case (Inr x)
      show ?thesis by (rule validD [OF v s m [unfolded Inr]])
    qed
    then show "P (snd (m s))" using m by simp
  qed
qed

lemma valid_weaken:
  "valid P m Q E \<Longrightarrow> (\<And>s. P' s \<Longrightarrow> P s) \<Longrightarrow> (\<And>x s. Q x s \<Longrightarrow> Q' x s) \<Longrightarrow> (\<And>s. E s \<Longrightarrow> E' s) \<Longrightarrow>
   valid P' m Q' E'"
  by (rule validI) (blast dest: validD validE)+

lemma valid_return: "valid (Q x) (m_return x) Q E"
  by (rule validI) auto

lemma valid_raise: "valid E (m_raise e) Q E"
  by (rule validI) auto

lemma valid_modify: "(\<And>s. P s \<Longrightarrow> Q () (f s)) \<Longrightarrow> valid P (m_modify f) Q E"
  by (rule validI) auto

lemma valid_bind:
  assumes "valid P m Q E" and "\<And>x. valid (Q x) (f x) R E"
  shows "valid P (m_bind m f) R E"
proof (rule validI)
  fix s x t assume "P s" "m_bind m f s = (Inr x, t)"
  then show "R x t" using validD [OF assms(1)] validD [OF assms(2)]
    unfolding m_bind_Inr_iff by blast
next
  fix s e t assume s: "P s" "m_bind m f s = (Inl e, t)"
  obtain r u where m: "m s = (r, u)" by (cases "m s")
  show "E t"
  proof (cases r)
    case (Inl e')
    then show ?thesis using s m validE [OF assms(1)] m_bind_Inl [of m s e' u f] by simp
  next
    case (Inr x)
    then have "f x u = (Inl e, t)" using s(2) m m_bind_Inr [of m s x u f] by simp
    then show ?thesis using validE [OF assms(2)] validD [OF assms(1) s(1)] m Inr by blast
  qed
qed

lemma valid_seq: "valid P m (\<lambda>_. Q) E \<Longrightarrow> valid Q n R E \<Longrightarrow> valid P (m_seq m n) R E"
  unfolding m_seq_def by (rule valid_bind)

lemma valid_catch:
  assumes "valid P m Q E'" and "\<And>e. valid E' (h e) Q E"
  shows "valid P (m_catch m h) Q E"
  unfolding valid_def m_catch_def
proof (intro allI impI)
  fix s r t
  assume s: "P s" "(case m s of (Inl e, t) \<Rightarrow> h e t | (Inr x, t) \<Rightarrow> (Inr x, t)) = (r, t)"
  obtain q u where m: "m s = (q, u)" by (cases "m s")
  show "case r of Inr x \<Rightarrow> Q x t | Inl e \<Rightarrow> E t"
  proof (cases q)
    case (Inl e)
    then have "h e u = (r, t)" "E' u" using s m validE [OF assms(1)] by simp_all
    then show ?thesis using validD [OF assms(2)] validE [OF assms(2)] by (cases r) fastforce+
  next
    case (Inr x)
    then show ?thesis using s m validD [OF assms(1)] by auto
  qed
qed

lemma valid_if:
  "(b \<Longrightarrow> valid P m Q E) \<Longrightarrow> (\<not> b \<Longrightarrow> valid P n Q E) \<Longrightarrow> valid P (if b then m else n) Q E"
  by simp

section \<open>Dynamically typed values\<close>

text \<open>
  What \<open>yaml.safe_load\<close> and \<open>json.loads\<close> return. Dictionary keys are strings.
\<close>

datatype pyval =
    PNone
  | PBool bool
  | PInt int
  | PFloat real
  | PStr string
  | PList "pyval list"
  | PDict "(string \<times> pyval) list"

fun truthy :: "pyval \<Rightarrow> bool" where
  "truthy PNone = False"
| "truthy (PBool b) = b"
| "truthy (PInt n) = (n \<noteq> 0)"
| "truthy (PFloat x) = (x \<noteq> 0)"
| "truthy (PStr s) = (s \<noteq> [])"
| "truthy (PList xs) = (xs \<noteq> [])"
| "truthy (PDict kvs) = (kvs \<noteq> [])"

text \<open>\<open>a or b\<close>.\<close>

definition py_or :: "pyval \<Rightarrow> pyval \<Rightarrow> pyval" where
  "py_or a b = (if truthy a then a else b)"

text \<open>\<open>d.get(k, default)\<close>, defined on dictionaries only.\<close>

fun py_get :: "pyval \<Rightarrow> string \<Rightarrow> pyval \<Rightarrow> pyval res" where
  "py_get (PDict kvs) k dflt = Inr (case map_of kvs k of None \<Rightarrow> dflt | Some v \<Rightarrow> v)"
| "py_get _ k dflt = Inl (AttributeError ''get'')"

text \<open>\<open>d[k]\<close> with a string key.\<close>

fun py_item :: "pyval \<Rightarrow> string \<Rightarrow> pyval res" where
  "py_item (PDict kvs) k = (case map_of kvs k of None \<Rightarrow> Inl (KeyError k) | Some v \<Rightarrow> Inr v)"
| "py_item _ k = Inl (TypeError ''indices'')"

text \<open>Iteration: a dictionary yields its keys, a string its characters.\<close>

fun py_iter :: "pyval \<Rightarrow> pyval list res" where
  "py_iter (PList xs) = Inr xs"
| "py_iter (PDict kvs) = Inr (map (\<lambda>kv. PStr (fst kv)) kvs)"
| "py_iter (PStr s) = Inr (map (\<lambda>c. PStr [c]) s)"
| "py_iter _ = Inl (TypeError ''not iterable'')"

section \<open>Integers and floats\<close>

text \<open>\<open>int(x)\<close> on a float truncates towards zero.\<close>

definition py_trunc :: "real \<Rightarrow> int" where
  "py_trunc x = (if 0 \<le> x then \<lfloor>x\<rfloor> else \<lceil>x\<rceil>)"

lemma py_trunc_of_int [simp]: "py_trunc (of_int n) = n"
  by (simp add: py_trunc_def)

lemma py_trunc_bound: "\<bar>of_int (py_trunc x) - x\<bar> < 1"
  unfolding py_trunc_def by (auto simp: abs_if; linarith)

lemma py_trunc_mono: "x \<le> y \<Longrightarrow> py_trunc x \<le> py_trunc y"
proof -
  assume le: "x \<le> y"
  have "\<lceil>x\<rceil> \<le> \<lfloor>y\<rfloor>" if "x < 0" "0 \<le> y"
  proof -
    have "\<lceil>x\<rceil> \<le> 0" using that(1) by (simp add: ceiling_le_iff)
    also have "0 \<le> \<lfloor>y\<rfloor>" using that(2) by simp
    finally show ?thesis .
  qed
  with le show ?thesis
    by (auto simp: py_trunc_def floor_mono ceiling_mono)
qed

text \<open>\<open>round(x)\<close> rounds to the nearest integer, and a tie to the even one.\<close>

definition py_round :: "real \<Rightarrow> int" where
  "py_round x =
     (let n = \<lfloor>x\<rfloor>; d = x - of_int n
      in if d < 1/2 then n else if d > 1/2 then n + 1 else if even n then n else n + 1)"

lemma py_round_of_int [simp]: "py_round (of_int n) = n"
  by (simp add: py_round_def Let_def)

lemma py_round_bound: "\<bar>of_int (py_round x) - x\<bar> \<le> 1/2"
  unfolding py_round_def Let_def by (auto simp: abs_if; linarith)

section \<open>Lists\<close>

lemma sum_list_map_mult_const: "(\<Sum>x\<leftarrow>xs. c * f x) = c * (\<Sum>x\<leftarrow>xs. f x :: 'a :: comm_ring_1)"
  by (induction xs) (simp_all add: algebra_simps)

lemma sum_list_sq_nonneg: "0 \<le> (\<Sum>x\<leftarrow>xs. f x * f x :: 'a :: linordered_idom)"
  by (induction xs) simp_all

lemma map_of_map_fst_mem: "map_of kvs k = Some v \<Longrightarrow> k \<in> fst ` set kvs"
  by (force dest: map_of_SomeD)

end
