(* ===== verification/Running_Stats.thy ===== *)
theory Running_Stats imports Prelude begin

text \<open>
  \<open>RunningStats\<close> and \<open>rolling_stats\<close> of \<open>python/web_collector.py\<close>, and the class
  \<open>WeightedStats\<close> of the page it serves (the string \<open>WEB_HTML\<close>). Both classes are the same
  online algorithm, so its laws are a locale and its correctness is proved there once.
\<close>

section \<open>The server's accumulator\<close>

record running_stats =
  rs_count :: int
  rs_mean :: real
  rs_m2 :: real

definition rs_zero :: running_stats where
  "rs_zero = \<lparr>rs_count = 0, rs_mean = 0, rs_m2 = 0\<rparr>"

definition rs_reset :: "running_stats \<Rightarrow> running_stats" where
  "rs_reset s = s\<lparr>rs_count := 0, rs_mean := 0, rs_m2 := 0\<rparr>"

definition rs_add :: "real \<Rightarrow> int \<Rightarrow> running_stats \<Rightarrow> running_stats" where
  "rs_add value weight s =
     (if weight \<le> 0 then s
      else let weighted_count = rs_count s + weight;
               delta = value - rs_mean s;
               mean = rs_mean s + (delta * of_int weight) / of_int weighted_count;
               delta2 = value - mean
           in s\<lparr>rs_mean := mean,
                rs_m2 := rs_m2 s + delta * delta2 * of_int weight,
                rs_count := weighted_count\<rparr>)"

record stats_snapshot =
  sn_mean :: real
  sn_std :: real
  sn_mean_hz :: real
  sn_std_hz :: real
  sn_samples :: int
  sn_rate_hz :: real

definition rs_snapshot :: "running_stats \<Rightarrow> stats_snapshot" where
  "rs_snapshot s =
     (if rs_count s = 0
      then \<lparr>sn_mean = 0, sn_std = 0, sn_mean_hz = 0, sn_std_hz = 0, sn_samples = 0, sn_rate_hz = 0\<rparr>
      else let variance = rs_m2 s / of_int (rs_count s)
           in \<lparr>sn_mean = rs_mean s, sn_std = sqrt (max 0 variance),
               sn_mean_hz = rs_mean s, sn_std_hz = sqrt (max 0 variance),
               sn_samples = rs_count s, sn_rate_hz = rs_mean s\<rparr>)"

text \<open>A sequence of calls of \<open>add\<close> on a fresh object.\<close>

definition rs_run :: "(real \<times> int) list \<Rightarrow> running_stats" where
  "rs_run obs = foldl (\<lambda>s (v, w). rs_add v w s) rs_zero obs"

section \<open>The reference: statistics of the whole window\<close>

text \<open>\<open>np.mean\<close> and the population standard deviation \<open>np.std\<close>.\<close>

definition np_mean :: "real list \<Rightarrow> real" where
  "np_mean xs = sum_list xs / of_nat (length xs)"

definition np_std :: "real list \<Rightarrow> real" where
  "np_std xs = sqrt (np_mean (map (\<lambda>x. (x - np_mean xs)\<^sup>2) xs))"

record rolling =
  ro_mean :: real
  ro_std :: real
  ro_samples :: int

definition rolling_stats :: "real list \<Rightarrow> rolling" where
  "rolling_stats values =
     (if values = [] then \<lparr>ro_mean = 0, ro_std = 0, ro_samples = 0\<rparr>
      else \<lparr>ro_mean = np_mean values, ro_std = np_std values, ro_samples = int (length values)\<rparr>)"

section \<open>The page's accumulator\<close>

text \<open>
  A JavaScript number that came out of \<open>response.json()\<close> is finite; \<open>null\<close> and
  \<open>undefined\<close> are \<open>None\<close>, which \<open>Number.isFinite\<close> rejects.
\<close>

record weighted_stats =
  ws_count :: real
  ws_mean :: real
  ws_m2 :: real

definition ws_zero :: weighted_stats where
  "ws_zero = \<lparr>ws_count = 0, ws_mean = 0, ws_m2 = 0\<rparr>"

definition ws_reset :: "weighted_stats \<Rightarrow> weighted_stats" where
  "ws_reset s = s\<lparr>ws_count := 0, ws_mean := 0, ws_m2 := 0\<rparr>"

fun ws_add :: "real option \<Rightarrow> real option \<Rightarrow> weighted_stats \<Rightarrow> weighted_stats" where
  "ws_add (Some v) (Some w) s =
     (if w \<le> 0 then s
      else let weightedCount = ws_count s + w;
               delta = v - ws_mean s;
               mean = ws_mean s + (delta * w) / weightedCount;
               delta2 = v - mean
           in s\<lparr>ws_mean := mean, ws_m2 := ws_m2 s + delta * delta2 * w, ws_count := weightedCount\<rparr>)"
| "ws_add _ _ s = s"

record ws_view =
  wv_mean :: real
  wv_std :: real
  wv_samples :: real

definition ws_snapshot :: "weighted_stats \<Rightarrow> ws_view" where
  "ws_snapshot s =
     (if ws_count s \<le> 0 then \<lparr>wv_mean = 0, wv_std = 0, wv_samples = 0\<rparr>
      else \<lparr>wv_mean = ws_mean s, wv_std = sqrt (max 0 (ws_m2 s / ws_count s)),
            wv_samples = ws_count s\<rparr>)"

section \<open>The online algorithm\<close>

text \<open>Weighted sums of the observations that count, those with a positive weight.\<close>

definition wsum :: "(real \<Rightarrow> real) \<Rightarrow> (real \<times> real) list \<Rightarrow> real" where
  "wsum f ps = (\<Sum>(v, w) \<leftarrow> ps. if 0 < w then w * f v else 0)"

lemma wsum_simps [simp]:
  "wsum f [] = 0"
  "wsum f (ps @ [(v, w)]) = wsum f ps + (if 0 < w then w * f v else 0)"
  by (simp_all add: wsum_def)

lemma wsum_const_nonneg: "0 \<le> wsum (\<lambda>_. 1) ps"
  by (induction ps rule: rev_induct) auto

lemma wsum_square_expand:
  "wsum (\<lambda>v. (v - m)\<^sup>2) ps = wsum (\<lambda>v. v\<^sup>2) ps - 2 * m * wsum (\<lambda>v. v) ps + m\<^sup>2 * wsum (\<lambda>_. 1) ps"
  by (induction ps rule: rev_induct) (auto simp: algebra_simps power2_eq_square)

lemma wsum_square_nonneg: "0 \<le> wsum (\<lambda>v. (v - m)\<^sup>2) ps"
  by (induction ps rule: rev_induct) auto

locale online_stats =
  fixes zero :: 's
    and add :: "real \<Rightarrow> 'w \<Rightarrow> 's \<Rightarrow> 's"
    and wt :: "'w \<Rightarrow> real"
    and cnt :: "'s \<Rightarrow> real"
    and mean :: "'s \<Rightarrow> real"
    and m2 :: "'s \<Rightarrow> real"
  assumes zero_fields: "cnt zero = 0" "mean zero = 0" "m2 zero = 0"
    and add_skip: "wt w \<le> 0 \<Longrightarrow> add v w s = s"
    and add_cnt: "0 < wt w \<Longrightarrow> cnt (add v w s) = cnt s + wt w"
    and add_mean: "0 < wt w \<Longrightarrow>
          mean (add v w s) = mean s + ((v - mean s) * wt w) / (cnt s + wt w)"
    and add_m2: "0 < wt w \<Longrightarrow>
          m2 (add v w s) = m2 s + (v - mean s) * (v - mean (add v w s)) * wt w"
begin

definition run :: "(real \<times> 'w) list \<Rightarrow> 's" where
  "run obs = foldl (\<lambda>s (v, w). add v w s) zero obs"

definition weighted :: "(real \<times> 'w) list \<Rightarrow> (real \<times> real) list" where
  "weighted obs = map (\<lambda>(v, w). (v, wt w)) obs"

lemma run_snoc: "run (obs @ [(v, w)]) = add v w (run obs)"
  by (simp add: run_def)

lemma weighted_snoc: "weighted (obs @ [(v, w)]) = weighted obs @ [(v, wt w)]"
  by (simp add: weighted_def)

lemma run_sums:
  "cnt (run obs) = wsum (\<lambda>_. 1) (weighted obs) \<and>
   mean (run obs) * cnt (run obs) = wsum (\<lambda>v. v) (weighted obs) \<and>
   m2 (run obs) = wsum (\<lambda>v. v\<^sup>2) (weighted obs) - cnt (run obs) * (mean (run obs))\<^sup>2"
proof (induction obs rule: rev_induct)
  case Nil
  then show ?case by (simp add: run_def weighted_def zero_fields)
next
  case (snoc x obs)
  obtain v w where x: "x = (v, w)" by (cases x)
  let ?s = "run obs"
  define W where "W = cnt ?s"
  define m where "m = mean ?s"
  show ?case
  proof (cases "0 < wt w")
    case False
    with snoc.IH show ?thesis by (auto simp: x run_snoc weighted_snoc add_skip)
  next
    case True
    have W0: "0 \<le> W" using snoc wsum_const_nonneg by (simp add: W_def)
    with True have pos: "W + wt w \<noteq> 0" by simp
    define m' where "m' = mean (add v w ?s)"
    have m': "m' * (W + wt w) = m * W + v * wt w"
      using pos True by (simp add: m'_def add_mean W_def m_def field_simps)
    have "m2 (add v w ?s) = m2 ?s + (v - m) * (v - m') * wt w"
      using True by (simp add: add_m2 m_def m'_def)
    also have "\<dots> = wsum (\<lambda>v. v\<^sup>2) (weighted obs) - W * m\<^sup>2 + (v - m) * (v - m') * wt w"
      using snoc by (simp add: W_def m_def)
    also have "\<dots> = wsum (\<lambda>v. v\<^sup>2) (weighted obs) + wt w * v\<^sup>2
                   - m' * (m * W + v * wt w) + m * (m' * (W + wt w) - (m * W + v * wt w))"
      by (simp add: algebra_simps power2_eq_square)
    also have "\<dots> = wsum (\<lambda>v. v\<^sup>2) (weighted obs) + wt w * v\<^sup>2 - (W + wt w) * m'\<^sup>2"
      unfolding m' [symmetric] by (simp add: algebra_simps power2_eq_square)
    finally have m2': "m2 (add v w ?s) =
        wsum (\<lambda>v. v\<^sup>2) (weighted obs) + wt w * v\<^sup>2 - (W + wt w) * m'\<^sup>2" .
    show ?thesis
      using True snoc.IH m' m2'
      by (auto simp: x run_snoc weighted_snoc add_cnt W_def m_def m'_def mult.commute)
  qed
qed

text \<open>The accumulator holds the weighted mean and the weighted sum of squared deviations.\<close>

lemma run_m2: "m2 (run obs) = wsum (\<lambda>v. (v - mean (run obs))\<^sup>2) (weighted obs)"
  unfolding wsum_square_expand using run_sums [of obs]
  by (auto simp: power2_eq_square algebra_simps)

lemma run_mean:
  assumes "0 < wsum (\<lambda>_. 1) (weighted obs)"
  shows "mean (run obs) = wsum (\<lambda>v. v) (weighted obs) / wsum (\<lambda>_. 1) (weighted obs)"
  using run_sums [of obs] assms by (auto simp: eq_divide_eq)

lemma run_m2_nonneg: "0 \<le> m2 (run obs)"
  unfolding run_m2 by (rule wsum_square_nonneg)

end

interpretation py: online_stats rs_zero rs_add real_of_int "\<lambda>s. of_int (rs_count s)" rs_mean rs_m2
  by unfold_locales (simp_all add: rs_zero_def rs_add_def Let_def)

interpretation js: online_stats ws_zero "\<lambda>v w. ws_add (Some v) (Some w)" "\<lambda>w. w" ws_count ws_mean ws_m2
  by unfold_locales (simp_all add: ws_zero_def Let_def)

lemma rs_run_eq: "rs_run = py.run"
  by (simp add: rs_run_def py.run_def fun_eq_iff)

section \<open>Correctness of the summaries\<close>

text \<open>The observations with positive weights, each counted as often as its weight says.\<close>

definition expand :: "(real \<times> int) list \<Rightarrow> real list" where
  "expand obs = concat (map (\<lambda>(v, w). replicate (nat w) v) obs)"

lemma wsum_expand:
  "wsum f (py.weighted obs) = sum_list (map f (expand obs))"
proof (induction obs rule: rev_induct)
  case Nil
  then show ?case by (simp add: py.weighted_def expand_def)
next
  case (snoc x obs)
  obtain v w where x: "x = (v, w)" by (cases x)
  from snoc show ?case
    by (simp add: x py.weighted_snoc expand_def sum_list_replicate map_replicate_const)
qed

lemma wsum_one_expand: "wsum (\<lambda>_. 1) (py.weighted obs) = real (length (expand obs))"
  by (simp add: wsum_expand sum_list_triv)

lemma expand_unit: "expand (map (\<lambda>x. (x, 1)) xs) = xs"
  by (induction xs) (simp_all add: expand_def)

lemma rs_count_run: "rs_count (rs_run obs) = int (length (expand obs))"
proof -
  have "real_of_int (rs_count (rs_run obs)) = real (length (expand obs))"
    using py.run_sums [of obs] by (simp add: rs_run_eq wsum_one_expand)
  then show ?thesis by linarith
qed

text \<open>
  C1. After any sequence of \<open>add\<close> calls on a fresh \<open>RunningStats\<close>, \<open>snapshot()\<close> reports
  the number of samples, the mean and the population standard deviation that
  \<open>rolling_stats\<close> computes from the whole window in which every value is repeated as often
  as its weight (observations with a weight of zero or less do not count).
\<close>

theorem rs_snapshot_is_window_statistics:
  "rs_snapshot (rs_run obs) =
     (let r = rolling_stats (expand obs)
      in \<lparr>sn_mean = ro_mean r, sn_std = ro_std r, sn_mean_hz = ro_mean r, sn_std_hz = ro_std r,
          sn_samples = ro_samples r, sn_rate_hz = ro_mean r\<rparr>)"
proof (cases "expand obs = []")
  case True
  then show ?thesis by (simp add: rs_snapshot_def rs_count_run rolling_stats_def)
next
  case False
  let ?xs = "expand obs"
  have pos: "0 < wsum (\<lambda>_. 1) (py.weighted obs)"
    using False by (simp add: wsum_one_expand)
  have mean: "rs_mean (rs_run obs) = np_mean ?xs"
    using py.run_mean [OF pos] by (simp add: rs_run_eq wsum_expand sum_list_triv np_mean_def)
  have m2: "rs_m2 (rs_run obs) = sum_list (map (\<lambda>x. (x - np_mean ?xs)\<^sup>2) ?xs)"
    using py.run_m2 [of obs] mean by (simp add: rs_run_eq wsum_expand)
  have "0 \<le> rs_m2 (rs_run obs) / real (length ?xs)"
    using py.run_m2_nonneg [of obs] by (simp add: rs_run_eq)
  with False mean m2 show ?thesis
    by (simp add: rs_snapshot_def rs_count_run rolling_stats_def Let_def np_std_def np_mean_def max_def)
qed

text \<open>
  The page's accumulator and the server's agree: fed with the same observations they hold
  the same moments.
\<close>

definition same_moments :: "running_stats \<Rightarrow> weighted_stats \<Rightarrow> bool" where
  "same_moments s t \<longleftrightarrow>
     of_int (rs_count s) = ws_count t \<and> rs_mean s = ws_mean t \<and> rs_m2 s = ws_m2 t"

lemma same_moments_zero: "same_moments rs_zero ws_zero"
  by (simp add: same_moments_def rs_zero_def ws_zero_def)

lemma same_moments_reset: "same_moments (rs_reset s) (ws_reset t)"
  by (simp add: same_moments_def rs_reset_def ws_reset_def)

lemma same_moments_add:
  "same_moments s t \<Longrightarrow>
   same_moments (rs_add v w s) (ws_add (Some v) (Some (of_int w)) t)"
  by (auto simp: same_moments_def rs_add_def Let_def)

lemma same_moments_snapshot:
  "same_moments s t \<Longrightarrow> 0 \<le> rs_count s \<Longrightarrow>
   ws_snapshot t = \<lparr>wv_mean = sn_mean (rs_snapshot s), wv_std = sn_std (rs_snapshot s),
                    wv_samples = of_int (sn_samples (rs_snapshot s))\<rparr>"
  by (auto simp: same_moments_def ws_snapshot_def rs_snapshot_def Let_def)

end
