(* ===== verification/Log_Path.thy ===== *)
theory Log_Path imports Py_Strings begin

text \<open>
  \<open>next_log_path\<close> of \<open>python/web_collector.py\<close>: the name of the next log file of the day.
  A directory is its list of entries with the answer of \<open>is_file()\<close>, \<open>None\<close> when the path
  is no directory.
\<close>

section \<open>The file name pattern\<close>

type_synonym dir_listing = "(string \<times> bool) list option"

text \<open>\<open>today.strftime("%Y-%m-%d")\<close>.\<close>

definition date_prefix :: "nat \<Rightarrow> nat \<Rightarrow> nat \<Rightarrow> string" where
  "date_prefix y m d = nat_str y @ ''-'' @ zpad 2 (nat_str m) @ ''-'' @ zpad 2 (nat_str d)"

definition date_shape :: "string \<Rightarrow> bool" where
  "date_shape s \<longleftrightarrow>
     length s = 10 \<and> list_all is_digit (take 4 s) \<and> s ! 4 = CHR ''-'' \<and>
     list_all is_digit (take 2 (drop 5 s)) \<and> s ! 7 = CHR ''-'' \<and> list_all is_digit (drop 8 s)"

text \<open>
  The regular expression \<open>^(?P<date>\d{4}-\d{2}-\d{2})-(?P<counter>\d{3,})\.mcap$\<close> under
  \<open>re.match\<close>: the date and counter groups. The counter takes every digit that follows (what
  comes next is a dot, so giving digits back never helps), and \<open>$\<close> also matches before a
  final newline.
\<close>

definition match_log_name :: "string \<Rightarrow> (string \<times> string) option" where
  "match_log_name s =
     (let date = take 10 s;
          rest = drop 11 s;
          counter = takeWhile is_digit rest;
          tail = dropWhile is_digit rest
      in if date_shape date \<and> 10 < length s \<and> s ! 10 = CHR ''-'' \<and> 3 \<le> length counter \<and>
            (tail = ''.mcap'' \<or> tail = ''.mcap'' @ [CHR 0x0A])
         then Some (date, counter) else None)"

section \<open>The next path\<close>

definition max_counter :: "(string \<times> bool) list \<Rightarrow> string \<Rightarrow> int" where
  "max_counter entries today =
     foldl (\<lambda>maximum_counter (name, is_file).
              if \<not> is_file then maximum_counter
              else case match_log_name name of
                     None \<Rightarrow> maximum_counter
                   | Some (date, counter) \<Rightarrow>
                       if date \<noteq> today then maximum_counter
                       else max maximum_counter (int (parse_digits counter)))
           (-1) entries"

definition log_name :: "string \<Rightarrow> nat \<Rightarrow> string" where
  "log_name today n = today @ ''-'' @ zpad 3 (nat_str n) @ ''.mcap''"

definition next_log_name :: "dir_listing \<Rightarrow> string \<Rightarrow> string" where
  "next_log_name listing today =
     (let maximum_counter = (case listing of None \<Rightarrow> -1 | Some entries \<Rightarrow> max_counter entries today)
      in log_name today (nat (maximum_counter + 1)))"

definition next_log_path :: "string \<Rightarrow> dir_listing \<Rightarrow> string \<Rightarrow> string" where
  "next_log_path log_dir listing today = path_join log_dir (next_log_name listing today)"

section \<open>Which names the pattern takes\<close>

lemma date_prefix_shape:
  assumes "1000 \<le> y" "y < 10000" "m < 100" "d < 100"
  shows "date_shape (date_prefix y m d)"
proof -
  have three: "y div 10 div 10 div 10 < 10" "\<not> y < 10" "\<not> y div 10 < 10" "\<not> y div 10 div 10 < 10"
    using assms by auto
  have y: "nat_str y = [digit_char (y div 10 div 10 div 10), digit_char (y div 10 div 10 mod 10),
      digit_char (y div 10 mod 10), digit_char (y mod 10)]"
    using three by (simp add: nat_str.simps [of y] nat_str.simps [of "y div 10"]
        nat_str.simps [of "y div 10 div 10"] nat_str.simps [of "y div 10 div 10 div 10"])
  have two: "length (zpad 2 (nat_str k)) = 2 \<and> list_all is_digit (zpad 2 (nat_str k))"
    if "k < 100" for k
    using length_nat_str_le [of k 2] that
    by (auto simp: length_zpad intro!: zpad_digits nat_str_digits)
  obtain a b where m: "zpad 2 (nat_str m) = [a, b]" and ab: "is_digit a" "is_digit b"
    using two [OF assms(3)] by (auto simp: length_Suc_conv numeral_2_eq_2)
  obtain a' b' where d: "zpad 2 (nat_str d) = [a', b']" and ab': "is_digit a'" "is_digit b'"
    using two [OF assms(4)] by (auto simp: length_Suc_conv numeral_2_eq_2)
  show ?thesis
    using ab ab' three(1) by (simp add: date_prefix_def y m d date_shape_def)
qed

lemma log_name_matches:
  assumes "date_shape today"
  shows "match_log_name (log_name today n) = Some (today, zpad 3 (nat_str n))"
proof -
  have len: "length today = 10" using assms by (simp add: date_shape_def)
  let ?c = "zpad 3 (nat_str n)"
  have digits: "list_all is_digit ?c" by (intro zpad_digits nat_str_digits)
  have split: "takeWhile is_digit (?c @ ''.mcap'') = ?c" "dropWhile is_digit (?c @ ''.mcap'') = ''.mcap''"
    using takeWhile_digits_append [OF digits, of "CHR ''.''" "''mcap''"]
    by (simp_all add: is_digit_def)
  have "3 \<le> length ?c" by (simp add: length_zpad)
  then show ?thesis
    using assms len split
    by (simp add: match_log_name_def log_name_def Let_def nth_append)
qed

text \<open>The counters of the day's log files among the entries.\<close>

definition day_counters :: "(string \<times> bool) list \<Rightarrow> string \<Rightarrow> nat set" where
  "day_counters entries today =
     {parse_digits c | name c. (name, True) \<in> set entries \<and> match_log_name name = Some (today, c)}"

lemma day_counters_snoc:
  "day_counters (entries @ [(name, f)]) today =
     day_counters entries today \<union>
     (if f then (case match_log_name name of
                   Some (date, c) \<Rightarrow> if date = today then {parse_digits c} else {}
                 | None \<Rightarrow> {}) else {})"
  by (auto simp: day_counters_def split: option.splits)

lemma finite_day_counters: "finite (day_counters entries today)"
proof -
  have "day_counters entries today \<subseteq>
      (\<lambda>(name, f). case match_log_name name of Some (d, c) \<Rightarrow> parse_digits c | None \<Rightarrow> 0) ` set entries"
    by (force simp: day_counters_def)
  then show ?thesis by (rule finite_subset) simp
qed

lemma max_counter_eq:
  "max_counter entries today =
     (if day_counters entries today = {} then -1 else int (Max (day_counters entries today)))"
proof (induction entries rule: rev_induct)
  case Nil
  then show ?case by (simp add: max_counter_def day_counters_def)
next
  case (snoc e entries)
  obtain name f where e: "e = (name, f)" by (cases e)
  let ?D = "day_counters entries today"
  have step: "max_counter (entries @ [(name, f)]) today =
      (if \<not> f then max_counter entries today
       else case match_log_name name of None \<Rightarrow> max_counter entries today
          | Some (date, c) \<Rightarrow> if date \<noteq> today then max_counter entries today
                             else max (max_counter entries today) (int (parse_digits c)))"
    by (simp add: max_counter_def split: option.split)
  show ?case
  proof (cases "f \<and> (\<exists>c. match_log_name name = Some (today, c))")
    case True
    then obtain c where c: "match_log_name name = Some (today, c)" and "f" by blast
    then have "max_counter (entries @ [e]) today =
        max (max_counter entries today) (int (parse_digits c))"
      using step by (simp add: e)
    moreover have "day_counters (entries @ [e]) today = insert (parse_digits c) ?D"
      using c \<open>f\<close> by (simp add: e day_counters_snoc)
    moreover have "Max (insert (parse_digits c) ?D) = max (parse_digits c) (Max ?D)" if "?D \<noteq> {}"
      using that finite_day_counters by (rule Max_insert [rotated])
    ultimately show ?thesis
      using snoc.IH by (cases "?D = {}") (simp_all add: of_nat_max max.commute)
  next
    case False
    then show ?thesis
      using snoc.IH by (auto simp: e step day_counters_snoc split: option.splits)
  qed
qed

section \<open>The path is new, and the next one after the largest\<close>



lemma next_log_path_distinct:
  assumes "date_shape today" and "(name, True) \<in> set entries"
  shows "next_log_path d (Some entries) today \<noteq> path_join d name"
proof
  assume "next_log_path d (Some entries) today = path_join d name"
  then have "next_log_name (Some entries) today = name"
    by (auto simp: next_log_path_def dest: path_join_inj)
  moreover have "(log_name today n, True) \<notin> set entries \<or> n \<in> day_counters entries today" for n
    using log_name_matches [OF assms(1), of n] by (force simp: day_counters_def)
  ultimately show False
    using assms(2) Max_ge [OF finite_day_counters, of _ entries today]
    by (fastforce simp: next_log_name_def max_counter_eq nat_add_distrib split: if_splits)
qed

end
