(* ===== verification/Byte_Codec.thy ===== *)
theory Byte_Codec imports Prelude begin

text \<open>
  Little-endian fields, C structure layout and strict UTF-8 decoding: what \<open>ctypes\<close>, \<open>numpy\<close>
  structured arrays and \<open>bytes.decode\<close> do to the bytes the sources read and write.
\<close>

type_synonym byte = "8 word"
type_synonym u32 = "32 word"
type_synonym u64 = "64 word"

lemma unat_byte_bound [simp]: "unat (b :: byte) < 256"
proof -
  have "unat b < 2 ^ LENGTH(8)" by (rule unsigned_less)
  then show ?thesis by simp
qed

lemma unat_byte_small: "n < 256 \<Longrightarrow> unat (word_of_nat n :: byte) = n"
  by (simp add: unat_of_nat)

section \<open>Little-endian numbers\<close>

fun le_nat :: "byte list \<Rightarrow> nat" where
  "le_nat [] = 0"
| "le_nat (b # bs) = unat b + 256 * le_nat bs"

fun le_bytes :: "nat \<Rightarrow> nat \<Rightarrow> byte list" where
  "le_bytes 0 v = []"
| "le_bytes (Suc k) v = word_of_nat v # le_bytes k (v div 256)"

lemma length_le_bytes [simp]: "length (le_bytes k v) = k"
  by (induction k arbitrary: v) simp_all

lemma le_nat_le_bytes: "le_nat (le_bytes k v) = v mod 256 ^ k"
proof (induction k arbitrary: v)
  case 0
  then show ?case by simp
next
  case (Suc k)
  have "le_nat (le_bytes (Suc k) v) = v mod 256 + 256 * ((v div 256) mod 256 ^ k)"
    by (simp add: Suc unat_of_nat take_bit_eq_mod)
  also have "\<dots> = v mod 256 ^ Suc k"
    by (simp add: mod_mult2_eq)
  finally show ?case .
qed

lemma le_nat_le_bytes_id: "v < 256 ^ k \<Longrightarrow> le_nat (le_bytes k v) = v"
  by (simp add: le_nat_le_bytes)

lemma le_nat_bound: "le_nat bs < 256 ^ length bs"
proof (induction bs)
  case Nil
  then show ?case by simp
next
  case (Cons b bs)
  have "unat b + 256 * le_nat bs < 256 * (le_nat bs + 1)"
    using unat_byte_bound [of b] by (simp del: unat_byte_bound)
  also have "le_nat bs + 1 \<le> 256 ^ length bs" using Cons by simp
  then have "256 * (le_nat bs + 1) \<le> 256 * 256 ^ length bs" by (rule mult_le_mono2)
  finally show ?case by simp
qed

lemma le_bytes_le_nat: "le_bytes (length bs) (le_nat bs) = bs"
proof (induction bs)
  case Nil
  then show ?case by simp
next
  case (Cons b bs)
  have b: "unat b < 256" by simp
  have "(unat b + 256 * le_nat bs) div 256 = le_nat bs" using b by simp
  moreover have "word_of_nat (unat b + 256 * le_nat bs) = b"
    by (rule word_unat_eq_iff [THEN iffD2])
       (use b in \<open>simp add: unat_of_nat take_bit_eq_mod del: of_nat_add\<close>)
  ultimately show ?case using Cons by simp
qed

section \<open>Structure layout\<close>

text \<open>
  \<open>ctypes\<close> places each field at the next multiple of its alignment and rounds the size up to
  the largest alignment. A field is its size and alignment.
\<close>

definition align_up :: "nat \<Rightarrow> nat \<Rightarrow> nat" where
  "align_up n a = (if n mod a = 0 then n else n + (a - n mod a))"

fun field_offsets :: "nat \<Rightarrow> (nat \<times> nat) list \<Rightarrow> nat list" where
  "field_offsets n [] = []"
| "field_offsets n ((sz, al) # fs) = align_up n al # field_offsets (align_up n al + sz) fs"

fun fields_end :: "nat \<Rightarrow> (nat \<times> nat) list \<Rightarrow> nat" where
  "fields_end n [] = n"
| "fields_end n ((sz, al) # fs) = fields_end (align_up n al + sz) fs"

definition c_sizeof :: "(nat \<times> nat) list \<Rightarrow> nat" where
  "c_sizeof fs = align_up (fields_end 0 fs) (foldl max 1 (map snd fs))"

definition c_offset :: "(nat \<times> nat) list \<Rightarrow> nat \<Rightarrow> nat" where
  "c_offset fs i = field_offsets 0 fs ! i"

section \<open>Strict UTF-8\<close>

definition cont_byte :: "nat \<Rightarrow> bool" where
  "cont_byte b \<longleftrightarrow> 0x80 \<le> b \<and> b < 0xC0"

text \<open>
  \<open>raw.decode("utf-8")\<close>: the code points, or \<open>None\<close> (\<open>UnicodeDecodeError\<close>) on truncated,
  overlong, surrogate or out-of-range sequences.
\<close>

fun utf8_decode :: "nat list \<Rightarrow> nat list option" where
  "utf8_decode [] = Some []"
| "utf8_decode (a # bs) =
     (if a < 0x80 then map_option ((#) a) (utf8_decode bs)
      else if 0xC2 \<le> a \<and> a < 0xE0 then
        (case bs of b # r \<Rightarrow>
           if cont_byte b then map_option ((#) ((a - 0xC0) * 64 + (b - 0x80))) (utf8_decode r) else None
         | _ \<Rightarrow> None)
      else if 0xE0 \<le> a \<and> a < 0xF0 then
        (case bs of b # c # r \<Rightarrow>
           (let v = (a - 0xE0) * 4096 + (b - 0x80) * 64 + (c - 0x80)
            in if cont_byte b \<and> cont_byte c \<and> 0x800 \<le> v \<and> \<not> (0xD800 \<le> v \<and> v < 0xE000)
               then map_option ((#) v) (utf8_decode r) else None)
         | _ \<Rightarrow> None)
      else if 0xF0 \<le> a \<and> a < 0xF5 then
        (case bs of b # c # d # r \<Rightarrow>
           (let v = (a - 0xF0) * 262144 + (b - 0x80) * 4096 + (c - 0x80) * 64 + (d - 0x80)
            in if cont_byte b \<and> cont_byte c \<and> cont_byte d \<and> 0x10000 \<le> v \<and> v < 0x110000
               then map_option ((#) v) (utf8_decode r) else None)
         | _ \<Rightarrow> None)
      else None)"

lemma utf8_decode_ascii: "\<forall>a \<in> set bs. a < 0x80 \<Longrightarrow> utf8_decode bs = Some bs"
  by (induction bs) simp_all

text \<open>\<open>s.encode("utf-8")\<close> for code points below 256.\<close>

definition utf8_encode :: "string \<Rightarrow> byte list" where
  "utf8_encode s =
     concat (map (\<lambda>c. let n = of_char c :: nat
                      in if n < 0x80 then [word_of_nat n]
                         else [word_of_nat (0xC0 + n div 64), word_of_nat (0x80 + n mod 64)]) s)"

lemma utf8_encode_Nil [simp]: "utf8_encode [] = []"
  by (simp add: utf8_encode_def)

lemma utf8_encode_Cons:
  "utf8_encode (c # s) =
     (if (of_char c :: nat) < 0x80 then [word_of_nat (of_char c)]
      else [word_of_nat (0xC0 + of_char c div 64), word_of_nat (0x80 + of_char c mod 64)]) @
     utf8_encode s"
  by (simp add: utf8_encode_def Let_def)

lemma utf8_encode_append: "utf8_encode (s @ t) = utf8_encode s @ utf8_encode t"
  by (simp add: utf8_encode_def)

lemma utf8_roundtrip: "utf8_decode (map unat (utf8_encode s)) = Some (map of_char s)"
proof (induction s)
  case Nil
  then show ?case by simp
next
  case (Cons c s)
  let ?n = "of_char c :: nat"
  have n: "?n < 256" by (rule nat_of_char_less_256)
  show ?case
  proof (cases "?n < 0x80")
    case True
    with Cons show ?thesis
      by (simp add: utf8_encode_Cons unat_byte_small)
  next
    case False
    have div: "2 \<le> ?n div 64" "?n div 64 < 4" "?n mod 64 < 64"
      using False n by (auto simp: less_mult_imp_div_less)
    have comb: "(?n div 64) * 64 + ?n mod 64 = ?n" by simp
    have bytes: "unat (word_of_nat (0xC0 + ?n div 64) :: byte) = 0xC0 + ?n div 64"
      "unat (word_of_nat (0x80 + ?n mod 64) :: byte) = 0x80 + ?n mod 64"
      using div by (simp_all only: unat_byte_small)
    from False div Cons show ?thesis
      by (simp add: utf8_encode_Cons bytes cont_byte_def comb del: of_nat_add)
  qed
qed

end
