(* ===== verification/Shm_Probe.thy ===== *)
theory Shm_Probe imports Byte_Codec begin

text \<open>
  The shared-memory probe of \<open>python/web_collector.py\<close>: the \<open>ctypes\<close> headers of the
  dictionary file that the C++ process publishes, and \<open>_SharedMemoryProbe\<close>, which decides
  from the bytes of that file whether every expected buffer is there. The image the
  repository's own test writes is the encoder the probe is checked against.
\<close>

section \<open>The headers\<close>

definition data_frame_header_fields :: "(nat \<times> nat) list" where
  "data_frame_header_fields = [(8, 8), (4, 4), (4, 4)]"

definition buffer_header_fields :: "(nat \<times> nat) list" where
  "buffer_header_fields = [(4, 4), (4, 4), (32, 1), (4, 4), (4, 4), (8, 8)]"

text \<open>The array \<open>buffers\<close> of length zero only contributes its alignment.\<close>

definition layout_header_fields :: "(nat \<times> nat) list" where
  "layout_header_fields = [(1, 1), (7, 1), (0, 8)]"

definition buffer_header_size :: nat where
  "buffer_header_size = c_sizeof buffer_header_fields"

definition data_frame_offset :: nat where
  "data_frame_offset = c_sizeof data_frame_header_fields"

definition layout_buffers_offset :: nat where
  "layout_buffers_offset = c_offset layout_header_fields 2"

lemma shm_sizes [simp]:
  "buffer_header_size = 56" "data_frame_offset = 16" "layout_buffers_offset = 8"
  "c_sizeof layout_header_fields = 8"
  by code_simp+

record buffer_header =
  bh_head :: u32
  bh_sequence :: u32
  bh_name :: "byte list"
  bh_num_frames :: u32
  bh_size_per_frame :: u32
  bh_offset :: u64

text \<open>
  \<open>from_buffer_copy\<close> raises \<open>ValueError\<close> on a short buffer. Reading the field \<open>name\<close> of
  type \<open>c_char * 32\<close> yields the bytes before the first zero.
\<close>

definition buffer_header_from :: "byte list \<Rightarrow> buffer_header res" where
  "buffer_header_from bs =
     (let field = (\<lambda>i n. take n (drop (c_offset buffer_header_fields i) bs))
      in if length bs < buffer_header_size then Inl (ValueError ''Buffer size too small'')
         else Inr \<lparr>bh_head = word_of_nat (le_nat (field 0 4)),
                   bh_sequence = word_of_nat (le_nat (field 1 4)),
                   bh_name = takeWhile (\<lambda>b. b \<noteq> 0) (field 2 32),
                   bh_num_frames = word_of_nat (le_nat (field 3 4)),
                   bh_size_per_frame = word_of_nat (le_nat (field 4 4)),
                   bh_offset = word_of_nat (le_nat (field 5 8))\<rparr>)"

definition buffer_block_size :: "nat \<Rightarrow> nat \<Rightarrow> nat" where
  "buffer_block_size num_frames size_per_frame =
     buffer_header_size + num_frames * (data_frame_offset + size_per_frame)"

definition shared_memory_name :: "buffer_header \<Rightarrow> nat list res" where
  "shared_memory_name header =
     (case utf8_decode (map unat (takeWhile (\<lambda>b. b \<noteq> 0) (bh_name header))) of
        None \<Rightarrow> Inl (ValueError ''utf-8'')
      | Some codepoints \<Rightarrow> Inr codepoints)"

section \<open>The probe\<close>

fun match_buffers :: "byte list \<Rightarrow> nat \<Rightarrow> string list \<Rightarrow> bool res" where
  "match_buffers mem offset [] = Inr True"
| "match_buffers mem offset (expected # names) =
     (if offset + buffer_header_size > length mem then Inr False
      else res_bind (buffer_header_from (take buffer_header_size (drop offset mem))) (\<lambda>header.
           res_bind (shared_memory_name header) (\<lambda>name.
           if name \<noteq> map of_char expected then Inr False
           else match_buffers mem
                  (offset + buffer_block_size (unat (bh_num_frames header))
                                              (unat (bh_size_per_frame header)))
                  names)))"

definition matches_layout :: "string list \<Rightarrow> byte list \<Rightarrow> bool res" where
  "matches_layout expected_names mem =
     (if length mem < layout_buffers_offset then Inr False
      else if unat (hd mem) \<noteq> length expected_names then Inr False
      else match_buffers mem layout_buffers_offset expected_names)"

text \<open>
  What opening and mapping the file finds: no file, an operating-system error, or its bytes.
  Mapping an empty file raises \<open>ValueError\<close>.
\<close>

datatype shm_file = ShmMissing | ShmError py_error | ShmBytes "byte list"

definition probe_ready :: "string list \<Rightarrow> shm_file \<Rightarrow> bool res" where
  "probe_ready expected_names file =
     (case file of
        ShmMissing \<Rightarrow> Inr False
      | _ \<Rightarrow>
        (case (case file of
                 ShmBytes mem \<Rightarrow>
                   if mem = [] then Inl (ValueError ''cannot mmap an empty file'')
                   else matches_layout expected_names mem
               | ShmError e \<Rightarrow> Inl e
               | ShmMissing \<Rightarrow> Inr False) of
           Inr ready \<Rightarrow> Inr ready
         | Inl e \<Rightarrow> if is_os_error e \<or> is_value_error e then Inr False else Inl e))"

section \<open>No file content makes the probe raise\<close>

lemma buffer_header_from_slice:
  "offset + 56 \<le> length mem \<Longrightarrow> \<exists>h. buffer_header_from (take 56 (drop offset mem)) = Inr h"
  by (simp add: buffer_header_from_def Let_def)

lemma match_buffers_errors:
  "match_buffers mem offset names = Inl e \<Longrightarrow> is_value_error e"
proof (induction names arbitrary: offset)
  case Nil
  then show ?case by simp
next
  case (Cons n ns)
  from Cons.prems obtain h :: buffer_header where
      h: "buffer_header_from (take 56 (drop offset mem)) = Inr h"
    using buffer_header_from_slice [of offset mem] by (auto split: if_splits)
  show ?case
  proof (cases "shared_memory_name h")
    case (Inl e')
    with Cons.prems h show ?thesis
      by (auto simp: shared_memory_name_def split: if_splits option.splits)
  next
    case (Inr name)
    with Cons h show ?thesis by (auto split: if_splits)
  qed
qed

lemma matches_layout_errors: "matches_layout names mem = Inl e \<Longrightarrow> is_value_error e"
  by (auto simp: matches_layout_def split: if_splits dest: match_buffers_errors)

lemma probe_ready_total: "\<exists>ready. probe_ready names (ShmBytes mem) = Inr ready"
  by (cases "matches_layout names mem")
     (auto simp: probe_ready_def dest: matches_layout_errors)

text \<open>Each matched buffer took at least its header.\<close>

lemma match_buffers_True:
  "match_buffers mem offset names = Inr True \<Longrightarrow> names = [] \<or> offset + 56 * length names \<le> length mem"
proof (induction names arbitrary: offset)
  case Nil
  then show ?case by simp
next
  case (Cons n ns)
  from Cons.prems have fits: "offset + 56 \<le> length mem" by (auto split: if_splits)
  from Cons.prems obtain h :: buffer_header where
      h: "match_buffers mem (offset + buffer_block_size (unat (bh_num_frames h))
         (unat (bh_size_per_frame h))) ns = Inr True"
    by (auto simp: res_bind_Inr_iff split: if_splits)
  with Cons.IH [OF h] fits show ?case by (auto simp: buffer_block_size_def)
qed

section \<open>The image the C++ side publishes\<close>

text \<open>A buffer: its name, its number of frames and their size, and the bytes of the frames.\<close>

record shm_buffer =
  sb_name :: string
  sb_frames :: nat
  sb_size :: nat
  sb_data :: "byte list"

definition wf_buffer :: "shm_buffer \<Rightarrow> bool" where
  "wf_buffer b \<longleftrightarrow>
     length (utf8_encode (sb_name b)) < 32 \<and> CHR 0x00 \<notin> set (sb_name b) \<and>
     sb_frames b < 2 ^ 32 \<and> sb_size b < 2 ^ 32 \<and>
     length (sb_data b) = sb_frames b * (data_frame_offset + sb_size b)"

text \<open>\<open>struct.pack_into("<II32sIIQ", image, offset, 0, 0, packed_name, frames, size, offset)\<close>.\<close>

definition pack_buffer_header :: "nat \<Rightarrow> shm_buffer \<Rightarrow> byte list" where
  "pack_buffer_header offset b =
     (let name_bytes = take 31 (utf8_encode (sb_name b))
      in le_bytes 4 0 @ le_bytes 4 0 @ name_bytes @ replicate (32 - length name_bytes) 0 @
         le_bytes 4 (sb_frames b) @ le_bytes 4 (sb_size b) @ le_bytes 8 offset)"

fun pack_buffers :: "nat \<Rightarrow> shm_buffer list \<Rightarrow> byte list" where
  "pack_buffers offset [] = []"
| "pack_buffers offset (b # bs) =
     pack_buffer_header offset b @ sb_data b @
     pack_buffers (offset + buffer_block_size (sb_frames b) (sb_size b)) bs"

definition shm_image :: "shm_buffer list \<Rightarrow> byte list \<Rightarrow> byte list" where
  "shm_image bufs rest =
     word_of_nat (length bufs) # replicate 7 0 @ pack_buffers layout_buffers_offset bufs @ rest"

lemma of_char_zero: "(of_char c :: nat) = 0 \<Longrightarrow> c = CHR 0x00"
  using char_of_char [of c, where 'a = nat] by (simp add: char_of_def)

lemma byte_nonzero: "0 < n \<Longrightarrow> n < 256 \<Longrightarrow> (0 :: byte) \<noteq> word_of_nat n"
  by (metis less_numeral_extra(3) unat_byte_small unsigned_0)

lemma utf8_encode_no_zero: "CHR 0x00 \<notin> set s \<Longrightarrow> 0 \<notin> set (utf8_encode s)"
proof (induction s)
  case Nil
  then show ?case by simp
next
  case (Cons c s)
  let ?n = "of_char c :: nat"
  have pos: "0 < ?n" using Cons.prems of_char_zero by fastforce
  have "?n div 64 < 4" "?n mod 64 < 64" by (simp_all add: less_mult_imp_div_less)
  then have two: "0xC0 + ?n div 64 < 256" "0x80 + ?n mod 64 < 256" "?n < 256" by simp_all
  from Cons pos two show ?case
    by (auto simp: utf8_encode_Cons byte_nonzero simp del: of_nat_add)
qed

lemma header_offsets [simp]:
  "c_offset buffer_header_fields 0 = 0" "c_offset buffer_header_fields (Suc 0) = 4"
  "c_offset buffer_header_fields 2 = 8" "c_offset buffer_header_fields 3 = 40"
  "c_offset buffer_header_fields 4 = 44" "c_offset buffer_header_fields 5 = 48"
  by code_simp+

lemma takeWhile_nonzero: "0 \<notin> set bs \<Longrightarrow> takeWhile (\<lambda>b. b \<noteq> 0) (bs @ replicate k (0 :: byte)) = bs"
  by (induction bs) (cases k; simp)+

lemma length_pack_buffer_header [simp]:
  "length (pack_buffer_header offset b) = 56"
  by (simp add: pack_buffer_header_def Let_def)

lemma parse_pack_buffer_header:
  assumes "wf_buffer b"
  shows "\<exists>h. buffer_header_from (pack_buffer_header offset b) = Inr h \<and>
             shared_memory_name h = Inr (map of_char (sb_name b)) \<and>
             unat (bh_num_frames h) = sb_frames b \<and> unat (bh_size_per_frame h) = sb_size b"
proof -
  let ?n = "utf8_encode (sb_name b)"
  let ?pad = "replicate (32 - length ?n) (0 :: byte)"
  let ?h = "pack_buffer_header offset b"
  have len: "length ?n < 32" and nz: "0 \<notin> set ?n"
    using assms by (auto simp: wf_buffer_def intro!: utf8_encode_no_zero)
  have h: "?h = (le_bytes 4 0 @ le_bytes 4 0) @ (?n @ ?pad) @ le_bytes 4 (sb_frames b) @
      le_bytes 4 (sb_size b) @ le_bytes 8 offset"
    using len by (simp add: pack_buffer_header_def Let_def)
  have name: "take 32 (drop 8 ?h) = ?n @ ?pad"
    using len by (simp add: h)
  have frames: "take 4 (drop 40 ?h) = le_bytes 4 (sb_frames b)"
    using len by (simp add: h)
  have size: "take 4 (drop 44 ?h) = le_bytes 4 (sb_size b)"
    using len by (simp add: h)
  have u32: "unat (word_of_nat (le_nat (le_bytes 4 v)) :: u32) = v" if "v < 2 ^ 32" for v
    using that by (simp add: le_nat_le_bytes unat_of_nat)
  have tw: "takeWhile (\<lambda>b. b \<noteq> 0) ?n = ?n" using nz by (auto simp: takeWhile_eq_all_conv)
  show ?thesis
    using assms
    by (simp add: buffer_header_from_def Let_def shared_memory_name_def name frames size u32
        takeWhile_nonzero [OF nz] tw
        utf8_roundtrip wf_buffer_def)
qed

lemma match_buffers_image:
  assumes "list_all wf_buffer bufs" and "length pre = offset" and "length names \<le> length bufs"
  shows "match_buffers (pre @ pack_buffers offset bufs @ rest) offset names =
           Inr (names = take (length names) (map sb_name bufs))"
  using assms
proof (induction names arbitrary: bufs pre offset)
  case Nil
  then show ?case by simp
next
  case (Cons n ns)
  show ?case
  proof (cases bufs)
    case Nil
    with Cons.prems show ?thesis by simp
  next
    case bufs: (Cons b bs)
    let ?hdr = "pack_buffer_header offset b"
    let ?off = "offset + buffer_block_size (sb_frames b) (sb_size b)"
    let ?pre = "pre @ ?hdr @ sb_data b"
    have wf: "wf_buffer b" "list_all wf_buffer bs" using Cons.prems bufs by auto
    have mem: "pre @ pack_buffers offset bufs @ rest = ?pre @ pack_buffers ?off bs @ rest"
      by (simp add: bufs)
    have len: "length ?pre = ?off"
      using wf(1) Cons.prems(2) by (simp add: wf_buffer_def buffer_block_size_def)
    have slice: "take 56 (drop offset (?pre @ pack_buffers ?off bs @ rest)) = ?hdr"
      using Cons.prems(2) by simp
    obtain h where h: "buffer_header_from ?hdr = Inr h"
      "shared_memory_name h = Inr (map of_char (sb_name b))"
      "unat (bh_num_frames h) = sb_frames b" "unat (bh_size_per_frame h) = sb_size b"
      using parse_pack_buffer_header [OF wf(1)] by blast
    have chars: "map of_char (sb_name b) = (map of_char n :: nat list) \<longleftrightarrow> sb_name b = n"
      by (simp add: inj_map_eq_map inj_of_char)
    have step: "match_buffers (?pre @ pack_buffers ?off bs @ rest) offset (n # ns) =
        (if sb_name b \<noteq> n then Inr False
         else match_buffers (?pre @ pack_buffers ?off bs @ rest) ?off ns)"
      using Cons.prems(2) by (simp add: slice h chars)
    have le: "length ns \<le> length bs" using Cons.prems(3) bufs by simp
    show ?thesis
      unfolding mem step using Cons.IH [OF wf(2) len le] by (auto simp: bufs)
  qed
qed

text \<open>
  C3. The probe reports readiness exactly for the images whose buffers carry the expected
  names in order: on the file the C++ side publishes for any well-formed list of at most
  255 buffers (whatever follows them), \<open>is_ready\<close> answers \<open>True\<close> if and only if the names
  are the expected ones, and it never raises.
\<close>

theorem probe_ready_iff_names:
  assumes "list_all wf_buffer bufs" and "length bufs \<le> 255"
  shows "probe_ready names (ShmBytes (shm_image bufs rest)) = Inr (names = map sb_name bufs)"
proof -
  let ?pre = "word_of_nat (length bufs) # replicate 7 (0 :: byte)"
  have image: "shm_image bufs rest = ?pre @ pack_buffers 8 bufs @ rest"
    by (simp add: shm_image_def)
  have count: "unat (word_of_nat (length bufs) :: byte) = length bufs"
    using assms(2) by (simp add: unat_byte_small)
  have "matches_layout names (shm_image bufs rest) = Inr (names = map sb_name bufs)"
  proof (cases "length names = length bufs")
    case True
    then have "match_buffers (?pre @ pack_buffers 8 bufs @ rest) 8 names =
        Inr (names = map sb_name bufs)"
      using match_buffers_image [OF assms(1), of ?pre 8 names rest] by simp
    with True count show ?thesis by (simp add: matches_layout_def image)
  next
    case False
    then have "names \<noteq> map sb_name bufs" by auto
    with False count show ?thesis by (simp add: matches_layout_def image)
  qed
  then show ?thesis by (simp add: probe_ready_def shm_image_def)
qed

theorem probe_ready_iff_names_witness:
  "probe_ready [''left'', ''imu''] (ShmBytes (shm_image
      [\<lparr>sb_name = ''left'', sb_frames = 1, sb_size = 4, sb_data = replicate 20 7\<rparr>,
       \<lparr>sb_name = ''imu'', sb_frames = 0, sb_size = 12, sb_data = []\<rparr>] [])) = Inr True"
proof -
  let ?bufs = "[\<lparr>sb_name = ''left'', sb_frames = 1, sb_size = 4, sb_data = replicate 20 7\<rparr>,
      \<lparr>sb_name = ''imu'', sb_frames = 0, sb_size = 12, sb_data = []\<rparr>]"
  have wf: "list_all wf_buffer ?bufs"
    by (simp add: wf_buffer_def utf8_encode_def Let_def)
  show ?thesis
    using probe_ready_iff_names [OF wf, of "[''left'', ''imu'']" "[]"] by simp
qed



end
