(* ===== verification/Sensor_State.thy ===== *)
theory Sensor_State imports Byte_Codec begin

text \<open>
  \<open>_SensorState\<close> of \<open>python/web_collector.py\<close>: the latest sample of one camera or IMU, the
  rate between two samples, and the JPEG cache of a camera frame, whose encoding happens
  between two critical sections. The reader that the C++ module returns is a parameter:
  \<open>rd reader\<close> is what \<open>reader.read()\<close> returns or raises. An array carries the identity the
  code compares with \<open>is\<close>.
\<close>

section \<open>Arrays, frames and samples\<close>

record np_array =
  ar_ref :: nat
  ar_bytes :: "byte list"

record reading =
  rd_key :: string
  rd_head :: int
  rd_sequence :: int
  rd_timestamp_ns :: int
  rd_array :: np_array

text \<open>
  \<open>frame.reshape(height, width, 3)\<close>: numpy infers one negative dimension and raises
  \<open>ValueError\<close> where the sizes do not fit.
\<close>

definition reshape_error :: py_error where
  "reshape_error = ValueError ''cannot reshape array''"

definition reshape_camera_frame :: "byte list \<Rightarrow> int \<Rightarrow> int \<Rightarrow> (nat \<times> nat \<times> byte list) res" where
  "reshape_camera_frame bytes width height =
     (let n = length bytes
      in if height < 0 \<and> width < 0 then Inl reshape_error
         else if height < 0 then
           (if width \<noteq> 0 \<and> n mod (nat width * 3) = 0
            then Inr (n div (nat width * 3), nat width, bytes) else Inl reshape_error)
         else if width < 0 then
           (if height \<noteq> 0 \<and> n mod (nat height * 3) = 0
            then Inr (nat height, n div (nat height * 3), bytes) else Inl reshape_error)
         else if n = nat height * nat width * 3 then Inr (nat height, nat width, bytes)
         else Inl reshape_error)"

text \<open>\<open>frame[:, :, ::-1]\<close>: the channels of every pixel reversed.\<close>

fun swap_channels :: "byte list \<Rightarrow> byte list" where
  "swap_channels (a # b # c # rest) = c # b # a # swap_channels rest"
| "swap_channels rest = rest"

text \<open>\<open>cv2.imencode\<close> is a parameter: \<open>None\<close> is its failure answer.\<close>

type_synonym imencode = "nat \<Rightarrow> nat \<Rightarrow> byte list \<Rightarrow> byte list option"

definition encode_jpeg_bytes :: "imencode \<Rightarrow> nat \<times> nat \<times> byte list \<Rightarrow> byte list res" where
  "encode_jpeg_bytes enc img =
     (case img of (h, w, bytes) \<Rightarrow>
        case enc h w (swap_channels bytes) of
          None \<Rightarrow> Inl (RuntimeError ''Failed to encode camera frame'')
        | Some encoded \<Rightarrow> Inr encoded)"

text \<open>
  \<open>np.frombuffer(raw, dtype=np.float32, count=3)\<close> needs twelve bytes. The three values are
  kept as their IEEE bit patterns, which \<open>float()\<close> widens exactly.
\<close>

definition decode_imu_sample :: "byte list \<Rightarrow> u32 list res" where
  "decode_imu_sample raw =
     (if length raw < 12 then Inl (ValueError ''buffer is smaller than requested size'')
      else Inr (map (\<lambda>i. word_of_nat (le_nat (take 4 (drop (4 * i) raw)))) [0, 1, 2]))"

section \<open>The rate between two samples\<close>

definition sequence_rate_hz ::
    "int option \<Rightarrow> int option \<Rightarrow> int \<Rightarrow> int \<Rightarrow> real option \<times> int \<times> real option" where
  "sequence_rate_hz previous_sequence previous_timestamp_ns current_sequence current_timestamp_ns =
     (case (previous_sequence, previous_timestamp_ns) of
        (Some ps, Some pt) \<Rightarrow>
          (let sequence_delta = current_sequence - ps;
               timestamp_delta_ns = current_timestamp_ns - pt
           in if sequence_delta \<le> 0 \<or> timestamp_delta_ns \<le> 0 then (None, 0, None)
              else let interval_s = of_int timestamp_delta_ns / 1000000000;
                       sample_dt_s = interval_s / of_int sequence_delta
                   in (if sample_dt_s > 0 then Some (1 / sample_dt_s) else None,
                       sequence_delta, Some sample_dt_s))
      | _ \<Rightarrow> (None, 0, None))"

section \<open>The state of a sensor\<close>

text \<open>
  \<open>_last_payload\<close>: the dictionary's keys as optional fields (\<open>get\<close> makes no difference
  between a missing key and \<open>None\<close>); the empty dictionary has none.
\<close>

record payload =
  pl_frame :: "np_array option"
  pl_sample :: "u32 list option"
  pl_head :: "int option"
  pl_rate_hz :: "real option"
  pl_sample_count :: "int option"
  pl_dt_s :: "real option"
  pl_encoded_sequence :: "int option"
  pl_encoded_frame_bytes :: "byte list option"

definition empty_payload :: payload where
  "empty_payload =
     \<lparr>pl_frame = None, pl_sample = None, pl_head = None, pl_rate_hz = None,
      pl_sample_count = None, pl_dt_s = None, pl_encoded_sequence = None,
      pl_encoded_frame_bytes = None\<rparr>"

record 'r sensor =
  se_name :: string
  se_kind :: string
  se_reader :: "'r option"
  se_width :: "int option"
  se_height :: "int option"
  se_last_timestamp_ns :: "int option"
  se_last_sequence :: "int option"
  se_last_dt_s :: "real option"
  se_last_sample_count :: "int option"
  se_last_rate_hz :: "real option"
  se_last_ready :: bool
  se_last_payload :: payload

definition new_sensor :: "string \<Rightarrow> string \<Rightarrow> int option \<Rightarrow> int option \<Rightarrow> 'r sensor" where
  "new_sensor name kind width height =
     \<lparr>se_name = name, se_kind = kind, se_reader = None, se_width = width, se_height = height,
      se_last_timestamp_ns = None, se_last_sequence = None, se_last_dt_s = None,
      se_last_sample_count = None, se_last_rate_hz = None, se_last_ready = False,
      se_last_payload = empty_payload\<rparr>"

definition se_ready :: "'r sensor \<Rightarrow> bool" where
  "se_ready s \<longleftrightarrow> se_reader s \<noteq> None \<and> se_last_ready s"

definition attach_reader :: "'r \<Rightarrow> 'r sensor \<Rightarrow> 'r sensor" where
  "attach_reader reader s = s\<lparr>se_reader := Some reader\<rparr>"

definition sensor_reset :: "'r sensor \<Rightarrow> 'r sensor" where
  "sensor_reset s =
     s\<lparr>se_reader := None, se_last_timestamp_ns := None, se_last_sequence := None,
       se_last_dt_s := None, se_last_sample_count := None, se_last_rate_hz := None,
       se_last_ready := False, se_last_payload := empty_payload\<rparr>"

text \<open>The new payload of an accepted sample.\<close>

definition make_payload ::
    "string \<Rightarrow> reading \<Rightarrow> real option \<Rightarrow> int option \<Rightarrow> real option \<Rightarrow> payload res" where
  "make_payload kind x rate sample_count dt =
     res_bind (if kind = ''camera'' then Inr (empty_payload\<lparr>pl_frame := Some (rd_array x)\<rparr>)
               else res_bind (decode_imu_sample (ar_bytes (rd_array x)))
                      (\<lambda>sample. Inr (empty_payload\<lparr>pl_sample := Some sample\<rparr>)))
       (\<lambda>p. Inr (p\<lparr>pl_head := Some (rd_head x), pl_rate_hz := rate,
                    pl_sample_count := sample_count, pl_dt_s := dt\<rparr>))"

definition accept_sample ::
    "reading \<Rightarrow> real option \<Rightarrow> int option \<Rightarrow> real option \<Rightarrow> ('r sensor, bool) meth" where
  "accept_sample x rate sample_count dt s =
     (case make_payload (se_kind s) x rate sample_count dt of
        Inl e \<Rightarrow> (Inl e, s)
      | Inr p \<Rightarrow>
          (Inr True,
           s\<lparr>se_last_timestamp_ns := Some (rd_timestamp_ns x),
             se_last_sequence := Some (rd_sequence x), se_last_dt_s := dt,
             se_last_sample_count := sample_count, se_last_rate_hz := rate,
             se_last_ready := True, se_last_payload := p\<rparr>))"

text \<open>A sample that goes backwards starts the sequence again; the payload stays.\<close>

definition rebase :: "reading \<Rightarrow> 'r sensor \<Rightarrow> 'r sensor" where
  "rebase x s =
     s\<lparr>se_last_timestamp_ns := Some (rd_timestamp_ns x),
       se_last_sequence := Some (rd_sequence x), se_last_dt_s := None,
       se_last_sample_count := None, se_last_rate_hz := None, se_last_ready := True\<rparr>"

text \<open>
  \<open>update\<close> looks the reader up under the lock, reads without it, and takes the lock again:
  \<open>take_reading\<close> is that second section.
\<close>

definition take_reading :: "reading \<Rightarrow> ('r sensor, bool) meth" where
  "take_reading x s =
     (case (se_last_sequence s, se_last_timestamp_ns s) of
        (Some ls, Some lt) \<Rightarrow>
          (case sequence_rate_hz (Some ls) (Some lt) (rd_sequence x) (rd_timestamp_ns x) of
             (rate, sample_count, dt) \<Rightarrow>
               if rd_sequence x = ls then (Inr False, s)
               else if rate = None \<or> sample_count = 0 \<or> dt = None then
                 (Inr False,
                  if rd_sequence x < ls \<or> rd_timestamp_ns x \<le> lt then rebase x s else s)
               else accept_sample x rate (Some sample_count) dt s)
      | _ \<Rightarrow> accept_sample x None None None s)"

definition sensor_update :: "('r \<Rightarrow> reading res) \<Rightarrow> ('r sensor, bool) meth" where
  "sensor_update rd s =
     (case se_reader s of
        None \<Rightarrow> (Inr False, s)
      | Some reader \<Rightarrow>
        (case rd reader of
           Inl e \<Rightarrow> (Inl e, s)
         | Inr x \<Rightarrow>
           if rd_key x = [] \<or> ar_bytes (rd_array x) = [] then (Inr False, s)
           else take_reading x s))"

section \<open>Serving a camera frame\<close>

text \<open>
  \<open>camera_frame_bytes\<close> reads the state under the lock, encodes without it, and takes the lock
  again to store the result. Other requests and updates can run in between, so the method
  is split where it leaves the lock: what the first section decides, the encoding, and the
  second section.
\<close>

datatype frame_job =
    FrameDone "byte list option"
  | FrameEncode int np_array int int

definition frame_begin :: "'r sensor \<Rightarrow> frame_job" where
  "frame_begin s =
     (if se_kind s \<noteq> ''camera'' then FrameDone None
      else if \<not> se_last_ready s then FrameDone None
      else case (se_last_sequence s, pl_frame (se_last_payload s), se_width s, se_height s) of
             (Some sequence, Some frame, Some width, Some height) \<Rightarrow>
               (case pl_encoded_frame_bytes (se_last_payload s) of
                  Some cached_bytes \<Rightarrow>
                    if pl_encoded_sequence (se_last_payload s) = Some sequence
                    then FrameDone (Some cached_bytes) else FrameEncode sequence frame width height
                | None \<Rightarrow> FrameEncode sequence frame width height)
           | _ \<Rightarrow> FrameDone None)"

definition frame_encode :: "imencode \<Rightarrow> np_array \<Rightarrow> int \<Rightarrow> int \<Rightarrow> byte list res" where
  "frame_encode enc frame width height =
     res_bind (reshape_camera_frame (ar_bytes frame) width height) (encode_jpeg_bytes enc)"

definition frame_commit :: "int \<Rightarrow> np_array \<Rightarrow> byte list \<Rightarrow> 'r sensor \<Rightarrow> 'r sensor" where
  "frame_commit sequence frame encoded s =
     (if se_last_sequence s = Some sequence \<and>
         map_option ar_ref (pl_frame (se_last_payload s)) = Some (ar_ref frame)
      then s\<lparr>se_last_payload := (se_last_payload s)
               \<lparr>pl_encoded_sequence := Some sequence, pl_encoded_frame_bytes := Some encoded\<rparr>\<rparr>
      else s)"

definition camera_frame_bytes :: "imencode \<Rightarrow> ('r sensor, byte list option) meth" where
  "camera_frame_bytes enc s =
     (case frame_begin s of
        FrameDone r \<Rightarrow> (Inr r, s)
      | FrameEncode sequence frame width height \<Rightarrow>
          (case frame_encode enc frame width height of
             Inl e \<Rightarrow> (Inl e, s)
           | Inr encoded \<Rightarrow> (Inr (Some encoded), frame_commit sequence frame encoded s)))"

record stream_snapshot =
  ss_name :: string
  ss_ready :: bool
  ss_timestamp_ns :: "int option"
  ss_sequence :: "int option"
  ss_dt_s :: "real option"
  ss_payload :: payload

definition sensor_snapshot :: "'r sensor \<Rightarrow> stream_snapshot" where
  "sensor_snapshot s =
     \<lparr>ss_name = se_name s, ss_ready = se_last_ready s, ss_timestamp_ns = se_last_timestamp_ns s,
      ss_sequence = se_last_sequence s, ss_dt_s = se_last_dt_s s, ss_payload = se_last_payload s\<rparr>"

section \<open>The branches of an update\<close>

lemma sequence_rate_forward:
  assumes "ps < cs" and "pt < ct"
  shows "\<exists>r d. sequence_rate_hz (Some ps) (Some pt) cs ct = (Some r, cs - ps, Some d) \<and>
     0 < r \<and> 0 < d \<and> r * d = 1 \<and> of_int (cs - ps) * d = of_int (ct - pt) / 1000000000"
proof -
  define n where "n = (of_int (cs - ps) :: real)"
  define w where "w = (of_int (ct - pt) / 1000000000 :: real)"
  have pos: "0 < n" "0 < w" using assms by (simp_all add: n_def w_def)
  have "sequence_rate_hz (Some ps) (Some pt) cs ct = (Some (1 / (w / n)), cs - ps, Some (w / n))"
    using assms pos by (simp add: sequence_rate_hz_def Let_def n_def w_def)
  moreover have "n * (w / n) = w" using pos by simp
  ultimately show ?thesis using pos unfolding n_def [symmetric] w_def [symmetric] by simp
qed

lemma sequence_rate_backward:
  "cs \<le> ps \<or> ct \<le> pt \<Longrightarrow> sequence_rate_hz (Some ps) (Some pt) cs ct = (None, 0, None)"
  by (auto simp: sequence_rate_hz_def Let_def)

text \<open>What a sensor with a reader does with a sample that carries data.\<close>

definition delivers :: "('r \<Rightarrow> reading res) \<Rightarrow> 'r sensor \<Rightarrow> reading \<Rightarrow> bool" where
  "delivers rd s x \<longleftrightarrow>
     (\<exists>r. se_reader s = Some r \<and> rd r = Inr x) \<and> rd_key x \<noteq> [] \<and> ar_bytes (rd_array x) \<noteq> []"

lemma take_first:
  "se_last_sequence s = None \<or> se_last_timestamp_ns s = None \<Longrightarrow>
   take_reading x s = accept_sample x None None None s"
  by (auto simp: take_reading_def split: option.splits)

lemma take_same:
  "se_last_sequence s = Some (rd_sequence x) \<Longrightarrow> se_last_timestamp_ns s = Some lt \<Longrightarrow>
   take_reading x s = (Inr False, s)"
  by (auto simp: take_reading_def split: prod.splits)

lemma take_backward:
  "se_last_sequence s = Some ls \<Longrightarrow> se_last_timestamp_ns s = Some lt \<Longrightarrow>
   rd_sequence x < ls \<or> rd_sequence x > ls \<and> rd_timestamp_ns x \<le> lt \<Longrightarrow>
   take_reading x s = (Inr False, rebase x s)"
  by (auto simp: take_reading_def sequence_rate_backward)

lemma take_forward:
  assumes "se_last_sequence s = Some ls" and "se_last_timestamp_ns s = Some lt"
    and "ls < rd_sequence x" and "lt < rd_timestamp_ns x"
  obtains r d where
    "take_reading x s = accept_sample x (Some r) (Some (rd_sequence x - ls)) (Some d) s"
    "0 < r" "0 < d" "r * d = 1"
    "of_int (rd_sequence x - ls) * d = of_int (rd_timestamp_ns x - lt) / 1000000000"
proof -
  obtain r d where rd: "sequence_rate_hz (Some ls) (Some lt) (rd_sequence x) (rd_timestamp_ns x) =
      (Some r, rd_sequence x - ls, Some d)" "0 < r" "0 < d" "r * d = 1"
      "of_int (rd_sequence x - ls) * d = of_int (rd_timestamp_ns x - lt) / (1000000000 :: real)"
    using sequence_rate_forward [OF assms(3,4)] by blast
  have "take_reading x s = accept_sample x (Some r) (Some (rd_sequence x - ls)) (Some d) s"
    using assms rd(1) by (auto simp: take_reading_def)
  then show thesis using rd that by blast
qed

text \<open>The four ways a reading is taken.\<close>

lemma take_cases [consumes 1, case_names same first restart advance]:
  assumes "take_reading x s = (res, s')"
  obtains
      (same) "s' = s" "res = Inr False" "se_last_sequence s = Some (rd_sequence x)"
    | (first) "accept_sample x None None None s = (res, s')"
        "se_last_sequence s = None \<or> se_last_timestamp_ns s = None"
    | (restart) ls lt where "se_last_sequence s = Some ls"
        "se_last_timestamp_ns s = Some lt" "s' = rebase x s" "res = Inr False"
        "rd_sequence x < ls \<or> rd_sequence x > ls \<and> rd_timestamp_ns x \<le> lt"
    | (advance) ls lt r d where "se_last_sequence s = Some ls"
        "se_last_timestamp_ns s = Some lt" "ls < rd_sequence x" "lt < rd_timestamp_ns x"
        "accept_sample x (Some r) (Some (rd_sequence x - ls)) (Some d) s = (res, s')"
        "0 < r" "0 < d" "r * d = 1"
proof (cases "se_last_sequence s = None \<or> se_last_timestamp_ns s = None")
  case True
  then show thesis using first take_first [of s x] assms by simp
next
  case False
  then obtain ls lt where l: "se_last_sequence s = Some ls" "se_last_timestamp_ns s = Some lt"
    by auto
  consider "rd_sequence x = ls" | "rd_sequence x < ls \<or> rd_sequence x > ls \<and> rd_timestamp_ns x \<le> lt"
    | "ls < rd_sequence x" "lt < rd_timestamp_ns x" by linarith
  then show thesis
  proof cases
    case 1
    then show thesis using same take_same [OF _ l(2)] l(1) assms by simp
  next
    case 2
    then show thesis using restart [OF l] take_backward [OF l] assms by simp
  next
    case 3
    then obtain r d where
      "accept_sample x (Some r) (Some (rd_sequence x - ls)) (Some d) s = (res, s')"
      "0 < r" "0 < d" "r * d = 1"
      using take_forward [OF l 3] assms by metis
    then show thesis using advance [OF l 3] by blast
  qed
qed

text \<open>An update takes the reading of its reader, or changes nothing.\<close>

lemma update_delivered:
  "delivers rd s x \<Longrightarrow> sensor_update rd s = take_reading x s"
  by (auto simp: delivers_def sensor_update_def)

lemma update_not_delivered:
  "\<nexists>x. delivers rd s x \<Longrightarrow> snd (sensor_update rd s) = s \<and> fst (sensor_update rd s) \<noteq> Inr True"
  by (auto simp: delivers_def sensor_update_def split: option.splits sum.splits)

lemma update_cases [consumes 1, case_names idle taken]:
  assumes "sensor_update rd s = (res, s')"
  obtains (idle) "s' = s" "res \<noteq> Inr True"
    | (taken) x where "delivers rd s x" "take_reading x s = (res, s')"
proof (cases "\<exists>x. delivers rd s x")
  case False
  then show thesis using update_not_delivered [of rd s] assms idle by auto
next
  case True
  then show thesis using update_delivered assms taken by metis
qed

text \<open>Names, kinds, sizes and readers do not change in an update.\<close>

lemma accept_sample_frame:
  "accept_sample x r c d s = (res, s') \<Longrightarrow>
   se_kind s' = se_kind s \<and> se_width s' = se_width s \<and> se_height s' = se_height s \<and>
   se_name s' = se_name s \<and> se_reader s' = se_reader s"
  by (auto simp: accept_sample_def split: sum.splits)

lemma rebase_frame [simp]:
  "se_kind (rebase x s) = se_kind s" "se_width (rebase x s) = se_width s"
  "se_height (rebase x s) = se_height s" "se_name (rebase x s) = se_name s"
  "se_reader (rebase x s) = se_reader s" "se_last_payload (rebase x s) = se_last_payload s"
  by (simp_all add: rebase_def)

lemma take_frame:
  assumes "take_reading x s = (res, s')"
  shows "se_kind s' = se_kind s" "se_width s' = se_width s" "se_height s' = se_height s"
    "se_name s' = se_name s" "se_reader s' = se_reader s"
  using assms by (cases rule: take_cases; auto dest: accept_sample_frame)+

lemma update_frame:
  assumes "sensor_update rd s = (res, s')"
  shows "se_kind s' = se_kind s" "se_width s' = se_width s" "se_height s' = se_height s"
    "se_name s' = se_name s" "se_reader s' = se_reader s"
  using assms by (cases rule: update_cases; simp add: take_frame)+

section \<open>What the fields of a sensor mean together\<close>

definition rate_fields :: "real option \<Rightarrow> int option \<Rightarrow> real option \<Rightarrow> bool" where
  "rate_fields rate count dt \<longleftrightarrow>
     rate = None \<and> count = None \<and> dt = None \<or>
     (\<exists>r c d. rate = Some r \<and> count = Some c \<and> dt = Some d \<and> 0 < r \<and> 0 < c \<and> 0 < d \<and> r * d = 1)"

lemma rate_fields_None [simp]: "rate_fields None None None"
  by (simp add: rate_fields_def)

lemma rate_fields_Some [simp]:
  "rate_fields (Some r) (Some c) (Some d) \<longleftrightarrow> 0 < r \<and> 0 < c \<and> 0 < d \<and> r * d = 1"
  by (simp add: rate_fields_def)

definition sensor_inv :: "'r sensor \<Rightarrow> bool" where
  "sensor_inv s \<longleftrightarrow>
     (se_last_ready s \<longleftrightarrow> se_last_sequence s \<noteq> None) \<and>
     (se_last_timestamp_ns s = None \<longleftrightarrow> se_last_sequence s = None) \<and>
     (se_reader s = None \<longrightarrow> se_last_sequence s = None) \<and>
     (se_last_ready s \<longrightarrow> pl_head (se_last_payload s) \<noteq> None) \<and>
     rate_fields (se_last_rate_hz s) (se_last_sample_count s) (se_last_dt_s s) \<and>
     (se_last_rate_hz s \<noteq> None \<longrightarrow> se_last_ready s)"

lemma sensor_inv_new: "sensor_inv (new_sensor name kind w h)"
  by (simp add: sensor_inv_def new_sensor_def)

lemma sensor_inv_reset: "sensor_inv (sensor_reset s)"
  by (simp add: sensor_inv_def sensor_reset_def)

lemma sensor_inv_attach: "sensor_inv s \<Longrightarrow> sensor_inv (attach_reader r s)"
  by (auto simp: sensor_inv_def attach_reader_def)

lemma sensor_inv_commit: "sensor_inv s \<Longrightarrow> sensor_inv (frame_commit q f b s)"
  by (auto simp: sensor_inv_def frame_commit_def)

lemma delivers_reader: "delivers rd s x \<Longrightarrow> se_reader s \<noteq> None"
  by (auto simp: delivers_def)

lemma sensor_inv_accept:
  assumes "sensor_inv s" and "accept_sample x r c d s = (res, s')" and "se_reader s \<noteq> None"
    and "rate_fields r c d"
  shows "sensor_inv s'"
  using assms
  by (auto simp: sensor_inv_def accept_sample_def make_payload_def res_bind_Inr_iff split: sum.splits)

lemma sensor_inv_take:
  assumes "sensor_inv s" and "take_reading x s = (res, s')" and "se_reader s \<noteq> None"
  shows "sensor_inv s'"
  using assms(2)
proof (cases rule: take_cases)
  case same
  with assms(1) show ?thesis by simp
next
  case first
  then show ?thesis using sensor_inv_accept [OF assms(1)] assms(3) rate_fields_None by blast
next
  case (restart ls lt)
  then show ?thesis using assms(1,3) by (auto simp: sensor_inv_def rebase_def)
next
  case (advance ls lt r d)
  then show ?thesis using sensor_inv_accept [OF assms(1) advance(5) assms(3)] by simp
qed

lemma sensor_inv_update:
  assumes "sensor_inv s" and "sensor_update rd s = (res, s')"
  shows "sensor_inv s'"
  using assms(2)
  by (cases rule: update_cases) (use assms(1) sensor_inv_take delivers_reader in blast)+

end
