(* ===== verification/Frame_Serving.thy ===== *)
theory Frame_Serving imports Sensor_State begin

text \<open>
  One camera sensor under concurrent requests: every critical section of
  \<open>_SensorState\<close> is one step, and a request that has left its first section waits as a
  job until it stores its encoding or its encoding fails. The frame cache stays coherent
  in every interleaving. The second half accounts for the samples of a stream: the counts
  and intervals that the updates report add up to the distance between two readings.
\<close>

section \<open>Interleaved requests\<close>

record 'r frame_server =
  fs_sensor :: "'r sensor"
  fs_jobs :: "(int \<times> np_array \<times> int \<times> int) list"

text \<open>
  An array that a payload or a job still refers to is not collected, so its identity
  stands for its contents: \<open>heap\<close> gives them.
\<close>

definition in_heap :: "(nat \<Rightarrow> byte list) \<Rightarrow> np_array \<Rightarrow> bool" where
  "in_heap heap a \<longleftrightarrow> ar_bytes a = heap (ar_ref a)"

inductive frame_step ::
    "imencode \<Rightarrow> (nat \<Rightarrow> byte list) \<Rightarrow> 'r frame_server \<Rightarrow> 'r frame_server \<Rightarrow> bool"
  for enc :: imencode and heap :: "nat \<Rightarrow> byte list" where
  take: "in_heap heap (rd_array x) \<Longrightarrow>
     frame_step enc heap m (m\<lparr>fs_sensor := snd (take_reading x (fs_sensor m))\<rparr>)"
| reset: "frame_step enc heap m (m\<lparr>fs_sensor := sensor_reset (fs_sensor m)\<rparr>)"
| attach: "frame_step enc heap m (m\<lparr>fs_sensor := attach_reader r (fs_sensor m)\<rparr>)"
| request: "frame_begin (fs_sensor m) = FrameEncode q f w h \<Longrightarrow>
     frame_step enc heap m (m\<lparr>fs_jobs := (q, f, w, h) # fs_jobs m\<rparr>)"
| commit: "fs_jobs m = js @ (q, f, w, h) # ks \<Longrightarrow> frame_encode enc f w h = Inr b \<Longrightarrow>
     frame_step enc heap m (m\<lparr>fs_sensor := frame_commit q f b (fs_sensor m), fs_jobs := js @ ks\<rparr>)"
| abort: "fs_jobs m = js @ (q, f, w, h) # ks \<Longrightarrow> frame_encode enc f w h = Inl e \<Longrightarrow>
     frame_step enc heap m (m\<lparr>fs_jobs := js @ ks\<rparr>)"

inductive_cases frame_stepE: "frame_step enc heap m m'"

inductive frame_reachable ::
    "imencode \<Rightarrow> (nat \<Rightarrow> byte list) \<Rightarrow> 'r sensor \<Rightarrow> 'r frame_server \<Rightarrow> bool"
  for enc :: imencode and heap :: "nat \<Rightarrow> byte list" and s0 :: "'r sensor" where
  start: "frame_reachable enc heap s0 \<lparr>fs_sensor = s0, fs_jobs = []\<rparr>"
| step: "frame_reachable enc heap s0 m \<Longrightarrow> frame_step enc heap m m' \<Longrightarrow>
     frame_reachable enc heap s0 m'"

text \<open>
  The cache holds the encoding of the very frame in the payload, at the sensor's size; a
  waiting job carries the sensor's size; and every array is the heap's.
\<close>

definition cache_coherent :: "imencode \<Rightarrow> (nat \<Rightarrow> byte list) \<Rightarrow> 'r sensor \<Rightarrow> bool" where
  "cache_coherent enc heap s \<longleftrightarrow>
     (\<forall>f. pl_frame (se_last_payload s) = Some f \<longrightarrow> in_heap heap f) \<and>
     (\<forall>b. pl_encoded_frame_bytes (se_last_payload s) = Some b \<longrightarrow>
        (\<exists>f w h. pl_frame (se_last_payload s) = Some f \<and> se_width s = Some w \<and>
           se_height s = Some h \<and> frame_encode enc f w h = Inr b))"

definition job_ok :: "(nat \<Rightarrow> byte list) \<Rightarrow> 'r sensor \<Rightarrow> int \<times> np_array \<times> int \<times> int \<Rightarrow> bool" where
  "job_ok heap s j \<longleftrightarrow>
     (case j of (q, f, w, h) \<Rightarrow> in_heap heap f \<and> se_width s = Some w \<and> se_height s = Some h)"

definition serving_inv :: "imencode \<Rightarrow> (nat \<Rightarrow> byte list) \<Rightarrow> 'r frame_server \<Rightarrow> bool" where
  "serving_inv enc heap m \<longleftrightarrow>
     cache_coherent enc heap (fs_sensor m) \<and> (\<forall>j \<in> set (fs_jobs m). job_ok heap (fs_sensor m) j)"

lemma make_payload_fields:
  "make_payload k x r c d = Inr p \<Longrightarrow>
   pl_encoded_frame_bytes p = None \<and> pl_encoded_sequence p = None \<and>
   (pl_frame p = (if k = ''camera'' then Some (rd_array x) else None))"
  by (auto simp: make_payload_def res_bind_Inr_iff empty_payload_def split: if_splits)

lemma coherent_accept:
  "cache_coherent enc heap s \<Longrightarrow> in_heap heap (rd_array x) \<Longrightarrow>
   cache_coherent enc heap (snd (accept_sample x r c d s))"
  by (auto simp: cache_coherent_def accept_sample_def dest!: make_payload_fields split: sum.splits if_splits)

lemma coherent_rebase: "cache_coherent enc heap s \<Longrightarrow> cache_coherent enc heap (rebase x s)"
  by (auto simp: cache_coherent_def)

lemma coherent_take:
  assumes "cache_coherent enc heap s" and "in_heap heap (rd_array x)"
  shows "cache_coherent enc heap (snd (take_reading x s))"
proof -
  obtain res s' where t: "take_reading x s = (res, s')" by (cases "take_reading x s")
  have acc: "cache_coherent enc heap s'" if "accept_sample x r c d s = (res, s')" for r c d
    using coherent_accept [OF assms, of r c d] that by simp
  from t show ?thesis
    by (cases rule: take_cases) (use t assms(1) acc coherent_rebase in auto)
qed

lemma coherent_reset: "cache_coherent enc heap (sensor_reset s)"
  by (simp add: cache_coherent_def sensor_reset_def empty_payload_def)

lemma coherent_attach: "cache_coherent enc heap s \<Longrightarrow> cache_coherent enc heap (attach_reader r s)"
  by (simp add: cache_coherent_def attach_reader_def)

lemma frame_encode_heap:
  "in_heap heap f \<Longrightarrow> in_heap heap g \<Longrightarrow> ar_ref f = ar_ref g \<Longrightarrow>
   frame_encode enc f w h = frame_encode enc g w h"
  by (simp add: frame_encode_def in_heap_def)

lemma coherent_commit:
  assumes "cache_coherent enc heap s" and "job_ok heap s (q, f, w, h)"
    and "frame_encode enc f w h = Inr b"
  shows "cache_coherent enc heap (frame_commit q f b s)"
proof (cases "se_last_sequence s = Some q \<and>
         map_option ar_ref (pl_frame (se_last_payload s)) = Some (ar_ref f)")
  case False
  then have "frame_commit q f b s = s" by (auto simp: frame_commit_def)
  with assms(1) show ?thesis by simp
next
  case True
  then obtain g where g: "pl_frame (se_last_payload s) = Some g" "ar_ref g = ar_ref f" by auto
  then have "in_heap heap g" using assms(1) by (simp add: cache_coherent_def)
  then have "frame_encode enc g w h = Inr b"
    using assms(2,3) g(2) frame_encode_heap [of heap f g enc w h] by (simp add: job_ok_def)
  with True assms(2) g \<open>in_heap heap g\<close> show ?thesis
    by (simp add: cache_coherent_def job_ok_def frame_commit_def)
qed

text \<open>The size of a sensor never changes, so the jobs stay good.\<close>

lemma job_ok_cong:
  "se_width s' = se_width s \<Longrightarrow> se_height s' = se_height s \<Longrightarrow> job_ok heap s' j = job_ok heap s j"
  by (simp add: job_ok_def split: prod.split)

lemma job_ok_ops [simp]:
  "job_ok heap (snd (take_reading x s)) = job_ok heap s"
  "job_ok heap (sensor_reset s) = job_ok heap s"
  "job_ok heap (attach_reader r s) = job_ok heap s"
  "job_ok heap (frame_commit q f b s) = job_ok heap s"
proof -
  obtain res s' where t: "take_reading x s = (res, s')" by (cases "take_reading x s")
  show "job_ok heap (snd (take_reading x s)) = job_ok heap s"
    using job_ok_cong [OF take_frame(2,3) [OF t]] t by (simp add: fun_eq_iff)
qed (simp_all add: fun_eq_iff job_ok_def sensor_reset_def attach_reader_def frame_commit_def)

lemma request_ok:
  "cache_coherent enc heap s \<Longrightarrow> frame_begin s = FrameEncode q f w h \<Longrightarrow> job_ok heap s (q, f, w, h)"
  by (auto simp: cache_coherent_def frame_begin_def job_ok_def split: if_splits option.splits)

lemma serving_inv_step:
  assumes "frame_step enc heap m m'" and "serving_inv enc heap m"
  shows "serving_inv enc heap m'"
  using assms
proof (induction rule: frame_step.induct)
  case (take x m)
  then show ?case by (simp add: serving_inv_def coherent_take)
next
  case (reset m)
  then show ?case by (simp add: serving_inv_def coherent_reset)
next
  case (attach m r)
  then show ?case by (simp add: serving_inv_def coherent_attach)
next
  case (request m q f w h)
  then have "job_ok heap (fs_sensor m) (q, f, w, h)"
    by (intro request_ok [of enc]) (simp_all add: serving_inv_def)
  with request show ?case by (simp add: serving_inv_def)
next
  case (commit m js q f w h ks b)
  then have "cache_coherent enc heap (frame_commit q f b (fs_sensor m))"
    by (intro coherent_commit) (auto simp: serving_inv_def)
  with commit show ?case
    by (simp add: serving_inv_def ball_Un)
next
  case (abort m js q f w h ks e)
  then show ?case by (simp add: serving_inv_def ball_Un)
qed

lemma serving_inv_reachable:
  assumes "frame_reachable enc heap s0 m" and "cache_coherent enc heap s0"
  shows "serving_inv enc heap m"
  using assms(1)
proof induction
  case start
  then show ?case using assms(2) by (simp add: serving_inv_def)
next
  case (step m m')
  then show ?case using serving_inv_step by blast
qed

lemma coherent_new: "cache_coherent enc heap (new_sensor n k w h)"
  by (simp add: cache_coherent_def new_sensor_def empty_payload_def)

text \<open>
  C5. Frame cache coherence: start with a new sensor and let updates, resets, reader
  attachments and any number of frame requests interleave at the granularity of the code's
  critical sections. Whenever a request answers from the cache, the bytes it answers are
  the JPEG encoding of the frame that is in the payload at that moment, at the sensor's
  configured size: a slow encoder that finishes after newer samples or a reset never
  stores a stale picture.
\<close>

theorem cached_frame_is_current:
  assumes "frame_reachable enc heap (new_sensor name kind w h) m"
    and "frame_begin (fs_sensor m) = FrameDone (Some b)"
  shows "\<exists>f wd ht. pl_frame (se_last_payload (fs_sensor m)) = Some f \<and>
     se_width (fs_sensor m) = Some wd \<and> se_height (fs_sensor m) = Some ht \<and>
     frame_encode enc f wd ht = Inr b"
proof -
  have "cache_coherent enc heap (fs_sensor m)"
    using serving_inv_reachable [OF assms(1) coherent_new] by (simp add: serving_inv_def)
  moreover have "pl_encoded_frame_bytes (se_last_payload (fs_sensor m)) = Some b"
    using assms(2) by (auto simp: frame_begin_def split: if_splits option.splits)
  ultimately show ?thesis by (simp add: cache_coherent_def)
qed

text \<open>A camera of one pixel: a sample arrives, a request encodes it, a second is answered.\<close>

definition demo_reading :: reading where
  "demo_reading =
     \<lparr>rd_key = ''rgb'', rd_head = 0, rd_sequence = 7, rd_timestamp_ns = 100,
      rd_array = \<lparr>ar_ref = 1, ar_bytes = [1, 2, 3]\<rparr>\<rparr>"

definition demo_sensor :: "unit sensor" where
  "demo_sensor = snd (take_reading demo_reading (new_sensor ''rgb'' ''camera'' (Some 1) (Some 1)))"

definition demo_encoder :: imencode where
  "demo_encoder h w bytes = Some bytes"

lemma demo_simps:
  "frame_begin demo_sensor = FrameEncode 7 (rd_array demo_reading) 1 1"
  "frame_encode demo_encoder (rd_array demo_reading) 1 1 = Inr [3, 2, 1]"
  "frame_begin (frame_commit 7 (rd_array demo_reading) [3, 2, 1] demo_sensor) = FrameDone (Some [3, 2, 1])"
  by (simp_all add: demo_sensor_def demo_reading_def take_reading_def new_sensor_def accept_sample_def
      make_payload_def empty_payload_def frame_begin_def frame_encode_def reshape_camera_frame_def
      encode_jpeg_bytes_def demo_encoder_def frame_commit_def)

lemma demo_reachable:
  "frame_reachable demo_encoder (\<lambda>_. [1, 2, 3]) (new_sensor ''rgb'' ''camera'' (Some 1) (Some 1))
     \<lparr>fs_sensor = frame_commit 7 (rd_array demo_reading) [3, 2, 1] demo_sensor, fs_jobs = []\<rparr>"
proof -
  let ?R = "frame_reachable demo_encoder (\<lambda>_. [1, 2, 3]) (new_sensor ''rgb'' ''camera'' (Some 1) (Some 1))"
  let ?f = "rd_array demo_reading"
  have "?R \<lparr>fs_sensor = demo_sensor, fs_jobs = []\<rparr>"
    using frame_reachable.step [OF frame_reachable.start frame_step.take [of "\<lambda>_. [1, 2, 3]" demo_reading]]
    by (simp add: in_heap_def demo_reading_def demo_sensor_def)
  then have "?R \<lparr>fs_sensor = demo_sensor, fs_jobs = [(7, ?f, 1, 1)]\<rparr>"
    using frame_reachable.step [OF _ frame_step.request] demo_simps(1) by fastforce
  from frame_reachable.step [OF this frame_step.commit [of _ "[]" 7 ?f 1 1 "[]"]] demo_simps(2)
  show ?thesis by simp
qed

lemma cached_frame_is_current_witness:
  "\<exists>f wd ht. pl_frame (se_last_payload
       (frame_commit 7 (rd_array demo_reading) [3, 2, 1] demo_sensor)) = Some f \<and>
     se_width (frame_commit 7 (rd_array demo_reading) [3, 2, 1] demo_sensor) = Some wd \<and>
     se_height (frame_commit 7 (rd_array demo_reading) [3, 2, 1] demo_sensor) = Some ht \<and>
     frame_encode demo_encoder f wd ht = Inr [3, 2, 1]"
  using cached_frame_is_current [OF demo_reachable] demo_simps(3) by simp

section \<open>The samples a stream accounts for\<close>

text \<open>
  The readings a reader delivers one after the other, and what each update reports: the
  number of samples since the previous reading and the interval of one of them.
\<close>

fun update_reports :: "reading list \<Rightarrow> 'r sensor \<Rightarrow> (int \<times> real) list" where
  "update_reports [] s = []"
| "update_reports (x # xs) s =
     (case sensor_update (\<lambda>_. Inr x) s of (_, s') \<Rightarrow>
        (case (se_last_sample_count s', se_last_dt_s s') of
           (Some c, Some d) \<Rightarrow> (c, d) # update_reports xs s'
         | _ \<Rightarrow> update_reports xs s'))"

definition good_reading :: "string \<Rightarrow> reading \<Rightarrow> bool" where
  "good_reading kind x \<longleftrightarrow>
     rd_key x \<noteq> [] \<and> ar_bytes (rd_array x) \<noteq> [] \<and>
     (kind = ''camera'' \<or> 12 \<le> length (ar_bytes (rd_array x)))"

definition newer :: "reading \<Rightarrow> reading \<Rightarrow> bool" where
  "newer x y \<longleftrightarrow> rd_sequence x < rd_sequence y \<and> rd_timestamp_ns x < rd_timestamp_ns y"

lemma make_payload_good:
  "good_reading k x \<Longrightarrow> \<exists>p. make_payload k x r c d = Inr p"
  by (auto simp: good_reading_def make_payload_def decode_imu_sample_def)

lemma accept_good:
  assumes "good_reading (se_kind s) x"
  obtains s' where "accept_sample x r c d s = (Inr True, s')"
    "se_last_sequence s' = Some (rd_sequence x)" "se_last_timestamp_ns s' = Some (rd_timestamp_ns x)"
    "se_last_sample_count s' = c" "se_last_dt_s s' = d"
    "se_kind s' = se_kind s" "se_reader s' = se_reader s"
  using make_payload_good [OF assms, of r c d] by (auto simp: accept_sample_def)

lemma reports_from:
  assumes "sorted_wrt newer (x # xs)" and "\<forall>y \<in> set xs. good_reading (se_kind s) y"
    and "se_reader s \<noteq> None" and "se_last_sequence s = Some (rd_sequence x)"
    and "se_last_timestamp_ns s = Some (rd_timestamp_ns x)"
  shows "(\<Sum>(c, d) \<leftarrow> update_reports xs s. c) = rd_sequence (last (x # xs)) - rd_sequence x \<and>
     (\<Sum>(c, d) \<leftarrow> update_reports xs s. of_int c * d) =
       of_int (rd_timestamp_ns (last (x # xs)) - rd_timestamp_ns x) / (1000000000 :: real)"
  using assms
proof (induction xs arbitrary: x s)
  case Nil
  then show ?case by simp
next
  case (Cons y ys)
  have good: "good_reading (se_kind s) y" using Cons.prems(2) by simp
  have "newer x y" using Cons.prems(1) by simp
  then have lt: "rd_sequence x < rd_sequence y" "rd_timestamp_ns x < rd_timestamp_ns y"
    by (simp_all add: newer_def)
  have del: "delivers (\<lambda>_. Inr y) s y"
    using Cons.prems(3) good by (auto simp: delivers_def good_reading_def)
  obtain r d where rd: "take_reading y s =
      accept_sample y (Some r) (Some (rd_sequence y - rd_sequence x)) (Some d) s"
      "of_int (rd_sequence y - rd_sequence x) * d =
       of_int (rd_timestamp_ns y - rd_timestamp_ns x) / (1000000000 :: real)"
    using take_forward [OF Cons.prems(4,5) lt] by metis
  obtain s' where s': "sensor_update (\<lambda>_. Inr y) s = (Inr True, s')"
      "se_last_sequence s' = Some (rd_sequence y)" "se_last_timestamp_ns s' = Some (rd_timestamp_ns y)"
      "se_last_sample_count s' = Some (rd_sequence y - rd_sequence x)" "se_last_dt_s s' = Some d"
      "se_kind s' = se_kind s" "se_reader s' = se_reader s"
    using accept_good [OF good] update_delivered [OF del] rd(1) by metis
  have "sorted_wrt newer (y # ys)" using Cons.prems(1) by simp
  note IH = Cons.IH [OF this, of s']
  have "last (x # y # ys) = last (y # ys)" by simp
  with IH s' rd(2) Cons.prems(2,3) show ?case
    by (simp add: diff_divide_distrib)
qed

text \<open>
  Nothing is lost between two readings: over readings whose sequence numbers and
  timestamps both grow, the sample counts that the updates of a fresh sensor report add up
  to the distance between the last and the first sequence number, and the counts weighted
  with the reported intervals to the time between them, however many samples the polling
  skipped. The mean interval the client computes from the weighted reports is therefore the
  true mean interval of the stream.
\<close>

theorem reports_account_for_stream:
  assumes "sorted_wrt newer (x # xs)" and "\<forall>y \<in> set (x # xs). good_reading kind y"
  shows "(\<Sum>(c, d) \<leftarrow> update_reports (x # xs) (attach_reader r (new_sensor name kind w h)). c) =
       rd_sequence (last (x # xs)) - rd_sequence x \<and>
     (\<Sum>(c, d) \<leftarrow> update_reports (x # xs) (attach_reader r (new_sensor name kind w h)). of_int c * d) =
       of_int (rd_timestamp_ns (last (x # xs)) - rd_timestamp_ns x) / (1000000000 :: real)"
proof -
  define s where "s = attach_reader r (new_sensor name kind w h)"
  have s: "se_kind s = kind" "se_reader s = Some r" "se_last_sequence s = None"
    by (simp_all add: s_def attach_reader_def new_sensor_def)
  have good: "good_reading (se_kind s) x" using assms(2) s(1) by simp
  have del: "delivers (\<lambda>_. Inr x) s x" using good s(2) by (auto simp: delivers_def good_reading_def)
  have "take_reading x s = accept_sample x None None None s" using s(3) by (simp add: take_first)
  then obtain s' where s': "sensor_update (\<lambda>_. Inr x) s = (Inr True, s')"
      "se_last_sequence s' = Some (rd_sequence x)" "se_last_timestamp_ns s' = Some (rd_timestamp_ns x)"
      "se_last_sample_count s' = None" "se_kind s' = kind" "se_reader s' = Some r"
    using accept_good [OF good] update_delivered [OF del] s by metis
  have "update_reports (x # xs) s = update_reports xs s'" using s' by simp
  moreover note reports_from [OF assms(1), of s']
  ultimately show ?thesis using s' assms(2) unfolding s_def by simp
qed

lemma reports_account_for_stream_witness:
  "(\<Sum>(c, d) \<leftarrow> update_reports [demo_reading, demo_reading\<lparr>rd_sequence := 10, rd_timestamp_ns := 400\<rparr>]
       (attach_reader () (new_sensor ''rgb'' ''camera'' (Some 1) (Some 1))). c) = 3"
  using conjunct1 [OF reports_account_for_stream
    [of demo_reading "[demo_reading\<lparr>rd_sequence := 10, rd_timestamp_ns := 400\<rparr>]"
      "''camera''" "()" "''rgb''" "Some 1" "Some 1"]]
  by (simp add: newer_def good_reading_def demo_reading_def)

end
