(* ===== verification/Process_Handle.thy ===== *)
theory Process_Handle imports Py_Strings begin

text \<open>
  \<open>_ProcessHandle\<close> of \<open>python/web_collector.py\<close> over a small model of the operating system.
  Every \<open>poll()\<close> is a point in time, and a process may exit on its own between any two of
  them: the environment says at which time each process would. It also answers the file
  checks, whether \<open>Popen\<close> raises, and whether a process ends within the timeout of a wait
  after \<open>terminate()\<close> and after \<open>kill()\<close>.
\<close>

section \<open>The operating system\<close>

text \<open>A process is the number of the \<open>Popen\<close> object that started it; numbers are not reused.\<close>

record os =
  os_tick :: nat
  os_next :: nat
  os_dead :: "nat list"

record os_env =
  oe_exit_tick :: "nat \<Rightarrow> nat option"
  oe_is_file :: "nat \<Rightarrow> string \<Rightarrow> bool"
  oe_executable :: "nat \<Rightarrow> string \<Rightarrow> bool"
  oe_spawn_error :: "nat \<Rightarrow> string list \<Rightarrow> py_error option"
  oe_pid :: "nat \<Rightarrow> int"
  oe_term_ends :: "nat \<Rightarrow> bool"
  oe_kill_ends :: "nat \<Rightarrow> bool"

definition alive :: "os_env \<Rightarrow> nat \<Rightarrow> os \<Rightarrow> bool" where
  "alive env p w \<longleftrightarrow>
     p \<notin> set (os_dead w) \<and> (case oe_exit_tick env p of None \<Rightarrow> True | Some t \<Rightarrow> os_tick w < t)"

definition tick :: "os \<Rightarrow> os" where
  "tick w = w\<lparr>os_tick := Suc (os_tick w)\<rparr>"

text \<open>Time passes, processes are created, and dead ones stay dead.\<close>

definition later :: "os \<Rightarrow> os \<Rightarrow> bool" where
  "later w w' \<longleftrightarrow>
     os_tick w \<le> os_tick w' \<and> os_next w \<le> os_next w' \<and> set (os_dead w) \<subseteq> set (os_dead w')"

lemma later_refl [simp]: "later w w"
  by (simp add: later_def)

lemma later_trans: "later u v \<Longrightarrow> later v w \<Longrightarrow> later u w"
  by (auto simp: later_def)

lemma later_tick [simp]: "later w (tick w)"
  by (simp add: later_def tick_def)

lemma alive_later: "later w w' \<Longrightarrow> alive env p w' \<Longrightarrow> alive env p w"
  by (auto simp: later_def alive_def split: option.splits)

section \<open>The handle\<close>

record handle =
  ph_command :: "string list"
  ph_process :: "nat option"

definition new_handle :: "string list \<Rightarrow> handle" where
  "new_handle command = \<lparr>ph_command = command, ph_process = None\<rparr>"

text \<open>\<open>self._process is not None and self._process.poll() is None\<close>: no poll without a process.\<close>

definition ph_running :: "os_env \<Rightarrow> (handle \<times> os, bool) meth" where
  "ph_running env =
     (\<lambda>(h, w). case ph_process h of
         None \<Rightarrow> (Inr False, (h, w))
       | Some p \<Rightarrow> (Inr (alive env p w), (h, tick w)))"

definition ph_pid :: "os_env \<Rightarrow> handle \<Rightarrow> int option" where
  "ph_pid env h = map_option (oe_pid env) (ph_process h)"

definition path_text :: "string \<Rightarrow> string" where
  "path_text s = path_str (path_root s) (path_parts s)"

definition ph_spawn :: "os_env \<Rightarrow> (handle \<times> os, unit) meth" where
  "ph_spawn env =
     (\<lambda>(h, w).
        case oe_spawn_error env (os_next w) (ph_command h) of
          Some e \<Rightarrow> (Inl e, (h, tick w))
        | None \<Rightarrow>
            (Inr (), (h\<lparr>ph_process := Some (os_next w)\<rparr>, (tick w)\<lparr>os_next := Suc (os_next w)\<rparr>)))"

definition ph_start :: "os_env \<Rightarrow> (handle \<times> os, unit) meth" where
  "ph_start env =
     m_bind (ph_running env) (\<lambda>running.
       if running then m_raise (RuntimeError ''process already running'')
       else (\<lambda>(h, w).
         case ph_command h of
           [] \<Rightarrow> (Inl IndexError, (h, w))
         | binary # _ \<Rightarrow>
             if \<not> oe_is_file env (os_tick w) (path_text binary) then
               (Inl (FileNotFoundError (''Executable not found: '' @ path_text binary)), (h, w))
             else if \<not> oe_executable env (os_tick w) (path_text binary) then
               (Inl (PermissionError (''Executable is not runnable: '' @ path_text binary)), (h, w))
             else ph_spawn env (h, w)))"

text \<open>
  \<open>terminate()\<close> and \<open>wait(timeout=5.0)\<close>, and after a timeout \<open>kill()\<close> and a second wait, whose
  timeout is raised.
\<close>

definition end_process :: "nat \<Rightarrow> os \<Rightarrow> os" where
  "end_process p w = (tick w)\<lparr>os_dead := p # os_dead w\<rparr>"

definition ph_stop :: "os_env \<Rightarrow> (handle \<times> os, unit) meth" where
  "ph_stop env =
     m_bind (ph_running env) (\<lambda>running (h, w).
       case ph_process h of
         None \<Rightarrow> (Inl (RuntimeError ''process is not running''), (h, w))
       | Some p \<Rightarrow>
           if \<not> running then (Inl (RuntimeError ''process is not running''), (h, w))
           else if oe_term_ends env p then (Inr (), (h, end_process p w))
           else if oe_kill_ends env p then (Inr (), (h, end_process p w))
           else (Inl TimeoutExpired, (h, tick w)))"

text \<open>The idiom \<open>if handle.running: handle.stop()\<close>.\<close>

definition ph_stop_if_running :: "os_env \<Rightarrow> (handle \<times> os, unit) meth" where
  "ph_stop_if_running env =
     m_bind (ph_running env) (\<lambda>running. if running then ph_stop env else m_return ())"

section \<open>What the callers of a handle rely on\<close>

text \<open>The process of a handle is alive now.\<close>

definition ph_alive :: "os_env \<Rightarrow> handle \<times> os \<Rightarrow> bool" where
  "ph_alive env hw = (case ph_process (fst hw) of None \<Rightarrow> False | Some p \<Rightarrow> alive env p (snd hw))"

definition same_process_later :: "handle \<times> os \<Rightarrow> handle \<times> os \<Rightarrow> bool" where
  "same_process_later hw hw' \<longleftrightarrow> ph_process (fst hw') = ph_process (fst hw) \<and> later (snd hw) (snd hw')"

text \<open>
  The contract of a managed process: polling observes whether it is alive, stopping ends it
  or leaves it and raises, and a process that has ended stays so.
\<close>

locale managed_process =
  fixes running :: "('s, bool) meth"
    and stop :: "('s, unit) meth"
    and live :: "'s \<Rightarrow> bool"
    and after :: "'s \<Rightarrow> 's \<Rightarrow> bool"
  assumes running_observes: "running s = (r, s') \<Longrightarrow> r = Inr (live s) \<and> after s s'"
    and stop_ends: "stop s = (Inr (), s') \<Longrightarrow> \<not> live s' \<and> after s s'"
    and stop_raises: "stop s = (Inl e, s') \<Longrightarrow> after s s' \<and>
       (e = RuntimeError ''process is not running'' \<and> \<not> live s \<or> e = TimeoutExpired \<and> live s)"
    and after_refl: "after s s"
    and after_trans: "after s t \<Longrightarrow> after t u \<Longrightarrow> after s u"
    and dead_after: "after s t \<Longrightarrow> \<not> live s \<Longrightarrow> \<not> live t"
begin

definition stop_if_running :: "('s, unit) meth" where
  "stop_if_running = m_bind running (\<lambda>r. if r then stop else m_return ())"

lemma stop_if_running_cases:
  assumes "stop_if_running s = (r, t)"
  obtains (ended) "r = Inr ()" "\<not> live t" "after s t"
    | (raced) "r = Inl (RuntimeError ''process is not running'')" "live s" "\<not> live t" "after s t"
    | (stuck) "r = Inl TimeoutExpired" "live s" "after s t"
proof -
  obtain r1 s1 where 1: "running s = (r1, s1)" by (cases "running s")
  from running_observes [OF this] have r1: "r1 = Inr (live s)" "after s s1" by simp_all
  show thesis
  proof (cases "live s")
    case False
    then have "r = Inr ()" "t = s1" using assms 1 r1 by (simp_all add: stop_if_running_def m_bind_def)
    then show thesis using ended False r1(2) dead_after by blast
  next
    case True
    then have st: "stop s1 = (r, t)" using assms 1 r1 by (simp add: stop_if_running_def m_bind_def)
    have stop_raised: "r = Inl e \<Longrightarrow> after s t \<and>
        (r = Inl (RuntimeError ''process is not running'') \<and> \<not> live t \<or> r = Inl TimeoutExpired)" for e
      using stop_raises [of s1 e t] st after_trans [OF r1(2), of t] dead_after [of s1 t] by fastforce
    show thesis
    proof (cases r)
      case (Inr u)
      then have "\<not> live t \<and> after s1 t" using st stop_ends [of s1 t] by simp
      then show thesis using ended Inr after_trans [OF r1(2)] by simp
    next
      case (Inl e)
      then show thesis
        using stop_raised [OF Inl] raced stuck True by blast
    qed
  qed
qed

lemma stop_if_running_after: "stop_if_running s = (r, t) \<Longrightarrow> after s t"
  by (erule stop_if_running_cases)

end

lemma ph_running_eq:
  "ph_running env (h, w) =
     (Inr (ph_alive env (h, w)), (h, if ph_process h = None then w else tick w))"
  by (simp add: ph_running_def ph_alive_def split: option.split)

lemma later_end_process: "later w (end_process p w)"
  by (auto simp: later_def end_process_def tick_def)

lemma not_alive_end_process: "\<not> alive env p (end_process p w)"
  by (simp add: alive_def end_process_def)

text \<open>Stopping, by what the environment says.\<close>

lemma ph_stop_cases:
  assumes "ph_stop env (h, w) = (r, s')"
  obtains (dead) "r = Inl (RuntimeError ''process is not running'')" "\<not> ph_alive env (h, w)"
      "s' = (h, if ph_process h = None then w else tick w)"
    | (ended) p where "r = Inr ()" "ph_process h = Some p" "alive env p w" "s' = (h, end_process p (tick w))"
        "oe_term_ends env p \<or> oe_kill_ends env p"
    | (stuck) p where "r = Inl TimeoutExpired" "ph_process h = Some p" "alive env p w"
        "s' = (h, tick (tick w))" "\<not> oe_term_ends env p" "\<not> oe_kill_ends env p"
proof (cases "ph_alive env (h, w)")
  case False
  then have "ph_stop env (h, w) = (Inl (RuntimeError ''process is not running''),
      (h, if ph_process h = None then w else tick w))"
    by (simp add: ph_stop_def m_bind_def ph_running_eq split: option.split)
  with assms have "r = Inl (RuntimeError ''process is not running'')"
      "s' = (h, if ph_process h = None then w else tick w)"
    by (simp_all only: prod.inject)
  then show thesis using dead False by blast
next
  case True
  then obtain p where p: "ph_process h = Some p" "alive env p w"
    by (auto simp: ph_alive_def split: option.splits)
  have "ph_stop env (h, w) =
      (if oe_term_ends env p \<or> oe_kill_ends env p then (Inr (), (h, end_process p (tick w)))
       else (Inl TimeoutExpired, (h, tick (tick w))))"
    using True p by (simp add: ph_stop_def m_bind_def ph_running_eq)
  with assms p show thesis
    by (cases "oe_term_ends env p \<or> oe_kill_ends env p") (auto intro: ended stuck)
qed

lemma later_two: "later w (tick (tick w))" "later w (end_process p (tick w))"
  using later_trans [OF later_tick later_tick] later_trans [OF later_tick later_end_process] by blast+

interpretation mp: managed_process "ph_running env" "ph_stop env" "ph_alive env" same_process_later
  for env
proof unfold_locales
  fix s s' :: "handle \<times> os" and r assume "ph_running env s = (r, s')"
  then show "r = Inr (ph_alive env s) \<and> same_process_later s s'"
    by (cases s) (auto simp: ph_running_eq same_process_later_def)
next
  fix s s' :: "handle \<times> os" assume a: "ph_stop env s = (Inr (), s')"
  obtain h w where s: "s = (h, w)" by (cases s)
  from a [unfolded s] show "\<not> ph_alive env s' \<and> same_process_later s s'"
    by (cases rule: ph_stop_cases)
      (simp_all add: s ph_alive_def same_process_later_def later_two not_alive_end_process)
next
  fix s s' :: "handle \<times> os" and e assume a: "ph_stop env s = (Inl e, s')"
  obtain h w where s: "s = (h, w)" by (cases s)
  from a [unfolded s] show "same_process_later s s' \<and>
      (e = RuntimeError ''process is not running'' \<and> \<not> ph_alive env s \<or> e = TimeoutExpired \<and> ph_alive env s)"
    by (cases rule: ph_stop_cases) (simp_all add: s ph_alive_def same_process_later_def later_two)
next
  fix s :: "handle \<times> os" show "same_process_later s s" by (simp add: same_process_later_def)
next
  fix s t u :: "handle \<times> os"
  assume "same_process_later s t" "same_process_later t u"
  then show "same_process_later s u" by (auto simp: same_process_later_def intro: later_trans)
next
  fix s t :: "handle \<times> os"
  assume a: "same_process_later s t" "\<not> ph_alive env s"
  then have "ph_process (fst t) = ph_process (fst s)" "later (snd s) (snd t)"
    by (simp_all add: same_process_later_def)
  with a(2) show "\<not> ph_alive env t"
    by (cases "ph_process (fst s)") (auto simp: ph_alive_def dest: alive_later)
qed

lemma ph_stop_if_running_eq: "ph_stop_if_running env = mp.stop_if_running env"
  by (simp add: ph_stop_if_running_def mp.stop_if_running_def)

end
