(* ===== verification/Config_Layout.thy ===== *)
theory Config_Layout imports Py_Strings begin

text \<open>
  \<open>parse_config_layout\<close> and \<open>load_config_layout\<close> of \<open>python/web_collector.py\<close> over the
  values a YAML file can hold, with every exception a malformed file makes them raise.
\<close>

record camera_layout =
  cl_name :: string
  cl_width :: int
  cl_height :: int

record config_layout =
  lo_cameras :: "camera_layout list"
  lo_imus :: "string list"

text \<open>
  \<open>str(v)\<close> of a YAML value. How a float or a container prints is the parameter \<open>repr\<close>.
\<close>

fun py_str :: "(pyval \<Rightarrow> string) \<Rightarrow> pyval \<Rightarrow> string" where
  "py_str repr PNone = ''None''"
| "py_str repr (PBool b) = (if b then ''True'' else ''False'')"
| "py_str repr (PInt n) = int_str n"
| "py_str repr (PStr s) = s"
| "py_str repr v = repr v"

text \<open>\<open>int(v)\<close>.\<close>

fun py_int :: "pyval \<Rightarrow> int res" where
  "py_int (PBool b) = Inr (if b then 1 else 0)"
| "py_int (PInt n) = Inr n"
| "py_int (PFloat x) = Inr (py_trunc x)"
| "py_int (PStr s) = parse_int s"
| "py_int _ = Inl (TypeError ''int() argument must be a string or a real number'')"

definition parse_camera :: "(pyval \<Rightarrow> string) \<Rightarrow> pyval \<Rightarrow> camera_layout res" where
  "parse_camera repr camera =
     res_bind (py_get camera ''writer'' (PDict [])) (\<lambda>w.
       let writer = py_or w (PDict [])
       in res_bind (py_item camera ''name'') (\<lambda>name.
          res_bind (res_bind (py_item writer ''width'') py_int) (\<lambda>width.
          res_bind (res_bind (py_item writer ''height'') py_int) (\<lambda>height.
            Inr \<lparr>cl_name = py_str repr name, cl_width = width, cl_height = height\<rparr>))))"

definition parse_imu :: "(pyval \<Rightarrow> string) \<Rightarrow> pyval \<Rightarrow> string res" where
  "parse_imu repr imu = res_bind (py_item imu ''name'') (\<lambda>name. Inr (py_str repr name))"

definition parse_config_layout :: "(pyval \<Rightarrow> string) \<Rightarrow> pyval \<Rightarrow> config_layout res" where
  "parse_config_layout repr config_data =
     res_bind (py_get config_data ''cameras'' (PList [])) (\<lambda>cs.
     res_bind (py_iter (py_or cs (PList []))) (\<lambda>cams.
     res_bind (res_map (parse_camera repr) cams) (\<lambda>cameras.
     res_bind (py_get config_data ''imus'' (PList [])) (\<lambda>is.
     res_bind (py_iter (py_or is (PList []))) (\<lambda>imu_list.
     res_bind (res_map (parse_imu repr) imu_list) (\<lambda>imus.
       Inr \<lparr>lo_cameras = cameras, lo_imus = imus\<rparr>))))))"

text \<open>\<open>load\<close> is what opening the file and \<open>yaml.safe_load\<close> return or raise.\<close>

definition load_config_layout ::
    "(pyval \<Rightarrow> string) \<Rightarrow> (string \<Rightarrow> pyval res) \<Rightarrow> string \<Rightarrow> config_layout res" where
  "load_config_layout repr load config_path =
     res_bind (load config_path) (\<lambda>data. parse_config_layout repr (py_or data (PDict [])))"

section \<open>What a well-formed file parses to\<close>

text \<open>The YAML document of a layout: the shape the configuration files have.\<close>

definition camera_doc :: "camera_layout \<Rightarrow> pyval" where
  "camera_doc c =
     PDict [(''name'', PStr (cl_name c)),
            (''writer'', PDict [(''width'', PInt (cl_width c)), (''height'', PInt (cl_height c))])]"

definition layout_doc :: "config_layout \<Rightarrow> pyval" where
  "layout_doc l =
     PDict [(''cameras'', PList (map camera_doc (lo_cameras l))),
            (''imus'', PList (map (\<lambda>i. PDict [(''name'', PStr i)]) (lo_imus l)))]"

lemma parse_camera_doc: "parse_camera repr (camera_doc c) = Inr c"
  by (simp add: parse_camera_def camera_doc_def py_or_def)

lemma py_or_list: "py_or (PList xs) (PList []) = PList xs"
  by (simp add: py_or_def)

lemma res_map_cong_Inr: "(\<And>x. x \<in> set xs \<Longrightarrow> f (g x) = Inr x) \<Longrightarrow> res_map f (map g xs) = Inr xs"
  by (induction xs) simp_all

lemma parse_layout_doc: "parse_config_layout repr (layout_doc l) = Inr l"
  by (simp add: parse_config_layout_def layout_doc_def py_or_list res_map_cong_Inr
      parse_camera_doc parse_imu_def)

text \<open>An entry without a size or a name is refused, and nothing is filled in for it.\<close>

lemma parse_config_length:
  assumes "parse_config_layout repr (PDict kvs) = Inr l"
    and "map_of kvs ''cameras'' = Some (PList cs)"
  shows "list_all2 (\<lambda>c k. parse_camera repr c = Inr k) cs (lo_cameras l)"
  using assms by (auto simp: parse_config_layout_def res_bind_Inr_iff py_or_list res_map_Inr_iff)

lemma parse_camera_Inr:
  assumes "parse_camera repr v = Inr c"
  shows "\<exists>kvs ws n w h. v = PDict kvs \<and> map_of kvs ''name'' = Some n \<and> cl_name c = py_str repr n \<and>
     map_of kvs ''writer'' = Some (PDict ws) \<and> map_of ws ''width'' = Some w \<and> py_int w = Inr (cl_width c) \<and>
     map_of ws ''height'' = Some h \<and> py_int h = Inr (cl_height c)"
proof (cases v)
  case (PDict kvs)
  obtain wr where wr: "py_get v ''writer'' (PDict []) = Inr wr" using PDict by simp
  then obtain n w h where
    items: "py_item v ''name'' = Inr n" "py_item (py_or wr (PDict [])) ''width'' = Inr w"
      "py_item (py_or wr (PDict [])) ''height'' = Inr h"
      "c = \<lparr>cl_name = py_str repr n, cl_width = cl_width c, cl_height = cl_height c\<rparr>"
      "py_int w = Inr (cl_width c)" "py_int h = Inr (cl_height c)"
    using assms by (auto simp: parse_camera_def Let_def res_bind_Inr_iff)
  then obtain ws where ws: "py_or wr (PDict []) = PDict ws" "map_of ws ''width'' = Some w"
      "map_of ws ''height'' = Some h"
    by (cases "py_or wr (PDict [])") (auto split: option.splits)
  then have "map_of kvs ''writer'' = Some (PDict ws)"
    using wr PDict by (auto simp: py_or_def split: if_splits option.splits)
  moreover have "map_of kvs ''name'' = Some n" using items(1) PDict by (simp split: option.splits)
  moreover have "cl_name c = py_str repr n" using items(4) by (cases c) simp
  ultimately show ?thesis using PDict ws items(5,6) by blast
qed (use assms in \<open>simp_all add: parse_camera_def\<close>)

text \<open>
  C6. Loading a layout: the document of any layout loads as that layout (cameras and IMUs in
  file order, sizes as they are), and a file that loads gave every camera a name and a
  writer with a width and a height; a camera without them makes the load raise instead of
  being skipped or given a default.
\<close>

theorem config_layout_roundtrip_and_strict:
  "parse_config_layout repr (layout_doc l) = Inr l \<and>
   (map_of kvs ''cameras'' = Some (PList cs) \<and> parse_config_layout repr (PDict kvs) = Inr k \<longrightarrow>
      length (lo_cameras k) = length cs \<and>
      (\<forall>i < length cs. \<exists>ckvs ws n w h. cs ! i = PDict ckvs \<and> map_of ckvs ''name'' = Some n \<and>
         cl_name (lo_cameras k ! i) = py_str repr n \<and> map_of ckvs ''writer'' = Some (PDict ws) \<and>
         map_of ws ''width'' = Some w \<and> py_int w = Inr (cl_width (lo_cameras k ! i)) \<and>
         map_of ws ''height'' = Some h \<and> py_int h = Inr (cl_height (lo_cameras k ! i))))"
proof (intro conjI impI)
  show "parse_config_layout repr (layout_doc l) = Inr l" by (rule parse_layout_doc)
  assume "map_of kvs ''cameras'' = Some (PList cs) \<and> parse_config_layout repr (PDict kvs) = Inr k"
  then have all: "list_all2 (\<lambda>c k. parse_camera repr c = Inr k) cs (lo_cameras k)"
    using parse_config_length by blast
  then show "length (lo_cameras k) = length cs" by (simp add: list_all2_lengthD)
  show "\<forall>i < length cs. \<exists>ckvs ws n w h. cs ! i = PDict ckvs \<and> map_of ckvs ''name'' = Some n \<and>
         cl_name (lo_cameras k ! i) = py_str repr n \<and> map_of ckvs ''writer'' = Some (PDict ws) \<and>
         map_of ws ''width'' = Some w \<and> py_int w = Inr (cl_width (lo_cameras k ! i)) \<and>
         map_of ws ''height'' = Some h \<and> py_int h = Inr (cl_height (lo_cameras k ! i))"
    using parse_camera_Inr list_all2_nthD [OF all] by blast
qed

lemma config_layout_roundtrip_and_strict_witness:
  "\<exists>ckvs ws n w h. camera_doc \<lparr>cl_name = ''rgb'', cl_width = 640, cl_height = 480\<rparr> = PDict ckvs \<and>
     map_of ckvs ''name'' = Some n \<and> ''rgb'' = py_str (\<lambda>_. []) n \<and>
     map_of ckvs ''writer'' = Some (PDict ws) \<and> map_of ws ''width'' = Some w \<and> py_int w = Inr 640 \<and>
     map_of ws ''height'' = Some h \<and> py_int h = Inr 480"
proof -
  let ?c = "\<lparr>cl_name = ''rgb'', cl_width = 640, cl_height = 480\<rparr>"
  let ?l = "\<lparr>lo_cameras = [?c], lo_imus = []\<rparr>"
  let ?kvs = "[(''cameras'', PList [camera_doc ?c]), (''imus'', PList [])]"
  have "parse_config_layout (\<lambda>_. []) (PDict ?kvs) = Inr ?l"
    using parse_layout_doc [of "\<lambda>_. []" ?l] by (simp add: layout_doc_def)
  moreover have "map_of ?kvs ''cameras'' = Some (PList [camera_doc ?c])" by simp
  ultimately show ?thesis
    using conjunct2 [OF config_layout_roundtrip_and_strict
        [of "\<lambda>_. []" ?l ?kvs "[camera_doc ?c]" ?l]] by simp
qed

end
