(* ===== verification/Data_Collector.thy ===== *)
theory Data_Collector imports Running_Stats Log_Path Shm_Probe Frame_Serving Process_Handle Config_Layout begin

text \<open>
  \<open>DataCollectorState\<close> of \<open>python/web_collector.py\<close>: the object behind the web server. Every
  public operation runs under one reentrant lock, so it is one method here; the operating
  system is part of the state, and processes may exit between any two polls.
\<close>

section \<open>State and environment\<close>

record 'r collector =
  co_config_path :: string
  co_log_dir :: string
  co_layout :: config_layout
  co_cameras :: "'r sensor list"
  co_imus :: "'r sensor list"
  co_probe_names :: "string list"
  co_readers_initialized :: bool
  co_main_app_started :: bool
  co_fatal_error :: "string option"
  co_camera_rate_stats :: running_stats
  co_imu_rate_stats :: running_stats
  co_main :: handle
  co_logger :: handle
  co_current_log_path :: "string option"
  co_stop_set :: bool
  co_thread :: bool
  co_os :: os

text \<open>
  What the state asks of the outside: the operating system, the YAML file, the directory
  listing, the date, the shared memory file, the module \<open>core\<close> and its readers. What can
  change with time takes the current tick.
\<close>

record 'r collector_env =
  ce_os :: os_env
  ce_repr :: "pyval \<Rightarrow> string"
  ce_repo_root :: string
  ce_load :: "nat \<Rightarrow> string \<Rightarrow> pyval res"
  ce_listing :: "nat \<Rightarrow> string \<Rightarrow> dir_listing"
  ce_today :: "nat \<Rightarrow> string"
  ce_shm :: "nat \<Rightarrow> shm_file"
  ce_core_module :: "nat \<Rightarrow> unit res"
  ce_make_reader :: "nat \<Rightarrow> string \<Rightarrow> string \<Rightarrow> 'r option res"
  ce_read :: "nat \<Rightarrow> 'r \<Rightarrow> reading res"

definition on_main :: "(handle \<times> os, 'a) meth \<Rightarrow> ('r collector, 'a) meth" where
  "on_main m c = (case m (co_main c, co_os c) of (r, (h, w)) \<Rightarrow> (r, c\<lparr>co_main := h, co_os := w\<rparr>))"

definition on_logger :: "(handle \<times> os, 'a) meth \<Rightarrow> ('r collector, 'a) meth" where
  "on_logger m c = (case m (co_logger c, co_os c) of (r, (h, w)) \<Rightarrow> (r, c\<lparr>co_logger := h, co_os := w\<rparr>))"

definition main_running :: "'r collector_env \<Rightarrow> ('r collector, bool) meth" where
  "main_running env = on_main (ph_running (ce_os env))"

definition logger_running :: "'r collector_env \<Rightarrow> ('r collector, bool) meth" where
  "logger_running env = on_logger (ph_running (ce_os env))"

text \<open>\<open>_core_binary_path\<close> and \<open>_logger_binary_path\<close>.\<close>

definition core_binary_path :: "'r collector_env \<Rightarrow> string" where
  "core_binary_path env = path_join (path_join (ce_repo_root env) ''build'') ''core-main''"

definition logger_binary_path :: "'r collector_env \<Rightarrow> string" where
  "logger_binary_path env = path_join (path_join (ce_repo_root env) ''build'') ''core-log''"

section \<open>Construction, layout and reset\<close>

definition load_layout :: "'r collector_env \<Rightarrow> string \<Rightarrow> ('r collector, unit) meth" where
  "load_layout env config_path c =
     (case load_config_layout (ce_repr env) (ce_load env (os_tick (co_os c))) config_path of
        Inl e \<Rightarrow> (Inl e, c)
      | Inr layout \<Rightarrow>
          (Inr (),
           c\<lparr>co_layout := layout,
             co_cameras := map (\<lambda>cam. new_sensor (cl_name cam) ''camera''
                                        (Some (cl_width cam)) (Some (cl_height cam))) (lo_cameras layout),
             co_imus := map (\<lambda>imu. new_sensor imu ''imu'' None None) (lo_imus layout),
             co_probe_names := map cl_name (lo_cameras layout) @ lo_imus layout,
             co_readers_initialized := False,
             co_config_path := config_path\<rparr>))"

definition new_collector ::
    "'r collector_env \<Rightarrow> string \<Rightarrow> string \<Rightarrow> os \<Rightarrow> 'r collector res" where
  "new_collector env config_path log_dir w =
     (let log_path = next_log_path log_dir (ce_listing env (os_tick w) log_dir) (ce_today env (os_tick w));
          c = \<lparr>co_config_path = config_path, co_log_dir = log_dir,
               co_layout = \<lparr>lo_cameras = [], lo_imus = []\<rparr>, co_cameras = [], co_imus = [],
               co_probe_names = [], co_readers_initialized = False, co_main_app_started = False,
               co_fatal_error = None, co_camera_rate_stats = rs_zero, co_imu_rate_stats = rs_zero,
               co_main = new_handle [core_binary_path env, config_path],
               co_logger = new_handle [logger_binary_path env, config_path, log_path],
               co_current_log_path = None, co_stop_set = False, co_thread = False, co_os = w\<rparr>
      in case load_layout env config_path c of (Inl e, _) \<Rightarrow> Inl e | (Inr _, c') \<Rightarrow> Inr c')"

definition reset_runtime_state :: "'r collector \<Rightarrow> 'r collector" where
  "reset_runtime_state c =
     c\<lparr>co_readers_initialized := False,
       co_camera_rate_stats := rs_reset (co_camera_rate_stats c),
       co_imu_rate_stats := rs_reset (co_imu_rate_stats c),
       co_cameras := map sensor_reset (co_cameras c),
       co_imus := map sensor_reset (co_imus c)\<rparr>"

definition refresh_layout_if_needed :: "'r collector_env \<Rightarrow> string \<Rightarrow> ('r collector, unit) meth" where
  "refresh_layout_if_needed env config_path c =
     (if config_path \<noteq> co_config_path c then load_layout env config_path c else (Inr (), c))"

section \<open>Readers\<close>

definition reader_unavailable :: "string \<Rightarrow> string \<Rightarrow> py_error" where
  "reader_unavailable kind name =
     RuntimeError (''shared memory reader unavailable for '' @ kind @ '' '' @ [CHR 0x27] @ name @ [CHR 0x27])"

fun attach_readers ::
    "string \<Rightarrow> (string \<Rightarrow> 'r option res) \<Rightarrow> ('r sensor list, unit) meth" where
  "attach_readers kind mk [] = (Inr (), [])"
| "attach_readers kind mk (s # ss) =
     (case mk (se_name s) of
        Inl e \<Rightarrow> (Inl e, s # ss)
      | Inr None \<Rightarrow> (Inl (reader_unavailable kind (se_name s)), s # ss)
      | Inr (Some reader) \<Rightarrow>
          (case attach_readers kind mk ss of (r, ss') \<Rightarrow> (r, attach_reader reader s # ss')))"

definition make_readers :: "'r collector_env \<Rightarrow> ('r collector, unit) meth" where
  "make_readers env c =
     (let mk = ce_make_reader env (os_tick (co_os c)) (co_config_path c)
      in case ce_core_module env (os_tick (co_os c)) of
           Inl e \<Rightarrow> (Inl e, c)
         | Inr _ \<Rightarrow>
           (case attach_readers ''camera'' mk (co_cameras c) of
              (Inl e, cams) \<Rightarrow> (Inl e, c\<lparr>co_cameras := cams\<rparr>)
            | (Inr _, cams) \<Rightarrow>
              (case attach_readers ''IMU'' mk (co_imus c) of
                 (Inl e, imus) \<Rightarrow> (Inl e, c\<lparr>co_cameras := cams, co_imus := imus\<rparr>)
               | (Inr _, imus) \<Rightarrow>
                   (Inr (), c\<lparr>co_cameras := cams, co_imus := imus, co_readers_initialized := True\<rparr>))))"

definition ensure_readers_initialized :: "'r collector_env \<Rightarrow> ('r collector, unit) meth" where
  "ensure_readers_initialized env c =
     (if co_readers_initialized c \<or> co_fatal_error c \<noteq> None then (Inr (), c)
      else m_bind (main_running env) (\<lambda>running c.
             if \<not> running then (Inr (), c)
             else case probe_ready (co_probe_names c) (ce_shm env (os_tick (co_os c))) of
                    Inl e \<Rightarrow> (Inl e, c)
                  | Inr ready \<Rightarrow> if \<not> ready then (Inr (), c) else make_readers env c) c)"

text \<open>\<open>if handle.running: try: handle.stop() except Exception: pass\<close>.\<close>

definition stop_quietly :: "os_env \<Rightarrow> (handle \<times> os, unit) meth" where
  "stop_quietly env =
     m_bind (ph_running env) (\<lambda>running.
       if running then m_catch (ph_stop env) (\<lambda>_. m_return ()) else m_return ())"

definition mark_fatal_error :: "'r collector_env \<Rightarrow> string \<Rightarrow> ('r collector, unit) meth" where
  "mark_fatal_error env message =
     m_seq (m_modify (\<lambda>c. reset_runtime_state
              (c\<lparr>co_fatal_error := Some message, co_main_app_started := False\<rparr>)))
       (m_seq (on_logger (stop_quietly (ce_os env))) (on_main (stop_quietly (ce_os env))))"

section \<open>The collecting pass\<close>

fun update_sensors ::
    "('r \<Rightarrow> reading res) \<Rightarrow> ('r sensor list \<times> running_stats, unit) meth" where
  "update_sensors rd ([], stats) = (Inr (), ([], stats))"
| "update_sensors rd (s # ss, stats) =
     (case sensor_update rd s of
        (Inl e, s') \<Rightarrow> (Inl e, (s' # ss, stats))
      | (Inr updated, s') \<Rightarrow>
          (let stats' = (if updated
                         then case (se_last_rate_hz s', se_last_sample_count s') of
                                (Some rate, Some sample_count) \<Rightarrow> rs_add rate sample_count stats
                              | _ \<Rightarrow> stats
                         else stats)
           in case update_sensors rd (ss, stats') of
                (r, (ss', stats'')) \<Rightarrow> (r, (s' # ss', stats''))))"

definition update_cameras :: "'r collector_env \<Rightarrow> ('r collector, unit) meth" where
  "update_cameras env c =
     (case update_sensors (ce_read env (os_tick (co_os c))) (co_cameras c, co_camera_rate_stats c) of
        (r, (cams, stats)) \<Rightarrow> (r, c\<lparr>co_cameras := cams, co_camera_rate_stats := stats\<rparr>))"

definition update_imus :: "'r collector_env \<Rightarrow> ('r collector, unit) meth" where
  "update_imus env c =
     (case update_sensors (ce_read env (os_tick (co_os c))) (co_imus c, co_imu_rate_stats c) of
        (r, (imus, stats)) \<Rightarrow> (r, c\<lparr>co_imus := imus, co_imu_rate_stats := stats\<rparr>))"

text \<open>
  \<open>initialize_or_fail\<close> is the first half of the pass; its answer says that the pass returns
  after marking a fatal error.
\<close>

definition initialize_or_fail :: "'r collector_env \<Rightarrow> ('r collector, bool) meth" where
  "initialize_or_fail env =
     m_bind (main_running env) (\<lambda>running c.
       if running \<and> \<not> co_readers_initialized c
       then m_catch (m_seq (ensure_readers_initialized env) (m_return False))
              (\<lambda>error. m_seq (mark_fatal_error env (error_text error)) (m_return True)) c
       else (Inr False, c))"

definition collect_once :: "'r collector_env \<Rightarrow> ('r collector, unit) meth" where
  "collect_once env c =
     (if co_fatal_error c \<noteq> None then (Inr (), c)
      else m_bind (initialize_or_fail env) (\<lambda>failed c.
             if failed \<or> \<not> co_readers_initialized c then (Inr (), c)
             else m_seq (update_cameras env) (update_imus env) c) c)"

text \<open>One turn of \<open>_collector_loop\<close>: the exception of a pass is swallowed.\<close>

definition collector_turn :: "'r collector_env \<Rightarrow> ('r collector, unit) meth" where
  "collector_turn env c =
     (if co_stop_set c then (Inr (), c) else m_catch (collect_once env) (\<lambda>_. m_return ()) c)"

section \<open>Snapshots\<close>

record process_view =
  pv_running :: bool
  pv_pid :: "int option"

record stream_view =
  sv_name :: string
  sv_ready :: bool
  sv_timestamp_ns :: "int option"
  sv_sequence :: "int option"
  sv_dt_s :: "real option"
  sv_rate_hz :: "real option"
  sv_sample_count :: "int option"
  sv_sample :: "u32 list option"

record snapshot_view =
  st_config_path :: string
  st_log_dir :: string
  st_log_path :: "string option"
  st_shared_memory_ready :: bool
  st_fatal_error :: "string option"
  st_main_app :: process_view
  st_logging :: process_view
  st_cameras :: "stream_view list"
  st_imus :: "stream_view list"
  st_dt_cameras :: stats_snapshot
  st_dt_imus :: stats_snapshot

definition camera_view :: "'r sensor \<Rightarrow> stream_view" where
  "camera_view s =
     (let snap = sensor_snapshot s
      in \<lparr>sv_name = ss_name snap, sv_ready = ss_ready snap, sv_timestamp_ns = ss_timestamp_ns snap,
          sv_sequence = ss_sequence snap, sv_dt_s = ss_dt_s snap,
          sv_rate_hz = pl_rate_hz (ss_payload snap), sv_sample_count = pl_sample_count (ss_payload snap),
          sv_sample = None\<rparr>)"

definition imu_view :: "'r sensor \<Rightarrow> stream_view" where
  "imu_view s =
     (let snap = sensor_snapshot s
      in \<lparr>sv_name = ss_name snap, sv_ready = ss_ready snap, sv_timestamp_ns = ss_timestamp_ns snap,
          sv_sequence = ss_sequence snap, sv_dt_s = ss_dt_s snap,
          sv_rate_hz = pl_rate_hz (ss_payload snap), sv_sample_count = pl_sample_count (ss_payload snap),
          sv_sample = pl_sample (ss_payload snap)\<rparr>)"

definition camera_snapshots :: "'r collector \<Rightarrow> stream_view list" where
  "camera_snapshots c = map camera_view (co_cameras c)"

definition imu_snapshots :: "'r collector \<Rightarrow> stream_view list" where
  "imu_snapshots c = map imu_view (co_imus c)"

text \<open>The first statement of \<open>snapshot\<close>: notice that the application exited too early.\<close>

definition detect_early_exit :: "'r collector_env \<Rightarrow> ('r collector, unit) meth" where
  "detect_early_exit env c =
     (if co_fatal_error c \<noteq> None \<or> \<not> co_main_app_started c then (Inr (), c)
      else m_bind (main_running env) (\<lambda>running c.
             if running \<or> co_readers_initialized c then (Inr (), c)
             else m_seq (m_modify (\<lambda>c. c\<lparr>co_fatal_error :=
                     Some ''main application exited before shared memory became ready''\<rparr>))
                   (on_logger (ph_stop_if_running (ce_os env))) c) c)"

definition view_main :: "'r collector_env \<Rightarrow> ('r collector, process_view) meth" where
  "view_main env =
     m_bind (main_running env) (\<lambda>running c.
       (Inr \<lparr>pv_running = running, pv_pid = ph_pid (ce_os env) (co_main c)\<rparr>, c))"

definition view_logger :: "'r collector_env \<Rightarrow> ('r collector, process_view) meth" where
  "view_logger env =
     m_bind (logger_running env) (\<lambda>running c.
       (Inr \<lparr>pv_running = running, pv_pid = ph_pid (ce_os env) (co_logger c)\<rparr>, c))"

definition shown_log_path :: "'r collector_env \<Rightarrow> 'r collector \<Rightarrow> string option" where
  "shown_log_path env c =
     (case co_current_log_path c of
        Some path \<Rightarrow> Some path
      | None \<Rightarrow>
          (let t = os_tick (co_os c); listing = ce_listing env t (co_log_dir c)
           in if listing \<noteq> None then Some (next_log_path (co_log_dir c) listing (ce_today env t))
              else None))"

definition collector_snapshot :: "'r collector_env \<Rightarrow> ('r collector, snapshot_view) meth" where
  "collector_snapshot env =
     m_seq (detect_early_exit env)
       (m_bind (m_gets (shown_log_path env)) (\<lambda>log_path.
        m_bind (view_main env) (\<lambda>main_app.
        m_bind (view_logger env) (\<lambda>logging c.
          (Inr \<lparr>st_config_path = co_config_path c, st_log_dir = co_log_dir c, st_log_path = log_path,
                st_shared_memory_ready = co_readers_initialized c, st_fatal_error = co_fatal_error c,
                st_main_app = main_app, st_logging = logging, st_cameras = camera_snapshots c,
                st_imus = imu_snapshots c, st_dt_cameras = rs_snapshot (co_camera_rate_stats c),
                st_dt_imus = rs_snapshot (co_imu_rate_stats c)\<rparr>, c)))))"

text \<open>\<open>camera_snapshot\<close>: without the early exit, the log path, the IMUs and the rates.\<close>

record camera_snapshot_view =
  cv_config_path :: string
  cv_log_dir :: string
  cv_shared_memory_ready :: bool
  cv_fatal_error :: "string option"
  cv_main_app :: process_view
  cv_logging :: process_view
  cv_cameras :: "stream_view list"

definition camera_snapshot :: "'r collector_env \<Rightarrow> ('r collector, camera_snapshot_view) meth" where
  "camera_snapshot env =
     m_bind (view_main env) (\<lambda>main_app.
     m_bind (view_logger env) (\<lambda>logging c.
       (Inr \<lparr>cv_config_path = co_config_path c, cv_log_dir = co_log_dir c,
             cv_shared_memory_ready = co_readers_initialized c, cv_fatal_error = co_fatal_error c,
             cv_main_app = main_app, cv_logging = logging, cv_cameras = camera_snapshots c\<rparr>, c)))"

text \<open>\<open>camera_frame\<close>: the first camera of that name serves its frame.\<close>

fun find_frame :: "imencode \<Rightarrow> string \<Rightarrow> ('r sensor list, byte list option) meth" where
  "find_frame enc name [] = (Inr None, [])"
| "find_frame enc name (s # ss) =
     (if se_name s = name
      then (case camera_frame_bytes enc s of (r, s') \<Rightarrow> (r, s' # ss))
      else (case find_frame enc name ss of (r, ss') \<Rightarrow> (r, s # ss')))"

definition camera_frame :: "imencode \<Rightarrow> string \<Rightarrow> ('r collector, byte list option) meth" where
  "camera_frame enc name c =
     (case find_frame enc name (co_cameras c) of (r, cams) \<Rightarrow> (r, c\<lparr>co_cameras := cams\<rparr>))"

section \<open>The commands\<close>

definition start_main_app :: "'r collector_env \<Rightarrow> string \<Rightarrow> ('r collector, snapshot_view) meth" where
  "start_main_app env config_path =
     m_bind (main_running env) (\<lambda>running.
       if running then m_raise (RuntimeError ''main application is already running'')
       else m_seq (refresh_layout_if_needed env config_path)
             (m_seq (m_modify (\<lambda>c. reset_runtime_state (c\<lparr>co_fatal_error := None\<rparr>)))
              (m_seq (m_modify (\<lambda>c. c\<lparr>co_main := new_handle [core_binary_path env, config_path]\<rparr>))
               (m_seq (on_main (ph_start (ce_os env)))
                (m_seq (m_modify (\<lambda>c. c\<lparr>co_main_app_started := True\<rparr>))
                 (collector_snapshot env))))))"

definition stop_main_app :: "'r collector_env \<Rightarrow> ('r collector, snapshot_view) meth" where
  "stop_main_app env =
     m_bind (logger_running env) (\<lambda>running.
       if running then m_raise (RuntimeError ''stop logging before stopping the main application'')
       else m_seq (on_main (ph_stop (ce_os env)))
             (m_seq (m_modify (\<lambda>c. reset_runtime_state (c\<lparr>co_main_app_started := False\<rparr>)))
              (collector_snapshot env)))"

text \<open>The readers for a recording: a failure is fatal, and raised again.\<close>

definition ensure_readers_or_fail :: "'r collector_env \<Rightarrow> ('r collector, unit) meth" where
  "ensure_readers_or_fail env =
     m_catch (ensure_readers_initialized env)
       (\<lambda>error. m_seq (mark_fatal_error env (error_text error)) (m_raise error))"

definition begin_recording :: "'r collector_env \<Rightarrow> string \<Rightarrow> string \<Rightarrow> ('r collector, snapshot_view) meth" where
  "begin_recording env config_path log_dir =
     m_seq (m_modify (\<lambda>c. c\<lparr>co_log_dir := log_dir\<rparr>))
      (m_bind (m_gets (\<lambda>c. next_log_path log_dir (ce_listing env (os_tick (co_os c)) log_dir)
                                         (ce_today env (os_tick (co_os c))))) (\<lambda>output_path.
       m_seq (m_modify (\<lambda>c. c\<lparr>co_logger := new_handle [logger_binary_path env, config_path, output_path]\<rparr>))
        (m_seq (on_logger (ph_start (ce_os env)))
         (m_seq (m_modify (\<lambda>c. c\<lparr>co_current_log_path := Some output_path\<rparr>))
          (m_bind (collector_snapshot env) (\<lambda>snap.
             m_return (snap\<lparr>st_log_path := Some output_path\<rparr>)))))))"

definition start_logging ::
    "'r collector_env \<Rightarrow> string \<Rightarrow> string \<Rightarrow> ('r collector, snapshot_view) meth" where
  "start_logging env config_path log_dir =
     m_bind (main_running env) (\<lambda>running.
       if \<not> running then m_raise (RuntimeError ''start the main application before logging'')
       else m_bind (logger_running env) (\<lambda>logging c.
         if logging then (Inl (RuntimeError ''logging is already running''), c)
         else if config_path \<noteq> co_config_path c then
           (Inl (RuntimeError ''logging config must match the running application config''), c)
         else if ce_listing env (os_tick (co_os c)) log_dir = None then
           (Inl (RuntimeError (''log directory does not exist: '' @ log_dir)), c)
         else m_seq (ensure_readers_or_fail env) (\<lambda>c.
                if \<not> co_readers_initialized c then
                  (Inl (RuntimeError ''shared memory is not ready yet''), c)
                else begin_recording env config_path log_dir c) c))"

definition stop_logging :: "'r collector_env \<Rightarrow> ('r collector, snapshot_view) meth" where
  "stop_logging env =
     m_seq (on_logger (ph_stop (ce_os env)))
       (m_seq (m_modify (\<lambda>c. c\<lparr>co_current_log_path := None\<rparr>)) (collector_snapshot env))"

definition stop_all :: "'r collector_env \<Rightarrow> ('r collector, unit) meth" where
  "stop_all env =
     m_seq (on_logger (ph_stop_if_running (ce_os env)))
      (m_seq (on_main (ph_stop_if_running (ce_os env)))
       (m_modify (\<lambda>c. reset_runtime_state
          (c\<lparr>co_current_log_path := None, co_main_app_started := False\<rparr>))))"

definition start_background_collection :: "('r collector, unit) meth" where
  "start_background_collection = m_modify (\<lambda>c. c\<lparr>co_thread := True\<rparr>)"

definition close_collector :: "'r collector_env \<Rightarrow> ('r collector, unit) meth" where
  "close_collector env =
     m_seq (m_modify (\<lambda>c. c\<lparr>co_stop_set := True, co_thread := False\<rparr>)) (stop_all env)"

end
