(* ===== verification/Collector_Invariants.thy ===== *)
theory Collector_Invariants imports Data_Collector begin

text \<open>
  What every operation of \<open>DataCollectorState\<close> keeps: the relation between the layout, the
  sensors, the fatal error and the readers (\<open>data_inv\<close>), and the ownership of the
  processes it has started (\<open>procs_inv\<close>). Each operation has one lemma for each.
\<close>

section \<open>Sensors, readers and the fatal error\<close>

definition blank :: "'r sensor \<Rightarrow> bool" where
  "blank s \<longleftrightarrow> sensor_reset s = s"

definition camera_slots :: "'r collector \<Rightarrow> camera_layout list" where
  "camera_slots c = lo_cameras (co_layout c)"

text \<open>The sensors are those of the layout, and the probe expects their names.\<close>

definition camera_fits :: "camera_layout \<Rightarrow> 'r sensor \<Rightarrow> bool" where
  "camera_fits l s \<longleftrightarrow> se_name s = cl_name l \<and> se_kind s = ''camera'' \<and>
     se_width s = Some (cl_width l) \<and> se_height s = Some (cl_height l)"

definition imu_fits :: "string \<Rightarrow> 'r sensor \<Rightarrow> bool" where
  "imu_fits n s \<longleftrightarrow> se_name s = n \<and> se_kind s = ''imu''"

definition shape_inv :: "'r collector \<Rightarrow> bool" where
  "shape_inv c \<longleftrightarrow>
     list_all2 camera_fits (lo_cameras (co_layout c)) (co_cameras c) \<and>
     list_all2 imu_fits (lo_imus (co_layout c)) (co_imus c) \<and>
     co_probe_names c = map cl_name (lo_cameras (co_layout c)) @ lo_imus (co_layout c) \<and>
     list_all sensor_inv (co_cameras c) \<and> list_all sensor_inv (co_imus c)"

definition data_inv :: "'r collector \<Rightarrow> bool" where
  "data_inv c \<longleftrightarrow>
     shape_inv c \<and>
     (co_fatal_error c \<noteq> None \<longrightarrow> \<not> co_readers_initialized c) \<and>
     (if co_readers_initialized c
      then list_all (\<lambda>s. se_reader s \<noteq> None) (co_cameras c) \<and> list_all (\<lambda>s. se_reader s \<noteq> None) (co_imus c)
      else list_all blank (co_cameras c) \<and> list_all blank (co_imus c) \<and>
           co_camera_rate_stats c = rs_zero \<and> co_imu_rate_stats c = rs_zero)"

lemma blank_reset [simp]: "blank (sensor_reset s)"
  by (simp add: blank_def sensor_reset_def)

lemma blank_new [simp]: "blank (new_sensor n k w h)"
  by (simp add: blank_def sensor_reset_def new_sensor_def)

lemma fits_ops [simp]:
  "camera_fits l (sensor_reset s) = camera_fits l s" "imu_fits n (sensor_reset s) = imu_fits n s"
  "camera_fits l (attach_reader r s) = camera_fits l s" "imu_fits n (attach_reader r s) = imu_fits n s"
  "camera_fits l (frame_commit q f b s) = camera_fits l s" "imu_fits n (frame_commit q f b s) = imu_fits n s"
  by (simp_all add: camera_fits_def imu_fits_def sensor_reset_def attach_reader_def frame_commit_def)

lemma fits_update:
  "sensor_update rd s = (r, s') \<Longrightarrow>
   camera_fits l s' = camera_fits l s \<and> imu_fits n s' = imu_fits n s \<and> se_reader s' = se_reader s"
  using update_frame [of rd s r s'] by (simp add: camera_fits_def imu_fits_def)

lemma rs_reset_zero [simp]: "rs_reset s = rs_zero"
  by (simp add: rs_reset_def rs_zero_def)

text \<open>The invariants do not look at the processes, the lock-free flags and the paths.\<close>

lemma data_inv_frame [simp]:
  "data_inv (c\<lparr>co_main := h, co_os := w\<rparr>) = data_inv c"
  "data_inv (c\<lparr>co_logger := h, co_os := w\<rparr>) = data_inv c"
  "data_inv (c\<lparr>co_main := h\<rparr>) = data_inv c" "data_inv (c\<lparr>co_logger := h\<rparr>) = data_inv c"
  "data_inv (c\<lparr>co_os := w\<rparr>) = data_inv c" "data_inv (c\<lparr>co_main_app_started := b\<rparr>) = data_inv c"
  "data_inv (c\<lparr>co_log_dir := d\<rparr>) = data_inv c" "data_inv (c\<lparr>co_current_log_path := p\<rparr>) = data_inv c"
  "data_inv (c\<lparr>co_thread := b\<rparr>) = data_inv c"
  "data_inv (c\<lparr>co_stop_set := b', co_thread := b\<rparr>) = data_inv c"
  "data_inv (c\<lparr>co_stop_set := b'\<rparr>) = data_inv c"
  by (simp_all add: data_inv_def shape_inv_def)

lemma shape_inv_frame [simp]:
  "shape_inv (c\<lparr>co_main := h, co_os := w\<rparr>) = shape_inv c"
  "shape_inv (c\<lparr>co_logger := h, co_os := w\<rparr>) = shape_inv c"
  "shape_inv (c\<lparr>co_fatal_error := e\<rparr>) = shape_inv c"
  "shape_inv (c\<lparr>co_fatal_error := e, co_main_app_started := b\<rparr>) = shape_inv c"
  "shape_inv (c\<lparr>co_main_app_started := b\<rparr>) = shape_inv c"
  "shape_inv (c\<lparr>co_current_log_path := p, co_main_app_started := b\<rparr>) = shape_inv c"
  by (simp_all add: shape_inv_def)

lemma data_inv_shape: "data_inv c \<Longrightarrow> shape_inv c"
  by (simp add: data_inv_def)

lemma list_all2_map_right: "(\<And>x y. P x (f y) = P x y) \<Longrightarrow> list_all2 P xs (map f ys) = list_all2 P xs ys"
  by (auto simp: list_all2_conv_all_nth)

lemma data_inv_reset: "shape_inv c \<Longrightarrow> data_inv (reset_runtime_state c)"
  by (simp add: data_inv_def shape_inv_def reset_runtime_state_def list_all2_map_right
      list_all_iff sensor_inv_reset)

lemma keeps_on_main: "(\<And>c h w. P (c\<lparr>co_main := h, co_os := w\<rparr>) = P c) \<Longrightarrow> keeps P (on_main m)"
  by (rule keepsI) (simp add: on_main_def split: prod.split)

lemma keeps_on_logger: "(\<And>c h w. P (c\<lparr>co_logger := h, co_os := w\<rparr>) = P c) \<Longrightarrow> keeps P (on_logger m)"
  by (rule keepsI) (simp add: on_logger_def split: prod.split)

lemma data_keeps_process [keeps_rules]:
  "keeps data_inv (on_main m)" "keeps data_inv (on_logger m')"
  "keeps data_inv (main_running env)" "keeps data_inv (logger_running env)"
  by (simp_all add: keeps_on_main keeps_on_logger main_running_def logger_running_def)

lemma shape_keeps_process [keeps_rules]:
  "keeps shape_inv (on_main m)" "keeps shape_inv (on_logger m')"
  "keeps shape_inv (main_running env)" "keeps shape_inv (logger_running env)"
  by (simp_all add: keeps_on_main keeps_on_logger main_running_def logger_running_def)

text \<open>Layout.\<close>

lemma data_inv_loaded:
  "co_camera_rate_stats c = rs_zero \<Longrightarrow> co_imu_rate_stats c = rs_zero \<Longrightarrow>
   load_layout env path c = (Inr u, c') \<Longrightarrow> data_inv c'"
  by (auto simp: load_layout_def data_inv_def shape_inv_def list_all2_conv_all_nth camera_fits_def
      imu_fits_def list_all_iff sensor_inv_new split: sum.splits)
    (simp_all add: new_sensor_def)

lemma shape_inv_loaded: "load_layout env path c = (Inr u, c') \<Longrightarrow> shape_inv c'"
  by (auto simp: load_layout_def shape_inv_def list_all2_conv_all_nth camera_fits_def
      imu_fits_def list_all_iff sensor_inv_new split: sum.splits)
    (simp_all add: new_sensor_def)

lemma load_layout_raises: "load_layout env path c = (Inl e, c') \<Longrightarrow> c' = c"
  by (auto simp: load_layout_def split: sum.splits)

lemma data_inv_new: "new_collector env path dir w = Inr c \<Longrightarrow> data_inv c"
  unfolding new_collector_def Let_def
  by (auto split: prod.splits sum.splits intro!: data_inv_loaded [rotated 2])

text \<open>Attaching the readers: some of them, if one raises; all, if none does.\<close>

lemma attach_readers_props:
  assumes "attach_readers kind mk ss = (r, ss')"
  shows "list_all2 camera_fits ls ss' = list_all2 camera_fits ls ss"
    and "list_all2 imu_fits ns ss' = list_all2 imu_fits ns ss"
    and "list_all sensor_inv ss \<Longrightarrow> list_all sensor_inv ss'"
    and "r = Inr () \<Longrightarrow> list_all (\<lambda>s. se_reader s \<noteq> None) ss'"
proof -
  have "(\<forall>ls. list_all2 camera_fits ls ss' = list_all2 camera_fits ls ss) \<and>
    (\<forall>ns. list_all2 imu_fits ns ss' = list_all2 imu_fits ns ss) \<and>
    (list_all sensor_inv ss \<longrightarrow> list_all sensor_inv ss') \<and>
    (r = Inr () \<longrightarrow> list_all (\<lambda>s. se_reader s \<noteq> None) ss')"
    using assms
  proof (induction ss arbitrary: ss' r)
    case Nil
    then show ?case by auto
  next
    case (Cons s ss)
    show ?case
    proof (cases "mk (se_name s)")
      case (Inl e)
      then show ?thesis using Cons.prems by auto
    next
      case (Inr o')
      show ?thesis
      proof (cases o')
        case None
        then show ?thesis using Cons.prems Inr by auto
      next
        case (Some reader)
        obtain q ts where q: "attach_readers kind mk ss = (q, ts)"
          by (cases "attach_readers kind mk ss")
        have eqs: "ss' = attach_reader reader s # ts" "r = q"
          using Cons.prems Inr Some q by simp_all
        show ?thesis using Cons.IH [OF q] sensor_inv_attach [of s reader]
          by (simp add: eqs list_all2_Cons2) (simp add: attach_reader_def)
      qed
    qed
  qed
  then show "list_all2 camera_fits ls ss' = list_all2 camera_fits ls ss"
    "list_all2 imu_fits ns ss' = list_all2 imu_fits ns ss"
    "list_all sensor_inv ss \<Longrightarrow> list_all sensor_inv ss'"
    "r = Inr () \<Longrightarrow> list_all (\<lambda>s. se_reader s \<noteq> None) ss'" by blast+
qed

lemma make_readers_valid:
  "valid (\<lambda>c. data_inv c \<and> co_fatal_error c = None) (make_readers env) (\<lambda>_. data_inv) shape_inv"
proof (rule validI)
  fix c :: "'a collector" and x c'
  assume pre: "data_inv c \<and> co_fatal_error c = None" and run: "make_readers env c = (Inr x, c')"
  let ?mk = "ce_make_reader env (os_tick (co_os c)) (co_config_path c)"
  obtain u cams v imus where
    a: "attach_readers ''camera'' ?mk (co_cameras c) = (Inr u, cams)"
       "attach_readers ''IMU'' ?mk (co_imus c) = (Inr v, imus)"
    and c': "c' = c\<lparr>co_cameras := cams, co_imus := imus, co_readers_initialized := True\<rparr>"
    using run by (auto simp: make_readers_def Let_def split: sum.splits prod.splits)
  from pre show "data_inv c'"
    using attach_readers_props [OF a(1)] attach_readers_props [OF a(2)]
    by (simp add: c' data_inv_def shape_inv_def)
next
  fix c :: "'a collector" and e c'
  assume pre: "data_inv c \<and> co_fatal_error c = None" and run: "make_readers env c = (Inl e, c')"
  let ?mk = "ce_make_reader env (os_tick (co_os c)) (co_config_path c)"
  have shape: "shape_inv (c\<lparr>co_cameras := cams, co_imus := imus\<rparr>)"
    if "attach_readers ''camera'' ?mk (co_cameras c) = (r, cams)"
       "attach_readers ''IMU'' ?mk (co_imus c) = (r', imus)" for r r' cams imus
    using pre attach_readers_props [OF that(1)] attach_readers_props [OF that(2)]
    by (simp add: data_inv_def shape_inv_def)
  have shape': "shape_inv (c\<lparr>co_cameras := cams\<rparr>)"
    if "attach_readers ''camera'' ?mk (co_cameras c) = (r, cams)" for r cams
    using pre attach_readers_props [OF that(1)] by (simp add: data_inv_def shape_inv_def)
  from run show "shape_inv c'"
    using shape shape' data_inv_shape [of c] pre
    by (auto simp: make_readers_def Let_def split: sum.splits prod.splits)
qed

lemma ensure_readers_valid:
  "valid data_inv (ensure_readers_initialized env) (\<lambda>_. data_inv) shape_inv"
proof -
  have core: "valid (\<lambda>c. data_inv c \<and> co_fatal_error c = None)
     (m_bind (main_running env) (\<lambda>running c.
             if \<not> running then (Inr (), c)
             else case probe_ready (co_probe_names c) (ce_shm env (os_tick (co_os c))) of
                    Inl e \<Rightarrow> (Inl e, c)
                  | Inr ready \<Rightarrow> if \<not> ready then (Inr (), c) else make_readers env c))
     (\<lambda>_. data_inv) shape_inv"
  proof (rule valid_bind [where Q = "\<lambda>_ c. data_inv c \<and> co_fatal_error c = None"])
    show "valid (\<lambda>c. data_inv c \<and> co_fatal_error c = None) (main_running env)
        (\<lambda>_ c. data_inv c \<and> co_fatal_error c = None) shape_inv"
      by (rule validI)
        (auto simp: main_running_def on_main_def ph_running_eq split: prod.splits)
  next
    fix running
    show "valid (\<lambda>c. data_inv c \<and> co_fatal_error c = None) (\<lambda>c.
             if \<not> running then (Inr (), c)
             else case probe_ready (co_probe_names c) (ce_shm env (os_tick (co_os c))) of
                    Inl e \<Rightarrow> (Inl e, c)
                  | Inr ready \<Rightarrow> if \<not> ready then (Inr (), c) else make_readers env c)
        (\<lambda>_. data_inv) shape_inv"
      using validD [OF make_readers_valid, of _ env] validE [OF make_readers_valid, of _ env]
      by (intro validI) (auto dest: data_inv_shape split: if_splits sum.splits)
  qed
  show ?thesis
    using validD [OF core] validE [OF core]
    by (intro validI) (auto simp: ensure_readers_initialized_def split: if_splits)
qed

text \<open>Marking a fatal error restores the invariant from the shape alone.\<close>

lemma mark_fatal_valid: "valid shape_inv (mark_fatal_error env msg) (\<lambda>_. data_inv) data_inv"
  unfolding mark_fatal_error_def
proof (rule valid_seq)
  show "valid shape_inv (m_modify (\<lambda>c. reset_runtime_state
              (c\<lparr>co_fatal_error := Some msg, co_main_app_started := False\<rparr>))) (\<lambda>_. data_inv) data_inv"
    by (rule valid_modify) (simp add: data_inv_reset)
  show "valid data_inv (m_seq (on_logger (stop_quietly (ce_os env))) (on_main (stop_quietly (ce_os env))))
      (\<lambda>_. data_inv) data_inv"
    unfolding keeps_valid [symmetric] by (intro keeps_rules)
qed

text \<open>A collecting pass.\<close>

lemma update_sensors_props:
  assumes "update_sensors rd (ss, st) = (r, (ss', st'))"
  shows "list_all2 camera_fits ls ss' = list_all2 camera_fits ls ss"
    and "list_all2 imu_fits ns ss' = list_all2 imu_fits ns ss"
    and "list_all sensor_inv ss \<Longrightarrow> list_all sensor_inv ss'"
    and "list_all (\<lambda>s. se_reader s \<noteq> None) ss' = list_all (\<lambda>s. se_reader s \<noteq> None) ss"
proof -
  have "(\<forall>ls. list_all2 camera_fits ls ss' = list_all2 camera_fits ls ss) \<and>
    (\<forall>ns. list_all2 imu_fits ns ss' = list_all2 imu_fits ns ss) \<and>
    (list_all sensor_inv ss \<longrightarrow> list_all sensor_inv ss') \<and>
    list_all (\<lambda>s. se_reader s \<noteq> None) ss' = list_all (\<lambda>s. se_reader s \<noteq> None) ss"
    using assms
  proof (induction ss arbitrary: ss' st r st')
    case Nil
    then show ?case by simp
  next
    case (Cons s ss)
    obtain q s' where u: "sensor_update rd s = (q, s')" by (cases "sensor_update rd s")
    note here = fits_update [OF u] sensor_inv_update [OF _ u]
    show ?case
    proof (cases q)
      case (Inl e)
      then have "ss' = s' # ss" using Cons.prems u by simp
      then show ?thesis using here by (simp add: list_all2_Cons2)
    next
      case (Inr b)
      obtain st1 where "update_sensors rd (s # ss, st) =
          (case update_sensors rd (ss, st1) of (r, (ss', st'')) \<Rightarrow> (r, (s' # ss', st'')))"
        using u Inr by (simp add: Let_def)
      moreover obtain q2 ts st2 where q2: "update_sensors rd (ss, st1) = (q2, (ts, st2))"
        by (cases "update_sensors rd (ss, st1)") auto
      ultimately have "ss' = s' # ts" using Cons.prems by simp
      then show ?thesis using here Cons.IH [OF q2] by (simp add: list_all2_Cons2)
    qed
  qed
  then show "list_all2 camera_fits ls ss' = list_all2 camera_fits ls ss"
    "list_all2 imu_fits ns ss' = list_all2 imu_fits ns ss"
    "list_all sensor_inv ss \<Longrightarrow> list_all sensor_inv ss'"
    "list_all (\<lambda>s. se_reader s \<noteq> None) ss' = list_all (\<lambda>s. se_reader s \<noteq> None) ss" by blast+
qed

definition data_inv_on :: "'r collector \<Rightarrow> bool" where
  "data_inv_on c \<longleftrightarrow> data_inv c \<and> co_readers_initialized c"

lemma update_cameras_keeps: "keeps data_inv_on (update_cameras env)"
proof (rule keepsI)
  fix c :: "'a collector" assume "data_inv_on c"
  then show "data_inv_on (snd (update_cameras env c))"
    using update_sensors_props
      [of "ce_read env (os_tick (co_os c))" "co_cameras c" "co_camera_rate_stats c"]
    by (auto simp: update_cameras_def data_inv_on_def data_inv_def shape_inv_def split: prod.splits)
qed

lemma update_imus_keeps: "keeps data_inv_on (update_imus env)"
proof (rule keepsI)
  fix c :: "'a collector" assume "data_inv_on c"
  then show "data_inv_on (snd (update_imus env c))"
    using update_sensors_props
      [of "ce_read env (os_tick (co_os c))" "co_imus c" "co_imu_rate_stats c"]
    by (auto simp: update_imus_def data_inv_on_def data_inv_def shape_inv_def split: prod.splits)
qed

lemma initialize_or_fail_keeps: "keeps data_inv (initialize_or_fail env)"
proof -
  have step: "valid data_inv (m_catch (m_seq (ensure_readers_initialized env) (m_return False))
      (\<lambda>error. m_seq (mark_fatal_error env (error_text error)) (m_return True))) (\<lambda>_. data_inv) data_inv"
    by (rule valid_catch, rule valid_seq, rule ensure_readers_valid, rule valid_return,
        rule valid_seq, rule mark_fatal_valid, rule valid_return)
  show ?thesis
    unfolding initialize_or_fail_def
  proof (rule keeps_bind)
    show "keeps data_inv (main_running env)" by (rule keeps_rules)
    fix running
    show "keeps data_inv (\<lambda>c. if running \<and> \<not> co_readers_initialized c
       then m_catch (m_seq (ensure_readers_initialized env) (m_return False))
              (\<lambda>error. m_seq (mark_fatal_error env (error_text error)) (m_return True)) c
       else (Inr False, c))"
      using keepsD [OF step [folded keeps_valid]] by (intro keepsI) auto
  qed
qed

lemma collect_once_keeps [keeps_rules]: "keeps data_inv (collect_once env)"
proof (rule keepsI)
  fix c :: "'a collector" assume inv: "data_inv c"
  have upd: "keeps data_inv_on (m_seq (update_cameras env) (update_imus env))"
    by (intro keeps_seq update_cameras_keeps update_imus_keeps)
  have "keeps data_inv (\<lambda>c. if failed \<or> \<not> co_readers_initialized c then (Inr (), c)
             else m_seq (update_cameras env) (update_imus env) c)" for failed
    using keepsD [OF upd] by (intro keepsI) (auto simp: data_inv_on_def)
  then have "keeps data_inv (m_bind (initialize_or_fail env) (\<lambda>failed c.
             if failed \<or> \<not> co_readers_initialized c then (Inr (), c)
             else m_seq (update_cameras env) (update_imus env) c))"
    by (intro keeps_bind initialize_or_fail_keeps)
  then show "data_inv (snd (collect_once env c))"
    using inv by (simp add: collect_once_def keepsD)
qed

lemma collector_turn_keeps: "keeps data_inv (collector_turn env)"
proof -
  have "keeps data_inv (m_catch (collect_once env) (\<lambda>_. m_return ()))" by (intro keeps_rules)
  then show ?thesis unfolding collector_turn_def by (intro keepsI) (auto dest: keepsD)
qed

text \<open>Snapshots.\<close>

lemma detect_early_exit_keeps [keeps_rules]: "keeps data_inv (detect_early_exit (env :: 'a collector_env))"
proof -
  have "keeps data_inv (\<lambda>c :: 'a collector. if running \<or> co_readers_initialized c then (Inr (), c)
             else m_seq (m_modify (\<lambda>c. c\<lparr>co_fatal_error :=
                     Some ''main application exited before shared memory became ready''\<rparr>))
                   (on_logger (ph_stop_if_running (ce_os env))) c)" for running
  proof (rule keepsI)
    fix c :: "'a collector" assume inv: "data_inv c"
    show "data_inv (snd (if running \<or> co_readers_initialized c then (Inr (), c)
             else m_seq (m_modify (\<lambda>c. c\<lparr>co_fatal_error :=
                     Some ''main application exited before shared memory became ready''\<rparr>))
                   (on_logger (ph_stop_if_running (ce_os env))) c))"
    proof (cases "running \<or> co_readers_initialized c")
      case False
      then have "data_inv (c\<lparr>co_fatal_error :=
          Some ''main application exited before shared memory became ready''\<rparr>)"
        using inv by (simp add: data_inv_def shape_inv_def)
      then show ?thesis using False keepsD [OF data_keeps_process(2)] by (simp add: m_seq_def)
    qed (use inv in simp)
  qed
  note body = this
  show ?thesis
    unfolding detect_early_exit_def
    by (rule keeps_test, rule keeps_pure, rule keeps_bind, rule data_keeps_process, rule body)
qed

lemma snapshot_keeps [keeps_rules]:
  "keeps data_inv (collector_snapshot env)" "keeps data_inv (camera_snapshot env)"
  unfolding collector_snapshot_def camera_snapshot_def view_main_def view_logger_def
  by (intro keeps_rules)+

text \<open>A frame request changes the cache of a payload only.\<close>

lemma sensor_reset_seq: "se_last_sequence (sensor_reset s) = None"
  by (simp add: sensor_reset_def)

lemma frame_commit_blank: "blank s \<Longrightarrow> frame_commit q f b s = s"
proof -
  assume "blank s"
  then have "se_last_sequence s = None" unfolding blank_def by (metis sensor_reset_seq)
  then show ?thesis by (simp add: frame_commit_def)
qed

lemma sensor_inv_frame_bytes: "sensor_inv s \<Longrightarrow> sensor_inv (snd (camera_frame_bytes enc s))"
  by (simp add: camera_frame_bytes_def sensor_inv_commit split: frame_job.split sum.split)

lemma frame_bytes_commits:
  "\<exists>q f b. snd (camera_frame_bytes enc s) = frame_commit q f b s \<or> snd (camera_frame_bytes enc s) = s"
  by (auto simp: camera_frame_bytes_def split: frame_job.split sum.split)

lemma find_frame_props:
  assumes "find_frame enc name ss = (r, ss')"
  shows "list_all2 camera_fits ls ss' = list_all2 camera_fits ls ss"
    and "list_all sensor_inv ss \<Longrightarrow> list_all sensor_inv ss'"
    and "list_all blank ss \<Longrightarrow> ss' = ss"
    and "list_all (\<lambda>s. se_reader s \<noteq> None) ss' = list_all (\<lambda>s. se_reader s \<noteq> None) ss"
proof -
  have "(\<forall>ls. list_all2 camera_fits ls ss' = list_all2 camera_fits ls ss) \<and>
    (list_all sensor_inv ss \<longrightarrow> list_all sensor_inv ss') \<and> (list_all blank ss \<longrightarrow> ss' = ss) \<and>
    list_all (\<lambda>s. se_reader s \<noteq> None) ss' = list_all (\<lambda>s. se_reader s \<noteq> None) ss"
    using assms
  proof (induction ss arbitrary: ss' r)
    case Nil
    then show ?case by simp
  next
    case (Cons s ss)
    show ?case
    proof (cases "se_name s = name")
      case True
      then have ss': "ss' = snd (camera_frame_bytes enc s) # ss"
        using Cons.prems by (auto split: prod.splits)
      obtain q f b where "snd (camera_frame_bytes enc s) = frame_commit q f b s \<or>
          snd (camera_frame_bytes enc s) = s" using frame_bytes_commits by blast
      moreover have "se_reader (frame_commit q f b s) = se_reader s" by (simp add: frame_commit_def)
      ultimately show ?thesis
        using ss' sensor_inv_frame_bytes [of s enc] frame_commit_blank [of s]
        by (auto simp: list_all2_Cons2)
    next
      case False
      obtain q ts where q: "find_frame enc name ss = (q, ts)" by (cases "find_frame enc name ss")
      then have "ss' = s # ts" using Cons.prems False by simp
      then show ?thesis using Cons.IH [OF q] by (auto simp: list_all2_Cons2)
    qed
  qed
  then show "list_all2 camera_fits ls ss' = list_all2 camera_fits ls ss"
    "list_all sensor_inv ss \<Longrightarrow> list_all sensor_inv ss'" "list_all blank ss \<Longrightarrow> ss' = ss"
    "list_all (\<lambda>s. se_reader s \<noteq> None) ss' = list_all (\<lambda>s. se_reader s \<noteq> None) ss" by blast+
qed

lemma camera_frame_keeps: "keeps data_inv (camera_frame enc name)"
proof (rule keepsI)
  fix c :: "'a collector" assume inv: "data_inv c"
  obtain r cams where f: "find_frame enc name (co_cameras c) = (r, cams)"
    by (cases "find_frame enc name (co_cameras c)")
  from inv show "data_inv (snd (camera_frame enc name c))"
    using find_frame_props [OF f]
    by (auto simp: camera_frame_def f data_inv_def shape_inv_def)
qed

text \<open>The commands.\<close>

lemma refresh_valid:
  "valid data_inv (refresh_layout_if_needed env path) (\<lambda>_. shape_inv) data_inv"
  by (rule validI)
    (auto simp: refresh_layout_if_needed_def dest: load_layout_raises shape_inv_loaded data_inv_shape
      split: if_splits)

lemma start_main_app_keeps: "keeps data_inv (start_main_app env path)"
  unfolding start_main_app_def
proof (rule keeps_bind)
  show "keeps data_inv (main_running env)" by (rule keeps_rules)
  fix running
  have rest: "keeps data_inv (m_seq (m_modify (\<lambda>c. c\<lparr>co_main := h\<rparr>))
      (m_seq (on_main (ph_start (ce_os env)))
       (m_seq (m_modify (\<lambda>c. c\<lparr>co_main_app_started := True\<rparr>)) (collector_snapshot env))))" for h
    by (intro keeps_rules keeps_modify) simp_all
  have "valid data_inv (m_seq (refresh_layout_if_needed env path)
             (m_seq (m_modify (\<lambda>c. reset_runtime_state (c\<lparr>co_fatal_error := None\<rparr>)))
              (m_seq (m_modify (\<lambda>c. c\<lparr>co_main := new_handle [core_binary_path env, path]\<rparr>))
      (m_seq (on_main (ph_start (ce_os env)))
       (m_seq (m_modify (\<lambda>c. c\<lparr>co_main_app_started := True\<rparr>)) (collector_snapshot env))))))
      (\<lambda>_. data_inv) data_inv"
    by (rule valid_seq [OF refresh_valid], rule valid_seq [OF valid_modify],
        rule data_inv_reset, simp, rule rest [unfolded keeps_valid])
  then show "keeps data_inv (if running then m_raise (RuntimeError ''main application is already running'')
       else m_seq (refresh_layout_if_needed env path)
             (m_seq (m_modify (\<lambda>c. reset_runtime_state (c\<lparr>co_fatal_error := None\<rparr>)))
              (m_seq (m_modify (\<lambda>c. c\<lparr>co_main := new_handle [core_binary_path env, path]\<rparr>))
               (m_seq (on_main (ph_start (ce_os env)))
                (m_seq (m_modify (\<lambda>c. c\<lparr>co_main_app_started := True\<rparr>))
                 (collector_snapshot env))))))"
    by (intro keeps_if keeps_raise) (simp add: keeps_valid)
qed

lemma keeps_reset: "keeps data_inv (m_modify (\<lambda>c. reset_runtime_state (c\<lparr>co_main_app_started := b\<rparr>)))"
  "keeps data_inv (m_modify (\<lambda>c. reset_runtime_state
     (c\<lparr>co_current_log_path := p, co_main_app_started := b\<rparr>)))"
  by (rule keeps_modify, simp add: data_inv_reset data_inv_shape)+

lemma stop_main_app_keeps: "keeps data_inv (stop_main_app env)"
  unfolding stop_main_app_def by (intro keeps_rules keeps_reset)

lemma begin_recording_keeps: "keeps data_inv (begin_recording env path dir)"
  unfolding begin_recording_def by (intro keeps_rules keeps_modify) simp_all

lemma ensure_readers_or_fail_keeps: "keeps data_inv (ensure_readers_or_fail env)"
proof -
  have "valid data_inv (ensure_readers_or_fail env) (\<lambda>_. data_inv) data_inv"
    unfolding ensure_readers_or_fail_def
    by (rule valid_catch, rule ensure_readers_valid, rule valid_seq, rule mark_fatal_valid, rule valid_raise)
  then show ?thesis by (simp add: keeps_valid)
qed

lemma start_logging_keeps: "keeps data_inv (start_logging env path dir)"
  unfolding start_logging_def
  by (intro keeps_rules ensure_readers_or_fail_keeps begin_recording_keeps)

lemma stop_logging_keeps: "keeps data_inv (stop_logging env)"
  unfolding stop_logging_def by (intro keeps_rules keeps_modify) simp_all

lemma stop_all_keeps: "keeps data_inv (stop_all env)"
  unfolding stop_all_def by (intro keeps_rules keeps_reset)

lemma close_keeps: "keeps data_inv (close_collector env)"
  unfolding close_collector_def by (intro keeps_rules keeps_modify stop_all_keeps) simp_all

lemma start_background_keeps: "keeps data_inv start_background_collection"
  unfolding start_background_collection_def by (intro keeps_modify) simp_all

section \<open>Who owns the processes\<close>

text \<open>
  Every process that is alive belongs to the main or the logger handle, and a logger that is
  alive writes to the path the state reports.
\<close>

definition owned :: "os_env \<Rightarrow> handle \<Rightarrow> handle \<Rightarrow> os \<Rightarrow> bool" where
  "owned env h g w \<longleftrightarrow>
     (\<forall>p < os_next w. alive env p w \<longrightarrow> ph_process h = Some p \<or> ph_process g = Some p) \<and>
     (\<forall>p. ph_process h = Some p \<or> ph_process g = Some p \<longrightarrow> p < os_next w)"

definition records_path :: "os_env \<Rightarrow> handle \<Rightarrow> os \<Rightarrow> string option \<Rightarrow> bool" where
  "records_path env g w path \<longleftrightarrow>
     (ph_alive env (g, w) \<longrightarrow> (\<exists>bin cfg out. ph_command g = [bin, cfg, out] \<and> path = Some out))"

definition procs_inv :: "os_env \<Rightarrow> 'r collector \<Rightarrow> bool" where
  "procs_inv env c \<longleftrightarrow>
     owned env (co_main c) (co_logger c) (co_os c) \<and>
     records_path env (co_logger c) (co_os c) (co_current_log_path c)"

lemma owned_sym: "owned env h g w \<longleftrightarrow> owned env g h w"
  by (auto simp: owned_def)

text \<open>
  What the operations of a handle do: most leave the handle alone and let time pass, and a
  start can also replace a dead process by a new one.
\<close>

definition quiet :: "handle \<times> os \<Rightarrow> handle \<times> os \<Rightarrow> bool" where
  "quiet hw hw' \<longleftrightarrow>
     fst hw' = fst hw \<and> os_next (snd hw') = os_next (snd hw) \<and> later (snd hw) (snd hw')"

definition spawned :: "os_env \<Rightarrow> handle \<times> os \<Rightarrow> handle \<times> os \<Rightarrow> bool" where
  "spawned env hw hw' \<longleftrightarrow>
     \<not> ph_alive env (fst hw, snd hw') \<and> ph_process (fst hw') = Some (os_next (snd hw)) \<and>
     ph_command (fst hw') = ph_command (fst hw) \<and> os_next (snd hw') = Suc (os_next (snd hw)) \<and>
     later (snd hw) (snd hw')"

lemma quiet_refl [simp]: "quiet hw hw"
  by (simp add: quiet_def)

lemma quiet_trans: "quiet s t \<Longrightarrow> quiet t u \<Longrightarrow> quiet s u"
  by (auto simp: quiet_def intro: later_trans)

lemma quiet_later: "later w w' \<Longrightarrow> os_next w' = os_next w \<Longrightarrow> quiet (h, w) (h, w')"
  by (simp add: quiet_def)

lemma os_next_tick [simp]: "os_next (tick w) = os_next w" "os_next (end_process p w) = os_next w"
  by (simp_all add: tick_def end_process_def)

lemma quiet_running: "ph_running env hw = (r, hw') \<Longrightarrow> quiet hw hw'"
  by (cases hw) (auto simp: ph_running_eq intro: quiet_later)

lemma quiet_stop:
  assumes "ph_stop env hw = (r, hw')"
  shows "quiet hw hw'"
proof -
  obtain h w where hw: "hw = (h, w)" by (cases hw)
  from assms [unfolded hw] show ?thesis
    by (cases rule: ph_stop_cases) (simp_all add: hw quiet_later later_two)
qed

text \<open>The property of being quiet goes through the combinators.\<close>

definition all_quiet :: "(handle \<times> os, 'a) meth \<Rightarrow> bool" where
  "all_quiet m \<longleftrightarrow> (\<forall>s. quiet s (snd (m s)))"

lemma all_quietI: "(\<And>s r t. m s = (r, t) \<Longrightarrow> quiet s t) \<Longrightarrow> all_quiet m"
  unfolding all_quiet_def by (metis prod.collapse)

lemma all_quietD: "all_quiet m \<Longrightarrow> m s = (r, t) \<Longrightarrow> quiet s t"
  unfolding all_quiet_def by (metis snd_conv)

lemma all_quiet_bind:
  assumes "all_quiet m" and "\<And>x. all_quiet (f x)"
  shows "all_quiet (m_bind m f)"
proof (rule all_quietI)
  fix s r t assume run: "m_bind m f s = (r, t)"
  obtain q u where m: "m s = (q, u)" by (cases "m s")
  have su: "quiet s u" by (rule all_quietD [OF assms(1) m])
  show "quiet s t"
  proof (cases q)
    case (Inl e)
    then show ?thesis using run m su by (simp add: m_bind_def)
  next
    case (Inr x)
    then have "f x u = (r, t)" using run m by (simp add: m_bind_def)
    then show ?thesis using quiet_trans [OF su] all_quietD [OF assms(2)] by blast
  qed
qed

lemma all_quiet_catch:
  assumes "all_quiet m" and "\<And>e. all_quiet (h e)"
  shows "all_quiet (m_catch m h)"
proof (rule all_quietI)
  fix s r t assume run: "m_catch m h s = (r, t)"
  obtain q u where m: "m s = (q, u)" by (cases "m s")
  have su: "quiet s u" by (rule all_quietD [OF assms(1) m])
  show "quiet s t"
  proof (cases q)
    case (Inr x)
    then show ?thesis using run m su by (simp add: m_catch_def)
  next
    case (Inl e)
    then have "h e u = (r, t)" using run m by (simp add: m_catch_def)
    then show ?thesis using quiet_trans [OF su] all_quietD [OF assms(2)] by blast
  qed
qed

lemma all_quiet_process:
  "all_quiet (ph_running env)" "all_quiet (ph_stop env)" "all_quiet (m_return x)"
  by (auto intro!: all_quietI dest: quiet_running quiet_stop)

lemma all_quiet_stop:
  "all_quiet (ph_stop_if_running env)" "all_quiet (stop_quietly env)"
  unfolding ph_stop_if_running_def stop_quietly_def
  by (auto intro!: all_quiet_bind all_quiet_catch all_quiet_process simp: all_quiet_process)

lemma not_alive_later:
  "\<not> ph_alive env (h, w) \<Longrightarrow> later w w' \<Longrightarrow> \<not> ph_alive env (h, w')"
  by (cases "ph_process h") (auto simp: ph_alive_def dest: alive_later)

lemma ph_start_eq:
  "ph_start env (h, w) =
     (let w1 = (if ph_process h = None then w else tick w)
      in if ph_alive env (h, w) then (Inl (RuntimeError ''process already running''), (h, w1))
         else case ph_command h of
           [] \<Rightarrow> (Inl IndexError, (h, w1))
         | binary # _ \<Rightarrow>
             if \<not> oe_is_file env (os_tick w1) (path_text binary) then
               (Inl (FileNotFoundError (''Executable not found: '' @ path_text binary)), (h, w1))
             else if \<not> oe_executable env (os_tick w1) (path_text binary) then
               (Inl (PermissionError (''Executable is not runnable: '' @ path_text binary)), (h, w1))
             else ph_spawn env (h, w1))"
  by (simp add: ph_start_def m_bind_def ph_running_eq Let_def)

lemma ph_spawn_result:
  assumes "ph_spawn env (h, w) = (r, hw')" and "\<not> ph_alive env (h, w)"
  obtains (refused) e where "r = Inl e" "quiet (h, w) hw'"
    | (started) "r = Inr ()" "spawned env (h, w) hw'"
proof (cases "oe_spawn_error env (os_next w) (ph_command h)")
  case (Some e)
  have "quiet (h, w) (h, tick w)" by (simp add: quiet_later)
  moreover from Some assms(1) have "r = Inl e" "hw' = (h, tick w)" by (auto simp: ph_spawn_def)
  ultimately show thesis using refused by blast
next
  case None
  let ?w = "(tick w)\<lparr>os_next := Suc (os_next w)\<rparr>"
  have "later w ?w" by (simp add: later_def tick_def)
  then have "spawned env (h, w) (h\<lparr>ph_process := Some (os_next w)\<rparr>, ?w)"
    using not_alive_later [OF assms(2)] by (simp add: spawned_def)
  then show thesis using None assms(1) started by (simp add: ph_spawn_def)
qed

lemma spawned_after: "quiet s t \<Longrightarrow> spawned env t u \<Longrightarrow> spawned env s u"
  by (auto simp: quiet_def spawned_def intro: later_trans)

lemma ph_start_result:
  assumes "ph_start env hw = (r, hw')"
  obtains (refused) e where "r = Inl e" "quiet hw hw'"
    | (started) "r = Inr ()" "spawned env hw hw'"
proof -
  obtain h w where hw: "hw = (h, w)" by (cases hw)
  define w1 where "w1 = (if ph_process h = None then w else tick w)"
  have q: "quiet (h, w) (h, w1)" by (simp add: w1_def quiet_later)
  show thesis
  proof (cases "\<exists>e. (r, hw') = (Inl e, (h, w1))")
    case True
    then show thesis using refused q hw by blast
  next
    case False
    then have dead: "\<not> ph_alive env (h, w)" and s: "ph_spawn env (h, w1) = (r, hw')"
      using assms unfolding hw ph_start_eq w1_def [symmetric] Let_def
      by (auto split: if_splits list.splits)
    have "later w w1" using q by (simp add: quiet_def)
    from ph_spawn_result [OF s not_alive_later [OF dead this]] show thesis
      using refused started quiet_trans [OF q] spawned_after [OF q] hw by metis
  qed
qed

lemma owned_quiet:
  "owned env h g w \<Longrightarrow> quiet (h, w) (h', w') \<Longrightarrow> owned env h' g w'"
  by (auto simp: owned_def quiet_def dest: alive_later)

lemma owned_spawned:
  assumes "owned env h g w" and "spawned env (h, w) (h', w')"
  shows "owned env h' g w'"
proof -
  have l: "later w w'" "ph_process h' = Some (os_next w)" "os_next w' = Suc (os_next w)"
    and d: "\<not> ph_alive env (h, w')" using assms(2) by (simp_all add: spawned_def)
  have "ph_process g = Some p" if p: "p < os_next w" "alive env p w'" for p
  proof -
    have "ph_process h = Some p \<or> ph_process g = Some p"
      using assms(1) p(1) alive_later [OF l(1) p(2)] by (simp add: owned_def)
    then show ?thesis using d p(2) by (auto simp: ph_alive_def)
  qed
  moreover have "p < Suc (os_next w)" if "ph_process g = Some p" for p
    using assms(1) that by (auto simp: owned_def intro: less_SucI)
  ultimately show ?thesis using l by (auto simp: owned_def less_Suc_eq)
qed

lemma records_path_later:
  assumes "records_path env g w path" and "later w w'"
  shows "records_path env g w' path"
proof -
  have "ph_alive env (g, w)" if "ph_alive env (g, w')"
    using that alive_later [OF assms(2)] by (cases "ph_process g") (auto simp: ph_alive_def)
  with assms(1) show ?thesis by (simp add: records_path_def)
qed

text \<open>The methods of the collector.\<close>

lemma main_quiet:
  assumes "all_quiet m"
  shows "keeps (procs_inv env :: 'r collector \<Rightarrow> bool) (on_main m)"
proof (rule keepsI)
  fix c :: "'r collector" assume inv: "procs_inv env c"
  obtain r h w where m: "m (co_main c, co_os c) = (r, (h, w))" by (cases "m (co_main c, co_os c)") auto
  have q: "quiet (co_main c, co_os c) (h, w)" by (rule all_quietD [OF assms m])
  then have "later (co_os c) w" by (simp add: quiet_def)
  then show "procs_inv env (snd (on_main m c))"
    using inv owned_quiet [OF _ q] records_path_later by (auto simp: on_main_def m procs_inv_def)
qed

lemma logger_quiet:
  assumes "all_quiet m"
  shows "keeps (procs_inv env :: 'r collector \<Rightarrow> bool) (on_logger m)"
proof (rule keepsI)
  fix c :: "'r collector" assume inv: "procs_inv env c"
  obtain r h w where m: "m (co_logger c, co_os c) = (r, (h, w))"
    by (cases "m (co_logger c, co_os c)") auto
  have q: "quiet (co_logger c, co_os c) (h, w)" by (rule all_quietD [OF assms m])
  then have "later (co_os c) w" "h = co_logger c" by (simp_all add: quiet_def)
  then show "procs_inv env (snd (on_logger m c))"
    using inv owned_quiet [OF _ q, of env "co_main c"] records_path_later
    by (auto simp: on_logger_def m procs_inv_def owned_sym)
qed

lemma procs_keeps [keeps_rules]:
  "keeps (procs_inv env) (main_running env')" "keeps (procs_inv env) (logger_running env')"
  "keeps (procs_inv env) (on_main (ph_stop e))" "keeps (procs_inv env) (on_logger (ph_stop e))"
  "keeps (procs_inv env) (on_main (ph_stop_if_running e))"
  "keeps (procs_inv env) (on_logger (ph_stop_if_running e))"
  "keeps (procs_inv env) (on_main (stop_quietly e))" "keeps (procs_inv env) (on_logger (stop_quietly e))"
  unfolding main_running_def logger_running_def
  by (rule main_quiet logger_quiet, rule all_quiet_process all_quiet_stop)+

lemma procs_start_main [keeps_rules]: "keeps (procs_inv env) (on_main (ph_start env))"
proof (rule keepsI)
  fix c :: "'a collector" assume inv: "procs_inv env c"
  obtain r h w where m: "ph_start env (co_main c, co_os c) = (r, (h, w))"
    by (cases "ph_start env (co_main c, co_os c)") auto
  from m have "later (co_os c) w \<and> owned env h (co_logger c) w"
  proof (cases rule: ph_start_result)
    case (refused e)
    then show ?thesis using inv owned_quiet by (auto simp: procs_inv_def quiet_def)
  next
    case started
    then show ?thesis using inv owned_spawned by (auto simp: procs_inv_def spawned_def)
  qed
  then show "procs_inv env (snd (on_main (ph_start env) c))"
    using inv records_path_later by (auto simp: on_main_def m procs_inv_def)
qed

text \<open>Only the handles, the operating system and the recorded path matter.\<close>

lemma procs_inv_cong:
  "co_main c' = co_main c \<Longrightarrow> co_logger c' = co_logger c \<Longrightarrow> co_os c' = co_os c \<Longrightarrow>
   co_current_log_path c' = co_current_log_path c \<Longrightarrow> procs_inv env c' = procs_inv env c"
  by (simp add: procs_inv_def)

definition same_procs :: "'r collector \<Rightarrow> 'r collector \<Rightarrow> bool" where
  "same_procs c c' \<longleftrightarrow> co_main c' = co_main c \<and> co_logger c' = co_logger c \<and> co_os c' = co_os c \<and>
     co_current_log_path c' = co_current_log_path c"

lemma procs_same: "same_procs c c' \<Longrightarrow> procs_inv env c' = procs_inv env c"
  by (simp add: procs_inv_def same_procs_def)

lemma keeps_same: "(\<And>c. same_procs c (snd (m c))) \<Longrightarrow> keeps (procs_inv env) m"
  by (rule keepsI) (use procs_same in blast)

lemma same_procs_ops:
  "same_procs c (snd (load_layout env path c))"
  "same_procs c (snd (refresh_layout_if_needed env path c))"
  "same_procs c (snd (make_readers env c))"
  "same_procs c (snd (update_cameras env c))"
  "same_procs c (snd (update_imus env c))"
  "same_procs c (snd (camera_frame enc name c))"
  by (simp_all add: same_procs_def load_layout_def refresh_layout_if_needed_def make_readers_def
      update_cameras_def update_imus_def camera_frame_def Let_def split: sum.split prod.split)

lemma procs_keeps_same [keeps_rules]:
  "keeps (procs_inv e) (refresh_layout_if_needed env path)"
  "keeps (procs_inv e) (make_readers env)"
  "keeps (procs_inv e) (update_cameras env)"
  "keeps (procs_inv e) (update_imus env)"
  "keeps (procs_inv e) (camera_frame enc name)"
  by (rule keeps_same, rule same_procs_ops)+

lemma procs_modify:
  "(\<And>c. same_procs c (f c)) \<Longrightarrow> keeps (procs_inv e) (m_modify f)"
  by (rule keeps_same) simp

lemma same_procs_reset [simp]: "same_procs c (reset_runtime_state c') = same_procs c c'"
  by (simp add: same_procs_def reset_runtime_state_def)

lemma procs_ensure [keeps_rules]: "keeps (procs_inv e) (ensure_readers_initialized env)"
  unfolding ensure_readers_initialized_def by (intro keeps_rules)

lemma procs_mark_fatal [keeps_rules]: "keeps (procs_inv e) (mark_fatal_error env msg)"
  unfolding mark_fatal_error_def
  by (intro keeps_rules procs_modify) (simp_all, simp_all add: same_procs_def)

lemma procs_initialize [keeps_rules]: "keeps (procs_inv e) (initialize_or_fail env)"
  unfolding initialize_or_fail_def by (intro keeps_rules)

lemma procs_collect [keeps_rules]: "keeps (procs_inv e) (collect_once env)"
  unfolding collect_once_def by (intro keeps_rules)

lemma procs_turn [keeps_rules]: "keeps (procs_inv e) (collector_turn env)"
  unfolding collector_turn_def by (intro keeps_rules)

lemma procs_early_exit [keeps_rules]: "keeps (procs_inv e) (detect_early_exit env)"
  unfolding detect_early_exit_def
  by (intro keeps_rules procs_modify) (simp_all, simp_all add: same_procs_def)

lemma procs_views [keeps_rules]:
  "keeps (procs_inv e) (view_main env)" "keeps (procs_inv e) (view_logger env)"
  unfolding view_main_def view_logger_def by (intro keeps_rules)+

lemma procs_snapshot [keeps_rules]:
  "keeps (procs_inv e) (collector_snapshot env)" "keeps (procs_inv e) (camera_snapshot env)"
  unfolding collector_snapshot_def camera_snapshot_def by (intro keeps_rules)+

text \<open>A handle may be replaced when its process is known to be dead.\<close>

definition main_dead :: "os_env \<Rightarrow> 'r collector \<Rightarrow> bool" where
  "main_dead e c \<longleftrightarrow> procs_inv e c \<and> \<not> ph_alive e (co_main c, co_os c)"

definition logger_dead :: "os_env \<Rightarrow> 'r collector \<Rightarrow> bool" where
  "logger_dead e c \<longleftrightarrow> procs_inv e c \<and> \<not> ph_alive e (co_logger c, co_os c)"

lemma main_running_result:
  assumes "procs_inv (ce_os env) c" and "main_running env c = (r, c')"
  shows "procs_inv (ce_os env) c'" "r = Inr running \<Longrightarrow> \<not> running \<Longrightarrow> main_dead (ce_os env) c'"
proof -
  show inv: "procs_inv (ce_os env) c'" by (rule keepsE [OF procs_keeps(1) assms])
  have c': "r = Inr (ph_alive (ce_os env) (co_main c, co_os c))" "co_main c' = co_main c"
      "later (co_os c) (co_os c')"
    using assms(2) by (auto simp: main_running_def on_main_def ph_running_eq)
  assume "r = Inr running" "\<not> running"
  then show "main_dead (ce_os env) c'" using c' inv not_alive_later by (auto simp: main_dead_def)
qed

lemma logger_running_result:
  assumes "procs_inv (ce_os env) c" and "logger_running env c = (r, c')"
  shows "procs_inv (ce_os env) c'" "r = Inr running \<Longrightarrow> \<not> running \<Longrightarrow> logger_dead (ce_os env) c'"
proof -
  show inv: "procs_inv (ce_os env) c'" by (rule keepsE [OF procs_keeps(2) assms])
  have c': "r = Inr (ph_alive (ce_os env) (co_logger c, co_os c))" "co_logger c' = co_logger c"
      "later (co_os c) (co_os c')"
    using assms(2) by (auto simp: logger_running_def on_logger_def ph_running_eq)
  assume "r = Inr running" "\<not> running"
  then show "logger_dead (ce_os env) c'" using c' inv not_alive_later by (auto simp: logger_dead_def)
qed

text \<open>The commands.\<close>

lemma procs_reset_modify [keeps_rules]:
  "keeps (procs_inv e) (m_modify (\<lambda>c. reset_runtime_state (c\<lparr>co_fatal_error := x\<rparr>)))"
  "keeps (procs_inv e) (m_modify (\<lambda>c. reset_runtime_state (c\<lparr>co_main_app_started := b\<rparr>)))"
  "keeps (procs_inv e) (m_modify (\<lambda>c. c\<lparr>co_main_app_started := b\<rparr>))"
  "keeps (procs_inv e) (m_modify (\<lambda>c. c\<lparr>co_log_dir := d\<rparr>))"
  "keeps (procs_inv e) (m_modify (\<lambda>c. c\<lparr>co_thread := b\<rparr>))"
  "keeps (procs_inv e) (m_modify (\<lambda>c. c\<lparr>co_stop_set := b', co_thread := b\<rparr>))"
  by (rule procs_modify, simp add: same_procs_def reset_runtime_state_def)+

lemma main_dead_same: "same_procs c c' \<Longrightarrow> main_dead e c' = main_dead e c"
  using procs_same [of c c' e] by (simp add: main_dead_def same_procs_def)

lemma logger_dead_same: "same_procs c c' \<Longrightarrow> logger_dead e c' = logger_dead e c"
  using procs_same [of c c' e] by (simp add: logger_dead_def same_procs_def)

lemma new_main_handle:
  assumes "main_dead e c"
  shows "procs_inv e (c\<lparr>co_main := new_handle cmd\<rparr>)"
proof -
  have "owned e (new_handle cmd) (co_logger c) (co_os c)"
    using assms by (auto simp: main_dead_def procs_inv_def owned_def new_handle_def ph_alive_def)
  then show ?thesis using assms by (simp add: main_dead_def procs_inv_def)
qed

lemma new_logger_handle:
  assumes "logger_dead e c"
  shows "procs_inv e (c\<lparr>co_logger := new_handle cmd\<rparr>)"
proof -
  have "owned e (co_main c) (new_handle cmd) (co_os c)"
    using assms by (auto simp: logger_dead_def procs_inv_def owned_def new_handle_def ph_alive_def)
  moreover have "records_path e (new_handle cmd) (co_os c) p" for p
    by (simp add: records_path_def new_handle_def ph_alive_def)
  ultimately show ?thesis using assms by (simp add: logger_dead_def procs_inv_def)
qed

lemma valid_main_running:
  "valid (procs_inv (ce_os env)) (main_running env)
     (\<lambda>running c. procs_inv (ce_os env) c \<and> (running \<or> main_dead (ce_os env) c)) (procs_inv (ce_os env))"
  by (rule validI) (use main_running_result in blast)+

lemma valid_logger_running:
  "valid (procs_inv (ce_os env)) (logger_running env)
     (\<lambda>running c. procs_inv (ce_os env) c \<and> (running \<or> logger_dead (ce_os env) c)) (procs_inv (ce_os env))"
  by (rule validI) (use logger_running_result in blast)+

lemma procs_start_app:
  "keeps (procs_inv (ce_os env)) (start_main_app env path)"
proof -
  let ?I = "procs_inv (ce_os env)" and ?D = "main_dead (ce_os env)"
  have refresh: "valid ?D (refresh_layout_if_needed env path) (\<lambda>_. ?D) ?I"
    by (rule validI)
      (metis same_procs_ops(2) snd_conv main_dead_same main_dead_def)+
  have reset: "valid ?D (m_modify (\<lambda>c. reset_runtime_state (c\<lparr>co_fatal_error := None\<rparr>))) (\<lambda>_. ?D) ?I"
    by (rule valid_modify) (simp add: main_dead_def procs_inv_def reset_runtime_state_def)
  have assign: "valid ?D (m_modify (\<lambda>c. c\<lparr>co_main := new_handle [core_binary_path env, path]\<rparr>)) (\<lambda>_. ?I) ?I"
    by (rule valid_modify) (rule new_main_handle)
  have rest: "valid ?I (m_seq (on_main (ph_start (ce_os env)))
      (m_seq (m_modify (\<lambda>c. c\<lparr>co_main_app_started := True\<rparr>)) (collector_snapshot env))) (\<lambda>_. ?I) ?I"
    unfolding keeps_valid [symmetric] by (intro keeps_rules)
  have go: "valid ?D (m_seq (refresh_layout_if_needed env path)
             (m_seq (m_modify (\<lambda>c. reset_runtime_state (c\<lparr>co_fatal_error := None\<rparr>)))
              (m_seq (m_modify (\<lambda>c. c\<lparr>co_main := new_handle [core_binary_path env, path]\<rparr>))
               (m_seq (on_main (ph_start (ce_os env)))
                (m_seq (m_modify (\<lambda>c. c\<lparr>co_main_app_started := True\<rparr>))
                 (collector_snapshot env)))))) (\<lambda>_. ?I) ?I"
    by (rule valid_seq [OF refresh valid_seq [OF reset valid_seq [OF assign rest]]])
  show ?thesis
    unfolding keeps_valid start_main_app_def
  proof (rule valid_bind [OF valid_main_running], rule valid_if)
    fix running assume running
    then show "valid (\<lambda>c. ?I c \<and> (running \<or> ?D c))
        (m_raise (RuntimeError ''main application is already running'')) (\<lambda>_. ?I) ?I"
      by (intro valid_weaken [OF valid_raise]) auto
  next
    fix running assume "\<not> running"
    then show "valid (\<lambda>c. ?I c \<and> (running \<or> ?D c)) (m_seq (refresh_layout_if_needed env path)
             (m_seq (m_modify (\<lambda>c. reset_runtime_state (c\<lparr>co_fatal_error := None\<rparr>)))
              (m_seq (m_modify (\<lambda>c. c\<lparr>co_main := new_handle [core_binary_path env, path]\<rparr>))
               (m_seq (on_main (ph_start (ce_os env)))
                (m_seq (m_modify (\<lambda>c. c\<lparr>co_main_app_started := True\<rparr>))
                 (collector_snapshot env)))))) (\<lambda>_. ?I) ?I"
      by (intro valid_weaken [OF go]) auto
  qed
qed

lemma procs_stop_app [keeps_rules]: "keeps (procs_inv e) (stop_main_app env)"
  unfolding stop_main_app_def by (intro keeps_rules)

lemma logger_dead_procs: "logger_dead e c \<Longrightarrow> procs_inv e c"
  by (simp add: logger_dead_def)

text \<open>A dead logger stays dead under everything but a start.\<close>

lemma logger_dead_main:
  assumes "all_quiet m"
  shows "keeps (logger_dead e :: 'r collector \<Rightarrow> bool) (on_main m)"
proof (rule keepsI)
  fix c :: "'r collector" assume d: "logger_dead e c"
  obtain r h w where m: "m (co_main c, co_os c) = (r, (h, w))" by (cases "m (co_main c, co_os c)") auto
  have "later (co_os c) w" using all_quietD [OF assms m] by (simp add: quiet_def)
  moreover have "procs_inv e (snd (on_main m c))"
    by (rule keepsD [OF main_quiet [OF assms]]) (use d in \<open>simp add: logger_dead_def\<close>)
  ultimately show "logger_dead e (snd (on_main m c))"
    using d not_alive_later by (auto simp: logger_dead_def on_main_def m)
qed

lemma logger_dead_logger:
  assumes "all_quiet m"
  shows "keeps (logger_dead e :: 'r collector \<Rightarrow> bool) (on_logger m)"
proof (rule keepsI)
  fix c :: "'r collector" assume d: "logger_dead e c"
  obtain r h w where m: "m (co_logger c, co_os c) = (r, (h, w))"
    by (cases "m (co_logger c, co_os c)") auto
  have "later (co_os c) w" "h = co_logger c" using all_quietD [OF assms m] by (simp_all add: quiet_def)
  moreover have "procs_inv e (snd (on_logger m c))"
    by (rule keepsD [OF logger_quiet [OF assms]]) (use d in \<open>simp add: logger_dead_def\<close>)
  ultimately show "logger_dead e (snd (on_logger m c))"
    using d not_alive_later by (auto simp: logger_dead_def on_logger_def m)
qed

lemma logger_dead_keeps [keeps_rules]:
  "keeps (logger_dead e) (main_running env)"
  "keeps (logger_dead e) (on_main (ph_stop_if_running e'))"
  "keeps (logger_dead e) (on_main (stop_quietly e'))" "keeps (logger_dead e) (on_logger (stop_quietly e'))"
  unfolding main_running_def
  by (rule logger_dead_main logger_dead_logger, rule all_quiet_process all_quiet_stop)+

lemma logger_dead_same_keeps: "(\<And>c. same_procs c (snd (m c))) \<Longrightarrow> keeps (logger_dead e) m"
  by (rule keepsI) (use logger_dead_same in blast)

lemma logger_dead_ensure: "keeps (logger_dead e) (ensure_readers_or_fail env)"
proof -
  have make: "keeps (logger_dead e) (make_readers env)"
    by (rule logger_dead_same_keeps, rule same_procs_ops)
  have fatal: "keeps (logger_dead e) (m_modify (\<lambda>c. reset_runtime_state
      (c\<lparr>co_fatal_error := x, co_main_app_started := b\<rparr>)))" for x b
    by (rule logger_dead_same_keeps) (simp add: same_procs_def reset_runtime_state_def)
  show ?thesis
    unfolding ensure_readers_or_fail_def ensure_readers_initialized_def mark_fatal_error_def
    by (intro keeps_rules make fatal)
qed

lemma logger_started:
  assumes "logger_dead e c" and "ph_command (co_logger c) = [bin, cfg, out]"
    and "on_logger (ph_start e) c = (Inr u, c')"
  shows "procs_inv e (c'\<lparr>co_current_log_path := Some out\<rparr>)"
proof -
  obtain h w where m: "ph_start e (co_logger c, co_os c) = (Inr u, (h, w))" and
    c': "c' = c\<lparr>co_logger := h, co_os := w\<rparr>"
    using assms(3) by (auto simp: on_logger_def split: prod.splits)
  from m have s: "spawned e (co_logger c, co_os c) (h, w)" by (cases rule: ph_start_result) simp_all
  then have "owned e h (co_main c) w"
    using assms(1) owned_spawned [OF _ s, of "co_main c"] owned_sym [of e "co_main c"]
    by (simp add: logger_dead_def procs_inv_def)
  moreover have "ph_command h = [bin, cfg, out]" using s assms(2) by (simp add: spawned_def)
  ultimately show ?thesis using owned_sym [of e h] by (simp add: c' procs_inv_def records_path_def)
qed

lemma logger_not_started:
  assumes "logger_dead e c" and "on_logger (ph_start e) c = (Inl x, c')"
  shows "procs_inv e c'"
proof -
  obtain h w where m: "ph_start e (co_logger c, co_os c) = (Inl x, (h, w))" and
    c': "c' = c\<lparr>co_logger := h, co_os := w\<rparr>"
    using assms(2) by (auto simp: on_logger_def split: prod.splits)
  from m have q: "quiet (co_logger c, co_os c) (h, w)" by (cases rule: ph_start_result) simp_all
  then have "owned e h (co_main c) w" "h = co_logger c" "later (co_os c) w"
    using assms(1) q owned_quiet [OF _ q, of e "co_main c"] owned_sym [of e "co_main c"]
    by (simp_all add: logger_dead_def procs_inv_def quiet_def)
  then show ?thesis
    using assms(1) records_path_later [of e "co_logger c" "co_os c"] owned_sym [of e h]
    by (simp add: c' procs_inv_def logger_dead_def)
qed

lemma procs_begin_recording:
  "valid (logger_dead (ce_os env)) (begin_recording env path dir)
     (\<lambda>_. procs_inv (ce_os env)) (procs_inv (ce_os env))"
proof -
  let ?e = "ce_os env"
  let ?R = "\<lambda>out c. logger_dead ?e c \<and> ph_command (co_logger c) = [logger_binary_path env, path, out]"
  let ?S = "\<lambda>out c. procs_inv ?e (c\<lparr>co_current_log_path := Some out\<rparr>)"
  have dir: "valid (logger_dead ?e) (m_modify (\<lambda>c. c\<lparr>co_log_dir := dir\<rparr>)) (\<lambda>_. logger_dead ?e) (procs_inv ?e)"
    by (rule valid_modify) (simp add: logger_dead_def procs_inv_def)
  have assign: "valid (logger_dead ?e)
      (m_modify (\<lambda>c. c\<lparr>co_logger := new_handle [logger_binary_path env, path, out]\<rparr>)) (\<lambda>_. ?R out) (procs_inv ?e)" for out
    by (rule valid_modify, frule new_logger_handle)
      (simp add: logger_dead_def new_handle_def ph_alive_def)
  have start: "valid (?R out) (on_logger (ph_start ?e)) (\<lambda>_. ?S out) (procs_inv ?e)" for out
    by (rule validI) (use logger_started logger_not_started in blast)+
  have path: "valid (?S out) (m_modify (\<lambda>c. c\<lparr>co_current_log_path := Some out\<rparr>)) (\<lambda>_. procs_inv ?e) (procs_inv ?e)" for out
    by (rule valid_modify)
  have snap: "valid (procs_inv ?e) (m_bind (collector_snapshot env) (\<lambda>snap.
      m_return (snap\<lparr>st_log_path := Some out\<rparr>))) (\<lambda>_. procs_inv ?e) (procs_inv ?e)" for out
    unfolding keeps_valid [symmetric] by (intro keeps_rules)
  have gets: "valid (logger_dead ?e) (m_gets f) (\<lambda>_. logger_dead ?e) (procs_inv ?e)" for f :: "'a collector \<Rightarrow> string"
    by (rule validI) auto
  show ?thesis
    unfolding begin_recording_def
    by (rule valid_seq [OF dir], rule valid_bind [OF gets],
        rule valid_seq [OF assign valid_seq [OF start valid_seq [OF path snap]]])
qed

lemma procs_start_logging: "keeps (procs_inv (ce_os env)) (start_logging (env :: 'a collector_env) path dir)"
proof -
  let ?I = "procs_inv (ce_os env) :: 'a collector \<Rightarrow> bool" and ?D = "logger_dead (ce_os env) :: 'a collector \<Rightarrow> bool"
  have weak: "?D c \<Longrightarrow> ?I c" for c :: "'a collector" by (simp add: logger_dead_def)
  have ensure: "valid ?D (ensure_readers_or_fail env) (\<lambda>_. ?D) ?I"
    by (rule valid_weaken [OF logger_dead_ensure [unfolded keeps_valid]], assumption, assumption,
        rule logger_dead_procs)
  have last: "valid ?D (\<lambda>c. if \<not> co_readers_initialized c then
                  (Inl (RuntimeError ''shared memory is not ready yet''), c)
                else begin_recording env path dir c) (\<lambda>_. ?I) ?I"
    using validD [OF procs_begin_recording] validE [OF procs_begin_recording] weak
    by (intro validI) (auto split: if_splits)
  note body = valid_seq [OF ensure last]
  show ?thesis
    unfolding keeps_valid start_logging_def
  proof (rule valid_bind [OF valid_weaken [OF procs_keeps(1) [unfolded keeps_valid]]], assumption, assumption,
      assumption, rule valid_if)
    show "valid ?I (m_raise (RuntimeError ''start the main application before logging'')) (\<lambda>_. ?I) ?I"
      by (rule valid_raise)
  next
    fix running assume "\<not> \<not> running"
    show "valid ?I (m_bind (logger_running env) (\<lambda>logging c.
         if logging then (Inl (RuntimeError ''logging is already running''), c)
         else if path \<noteq> co_config_path c then
           (Inl (RuntimeError ''logging config must match the running application config''), c)
         else if ce_listing env (os_tick (co_os c)) dir = None then
           (Inl (RuntimeError (''log directory does not exist: '' @ dir)), c)
         else m_seq (ensure_readers_or_fail env) (\<lambda>c.
                if \<not> co_readers_initialized c then
                  (Inl (RuntimeError ''shared memory is not ready yet''), c)
                else begin_recording env path dir c) c)) (\<lambda>_. ?I) ?I"
      by (rule valid_bind [OF valid_logger_running], rule validI)
        (auto split: if_splits dest: validD [OF body] validE [OF body])
  qed
qed

lemma procs_stop_logging: "keeps (procs_inv (ce_os env)) (stop_logging (env :: 'a collector_env))"
proof -
  let ?I = "procs_inv (ce_os env) :: 'a collector \<Rightarrow> bool" and ?D = "logger_dead (ce_os env) :: 'a collector \<Rightarrow> bool"
  have stop: "valid ?I (on_logger (ph_stop (ce_os env))) (\<lambda>_. ?D) ?I"
  proof (rule validI)
    fix c :: "'a collector" and u c'
    assume inv: "?I c" and run: "on_logger (ph_stop (ce_os env)) c = (Inr u, c')"
    then have "?I c'" using keepsE [OF procs_keeps(4)] by blast
    then show "?D c'"
      using run mp.stop_ends [of "ce_os env" "(co_logger c, co_os c)"]
      by (auto simp: on_logger_def logger_dead_def split: prod.splits)
  qed (use keepsE [OF procs_keeps(4)] in blast)
  have path: "valid ?D (m_modify (\<lambda>c. c\<lparr>co_current_log_path := None\<rparr>)) (\<lambda>_. ?I) ?I"
    by (rule valid_modify) (simp add: logger_dead_def procs_inv_def records_path_def)
  show ?thesis
    unfolding keeps_valid stop_logging_def
    by (rule valid_seq [OF stop valid_seq [OF path procs_snapshot(1) [unfolded keeps_valid]]])
qed

lemma procs_stop_all: "keeps (procs_inv (ce_os env)) (stop_all (env :: 'a collector_env))"
proof -
  let ?I = "procs_inv (ce_os env) :: 'a collector \<Rightarrow> bool" and ?D = "logger_dead (ce_os env) :: 'a collector \<Rightarrow> bool"
  have stop: "valid ?I (on_logger (ph_stop_if_running (ce_os env))) (\<lambda>_. ?D) ?I"
  proof (rule validI)
    fix c :: "'a collector" and u c'
    assume inv: "?I c" and run: "on_logger (ph_stop_if_running (ce_os env)) c = (Inr u, c')"
    then have "?I c'" using keepsE [OF procs_keeps(6)] by blast
    moreover obtain h w where m: "mp.stop_if_running (ce_os env) (co_logger c, co_os c) = (Inr u, (h, w))"
        "c' = c\<lparr>co_logger := h, co_os := w\<rparr>"
      using run by (auto simp: on_logger_def ph_stop_if_running_eq split: prod.splits)
    moreover from m(1) have "\<not> ph_alive (ce_os env) (h, w)"
      by (cases rule: mp.stop_if_running_cases) simp_all
    ultimately show "?D c'" by (simp add: logger_dead_def)
  qed (use keepsE [OF procs_keeps(6)] in blast)
  have main: "valid ?D (on_main (ph_stop_if_running (ce_os env))) (\<lambda>_. ?D) ?I"
    by (rule valid_weaken [OF logger_dead_keeps(2) [unfolded keeps_valid]], assumption, assumption,
        rule logger_dead_procs)
  have path: "valid ?D (m_modify (\<lambda>c. reset_runtime_state
          (c\<lparr>co_current_log_path := None, co_main_app_started := False\<rparr>))) (\<lambda>_. ?I) ?I"
    by (rule valid_modify)
      (simp add: logger_dead_def procs_inv_def records_path_def reset_runtime_state_def)
  show ?thesis
    unfolding keeps_valid stop_all_def by (rule valid_seq [OF stop valid_seq [OF main path]])
qed

lemma procs_close: "keeps (procs_inv (ce_os env)) (close_collector env)"
  unfolding close_collector_def by (intro keeps_rules procs_stop_all)

lemma procs_background: "keeps (procs_inv e) start_background_collection"
  unfolding start_background_collection_def by (intro keeps_rules)

end
