(* ===== verification/Collector_Machine.thy ===== *)
theory Collector_Machine imports Collector_Invariants begin

text \<open>
  The server's state as a machine: any sequence of requests, turns of the collecting thread,
  encoded frames stored by requests that had left the lock, and passing time, in any order.
  Every process may exit between any two polls (the environment decides when), and every
  command may raise. The theorems hold in every reachable state.
\<close>

datatype command =
    StartApp string
  | StopApp
  | StartLogging string string
  | StopLogging
  | TakeSnapshot
  | TakeCameraSnapshot
  | ServeFrame string
  | CollectorTurn
  | StartBackground
  | StopAll
  | Close

fun run_command :: "'r collector_env \<Rightarrow> imencode \<Rightarrow> command \<Rightarrow> 'r collector \<Rightarrow> 'r collector" where
  "run_command env enc (StartApp path) c = snd (start_main_app env path c)"
| "run_command env enc StopApp c = snd (stop_main_app env c)"
| "run_command env enc (StartLogging path dir) c = snd (start_logging env path dir c)"
| "run_command env enc StopLogging c = snd (stop_logging env c)"
| "run_command env enc TakeSnapshot c = snd (collector_snapshot env c)"
| "run_command env enc TakeCameraSnapshot c = snd (camera_snapshot env c)"
| "run_command env enc (ServeFrame name) c = snd (camera_frame enc name c)"
| "run_command env enc CollectorTurn c = snd (collector_turn env c)"
| "run_command env enc StartBackground c = snd (start_background_collection c)"
| "run_command env enc StopAll c = snd (stop_all env c)"
| "run_command env enc Close c = snd (close_collector env c)"

inductive collector_step ::
    "'r collector_env \<Rightarrow> imencode \<Rightarrow> 'r collector \<Rightarrow> 'r collector \<Rightarrow> bool"
  for env :: "'r collector_env" and enc :: imencode where
  command: "collector_step env enc c (run_command env enc cmd c)"
| passes: "collector_step env enc c (c\<lparr>co_os := tick (co_os c)\<rparr>)"
| store: "i < length (co_cameras c) \<Longrightarrow>
     collector_step env enc c
       (c\<lparr>co_cameras := (co_cameras c)[i := frame_commit q f b (co_cameras c ! i)]\<rparr>)"

inductive_cases collector_stepE: "collector_step env enc c c'"

definition boot :: os where
  "boot = \<lparr>os_tick = 0, os_next = 0, os_dead = []\<rparr>"

inductive collector_reachable ::
    "'r collector_env \<Rightarrow> imencode \<Rightarrow> string \<Rightarrow> string \<Rightarrow> 'r collector \<Rightarrow> bool"
  for env :: "'r collector_env" and enc :: imencode and path :: string and dir :: string where
  create: "new_collector env path dir boot = Inr c \<Longrightarrow> collector_reachable env enc path dir c"
| step: "collector_reachable env enc path dir c \<Longrightarrow> collector_step env enc c c' \<Longrightarrow>
     collector_reachable env enc path dir c'"

section \<open>Both invariants hold in every reachable state\<close>

lemma data_inv_command: "data_inv c \<Longrightarrow> data_inv (run_command env enc cmd c)"
  by (cases cmd)
    (simp_all add: keepsD [OF start_main_app_keeps] keepsD [OF stop_main_app_keeps]
      keepsD [OF start_logging_keeps] keepsD [OF stop_logging_keeps] keepsD [OF snapshot_keeps(1)]
      keepsD [OF snapshot_keeps(2)] keepsD [OF camera_frame_keeps] keepsD [OF collector_turn_keeps]
      keepsD [OF start_background_keeps] keepsD [OF stop_all_keeps] keepsD [OF close_keeps])

lemma list_all2_update_right:
  assumes "\<And>x. P x y = P x (ys ! i)" and "i < length ys"
  shows "list_all2 P xs (ys[i := y]) = list_all2 P xs ys"
proof -
  have "P x (ys[i := y] ! j) = P x (ys ! j)" for x j
    using assms by (cases "i = j") simp_all
  then show ?thesis by (simp add: list_all2_conv_all_nth)
qed

lemma list_all_update: "list_all P xs \<Longrightarrow> P y \<Longrightarrow> list_all P (xs[i := y])"
  by (auto simp: list_all_iff dest: set_update_subset_insert [THEN subsetD])

lemma data_inv_store:
  assumes "data_inv c" and "i < length (co_cameras c)"
  shows "data_inv (c\<lparr>co_cameras := (co_cameras c)[i := frame_commit q f b (co_cameras c ! i)]\<rparr>)"
proof -
  let ?s = "co_cameras c ! i" and ?cams = "(co_cameras c)[i := frame_commit q f b (co_cameras c ! i)]"
  have nth: "P ?s" if "list_all P (co_cameras c)" for P
    using that assms(2) by (simp add: list_all_length)
  have fits: "list_all2 camera_fits ls ?cams = list_all2 camera_fits ls (co_cameras c)" for ls
    using assms(2) by (simp add: list_all2_update_right)
  have sound: "list_all sensor_inv ?cams" if "list_all sensor_inv (co_cameras c)"
    using list_all_update [OF that] sensor_inv_commit nth [OF that] by blast
  have read: "list_all (\<lambda>s. se_reader s \<noteq> None) ?cams" if "list_all (\<lambda>s. se_reader s \<noteq> None) (co_cameras c)"
    using list_all_update [OF that, of "frame_commit q f b ?s" i] nth [OF that]
    by (simp add: frame_commit_def)
  have bl: "?cams = co_cameras c" if "list_all blank (co_cameras c)"
    using frame_commit_blank [OF nth [OF that]] by simp
  show ?thesis
  proof (cases "co_readers_initialized c")
    case True
    then show ?thesis using assms(1) fits sound read by (simp add: data_inv_def shape_inv_def)
  next
    case False
    then have "list_all blank (co_cameras c)" using assms(1) by (simp add: data_inv_def)
    then show ?thesis using assms(1) bl by simp
  qed
qed

lemma data_inv_reachable: "collector_reachable env enc path dir c \<Longrightarrow> data_inv c"
proof (induction rule: collector_reachable.induct)
  case (create c)
  then show ?case by (rule data_inv_new)
next
  case (step c c')
  from step.hyps(2) show ?case
    by (cases rule: collector_step.cases)
      (use step.IH data_inv_command data_inv_store in \<open>auto\<close>)
qed

lemma procs_inv_command: "procs_inv (ce_os env) c \<Longrightarrow> procs_inv (ce_os env) (run_command env enc cmd c)"
  by (cases cmd)
    (simp_all add: keepsD [OF procs_start_app] keepsD [OF procs_stop_app]
      keepsD [OF procs_start_logging] keepsD [OF procs_stop_logging] keepsD [OF procs_snapshot(1)]
      keepsD [OF procs_snapshot(2)] keepsD [OF procs_keeps_same(5)] keepsD [OF procs_turn]
      keepsD [OF procs_background] keepsD [OF procs_stop_all] keepsD [OF procs_close])

lemma procs_inv_new: "new_collector env path dir boot = Inr c \<Longrightarrow> procs_inv e c"
  by (auto simp: new_collector_def Let_def load_layout_def procs_inv_def owned_def records_path_def
      new_handle_def boot_def ph_alive_def split: sum.splits)

lemma procs_inv_tick: "procs_inv e c \<Longrightarrow> procs_inv e (c\<lparr>co_os := tick (co_os c)\<rparr>)"
  using owned_quiet [of e "co_main c" "co_logger c" "co_os c" "co_main c" "tick (co_os c)"]
    records_path_later [of e "co_logger c" "co_os c" _ "tick (co_os c)"]
  by (simp add: procs_inv_def quiet_later)

lemma procs_inv_reachable: "collector_reachable env enc path dir c \<Longrightarrow> procs_inv (ce_os env) c"
proof (induction rule: collector_reachable.induct)
  case (create c)
  then show ?case by (rule procs_inv_new)
next
  case (step c c')
  from step.hyps(2) show ?case
  proof (cases rule: collector_step.cases)
    case (command cmd)
    then show ?thesis using step.IH procs_inv_command by simp
  next
    case passes
    then show ?thesis using step.IH procs_inv_tick by simp
  next
    case (store i q f b)
    then show ?thesis using step.IH by (simp add: procs_inv_def)
  qed
qed

section \<open>What a client sees\<close>

text \<open>A snapshot shows the state it leaves behind.\<close>

lemma snapshot_shows:
  assumes "collector_snapshot env c = (Inr v, c')"
  shows "st_fatal_error v = co_fatal_error c'" "st_shared_memory_ready v = co_readers_initialized c'"
    "st_cameras v = map camera_view (co_cameras c')" "st_imus v = map imu_view (co_imus c')"
    "st_dt_cameras v = rs_snapshot (co_camera_rate_stats c')"
    "st_dt_imus v = rs_snapshot (co_imu_rate_stats c')"
    "st_config_path v = co_config_path c'" "st_log_dir v = co_log_dir c'"
  using assms by (auto simp: collector_snapshot_def m_seq_def m_bind_Inr_iff camera_snapshots_def imu_snapshots_def)

lemma blank_fields:
  assumes "blank s"
  shows "se_last_ready s = False" "se_last_sequence s = None" "se_last_timestamp_ns s = None"
    "se_last_dt_s s = None" "se_last_payload s = empty_payload"
proof -
  have s: "s = sensor_reset s" using assms by (simp add: blank_def)
  show "se_last_ready s = False" "se_last_sequence s = None" "se_last_timestamp_ns s = None"
    "se_last_dt_s s = None" "se_last_payload s = empty_payload"
    by (subst s, simp add: sensor_reset_def)+
qed

definition idle_view :: "stream_view \<Rightarrow> bool" where
  "idle_view v \<longleftrightarrow> \<not> sv_ready v \<and> sv_timestamp_ns v = None \<and> sv_sequence v = None \<and>
     sv_dt_s v = None \<and> sv_rate_hz v = None \<and> sv_sample_count v = None \<and> sv_sample v = None"

lemma blank_view: "blank s \<Longrightarrow> idle_view (camera_view s) \<and> idle_view (imu_view s)"
  by (simp add: idle_view_def camera_view_def imu_view_def sensor_snapshot_def blank_fields
      empty_payload_def Let_def)

lemma view_names:
  assumes "data_inv c"
  shows "map sv_name (map camera_view (co_cameras c)) @ map sv_name (map imu_view (co_imus c)) =
     co_probe_names c"
proof -
  have "map se_name (co_cameras c) = map cl_name (lo_cameras (co_layout c))"
    "map se_name (co_imus c) = lo_imus (co_layout c)"
    using assms
    by (auto simp: data_inv_def shape_inv_def list_all2_conv_all_nth camera_fits_def imu_fits_def
        intro: nth_equalityI)
  then show ?thesis using assms
    by (simp add: data_inv_def shape_inv_def camera_view_def imu_view_def sensor_snapshot_def
        Let_def comp_def)
qed

text \<open>
  C7. Every state report is coherent, whatever sequence of commands, exits, failures and
  collecting turns led to it: it lists exactly the sensors of the loaded layout in order; it
  never shows a fatal error together with ready shared memory; and while shared memory is
  not ready every stream is shown without any sample and both rate statistics are empty, so
  nothing of an earlier run of the application leaks into the next one.
\<close>

theorem snapshot_is_coherent:
  assumes "collector_reachable env enc path dir c"
    and "collector_snapshot env c = (Inr v, c')"
  shows "map sv_name (st_cameras v) @ map sv_name (st_imus v) = co_probe_names c' \<and>
     (st_fatal_error v \<noteq> None \<longrightarrow> \<not> st_shared_memory_ready v) \<and>
     (\<not> st_shared_memory_ready v \<longrightarrow>
        list_all idle_view (st_cameras v) \<and> list_all idle_view (st_imus v) \<and>
        sn_samples (st_dt_cameras v) = 0 \<and> sn_samples (st_dt_imus v) = 0)"
proof -
  have inv: "data_inv c'"
    by (rule keepsE [OF snapshot_keeps(1) data_inv_reachable [OF assms(1)] assms(2)])
  note shows_state = snapshot_shows [OF assms(2)]
  have "map sv_name (st_cameras v) @ map sv_name (st_imus v) = co_probe_names c'"
    using view_names [OF inv] shows_state by simp
  moreover have "st_fatal_error v \<noteq> None \<longrightarrow> \<not> st_shared_memory_ready v"
    using inv shows_state by (simp add: data_inv_def)
  moreover have "list_all idle_view (st_cameras v) \<and> list_all idle_view (st_imus v) \<and>
        sn_samples (st_dt_cameras v) = 0 \<and> sn_samples (st_dt_imus v) = 0"
    if "\<not> st_shared_memory_ready v"
    using that inv shows_state
    by (auto simp: data_inv_def list_all_iff blank_view rs_snapshot_def rs_zero_def)
  ultimately show ?thesis by blast
qed

text \<open>An installation with one camera and one IMU whose processes run and obey signals.\<close>

definition demo_env :: "unit collector_env" where
  "demo_env =
     \<lparr>ce_os = \<lparr>oe_exit_tick = \<lambda>_. None, oe_is_file = \<lambda>_ _. True, oe_executable = \<lambda>_ _. True,
               oe_spawn_error = \<lambda>_ _. None, oe_pid = int, oe_term_ends = \<lambda>_. True,
               oe_kill_ends = \<lambda>_. True\<rparr>,
      ce_repr = \<lambda>_. [], ce_repo_root = ''/repo'',
      ce_load = \<lambda>_ _. Inr (layout_doc \<lparr>lo_cameras = [\<lparr>cl_name = ''rgb'', cl_width = 1, cl_height = 1\<rparr>],
                                        lo_imus = [''imu'']\<rparr>),
      ce_listing = \<lambda>_ _. Some [], ce_today = \<lambda>_. ''2026-01-31'', ce_shm = \<lambda>_. ShmMissing,
      ce_core_module = \<lambda>_. Inr (), ce_make_reader = \<lambda>_ _ _. Inr (Some ()),
      ce_read = \<lambda>_ _. Inr demo_reading\<rparr>"

definition demo_layout :: config_layout where
  "demo_layout = \<lparr>lo_cameras = [\<lparr>cl_name = ''rgb'', cl_width = 1, cl_height = 1\<rparr>], lo_imus = [''imu'']\<rparr>"

lemma demo_load: "load_config_layout (ce_repr demo_env) (ce_load demo_env n) p = Inr demo_layout"
proof -
  have "truthy (layout_doc demo_layout)" by (simp add: layout_doc_def)
  then show ?thesis
    by (simp add: load_config_layout_def demo_env_def py_or_def parse_layout_doc flip: demo_layout_def)
qed

definition demo_collector :: "unit collector" where
  "demo_collector = (case new_collector demo_env ''cfg'' ''/log'' boot of Inr c \<Rightarrow> c)"

lemma demo_new: "new_collector demo_env ''cfg'' ''/log'' boot = Inr demo_collector"
  by (simp add: demo_collector_def new_collector_def Let_def load_layout_def demo_load)

lemma demo_collector_reachable: "collector_reachable demo_env enc ''cfg'' ''/log'' demo_collector"
  by (rule collector_reachable.create) (rule demo_new)

lemma demo_collector_fields:
  "co_fatal_error demo_collector = None" "co_main_app_started demo_collector = False"
  "co_probe_names demo_collector = [''rgb'', ''imu'']" "co_main demo_collector = new_handle [core_binary_path demo_env, ''cfg'']"
  "ph_process (co_logger demo_collector) = None" "co_readers_initialized demo_collector = False"
  "co_os demo_collector = boot" "co_config_path demo_collector = ''cfg''" "co_stop_set demo_collector = False"
  by (simp_all add: demo_collector_def new_collector_def Let_def load_layout_def demo_load demo_layout_def new_handle_def)

lemma demo_snapshot: "\<exists>v. collector_snapshot demo_env demo_collector = (Inr v, demo_collector)"
  by (simp add: collector_snapshot_def m_seq_def m_bind_def detect_early_exit_def demo_collector_fields
      view_main_def view_logger_def main_running_def logger_running_def on_main_def on_logger_def
      ph_running_def new_handle_def)

lemma snapshot_is_coherent_witness:
  "\<exists>v c'. collector_snapshot demo_env demo_collector = (Inr v, c') \<and>
     map sv_name (st_cameras v) @ map sv_name (st_imus v) = [''rgb'', ''imu'']"
proof -
  obtain v where v: "collector_snapshot demo_env demo_collector = (Inr v, demo_collector)"
    using demo_snapshot by blast
  show ?thesis
    using snapshot_is_coherent [OF demo_collector_reachable v] v demo_collector_fields(3) by auto
qed

text \<open>
  C8. No process is ever orphaned: in every reachable state each process that is alive is
  the one the main handle or the logger handle holds, so at most one application and one
  logger run at a time, however starts, failing starts, fatal errors and spontaneous exits
  interleave.
\<close>

theorem every_process_is_owned:
  assumes "collector_reachable env enc path dir c"
    and "p < os_next (co_os c)" and "alive (ce_os env) p (co_os c)"
  shows "ph_process (co_main c) = Some p \<or> ph_process (co_logger c) = Some p"
  using procs_inv_reachable [OF assms(1)] assms(2,3) by (simp add: procs_inv_def owned_def)

text \<open>
  C9. While a logger process is alive, the state reports the very path that is on that
  process's command line, so the log path a client is shown during a recording is the file
  being written.
\<close>

theorem live_logger_writes_reported_path:
  assumes "collector_reachable env enc path dir c"
    and "ph_alive (ce_os env) (co_logger c, co_os c)"
  shows "\<exists>out. shown_log_path env c = Some out \<and> length (ph_command (co_logger c)) = 3 \<and>
     ph_command (co_logger c) ! 2 = out"
proof -
  obtain bin cfg out where "ph_command (co_logger c) = [bin, cfg, out]" "co_current_log_path c = Some out"
    using procs_inv_reachable [OF assms(1)] assms(2) by (auto simp: procs_inv_def records_path_def)
  then show ?thesis by (simp add: shown_log_path_def)
qed

text \<open>An installation without sensors whose shared memory is published: a recording can start.\<close>

definition rec_env :: "unit collector_env" where
  "rec_env = demo_env\<lparr>ce_load := \<lambda>_ _. Inr (PDict []), ce_shm := \<lambda>_. ShmBytes (replicate 8 0)\<rparr>"

lemmas rec_env_simps = rec_env_def demo_env_def

lemma rec_load: "load_config_layout (ce_repr rec_env) (ce_load rec_env n) p = Inr \<lparr>lo_cameras = [], lo_imus = []\<rparr>"
  by (simp add: load_config_layout_def rec_env_simps py_or_def parse_config_layout_def)

lemma rec_env_fields:
  "oe_exit_tick (ce_os rec_env) = (\<lambda>_. None)"
  "ce_listing rec_env = (\<lambda>_ _. Some [])" "ce_today rec_env = (\<lambda>_. ''2026-01-31'')"
  "ce_shm rec_env = (\<lambda>_. ShmBytes (replicate 8 0))" "ce_core_module rec_env = (\<lambda>_. Inr ())"
  "oe_is_file (ce_os rec_env) = (\<lambda>_ _. True)" "oe_executable (ce_os rec_env) = (\<lambda>_ _. True)"
  "oe_spawn_error (ce_os rec_env) = (\<lambda>_ _. None)" "oe_term_ends (ce_os rec_env) = (\<lambda>_. True)"
  by (simp_all add: rec_env_simps)

definition rec_start :: "unit collector" where
  "rec_start = (case new_collector rec_env ''cfg'' ''/log'' boot of Inr c \<Rightarrow> c)"

definition rec_recording :: "unit collector" where
  "rec_recording = run_command rec_env demo_encoder (StartLogging ''cfg'' ''/log'')
     (run_command rec_env demo_encoder (StartApp ''cfg'') rec_start)"

lemma rec_reachable: "collector_reachable rec_env demo_encoder ''cfg'' ''/log'' rec_recording"
proof -
  have "new_collector rec_env ''cfg'' ''/log'' boot = Inr rec_start"
    by (simp add: rec_start_def new_collector_def Let_def load_layout_def rec_load)
  then show ?thesis
    unfolding rec_recording_def
    by (intro collector_reachable.step [OF _ collector_step.command] collector_reachable.create)
qed

lemma rec_probe: "probe_ready [] (ShmBytes (replicate 8 0)) = Inr True"
  by (simp add: probe_ready_def matches_layout_def numeral_eq_Suc)

lemma rec_app:
  "\<exists>c. run_command rec_env demo_encoder (StartApp ''cfg'') rec_start = c \<and>
     co_main c = \<lparr>ph_command = [core_binary_path rec_env, ''cfg''], ph_process = Some 0\<rparr> \<and>
     ph_process (co_logger c) = None \<and> co_config_path c = ''cfg'' \<and> co_probe_names c = [] \<and>
     co_cameras c = [] \<and> co_imus c = [] \<and> co_fatal_error c = None \<and> \<not> co_readers_initialized c \<and>
     co_main_app_started c \<and> os_next (co_os c) = 1 \<and> os_dead (co_os c) = []"
  by (simp add: rec_start_def new_collector_def Let_def load_layout_def rec_load boot_def
      start_main_app_def m_seq_def m_bind_def main_running_def on_main_def ph_running_def new_handle_def
      refresh_layout_if_needed_def reset_runtime_state_def ph_start_def ph_spawn_def rec_env_fields
      collector_snapshot_def detect_early_exit_def view_main_def view_logger_def logger_running_def
      on_logger_def tick_def alive_def)

lemma rec_logging:
  "co_logger rec_recording =
     \<lparr>ph_command = [logger_binary_path rec_env, ''cfg'', ''/log/2026-01-31-000.mcap''], ph_process = Some 1\<rparr> \<and>
   ph_process (co_main rec_recording) = Some 0 \<and> os_next (co_os rec_recording) = 2 \<and>
   os_dead (co_os rec_recording) = [] \<and> co_readers_initialized rec_recording \<and>
   co_fatal_error rec_recording = None \<and> co_main_app_started rec_recording"
proof -
  have path: "next_log_path ''/log'' (Some []) ''2026-01-31'' = ''/log/2026-01-31-000.mcap''"
    by code_simp
  obtain c where c: "run_command rec_env demo_encoder (StartApp ''cfg'') rec_start = c"
     "co_main c = \<lparr>ph_command = [core_binary_path rec_env, ''cfg''], ph_process = Some 0\<rparr>"
     "ph_process (co_logger c) = None" "co_config_path c = ''cfg''" "co_probe_names c = []"
     "co_cameras c = []" "co_imus c = []" "co_fatal_error c = None" "\<not> co_readers_initialized c"
     "co_main_app_started c" "os_next (co_os c) = 1" "os_dead (co_os c) = []"
    using rec_app by blast
  show ?thesis
    unfolding rec_recording_def c(1)
    using c(2-)
    by (simp add: start_logging_def m_seq_def m_bind_def main_running_def logger_running_def on_main_def
        on_logger_def ph_running_def rec_env_fields alive_def tick_def ensure_readers_or_fail_def m_catch_def
        ensure_readers_initialized_def rec_probe make_readers_def begin_recording_def path
        ph_start_def new_handle_def ph_spawn_def collector_snapshot_def detect_early_exit_def
        view_main_def view_logger_def)
qed

lemma rec_alive:
  "alive (ce_os rec_env) 0 (co_os rec_recording)" "alive (ce_os rec_env) 1 (co_os rec_recording)"
  by (simp_all add: alive_def rec_logging rec_env_fields)

lemma every_process_is_owned_witness:
  "ph_process (co_main rec_recording) = Some 1 \<or> ph_process (co_logger rec_recording) = Some 1"
  by (rule every_process_is_owned [OF rec_reachable _ rec_alive(2)]) (simp add: rec_logging)

lemma live_logger_writes_reported_path_witness:
  "\<exists>out. shown_log_path rec_env rec_recording = Some out \<and> length (ph_command (co_logger rec_recording)) = 3 \<and>
     ph_command (co_logger rec_recording) ! 2 = out"
  by (rule live_logger_writes_reported_path [OF rec_reachable])
    (use rec_alive(2) in \<open>simp add: ph_alive_def rec_logging\<close>)

section \<open>Shutting down\<close>

lemma stop_if_running_on:
  assumes "mp.stop_if_running env (h, w) = (r, (h', w'))"
  shows "quiet (h, w) (h', w')"
  using all_quietD [OF all_quiet_stop(1) [unfolded ph_stop_if_running_eq] assms] .

lemma stop_all_result:
  assumes "stop_all env c = (Inr u, c')"
  shows "\<not> ph_alive (ce_os env) (co_main c', co_os c') \<and> \<not> ph_alive (ce_os env) (co_logger c', co_os c') \<and>
     \<not> co_readers_initialized c' \<and> co_current_log_path c' = None"
proof -
  obtain h w where a: "mp.stop_if_running (ce_os env) (co_logger c, co_os c) = (Inr (), (h, w))"
    and rest: "m_seq (on_main (ph_stop_if_running (ce_os env)))
       (m_modify (\<lambda>c. reset_runtime_state
          (c\<lparr>co_current_log_path := None, co_main_app_started := False\<rparr>)))
       (c\<lparr>co_logger := h, co_os := w\<rparr>) = (Inr u, c')"
    using assms
    by (auto simp: stop_all_def m_seq_def m_bind_Inr_iff on_logger_def ph_stop_if_running_eq
        split: prod.splits)
  obtain g x where b: "mp.stop_if_running (ce_os env) (co_main c, w) = (Inr (), (g, x))"
    and c': "c' = reset_runtime_state (c\<lparr>co_logger := h, co_main := g, co_os := x,
               co_current_log_path := None, co_main_app_started := False\<rparr>)"
    using rest
    by (auto simp: m_seq_def m_bind_Inr_iff on_main_def ph_stop_if_running_eq split: prod.splits)
  have "\<not> ph_alive (ce_os env) (h, w)" using a by (cases rule: mp.stop_if_running_cases) simp_all
  moreover have "later w x" using stop_if_running_on [OF b] by (simp add: quiet_def)
  ultimately have "\<not> ph_alive (ce_os env) (h, x)" by (rule not_alive_later)
  moreover have "\<not> ph_alive (ce_os env) (g, x)"
    using b by (cases rule: mp.stop_if_running_cases) simp_all
  ultimately show ?thesis by (simp add: c' reset_runtime_state_def)
qed

text \<open>Processes that do not exit on their own and end when they are told to.\<close>

definition obedient :: "os_env \<Rightarrow> bool" where
  "obedient env \<longleftrightarrow> (\<forall>p. oe_exit_tick env p = None \<and> (oe_term_ends env p \<or> oe_kill_ends env p))"

lemma obedient_stop: "obedient env \<Longrightarrow> \<exists>hw'. ph_stop_if_running env hw = (Inr (), hw')"
proof -
  assume ob: "obedient env"
  obtain h w where hw: "hw = (h, w)" by (cases hw)
  show ?thesis
  proof (cases "ph_process h")
    case None
    then show ?thesis by (simp add: hw ph_stop_if_running_def m_bind_def ph_running_def)
  next
    case (Some p)
    then show ?thesis using ob
      by (cases "alive env p w")
        (auto simp: hw ph_stop_if_running_def m_bind_def ph_running_def ph_stop_def obedient_def
          alive_def tick_def)
  qed
qed

lemma stop_all_returns:
  assumes "obedient (ce_os env)"
  shows "\<exists>c'. stop_all env c = (Inr (), c')"
proof -
  obtain hw where a: "ph_stop_if_running (ce_os env) (co_logger c, co_os c) = (Inr (), hw)"
    using obedient_stop [OF assms] by blast
  obtain hw' where b: "ph_stop_if_running (ce_os env) (co_main c, snd hw) = (Inr (), hw')"
    using obedient_stop [OF assms] by blast
  from a b show ?thesis
    by (cases hw; cases hw') (simp add: stop_all_def m_seq_def m_bind_def on_logger_def on_main_def)
qed

text \<open>
  Closing the state: when \<open>close()\<close> returns, no process the server ever started is alive, no
  reader is kept and no log path is reported; and it does return whenever the processes do not exit
  by themselves at that moment and end on one of the two signals.
\<close>

lemma close_is_stop_all: "close_collector env c = stop_all env (c\<lparr>co_stop_set := True, co_thread := False\<rparr>)"
  by (simp add: close_collector_def m_seq_def m_bind_def)

lemma close_returns: "obedient (ce_os env) \<Longrightarrow> fst (close_collector env c) = Inr ()"
  using stop_all_returns [of env "c\<lparr>co_stop_set := True, co_thread := False\<rparr>"] by (auto simp: close_is_stop_all)

lemma stop_all_thread: "co_thread (snd (stop_all env c)) = co_thread c"
  by (auto simp: stop_all_def m_seq_def m_bind_def on_logger_def on_main_def m_modify_def reset_runtime_state_def
      split: prod.splits sum.splits)

lemma close_result:
  assumes "collector_reachable env enc path dir c" and "close_collector env c = (Inr u, c')"
  shows "(\<forall>p < os_next (co_os c'). \<not> alive (ce_os env) p (co_os c')) \<and>
    \<not> co_readers_initialized c' \<and> co_current_log_path c' = None \<and> \<not> co_thread c'"
proof -
  note res = stop_all_result [OF assms(2) [unfolded close_is_stop_all]]
  have "procs_inv (ce_os env) c'"
    by (rule keepsE [OF procs_close procs_inv_reachable [OF assms(1)] assms(2)])
  then have "ph_process (co_main c') = Some p \<or> ph_process (co_logger c') = Some p"
    if "p < os_next (co_os c')" "alive (ce_os env) p (co_os c')" for p
    using that by (simp add: procs_inv_def owned_def)
  with res have "\<forall>p < os_next (co_os c'). \<not> alive (ce_os env) p (co_os c')"
    by (fastforce simp: ph_alive_def)
  moreover have "\<not> co_thread c'"
    using stop_all_thread [of env "c\<lparr>co_stop_set := True, co_thread := False\<rparr>"] assms(2)
    by (simp add: close_is_stop_all)
  ultimately show ?thesis using res by simp
qed

section \<open>A fatal error stays\<close>

definition failed_with :: "string \<Rightarrow> 'r collector \<Rightarrow> bool" where
  "failed_with msg c \<longleftrightarrow> co_fatal_error c = Some msg"

lemma failed_frame [simp]:
  "failed_with msg (c\<lparr>co_main := h, co_os := w\<rparr>) = failed_with msg c"
  "failed_with msg (c\<lparr>co_logger := h, co_os := w\<rparr>) = failed_with msg c"
  by (simp_all add: failed_with_def)

lemma failed_process [keeps_rules]:
  "keeps (failed_with msg) (on_main m)" "keeps (failed_with msg) (on_logger m')"
  "keeps (failed_with msg) (main_running env)" "keeps (failed_with msg) (logger_running env)"
  by (simp_all add: keeps_on_main keeps_on_logger main_running_def logger_running_def)

lemma failed_early_exit [keeps_rules]: "keeps (failed_with msg) (detect_early_exit env)"
  by (rule keepsI) (simp add: detect_early_exit_def failed_with_def)

lemma failed_snapshot [keeps_rules]:
  "keeps (failed_with msg) (collector_snapshot env)" "keeps (failed_with msg) (camera_snapshot env)"
  unfolding collector_snapshot_def camera_snapshot_def view_main_def view_logger_def
  by (intro keeps_rules)+

lemma failed_ensure [keeps_rules]: "keeps (failed_with msg) (ensure_readers_or_fail env)"
  by (rule keepsI) (simp add: ensure_readers_or_fail_def m_catch_def ensure_readers_initialized_def failed_with_def)

lemma failed_modify [keeps_rules]:
  "(\<And>c. co_fatal_error (f c) = co_fatal_error c) \<Longrightarrow> keeps (failed_with msg) (m_modify f)"
  by (rule keeps_modify) (simp add: failed_with_def)

lemma failed_recording [keeps_rules]: "keeps (failed_with msg) (begin_recording env path dir)"
  unfolding begin_recording_def by (intro keeps_rules) simp_all

lemma failed_commands:
  "keeps (failed_with msg) (stop_main_app env)" "keeps (failed_with msg) (start_logging env path dir)"
  "keeps (failed_with msg) (stop_logging env)" "keeps (failed_with msg) (stop_all env)"
  unfolding stop_main_app_def start_logging_def stop_logging_def stop_all_def
  by (intro keeps_rules; simp add: reset_runtime_state_def)+

lemma failed_turn: "failed_with msg c \<Longrightarrow> collector_turn env c = (Inr (), c)"
  by (simp add: collector_turn_def m_catch_def collect_once_def failed_with_def)

lemma failed_close: "failed_with msg c \<Longrightarrow> failed_with msg (snd (close_collector env c))"
  using keepsD [OF failed_commands(4), of msg "c\<lparr>co_stop_set := True, co_thread := False\<rparr>" env]
  by (simp add: close_collector_def m_seq_def m_bind_def failed_with_def)

text \<open>
  Once a fatal error is recorded it is shown until the application is started again:
  no other command, and no turn of the collecting thread, clears or replaces the message,
  and the collecting thread leaves the whole state alone.
\<close>

theorem fatal_error_is_kept:
  assumes "co_fatal_error c = Some msg" and "\<forall>path. cmd \<noteq> StartApp path"
  shows "co_fatal_error (run_command env enc cmd c) = Some msg \<and>
     run_command env enc CollectorTurn c = c"
proof
  have f: "failed_with msg c" using assms(1) by (simp add: failed_with_def)
  have "failed_with msg (run_command env enc cmd c)"
  proof (cases cmd)
    case (ServeFrame name)
    then show ?thesis using f by (simp add: camera_frame_def failed_with_def split: prod.split)
  next
    case StartBackground
    then show ?thesis using f by (simp add: start_background_collection_def failed_with_def)
  next
    case CollectorTurn
    then show ?thesis using f failed_turn [OF f, of env] by simp
  next
    case Close
    then show ?thesis using f failed_close by simp
  qed (use f assms(2) in \<open>simp_all add: keepsD [OF failed_commands(1)] keepsD [OF failed_commands(2)]
      keepsD [OF failed_commands(3)] keepsD [OF failed_commands(4)] keepsD [OF failed_snapshot(1)]
      keepsD [OF failed_snapshot(2)]\<close>)
  then show "co_fatal_error (run_command env enc cmd c) = Some msg" by (simp add: failed_with_def)
  show "run_command env enc CollectorTurn c = c" using failed_turn [OF f] by simp
qed

lemma fatal_error_is_kept_witness:
  "co_fatal_error (run_command rec_env demo_encoder StopAll (rec_recording\<lparr>co_fatal_error := Some ''boom''\<rparr>)) =
     Some ''boom''"
  using fatal_error_is_kept [of "rec_recording\<lparr>co_fatal_error := Some ''boom''\<rparr>" "''boom''" StopAll
      rec_env demo_encoder] by simp

section \<open>Starting a recording is all or nothing\<close>

definition spawn_count :: "nat \<Rightarrow> 'r collector \<Rightarrow> bool" where
  "spawn_count n c \<longleftrightarrow> os_next (co_os c) = n"

lemma count_main: "all_quiet m \<Longrightarrow> keeps (spawn_count n) (on_main m)"
  by (rule keepsI) (auto simp: on_main_def spawn_count_def quiet_def dest: all_quietD split: prod.split)

lemma count_logger: "all_quiet m \<Longrightarrow> keeps (spawn_count n) (on_logger m)"
  by (rule keepsI) (auto simp: on_logger_def spawn_count_def quiet_def dest: all_quietD split: prod.split)

lemma count_process [keeps_rules]:
  "keeps (spawn_count n) (main_running env)" "keeps (spawn_count n) (logger_running env)"
  "keeps (spawn_count n) (on_main (stop_quietly e))" "keeps (spawn_count n) (on_logger (stop_quietly e))"
  "keeps (spawn_count n) (on_logger (ph_stop_if_running e))"
  unfolding main_running_def logger_running_def
  by (rule count_main count_logger, rule all_quiet_process all_quiet_stop)+

lemma count_same: "(\<And>c. same_procs c (snd (m c))) \<Longrightarrow> keeps (spawn_count n) m"
  by (rule keepsI) (simp add: spawn_count_def same_procs_def)

lemma count_make [keeps_rules]: "keeps (spawn_count n) (make_readers env)"
  by (rule count_same, rule same_procs_ops)

lemma count_modify [keeps_rules]:
  "(\<And>c. co_os (f c) = co_os c) \<Longrightarrow> keeps (spawn_count n) (m_modify f)"
  by (rule keeps_modify) (simp add: spawn_count_def)

lemma count_ensure [keeps_rules]: "keeps (spawn_count n) (ensure_readers_or_fail env)"
  unfolding ensure_readers_or_fail_def ensure_readers_initialized_def mark_fatal_error_def
  by (intro keeps_rules) (simp add: reset_runtime_state_def)

lemma count_snapshot [keeps_rules]: "keeps (spawn_count n) (collector_snapshot env)"
  unfolding collector_snapshot_def detect_early_exit_def view_main_def view_logger_def
  by (intro keeps_rules) simp

text \<open>The configuration is only changed by starting the application.\<close>

definition configured :: "string \<Rightarrow> 'r collector \<Rightarrow> bool" where
  "configured p c \<longleftrightarrow> co_config_path c = p"

lemma configured_ensure: "keeps (configured p) (ensure_readers_or_fail env)"
proof -
  have proc: "keeps (configured p) (on_main m)" "keeps (configured p) (on_logger m')"
    "keeps (configured p) (main_running env)" for m :: "(handle \<times> os, 'b) meth" and m' :: "(handle \<times> os, 'c) meth"
    by (simp_all add: keeps_on_main keeps_on_logger main_running_def configured_def)
  have make: "keeps (configured p) (make_readers env)"
    by (rule keepsI) (auto simp: make_readers_def configured_def Let_def split: sum.split prod.split)
  show ?thesis
    unfolding ensure_readers_or_fail_def ensure_readers_initialized_def mark_fatal_error_def
    by (intro keeps_rules proc make keeps_modify) (simp add: configured_def reset_runtime_state_def)
qed

text \<open>With the readers in place a snapshot always returns and changes nothing but the time.\<close>

lemma snapshot_returns:
  assumes "co_readers_initialized c"
  shows "\<exists>v w. collector_snapshot env c = (Inr v, c\<lparr>co_os := w\<rparr>) \<and> later (co_os c) w \<and>
     os_next w = os_next (co_os c)"
proof -
  have 1: "\<exists>w. detect_early_exit env c = (Inr (), c\<lparr>co_os := w\<rparr>) \<and> quiet (co_main c, co_os c) (co_main c, w)"
  proof (cases "co_fatal_error c \<noteq> None \<or> \<not> co_main_app_started c")
    case True
    then show ?thesis by (intro exI [of _ "co_os c"]) (auto simp: detect_early_exit_def)
  next
    case False
    then show ?thesis using assms
      by (auto simp: detect_early_exit_def m_bind_def main_running_def on_main_def ph_running_eq quiet_def
          intro: exI [of _ "co_os c"])
  qed
  have view: "\<exists>v w. view_main env d = (Inr v, d\<lparr>co_os := w\<rparr>) \<and> quiet (co_main d, co_os d) (co_main d, w)"
    "\<exists>v w. view_logger env d = (Inr v, d\<lparr>co_os := w\<rparr>) \<and> quiet (co_main d, co_os d) (co_main d, w)" for d
    by (auto simp: view_main_def view_logger_def m_bind_def main_running_def logger_running_def
        on_main_def on_logger_def ph_running_eq quiet_def intro: exI [of _ "co_os d"])
  obtain w1 where w1: "detect_early_exit env c = (Inr (), c\<lparr>co_os := w1\<rparr>)"
      "quiet (co_main c, co_os c) (co_main c, w1)" using 1 by blast
  obtain v2 w2 where w2: "view_main env (c\<lparr>co_os := w1\<rparr>) = (Inr v2, c\<lparr>co_os := w2\<rparr>)"
      "quiet (co_main c, w1) (co_main c, w2)" using view(1) [of "c\<lparr>co_os := w1\<rparr>"] by auto
  obtain v3 w3 where w3: "view_logger env (c\<lparr>co_os := w2\<rparr>) = (Inr v3, c\<lparr>co_os := w3\<rparr>)"
      "quiet (co_main c, w2) (co_main c, w3)" using view(2) [of "c\<lparr>co_os := w2\<rparr>"] by auto
  have "quiet (co_main c, co_os c) (co_main c, w3)"
    using quiet_trans [OF quiet_trans [OF w1(2) w2(2)] w3(2)] .
  then show ?thesis
    using w1(1) w2(1) w3(1)
    by (auto simp: collector_snapshot_def m_seq_def m_bind_def quiet_def intro: exI [of _ w3])
qed

lemma begin_recording_result:
  assumes "begin_recording env path dir c = (r, c')" and "co_readers_initialized c"
  shows "(\<exists>e. r = Inl e \<and> os_next (co_os c') = os_next (co_os c)) \<or>
    (\<exists>v out. r = Inr v \<and> out = next_log_path dir (ce_listing env (os_tick (co_os c)) dir) (ce_today env (os_tick (co_os c))) \<and>
       os_next (co_os c') = Suc (os_next (co_os c)) \<and> co_config_path c' = co_config_path c \<and>
       co_readers_initialized c' \<and> co_log_dir c' = dir \<and> st_log_path v = Some out \<and>
       co_current_log_path c' = Some out \<and>
       co_logger c' = \<lparr>ph_command = [logger_binary_path env, path, out], ph_process = Some (os_next (co_os c))\<rparr>)"
proof -
  define out where "out = next_log_path dir (ce_listing env (os_tick (co_os c)) dir) (ce_today env (os_tick (co_os c)))"
  define h where "h = new_handle [logger_binary_path env, path, out]"
  obtain q g w where start: "ph_start (ce_os env) (h, co_os c) = (q, (g, w))"
    by (cases "ph_start (ce_os env) (h, co_os c)") auto
  let ?c = "c\<lparr>co_log_dir := dir, co_logger := g, co_os := w\<rparr>"
  have unfold: "begin_recording env path dir c =
      (case q of Inl e \<Rightarrow> (Inl e, ?c)
       | Inr _ \<Rightarrow> m_bind (collector_snapshot env) (\<lambda>snap. m_return (snap\<lparr>st_log_path := Some out\<rparr>))
                   (?c\<lparr>co_current_log_path := Some out\<rparr>))"
    using start
    by (cases q)
      (simp_all add: begin_recording_def m_seq_def m_bind_def on_logger_def out_def h_def split: prod.split sum.split)
  from start show ?thesis
  proof (cases rule: ph_start_result)
    case (refused e)
    then show ?thesis using assms(1) unfold by (auto simp: quiet_def)
  next
    case started
    let ?d = "?c\<lparr>co_current_log_path := Some out\<rparr>"
    obtain v x where snap: "collector_snapshot env ?d = (Inr v, ?d\<lparr>co_os := x\<rparr>)"
        "os_next x = os_next w"
      using snapshot_returns [of ?d env] assms(2) by auto
    have "r = Inr (v\<lparr>st_log_path := Some out\<rparr>)" "c' = ?d\<lparr>co_os := x\<rparr>"
      using assms(1) unfold started(1) snap(1) by (auto simp: m_bind_def)
    moreover have "g = \<lparr>ph_command = [logger_binary_path env, path, out], ph_process = Some (os_next (co_os c))\<rparr>"
      using started(2) by (cases g) (simp add: spawned_def h_def new_handle_def)
    moreover have "os_next w = Suc (os_next (co_os c))" using started(2) by (simp add: spawned_def)
    ultimately show ?thesis using snap(2) assms(2) by (simp add: out_def)
  qed
qed

text \<open>The guards of \<open>start_logging\<close>: it refuses without a new process, or goes on to record.\<close>

lemma start_logging_guards:
  assumes "start_logging env path dir c = (r, c')"
  shows "(\<exists>e. r = Inl e \<and> os_next (co_os c') = os_next (co_os c)) \<or>
    (\<exists>d. begin_recording env path dir d = (r, c') \<and> co_readers_initialized d \<and>
       co_config_path d = path \<and> os_next (co_os d) = os_next (co_os c))"
proof -
  let ?n = "os_next (co_os c)"
  have c: "spawn_count ?n c" by (simp add: spawn_count_def)
  obtain run1 c1 where 1: "main_running env c = (Inr run1, c1)"
    by (simp add: main_running_def on_main_def ph_running_eq)
  have n1: "spawn_count ?n c1" by (rule keepsE [OF count_process(1) c 1])
  obtain run2 c2 where 2: "logger_running env c1 = (Inr run2, c2)"
    by (simp add: logger_running_def on_logger_def ph_running_eq)
  have n2: "spawn_count ?n c2" by (rule keepsE [OF count_process(2) n1 2])
  obtain q c3 where 3: "ensure_readers_or_fail env c2 = (q, c3)" by (cases "ensure_readers_or_fail env c2")
  have n3: "spawn_count ?n c3" by (rule keepsE [OF count_ensure n2 3])
  have p3: "co_config_path c3 = path" if "path = co_config_path c2"
    using keepsE [OF configured_ensure _ 3, of path] that by (simp add: configured_def)
  show ?thesis
    using assms n1 n2 n3 p3
    by (cases q) (auto simp: start_logging_def m_seq_def m_bind_def 1 2 3 spawn_count_def split: if_splits)
qed

text \<open>
  C11. Starting a recording is all or nothing: either the request is refused or fails and no
  process has been created, or it returns and exactly one logger process has been created,
  for the running application's configuration, with the readers in place, no fatal error,
  the requested directory, and the next free log path, which is the path on its command line,
  in the state and in the answer.
\<close>

theorem start_logging_all_or_nothing:
  assumes "collector_reachable env enc cfg ldir c" and "start_logging env path dir c = (r, c')"
  shows "(\<exists>e. r = Inl e \<and> os_next (co_os c') = os_next (co_os c)) \<or>
    (\<exists>v t out. r = Inr v \<and> out = next_log_path dir (ce_listing env t dir) (ce_today env t) \<and>
       os_next (co_os c') = Suc (os_next (co_os c)) \<and> co_config_path c' = path \<and>
       co_readers_initialized c' \<and> co_fatal_error c' = None \<and> co_log_dir c' = dir \<and>
       st_log_path v = Some out \<and> co_current_log_path c' = Some out \<and>
       co_logger c' = \<lparr>ph_command = [logger_binary_path env, path, out], ph_process = Some (os_next (co_os c))\<rparr>)"
proof -
  have inv: "data_inv c'"
    by (rule keepsE [OF start_logging_keeps data_inv_reachable [OF assms(1)] assms(2)])
  from start_logging_guards [OF assms(2)] show ?thesis
  proof
    assume "\<exists>d. begin_recording env path dir d = (r, c') \<and> co_readers_initialized d \<and>
       co_config_path d = path \<and> os_next (co_os d) = os_next (co_os c)"
    then obtain d where d: "begin_recording env path dir d = (r, c')" "co_readers_initialized d"
        "co_config_path d = path" "os_next (co_os d) = os_next (co_os c)" by blast
    from begin_recording_result [OF d(1,2)] d(3,4) inv show ?thesis
      by (auto simp: data_inv_def)
  qed blast
qed

lemma start_logging_all_or_nothing_witness:
  "\<exists>r c'. start_logging rec_env ''cfg'' ''/log'' rec_recording = (r, c') \<and>
    ((\<exists>e. r = Inl e \<and> os_next (co_os c') = 2) \<or> (\<exists>v. r = Inr v \<and> os_next (co_os c') = 3))"
proof -
  obtain r c' where run: "start_logging rec_env ''cfg'' ''/log'' rec_recording = (r, c')"
    by (cases "start_logging rec_env ''cfg'' ''/log'' rec_recording")
  show ?thesis
    using start_logging_all_or_nothing [OF rec_reachable run] run by (auto simp: rec_logging)
qed

section \<open>A race while shutting down\<close>

text \<open>
  \<open>if handle.running: handle.stop()\<close> polls twice. If the logger exits by itself between
  the two polls, \<open>stop\<close> raises that it is not running, \<open>stop_all\<close> is abandoned there, and
  the main application is left running with the readers and the log path in place.
\<close>

theorem stop_all_abandoned_by_race:
  assumes "ph_process (co_logger c) = Some p" and "alive (ce_os env) p (co_os c)"
    and "oe_exit_tick (ce_os env) p = Some (Suc (os_tick (co_os c)))"
    and "ph_process (co_main c) = Some q" and "alive (ce_os env) q (co_os c)"
    and "oe_exit_tick (ce_os env) q = None"
  shows "\<exists>c'. stop_all env c = (Inl (RuntimeError ''process is not running''), c') \<and>
     ph_alive (ce_os env) (co_main c', co_os c') \<and>
     co_readers_initialized c' = co_readers_initialized c \<and>
     co_current_log_path c' = co_current_log_path c"
proof -
  have dead: "\<not> alive (ce_os env) p (tick (co_os c))"
    using assms(3) by (simp add: alive_def tick_def)
  have "ph_stop_if_running (ce_os env) (co_logger c, co_os c) =
      (Inl (RuntimeError ''process is not running''), (co_logger c, tick (tick (co_os c))))"
    using assms(1,2) dead
    by (simp add: ph_stop_if_running_def m_bind_def ph_running_def ph_stop_def)
  moreover have "alive (ce_os env) q (tick (tick (co_os c)))"
    using assms(5,6) by (simp add: alive_def tick_def)
  ultimately show ?thesis
    using assms(4) by (simp add: stop_all_def m_seq_def m_bind_def on_logger_def ph_alive_def)
qed

definition race_env :: "unit collector_env" where
  "race_env = rec_env\<lparr>ce_os := (ce_os rec_env)\<lparr>oe_exit_tick :=
     (\<lambda>p. if p = 1 then Some (Suc (os_tick (co_os rec_recording))) else None)\<rparr>\<rparr>"

lemma stop_all_abandoned_by_race_witness:
  "\<exists>c'. stop_all race_env rec_recording = (Inl (RuntimeError ''process is not running''), c') \<and>
     ph_alive (ce_os race_env) (co_main c', co_os c')"
proof -
  have env: "oe_exit_tick (ce_os race_env) = (\<lambda>p. if p = 1 then Some (Suc (os_tick (co_os rec_recording))) else None)"
    by (simp add: race_env_def)
  have "alive (ce_os race_env) 1 (co_os rec_recording)" "alive (ce_os race_env) 0 (co_os rec_recording)"
    by (simp_all add: alive_def env rec_logging)
  then show ?thesis
    using stop_all_abandoned_by_race [of rec_recording 1 race_env 0] by (auto simp: env rec_logging)
qed

end
