(* ===== verification/Http_Api.thy ===== *)
theory Http_Api imports Collector_Machine begin

text \<open>
  The request handler of \<open>DataCollectorServer\<close> (\<open>python/web_collector.py\<close>): routes, the
  exceptions each part lets through, and the answer. \<open>json.loads\<close> and \<open>parse_qs\<close> are
  parameters; an exception that leaves the handler closes the connection unanswered.
\<close>

section \<open>Requests and responses\<close>

record http_env =
  he_json :: "nat list \<Rightarrow> pyval res"
  he_parse_qs :: "string \<Rightarrow> (string \<times> string list) list"
  he_html :: string
  he_encode :: imencode

record post_request =
  po_path :: string
  po_content_length :: "string option"
  po_body :: "byte list"

datatype body =
    HtmlBody string
  | StateBody snapshot_view
  | ErrorBody string
  | JpegBody "byte list"
  | ErrorPage
  | NoBody

record response =
  rs_status :: nat
  rs_body :: body

datatype outcome =
    Answered response
  | Dropped py_error

definition answer :: "nat \<Rightarrow> body \<Rightarrow> outcome" where
  "answer status b = Answered \<lparr>rs_status = status, rs_body = b\<rparr>"

text \<open>\<open>html.replace(...)\<close> for the two placeholders of the page.\<close>

definition default_config_path :: string where
  "default_config_path = ''configs/basler-dart.yaml''"

definition default_log_dir :: string where
  "default_log_dir = ''/mnt/storage''"

definition render_page :: "string \<Rightarrow> string" where
  "render_page html =
     py_replace ''__DEFAULT_LOG_DIR__'' default_log_dir
       (py_replace ''__DEFAULT_CONFIG__'' default_config_path html)"

section \<open>GET\<close>

text \<open>\<open>query.get("name", [None])[0]\<close>.\<close>

definition query_name :: "http_env \<Rightarrow> string \<Rightarrow> string option" where
  "query_name he query =
     (case map_of (he_parse_qs he query) ''name'' of
        Some (n # _) \<Rightarrow> Some n
      | _ \<Rightarrow> None)"

definition do_get ::
    "http_env \<Rightarrow> 'r collector_env \<Rightarrow> string \<Rightarrow> string \<Rightarrow> 'r collector \<Rightarrow> outcome \<times> 'r collector" where
  "do_get he env path query c =
     (if path = ''/'' then (answer 200 (HtmlBody (render_page (he_html he))), c)
      else if path = ''/api/state'' then
        (case collector_snapshot env c of
           (Inl e, c') \<Rightarrow> (Dropped e, c')
         | (Inr v, c') \<Rightarrow> (answer 200 (StateBody v), c'))
      else if path = ''/api/camera_frame'' then
        (case query_name he query of
           None \<Rightarrow> (answer 400 ErrorPage, c)
         | Some name \<Rightarrow>
             if name = [] then (answer 400 ErrorPage, c)
             else (case camera_frame (he_encode he) name c of
                     (Inl e, c') \<Rightarrow> (Dropped e, c')
                   | (Inr None, c') \<Rightarrow> (answer 204 NoBody, c')
                   | (Inr (Some bytes), c') \<Rightarrow> (answer 200 (JpegBody bytes), c')))
      else (answer 404 ErrorPage, c))"

section \<open>POST\<close>

text \<open>\<open>_read_json\<close>; a negative length reads everything the client sends.\<close>

definition read_json :: "http_env \<Rightarrow> post_request \<Rightarrow> pyval res" where
  "read_json he rq =
     res_bind (parse_int (case po_content_length rq of None \<Rightarrow> ''0'' | Some h \<Rightarrow> h)) (\<lambda>n.
       if n = 0 then Inr (PDict [])
       else (case utf8_decode (map unat (if n < 0 then po_body rq else take (nat n) (po_body rq))) of
               None \<Rightarrow> Inl (ValueError ''utf-8'')
             | Some text \<Rightarrow> he_json he text))"

text \<open>\<open>body[key]\<close>; the operations take the paths as strings.\<close>

definition body_string :: "pyval \<Rightarrow> string \<Rightarrow> string res" where
  "body_string data key =
     res_bind (py_item data key) (\<lambda>v. case v of PStr s \<Rightarrow> Inr s | _ \<Rightarrow> Inl (TypeError key))"

definition post_command :: "'r collector_env \<Rightarrow> string \<Rightarrow> pyval \<Rightarrow> ('r collector, snapshot_view) meth option" where
  "post_command env path data =
     (if path = ''/api/start_app'' then
        Some (\<lambda>c. case body_string data ''config_path'' of
                    Inl e \<Rightarrow> (Inl e, c)
                  | Inr cfg \<Rightarrow> start_main_app env cfg c)
      else if path = ''/api/stop_app'' then Some (stop_main_app env)
      else if path = ''/api/start_logging'' then
        Some (\<lambda>c. case body_string data ''config_path'' of
                    Inl e \<Rightarrow> (Inl e, c)
                  | Inr cfg \<Rightarrow>
                    (case body_string data ''log_dir'' of
                       Inl e \<Rightarrow> (Inl e, c)
                     | Inr dir \<Rightarrow> start_logging env cfg dir c))
      else if path = ''/api/stop_logging'' then Some (stop_logging env)
      else None)"

definition do_post ::
    "http_env \<Rightarrow> 'r collector_env \<Rightarrow> post_request \<Rightarrow> 'r collector \<Rightarrow> outcome \<times> 'r collector" where
  "do_post he env rq c =
     (case read_json he rq of
        Inl e \<Rightarrow> (Dropped e, c)
      | Inr data \<Rightarrow>
        (case post_command env (po_path rq) data of
           None \<Rightarrow> (answer 404 ErrorPage, c)
         | Some m \<Rightarrow>
           (case m c of
              (Inl e, c') \<Rightarrow> (answer 400 (ErrorBody (error_text e)), c')
            | (Inr v, c') \<Rightarrow> (answer 200 (StateBody v), c'))))"

section \<open>What a request does\<close>

text \<open>Every request is one command of the machine, or none.\<close>

lemma get_is_command:
  "snd (do_get he env path query c) = c \<or>
   (\<exists>cmd. snd (do_get he env path query c) = run_command env (he_encode he) cmd c)"
proof -
  have "snd (do_get he env path query c) = c \<or>
      snd (do_get he env path query c) = run_command env (he_encode he) TakeSnapshot c \<or>
      (\<exists>n. snd (do_get he env path query c) = run_command env (he_encode he) (ServeFrame n) c)"
    unfolding do_get_def
    by (auto split: option.splits prod.splits sum.splits) (metis snd_conv)+
  then show ?thesis by blast
qed

lemma post_is_command:
  "snd (do_post he env rq c) = c \<or>
   (\<exists>cmd. snd (do_post he env rq c) = run_command env (he_encode he) cmd c)"
proof (cases "read_json he rq")
  case (Inl e)
  then show ?thesis by (simp add: do_post_def)
next
  case (Inr data)
  have snd_case: "snd (case p of (Inl e, c') \<Rightarrow> (answer 400 (ErrorBody (error_text e)), c')
      | (Inr v, c') \<Rightarrow> (answer 200 (StateBody v), c')) = snd p" for p :: "snapshot_view res \<times> 'a collector"
    by (simp split: prod.split sum.split)
  have "snd (do_post he env rq c) = c \<or>
      (\<exists>p. snd (do_post he env rq c) = run_command env (he_encode he) (StartApp p) c) \<or>
      snd (do_post he env rq c) = run_command env (he_encode he) StopApp c \<or>
      (\<exists>p d. snd (do_post he env rq c) = run_command env (he_encode he) (StartLogging p d) c) \<or>
      snd (do_post he env rq c) = run_command env (he_encode he) StopLogging c"
    using Inr
    by (auto simp: do_post_def post_command_def snd_case split: sum.split)
  then show ?thesis by blast
qed


definition demo_http :: http_env where
  "demo_http = \<lparr>he_json = \<lambda>_. Inl (ValueError ''Expecting value''), he_parse_qs = \<lambda>_. [],
     he_html = [], he_encode = demo_encoder\<rparr>"


text \<open>
  Which POST requests are answered at all: exactly those whose body can be read. Every
  exception of a command becomes a 400 with its message, but an exception while reading the
  body (a length that is no number, bytes that are no UTF-8, text that is no JSON) is raised
  outside the handler's \<open>try\<close>, so that request gets no HTTP answer.
\<close>

theorem post_answered_iff_body_reads:
  "(\<exists>r. fst (do_post he env rq c) = Answered r) \<longleftrightarrow> (\<exists>data. read_json he rq = Inr data)"
proof (cases "read_json he rq")
  case (Inl e)
  then show ?thesis by (simp add: do_post_def)
next
  case (Inr data)
  have "\<exists>r. fst (case p of (Inl e, c') \<Rightarrow> (answer 400 (ErrorBody (error_text e)), c')
      | (Inr v, c') \<Rightarrow> (answer 200 (StateBody v), c')) = Answered r" for p :: "snapshot_view res \<times> 'a collector"
    by (simp add: answer_def split: prod.split sum.split)
  then show ?thesis using Inr by (simp add: do_post_def answer_def split: option.split)
qed

end
