(* ===== verification/Web_Client.thy ===== *)
theory Web_Client imports Http_Api begin

text \<open>
  The page's script (the string \<open>WEB_HTML\<close> of \<open>python/web_collector.py\<close>): the per-stream
  summaries, the camera cards with their object URLs, and the state of the buttons. The
  document is reduced to what the script reads back from it; what it only displays is in
  \<open>Web_View\<close>. A JavaScript \<open>Map\<close> keeps insertion order, so it is an association list.
\<close>

section \<open>Summaries\<close>

record summary =
  su_stats :: weighted_stats
  su_last_sequence :: "int option"
  su_sequence :: "int option"
  su_rate_hz :: "real option"
  su_sample_count :: "int option"

type_synonym summaries = "(string \<times> summary) list"

definition new_summary :: summary where
  "new_summary = \<lparr>su_stats = ws_zero, su_last_sequence = None, su_sequence = None,
     su_rate_hz = None, su_sample_count = None\<rparr>"

text \<open>\<open>Map.set\<close>: an existing key keeps its place.\<close>

fun map_set :: "string \<Rightarrow> 'v \<Rightarrow> (string \<times> 'v) list \<Rightarrow> (string \<times> 'v) list" where
  "map_set k v [] = [(k, v)]"
| "map_set k v ((k', v') # m) = (if k' = k then (k, v) # m else (k', v') # map_set k v m)"

definition ensure_summary_entries :: "stream_view list \<Rightarrow> summaries \<Rightarrow> summaries" where
  "ensure_summary_entries streams m =
     (let kept = filter (\<lambda>(name, _). name \<in> sv_name ` set streams) m
      in foldl (\<lambda>m stream. if map_of m (sv_name stream) = None
                          then map_set (sv_name stream) new_summary m else m) kept streams)"

definition update_summary :: "stream_view \<Rightarrow> summary \<Rightarrow> summary" where
  "update_summary stream su =
     (let su1 = (case (su_sequence su, sv_sequence stream) of
                   (Some old, Some new) \<Rightarrow>
                     if new < old then su\<lparr>su_stats := ws_reset (su_stats su), su_last_sequence := None\<rparr>
                     else su
                 | _ \<Rightarrow> su);
          su2 = (if sv_sequence stream \<noteq> None \<and> sv_sequence stream \<noteq> su_last_sequence su1
                 then (su1\<lparr>su_stats := ws_add (sv_rate_hz stream)
                              (map_option of_int (sv_sample_count stream)) (su_stats su1),
                           su_last_sequence := sv_sequence stream\<rparr>)
                 else su1)
      in su2\<lparr>su_sequence := sv_sequence stream, su_rate_hz := sv_rate_hz stream,
             su_sample_count := sv_sample_count stream\<rparr>)"

definition update_summary_state :: "stream_view list \<Rightarrow> summaries \<Rightarrow> summaries" where
  "update_summary_state streams m =
     foldl (\<lambda>m stream. case map_of m (sv_name stream) of
                         None \<Rightarrow> m
                       | Some su \<Rightarrow> map_set (sv_name stream) (update_summary stream su) m)
       (ensure_summary_entries streams m) streams"

section \<open>Camera cards\<close>

record card =
  cd_object_url :: "nat option"
  cd_ready :: bool
  cd_latest_sequence :: "int option"
  cd_rendered_sequence :: "int option"
  cd_in_flight :: bool

definition new_card :: card where
  "new_card = \<lparr>cd_object_url = None, cd_ready = False, cd_latest_sequence = None,
     cd_rendered_sequence = None, cd_in_flight = False\<rparr>"

text \<open>
  The cards live in a store, since a fetch in flight holds on to its card when the page
  replaces the cards. The browser keeps the object URLs that were created and not revoked.
\<close>

record page =
  pg_store :: "card list"
  pg_cards :: "(string \<times> nat) list"
  pg_names :: "string option"
  pg_urls :: "nat list"
  pg_next_url :: nat

definition revoke :: "nat option \<Rightarrow> page \<Rightarrow> page" where
  "revoke u pg = (case u of None \<Rightarrow> pg | Some n \<Rightarrow> pg\<lparr>pg_urls := removeAll n (pg_urls pg)\<rparr>)"

fun join_bar :: "string list \<Rightarrow> string" where
  "join_bar [] = []"
| "join_bar [n] = n"
| "join_bar (n # ns) = n @ ''|'' @ join_bar ns"

definition ensure_camera_cards :: "stream_view list \<Rightarrow> page \<Rightarrow> page" where
  "ensure_camera_cards cameras pg =
     (let names = join_bar (map sv_name cameras)
      in if pg_names pg = Some names then pg
         else let revoked = foldl (\<lambda>pg (_, i). revoke (cd_object_url (pg_store pg ! i)) pg) pg (pg_cards pg);
                  cleared = revoked\<lparr>pg_names := Some names, pg_cards := []\<rparr>
              in foldl (\<lambda>pg camera.
                         pg\<lparr>pg_cards := map_set (sv_name camera) (length (pg_store pg)) (pg_cards pg),
                            pg_store := pg_store pg @ [new_card]\<rparr>) cleared cameras)"

text \<open>The loop of \<open>refreshState\<close> that hands the new sequence numbers to the cards.\<close>

definition update_cards :: "stream_view list \<Rightarrow> page \<Rightarrow> page" where
  "update_cards cameras pg =
     foldl (\<lambda>pg camera. case map_of (pg_cards pg) (sv_name camera) of
                          None \<Rightarrow> pg
                        | Some i \<Rightarrow> pg\<lparr>pg_store := (pg_store pg)[i := (pg_store pg ! i)
                            \<lparr>cd_ready := sv_ready camera, cd_latest_sequence := sv_sequence camera\<rparr>]\<rparr>)
       pg cameras"

text \<open>
  \<open>refreshCameraFrames\<close> for one card: the part before its fetch, which answers the requested
  sequence, and the part after it. \<open>None\<close> is a fetch that failed, a status that is not
  used, or an empty body.
\<close>

definition frame_fetch_begin :: "nat \<Rightarrow> page \<Rightarrow> (int option) \<times> page" where
  "frame_fetch_begin i pg =
     (let card = pg_store pg ! i
      in if \<not> cd_ready card \<or> cd_in_flight card \<or> cd_latest_sequence card = None \<or>
            cd_latest_sequence card = cd_rendered_sequence card
         then (None, pg)
         else (cd_latest_sequence card,
               pg\<lparr>pg_store := (pg_store pg)[i := card\<lparr>cd_in_flight := True\<rparr>]\<rparr>))"

definition frame_fetch_end :: "nat \<Rightarrow> int \<Rightarrow> bool \<Rightarrow> page \<Rightarrow> page" where
  "frame_fetch_end i requested got pg =
     (let card = pg_store pg ! i
      in if \<not> got then pg\<lparr>pg_store := (pg_store pg)[i := card\<lparr>cd_in_flight := False\<rparr>]\<rparr>
         else let url = pg_next_url pg;
                  pg1 = revoke (cd_object_url card)
                          (pg\<lparr>pg_next_url := Suc url, pg_urls := url # pg_urls pg\<rparr>);
                  card1 = card\<lparr>cd_object_url := Some url, cd_in_flight := False\<rparr>;
                  card2 = (if cd_latest_sequence card = Some requested
                           then card1\<lparr>cd_rendered_sequence := Some requested\<rparr> else card1)
              in pg1\<lparr>pg_store := (pg_store pg1)[i := card2]\<rparr>)"

section \<open>The buttons\<close>

record buttons =
  bt_app_label :: string
  bt_log_label :: string
  bt_start_app :: bool
  bt_stop_app :: bool
  bt_start_log :: bool
  bt_stop_log :: bool

text \<open>\<open>payload.fatal_error\<close> is truthy when it is a non-empty string. \<open>True\<close> is disabled.\<close>

definition fatal_shown :: "snapshot_view \<Rightarrow> bool" where
  "fatal_shown v \<longleftrightarrow> st_fatal_error v \<noteq> None \<and> st_fatal_error v \<noteq> Some []"

definition refresh_buttons :: "snapshot_view \<Rightarrow> buttons" where
  "refresh_buttons v =
     (let fatal = fatal_shown v; app = pv_running (st_main_app v); logging = pv_running (st_logging v);
          ready = st_shared_memory_ready v
      in \<lparr>bt_app_label = (if fatal then ''fatal'' else if app \<and> \<not> ready then ''starting''
                          else if app then ''running'' else ''stopped''),
          bt_log_label = (if logging then ''running'' else ''stopped''),
          bt_start_app = (app \<and> \<not> fatal),
          bt_stop_app = (\<not> app \<or> logging),
          bt_start_log = (\<not> app \<or> logging \<or> \<not> ready \<or> fatal),
          bt_stop_log = (\<not> logging)\<rparr>)"

record client =
  cl_buttons :: buttons
  cl_cameras :: summaries
  cl_imus :: summaries
  cl_page :: page

definition refresh_state :: "snapshot_view \<Rightarrow> client \<Rightarrow> client" where
  "refresh_state v k =
     k\<lparr>cl_cameras := update_summary_state (st_cameras v) (cl_cameras k),
       cl_imus := update_summary_state (st_imus v) (cl_imus k),
       cl_page := update_cards (st_cameras v) (ensure_camera_cards (st_cameras v) (cl_page k)),
       cl_buttons := refresh_buttons v\<rparr>"

end
