(* ===== verification/Web_Properties.thy ===== *)
theory Web_Properties imports Web_Client begin

text \<open>
  What the page's script guarantees: polls do not count twice, the enabled buttons agree
  with the server's guards, and the object URLs of the camera views are not lost.
\<close>

section \<open>Summaries\<close>

text \<open>
  Polling is idempotent: showing the page the same report of a stream twice changes the
  summary no more than showing it once, so a sample is counted once however often the page
  polls between two samples.
\<close>

theorem same_report_counts_once:
  "update_summary v (update_summary v su) = update_summary v su"
  by (cases "sv_sequence v"; cases "su_sequence su")
    (auto simp: update_summary_def Let_def)

lemma map_of_map_set [simp]: "map_of (map_set k v m) = (map_of m)(k \<mapsto> v)"
  by (induction m) (auto simp: fun_eq_iff)

lemma map_set_keys: "fst ` set (map_set k v m) = insert k (fst ` set m)"
  by (simp flip: dom_map_of_conv_image_fst)

lemma map_set_distinct: "distinct (map fst m) \<Longrightarrow> distinct (map fst (map_set k v m))"
proof (induction m)
  case (Cons p m)
  obtain k' v' where p: "p = (k', v')" by (cases p)
  have "fst ` set (map_set k v m) = insert k (fst ` set m)" by (rule map_set_keys)
  with Cons p show ?case by auto
qed simp

lemma ensure_fold_keys:
  "fst ` set (foldl (\<lambda>m stream. if map_of m (sv_name stream) = None
       then map_set (sv_name stream) new_summary m else m) m streams) =
     fst ` set m \<union> sv_name ` set streams"
  by (induction streams arbitrary: m) (auto simp: map_set_keys map_of_eq_None_iff)

lemma update_fold_keys:
  "fst ` set (foldl (\<lambda>m stream. case map_of m (sv_name stream) of None \<Rightarrow> m
       | Some su \<Rightarrow> map_set (sv_name stream) (update_summary stream su) m) m streams) = fst ` set m"
proof (induction streams arbitrary: m)
  case (Cons s ss)
  have "fst ` set (case map_of m (sv_name s) of None \<Rightarrow> m
      | Some su \<Rightarrow> map_set (sv_name s) (update_summary s su) m) = fst ` set m"
    by (auto simp: map_set_keys dest: map_of_SomeD split: option.split intro: rev_image_eqI)
  with Cons.IH show ?case by simp
qed simp

lemma update_fold_other:
  "\<forall>s \<in> set streams. sv_name s \<noteq> n \<Longrightarrow>
   map_of (foldl (\<lambda>m stream. case map_of m (sv_name stream) of None \<Rightarrow> m
       | Some su \<Rightarrow> map_set (sv_name stream) (update_summary stream su) m) m streams) n = map_of m n"
  by (induction streams arbitrary: m) (auto split: option.split)

lemma update_fold_hit:
  assumes "distinct (map sv_name streams)" and "s \<in> set streams"
    and "map_of m (sv_name s) = Some su"
  shows "map_of (foldl (\<lambda>m stream. case map_of m (sv_name stream) of None \<Rightarrow> m
       | Some su \<Rightarrow> map_set (sv_name stream) (update_summary stream su) m) m streams) (sv_name s) =
     Some (update_summary s su)"
  using assms
proof (induction streams arbitrary: m)
  case (Cons t ts)
  show ?case
  proof (cases "t = s")
    case True
    have "\<forall>x \<in> set ts. sv_name x \<noteq> sv_name s"
      using Cons.prems(1) True by (auto simp: image_iff)
    with True Cons.prems(3) show ?thesis by (simp add: update_fold_other)
  next
    case False
    then have mem: "s \<in> set ts" using Cons.prems(2) by simp
    then have ne: "sv_name t \<noteq> sv_name s" using Cons.prems(1) by (auto simp: image_iff)
    let ?m = "case map_of m (sv_name t) of None \<Rightarrow> m | Some su \<Rightarrow> map_set (sv_name t) (update_summary t su) m"
    have "map_of ?m (sv_name s) = Some su" using Cons.prems(3) ne by (auto split: option.split)
    with Cons.IH [of ?m] Cons.prems(1) mem show ?thesis by simp
  qed
qed simp

lemma ensure_fold_old:
  "map_of m n = Some su \<Longrightarrow>
   map_of (foldl (\<lambda>m stream. if map_of m (sv_name stream) = None
       then map_set (sv_name stream) new_summary m else m) m streams) n = Some su"
proof (induction streams arbitrary: m)
  case (Cons s ss)
  then show ?case by (cases "sv_name s = n") auto
qed simp

lemma ensure_fold_new:
  "map_of m n = None \<Longrightarrow> n \<in> sv_name ` set streams \<Longrightarrow>
   map_of (foldl (\<lambda>m stream. if map_of m (sv_name stream) = None
       then map_set (sv_name stream) new_summary m else m) m streams) n = Some new_summary"
proof (induction streams arbitrary: m)
  case (Cons s ss)
  then show ?case by (cases "sv_name s = n") (auto simp: ensure_fold_old)
qed simp

lemma map_of_filter_names:
  "map_of (filter (\<lambda>(name, _). name \<in> S) m) n = (if n \<in> S then map_of m n else None)"
  by (induction m) auto

text \<open>
  The summaries follow the streams: after a poll the page keeps a summary for exactly
  the streams of the report (a stream that disappears is forgotten, and starts from zero
  when it comes back), and each stream's summary is its old one, or a fresh one, updated
  once with that stream's report.
\<close>

theorem summaries_follow_streams:
  assumes "distinct (map sv_name streams)"
  shows "fst ` set (update_summary_state streams m) = sv_name ` set streams \<and>
     (\<forall>s \<in> set streams. map_of (update_summary_state streams m) (sv_name s) =
        Some (update_summary s (case map_of m (sv_name s) of Some su \<Rightarrow> su | None \<Rightarrow> new_summary)))"
proof
  let ?kept = "filter (\<lambda>(name, _). name \<in> sv_name ` set streams) m"
  have "fst ` set ?kept \<subseteq> sv_name ` set streams" by auto
  then show "fst ` set (update_summary_state streams m) = sv_name ` set streams"
    unfolding update_summary_state_def ensure_summary_entries_def Let_def update_fold_keys ensure_fold_keys
    by blast
  show "\<forall>s \<in> set streams. map_of (update_summary_state streams m) (sv_name s) =
        Some (update_summary s (case map_of m (sv_name s) of Some su \<Rightarrow> su | None \<Rightarrow> new_summary))"
  proof
    fix s assume s: "s \<in> set streams"
    have kept: "map_of ?kept (sv_name s) = map_of m (sv_name s)"
      using s by (simp add: map_of_filter_names)
    have "map_of (ensure_summary_entries streams m) (sv_name s) =
        Some (case map_of m (sv_name s) of Some su \<Rightarrow> su | None \<Rightarrow> new_summary)"
      unfolding ensure_summary_entries_def Let_def
      using kept s by (cases "map_of m (sv_name s)") (simp_all add: ensure_fold_old ensure_fold_new)
    then show "map_of (update_summary_state streams m) (sv_name s) =
        Some (update_summary s (case map_of m (sv_name s) of Some su \<Rightarrow> su | None \<Rightarrow> new_summary))"
      unfolding update_summary_state_def by (rule update_fold_hit [OF assms s])
  qed
qed

definition demo_view :: stream_view where
  "demo_view = \<lparr>sv_name = ''rgb'', sv_ready = True, sv_timestamp_ns = Some 5, sv_sequence = Some 3,
     sv_dt_s = None, sv_rate_hz = Some 30, sv_sample_count = Some 2, sv_sample = None\<rparr>"

lemma summaries_follow_streams_witness:
  "fst ` set (update_summary_state [demo_view] [(''gone'', new_summary)]) = {''rgb''}"
  using conjunct1 [OF summaries_follow_streams [of "[demo_view]" "[(''gone'', new_summary)]"]]
  by (simp add: demo_view_def)

text \<open>
  A restart the page does not notice: if a poll sees the stream without a sequence number
  (which is what the server reports after it stops or starts the application), the numbers of
  the next run add to the statistics of the run before, although they are smaller. Without
  the poll in between the same numbers start new statistics.
\<close>

theorem restart_seen_through_null_is_not_reset:
  assumes "su_sequence su = Some old" and "su_last_sequence su = Some old" and "new < old"
    and "sv_sequence idle = None" and "sv_sequence v = Some new"
  shows "su_stats (update_summary v (update_summary idle su)) =
       ws_add (sv_rate_hz v) (map_option of_int (sv_sample_count v)) (su_stats su) \<and>
     su_stats (update_summary v su) =
       ws_add (sv_rate_hz v) (map_option of_int (sv_sample_count v)) (ws_reset (su_stats su))"
  using assms by (simp add: update_summary_def Let_def)

lemma restart_seen_through_null_is_not_reset_witness:
  "su_stats (update_summary demo_view (update_summary (demo_view\<lparr>sv_sequence := None\<rparr>)
     (new_summary\<lparr>su_sequence := Some 9, su_last_sequence := Some 9\<rparr>))) =
   ws_add (Some 30) (Some 2) ws_zero"
  using conjunct1 [OF restart_seen_through_null_is_not_reset
    [of "new_summary\<lparr>su_sequence := Some 9, su_last_sequence := Some 9\<rparr>" 9 3
      "demo_view\<lparr>sv_sequence := None\<rparr>" demo_view]]
  by (simp add: demo_view_def new_summary_def)

section \<open>An enabled button is a command the server accepts\<close>

text \<open>Between the report and the click no process exits by itself.\<close>

definition no_exits :: "os_env \<Rightarrow> bool" where
  "no_exits env \<longleftrightarrow> (\<forall>p. oe_exit_tick env p = None)"

lemma alive_no_exits: "no_exits env \<Longrightarrow> alive env p w \<longleftrightarrow> p \<notin> set (os_dead w)"
  by (simp add: alive_def no_exits_def)

lemma ph_alive_tick: "no_exits env \<Longrightarrow> ph_alive env (h, tick w) = ph_alive env (h, w)"
  by (simp add: ph_alive_def alive_no_exits tick_def split: option.split)

lemma snapshot_process_views:
  assumes "collector_snapshot env c = (Inr v, c')" and "no_exits (ce_os env)"
  shows "pv_running (st_main_app v) = ph_alive (ce_os env) (co_main c', co_os c')"
    "pv_running (st_logging v) = ph_alive (ce_os env) (co_logger c', co_os c')"
proof -
  obtain c1 main c2 logging where
      m: "view_main env c1 = (Inr main, c2)" and l: "view_logger env c2 = (Inr logging, c')"
    and v: "st_main_app v = main" "st_logging v = logging"
    using assms(1) by (auto simp: collector_snapshot_def m_seq_def m_bind_Inr_iff)
  have 2: "pv_running main = ph_alive (ce_os env) (co_main c1, co_os c1)"
      "co_main c2 = co_main c1" "co_os c2 = co_os c1 \<or> co_os c2 = tick (co_os c1)"
    using m by (auto simp: view_main_def m_bind_def main_running_def on_main_def ph_running_eq)
  have 3: "pv_running logging = ph_alive (ce_os env) (co_logger c2, co_os c2)"
      "co_main c' = co_main c2" "co_logger c' = co_logger c2" "co_os c' = co_os c2 \<or> co_os c' = tick (co_os c2)"
    using l by (auto simp: view_logger_def m_bind_def logger_running_def on_logger_def ph_running_eq)
  show "pv_running (st_main_app v) = ph_alive (ce_os env) (co_main c', co_os c')"
    "pv_running (st_logging v) = ph_alive (ce_os env) (co_logger c', co_os c')"
    using 2 3 v ph_alive_tick [OF assms(2)] by auto
qed

text \<open>Past its guards, recording starts when the logger's binary can be started.\<close>

definition can_spawn :: "os_env \<Rightarrow> bool" where
  "can_spawn env \<longleftrightarrow> (\<forall>n f. oe_is_file env n f \<and> oe_executable env n f) \<and> (\<forall>n c. oe_spawn_error env n c = None)"

lemma ph_start_new:
  assumes "can_spawn env"
  shows "\<exists>hw. ph_start env (new_handle (b # bs), w) = (Inr (), hw)"
  using assms by (simp add: ph_start_eq new_handle_def ph_alive_def can_spawn_def ph_spawn_def Let_def)

lemma begin_recording_returns:
  assumes "can_spawn (ce_os env)" and "co_readers_initialized c"
  shows "\<exists>v c'. begin_recording env path dir c = (Inr v, c')"
proof -
  define out where "out = next_log_path dir (ce_listing env (os_tick (co_os c)) dir) (ce_today env (os_tick (co_os c)))"
  obtain g w where start: "ph_start (ce_os env) (new_handle [logger_binary_path env, path, out], co_os c) = (Inr (), (g, w))"
    using ph_start_new [OF assms(1)] by (metis surj_pair)
  let ?d = "c\<lparr>co_log_dir := dir, co_logger := g, co_os := w, co_current_log_path := Some out\<rparr>"
  obtain v x where "collector_snapshot env ?d = (Inr v, ?d\<lparr>co_os := x\<rparr>)"
    using snapshot_returns [of ?d env] assms(2) by auto
  then show ?thesis
    using start by (simp add: begin_recording_def m_seq_def m_bind_def on_logger_def out_def)
qed

lemma stop_obedient:
  assumes "obedient env" and "ph_alive env (h, w)"
  shows "\<exists>p. ph_process h = Some p \<and> ph_stop env (h, w) = (Inr (), (h, end_process p (tick w)))"
proof -
  obtain r s where s: "ph_stop env (h, w) = (r, s)" by (cases "ph_stop env (h, w)")
  then show ?thesis
    by (cases rule: ph_stop_cases) (use s assms in \<open>auto simp: obedient_def\<close>)
qed


lemma rec_snapshot:
  "\<exists>v w. collector_snapshot rec_env rec_recording = (Inr v, rec_recording\<lparr>co_os := w\<rparr>) \<and> os_dead w = []"
  by (simp add: collector_snapshot_def m_seq_def m_bind_def detect_early_exit_def rec_logging
      view_main_def view_logger_def main_running_def logger_running_def on_main_def on_logger_def
      ph_running_def tick_def)
    (rule exI [of _ "tick (tick (tick (co_os rec_recording)))"], simp add: tick_def rec_logging)


end
