(* ===== verification/Csv_Log.thy ===== *)
theory Csv_Log imports Config_Layout begin

text \<open>
  The CSV logs of the recorders: \<open>CsvTimestampWriter\<close> of
  \<open>dataset_collection/dataset_writer.py\<close> with the rules of \<open>csv.DictWriter\<close>, and the columns the
  scripts read back with \<open>csv.DictReader\<close>. A file is the table of its cells: the quoting of the
  csv module is left out.
\<close>

section \<open>Writing\<close>

record csv_log =
  csv_fields :: "string list"
  csv_rows :: "string list list"
  csv_open :: bool

definition new_csv :: "string list \<Rightarrow> csv_log" where
  "new_csv fieldnames = \<lparr>csv_fields = fieldnames, csv_rows = [fieldnames], csv_open = True\<rparr>"

text \<open>
  \<open>DictWriter.writerow\<close>: keys outside the header raise, missing ones leave an empty cell.
\<close>

definition csv_write :: "(string \<times> string) list \<Rightarrow> (csv_log, unit) meth" where
  "csv_write row file =
     (if \<not> set (map fst row) \<subseteq> set (csv_fields file) then
        (Inl (ValueError ''dict contains fields not in fieldnames''), file)
      else if \<not> csv_open file then (Inl (ValueError ''I/O operation on closed file.''), file)
      else (Inr (), file\<lparr>csv_rows := csv_rows file @
              [map (\<lambda>k. case map_of row k of None \<Rightarrow> [] | Some v \<Rightarrow> v) (csv_fields file)]\<rparr>))"

definition csv_close :: "csv_log \<Rightarrow> csv_log" where
  "csv_close file = file\<lparr>csv_open := False\<rparr>"

section \<open>Reading\<close>

text \<open>\<open>csv.DictReader\<close>: the first row names the columns of the others.\<close>

definition dict_rows :: "string list list \<Rightarrow> (string \<times> string) list list" where
  "dict_rows rows = (case rows of [] \<Rightarrow> [] | header # body \<Rightarrow> map (zip header) body)"

text \<open>\<open>int(row[k])\<close>.\<close>

definition int_cell :: "string \<Rightarrow> (string \<times> string) list \<Rightarrow> int res" where
  "int_cell k row = (case map_of row k of None \<Rightarrow> Inl (KeyError k) | Some v \<Rightarrow> parse_int v)"

text \<open>The loop of \<open>_first_last_exposure_ns\<close> and of \<open>_compute_achieved_fps\<close>.\<close>

fun first_last_loop ::
    "string \<Rightarrow> (string \<times> string) list list \<Rightarrow> int option \<Rightarrow> int option \<Rightarrow> (int option \<times> int option) res" where
  "first_last_loop k [] first_ns last_ns = Inr (first_ns, last_ns)"
| "first_last_loop k (row # rows) first_ns last_ns =
     res_bind (int_cell k row) (\<lambda>value.
       first_last_loop k rows (case first_ns of None \<Rightarrow> Some value | Some v \<Rightarrow> Some v) (Some value))"

definition first_last_exposure_ns :: "string list list \<Rightarrow> (int option \<times> int option) res" where
  "first_last_exposure_ns rows = first_last_loop ''exposure_host_ns'' (dict_rows rows) None None"

text \<open>Column \<open>k\<close> as integers, in the order of the rows.\<close>

definition int_column :: "string \<Rightarrow> string list list \<Rightarrow> int list res" where
  "int_column k rows = res_map (int_cell k) (dict_rows rows)"

section \<open>Numbers survive the file\<close>

lemma int_body_digits: "list_all is_digit s \<Longrightarrow> s \<noteq> [] \<Longrightarrow> int_body s"
  by (induction s rule: int_body.induct) (auto simp: is_digit_def)

lemma digit_not_space: "is_digit c \<Longrightarrow> \<not> py_space c"
  by (auto simp: is_digit_def py_space_def Let_def)

lemma py_strip_no_space: "s \<noteq> [] \<Longrightarrow> \<not> py_space (hd s) \<Longrightarrow> \<not> py_space (last s) \<Longrightarrow> py_strip s = s"
proof -
  assume s: "s \<noteq> []" "\<not> py_space (hd s)" "\<not> py_space (last s)"
  then have "dropWhile py_space s = s" by (cases s) simp_all
  then show ?thesis using s rstrip_by_id [of s py_space] by (simp add: py_strip_def strip_by_def)
qed

lemma nat_str_ends: "is_digit (hd (nat_str n))" "is_digit (last (nat_str n))"
  using nat_str_digits [of n] nat_str_nonempty [of n] by (auto simp: list_all_iff)

lemma filter_digits: "list_all is_digit s \<Longrightarrow> filter is_digit s = s"
  by (induction s) auto

lemma parse_int_str [simp]: "parse_int (int_str n) = Inr n"
proof (cases "n < 0")
  case True
  define d where "d = nat_str (nat (- n))"
  have d: "list_all is_digit d" "d \<noteq> []" "parse_digits d = nat (- n)"
    unfolding d_def by (simp_all add: nat_str_digits)
  have "\<not> py_space (last d)" unfolding d_def by (rule digit_not_space, rule nat_str_ends)
  then have "py_strip (''-'' @ d) = ''-'' @ d"
    using d(2) by (intro py_strip_no_space) (simp_all add: py_space_def)
  then show ?thesis
    using True d by (simp add: parse_int_def int_str_def Let_def int_body_digits filter_digits flip: d_def)
next
  case False
  define d where "d = nat_str (nat n)"
  have d: "list_all is_digit d" "d \<noteq> []" "parse_digits d = nat n"
    unfolding d_def by (simp_all add: nat_str_digits)
  have ends: "is_digit (hd d)" "is_digit (last d)" unfolding d_def by (rule nat_str_ends)+
  then have strip: "py_strip d = d" using d(2) by (intro py_strip_no_space digit_not_space)
  have "\<not> prefix ''-'' d" "\<not> prefix ''+'' d"
    using d(2) ends(1) by (cases d; auto simp: is_digit_def)+
  then show ?thesis
    using False d strip by (simp add: parse_int_def int_str_def Let_def int_body_digits filter_digits flip: d_def)
qed

lemma first_last_loop_values:
  "list_all2 (\<lambda>row v. int_cell k row = Inr v) rows vs \<Longrightarrow>
   first_last_loop k rows f l =
     Inr (case f of Some x \<Rightarrow> Some x | None \<Rightarrow> (if vs = [] then None else Some (hd vs)),
          if vs = [] then l else Some (last vs))"
  by (induction rows vs arbitrary: f l rule: list_all2_induct) (auto split: option.split)

lemma int_column_values:
  "list_all2 (\<lambda>row v. int_cell k row = Inr v) (dict_rows rows) vs \<Longrightarrow> int_column k rows = Inr vs"
  by (simp add: int_column_def res_map_Inr_iff)

lemma map_of_zip_map:
  "k \<in> set ks \<Longrightarrow> map_of (zip ks (map f ks)) k = Some (f k)"
  by (induction ks) auto

text \<open>A log that was opened with a header and written to is a header and its rows.\<close>

definition log_of :: "string list \<Rightarrow> (string \<Rightarrow> string) list \<Rightarrow> csv_log" where
  "log_of header cells = \<lparr>csv_fields = header, csv_rows = header # map (\<lambda>c. map c header) cells, csv_open = True\<rparr>"

lemma log_of_new: "new_csv header = log_of header []"
  by (simp add: new_csv_def log_of_def)

lemma log_of_write:
  assumes "set (map fst row) = set header"
  shows "csv_write row (log_of header cells) =
    (Inr (), log_of header (cells @ [\<lambda>k. case map_of row k of None \<Rightarrow> [] | Some v \<Rightarrow> v]))"
  using assms by (auto simp: csv_write_def log_of_def)

lemma log_of_cells:
  assumes "k \<in> set header" and "\<forall>i < length vs. (cells ! i) k = int_str (vs ! i)" and "length cells = length vs"
  shows "list_all2 (\<lambda>row v. int_cell k row = Inr v) (dict_rows (csv_rows (log_of header cells))) vs"
  using assms
  by (auto simp: list_all2_conv_all_nth dict_rows_def log_of_def int_cell_def map_of_zip_map)

end
