(* ===== verification/Web_View.thy ===== *)
theory Web_View imports Web_Properties Csv_Log begin

text \<open>
  What the page shows and what its buttons do: the texts and classes \<open>refreshState\<close> writes, the summary
  lines, \<open>postJson\<close> and the click handlers, up to the request handler of the server and back.
  \<open>JSON.stringify\<close> and the message of a failed fetch are parameters.
\<close>

section \<open>Texts\<close>

text \<open>White space of \<open>String.prototype.trim\<close> among the code points below 256.\<close>

definition js_space :: "char \<Rightarrow> bool" where
  "js_space c \<longleftrightarrow> (let n = of_char c :: nat in 9 \<le> n \<and> n \<le> 13 \<or> n = 32 \<or> n = 160)"

definition js_trim :: "string \<Rightarrow> string" where
  "js_trim s = strip_by js_space s"

text \<open>\<open>value.toFixed(4)\<close>: the nearest multiple of 1/10000, the larger of two; from \<open>10^21\<close> on \<open>String(value)\<close>.\<close>

definition fixed4_digits :: "real \<Rightarrow> string" where
  "fixed4_digits x = (let s = zpad 5 (nat_str (nat \<lfloor>x * 10 ^ 4 + 1 / 2\<rfloor>))
     in take (length s - 4) s @ ''.'' @ drop (length s - 4) s)"

definition to_fixed4 :: "(real \<Rightarrow> string) \<Rightarrow> real \<Rightarrow> string" where
  "to_fixed4 js_str x =
     (if \<bar>x\<bar> \<ge> 10 ^ 21 then js_str x else if x < 0 then ''-'' @ fixed4_digits (- x) else fixed4_digits x)"

definition sequence_text :: "int option \<Rightarrow> string" where
  "sequence_text v = (case v of None \<Rightarrow> ''-'' | Some n \<Rightarrow> int_str n)"

definition format_sequence_list :: "stream_view list \<Rightarrow> string" where
  "format_sequence_list streams =
     (if streams = [] then ''-'' else join_comma (map (\<lambda>s. sv_name s @ ''='' @ sequence_text (sv_sequence s)) streams))"

text \<open>A line of \<open>renderSummaryList\<close>: the name and the details; no streams, a dash.\<close>

definition summary_details :: "(real \<Rightarrow> string) \<Rightarrow> summary option \<Rightarrow> stream_view \<Rightarrow> string" where
  "summary_details js_str summ stream =
     (let stats = (case summ of Some su \<Rightarrow> ws_snapshot (su_stats su) | None \<Rightarrow> \<lparr>wv_mean = 0, wv_std = 0, wv_samples = 0\<rparr>);
          counted = (case summ of Some su \<Rightarrow> ws_count (su_stats su) > 0 | None \<Rightarrow> False);
          hz = (\<lambda>x. if counted then to_fixed4 js_str x @ '' Hz'' else ''-'')
      in ''mean '' @ hz (wv_mean stats) @ '', std '' @ hz (wv_std stats) @ '', seq '' @ sequence_text (sv_sequence stream))"

definition render_summary_list :: "(real \<Rightarrow> string) \<Rightarrow> summaries \<Rightarrow> stream_view list \<Rightarrow> (string \<times> string) list option" where
  "render_summary_list js_str m streams =
     (if streams = [] then None
      else Some (map (\<lambda>s. (sv_name s, summary_details js_str (map_of m (sv_name s)) s)) streams))"

section \<open>The page after a report\<close>

record display =
  ds_config :: string
  ds_log_dir :: string
  ds_log_path :: string
  ds_fatal :: string
  ds_app :: "string \<times> string"
  ds_log :: "string \<times> string"
  ds_cameras :: "(string \<times> string) list option"
  ds_imus :: "(string \<times> string) list option"
  ds_captions :: "(string \<times> string) list"
  ds_client :: client

definition shown_or :: "string \<Rightarrow> string option \<Rightarrow> string" where
  "shown_or fallback v = (case v of None \<Rightarrow> fallback | Some s \<Rightarrow> if s = [] then fallback else s)"

text \<open>Text and class of the state of the application.\<close>

definition app_label :: "snapshot_view \<Rightarrow> string \<times> string" where
  "app_label v =
     (if fatal_shown v then (''fatal'', ''bad'')
      else if pv_running (st_main_app v) \<and> \<not> st_shared_memory_ready v then (''starting'', ''muted'')
      else if pv_running (st_main_app v) then (''running'', ''good'') else (''stopped'', ''bad''))"

definition caption :: "stream_view \<Rightarrow> string" where
  "caption camera = js_trim (sv_name camera @ '' '' @ (if sv_ready camera then [] else ''(waiting)''))"

definition refresh_display :: "(real \<Rightarrow> string) \<Rightarrow> snapshot_view \<Rightarrow> display \<Rightarrow> display" where
  "refresh_display js_str v d =
     (let k = refresh_state v (ds_client d)
      in \<lparr>ds_config = st_config_path v, ds_log_dir = st_log_dir v, ds_log_path = shown_or ''-'' (st_log_path v),
          ds_fatal = shown_or [] (st_fatal_error v), ds_app = app_label v,
          ds_log = (if pv_running (st_logging v) then (''running'', ''good'') else (''stopped'', ''bad'')),
          ds_cameras = render_summary_list js_str (cl_cameras k) (st_cameras v),
          ds_imus = render_summary_list js_str (cl_imus k) (st_imus v),
          ds_captions = map (\<lambda>c. (sv_name c, caption c)) (st_cameras v), ds_client = k\<rparr>)"

section \<open>Clicks\<close>

datatype click = ClickStartApp | ClickStopApp | ClickStartLog | ClickStopLog

definition click_path :: "click \<Rightarrow> string" where
  "click_path b = (case b of ClickStartApp \<Rightarrow> ''/api/start_app'' | ClickStopApp \<Rightarrow> ''/api/stop_app''
     | ClickStartLog \<Rightarrow> ''/api/start_logging'' | ClickStopLog \<Rightarrow> ''/api/stop_logging'')"

text \<open>The body from the two input fields.\<close>

definition click_body :: "click \<Rightarrow> string \<Rightarrow> string \<Rightarrow> pyval" where
  "click_body b config_input log_dir_input = (case b of
       ClickStartApp \<Rightarrow> PDict [(''config_path'', PStr (js_trim config_input))]
     | ClickStartLog \<Rightarrow> PDict [(''config_path'', PStr (js_trim config_input)), (''log_dir'', PStr (js_trim log_dir_input))]
     | _ \<Rightarrow> PDict [])"

definition json_request :: "(pyval \<Rightarrow> byte list) \<Rightarrow> string \<Rightarrow> pyval \<Rightarrow> post_request" where
  "json_request stringify path data =
     \<lparr>po_path = path, po_content_length = Some (nat_str (length (stringify data))), po_body = stringify data\<rparr>"

text \<open>
  \<open>postJson\<close>: the payload, or the message of the error it throws. A body that is not JSON counts as
  an empty object, an empty error text as none.
\<close>

definition post_json :: "string \<Rightarrow> outcome \<Rightarrow> string + body" where
  "post_json fetch_error out =
     (case out of
        Dropped _ \<Rightarrow> Inl fetch_error
      | Answered r \<Rightarrow>
        if 200 \<le> rs_status r \<and> rs_status r < 300 then Inr (rs_body r)
        else Inl (case rs_body r of
               ErrorBody e \<Rightarrow> if e \<noteq> [] then e else ''HTTP '' @ nat_str (rs_status r)
             | _ \<Rightarrow> ''HTTP '' @ nat_str (rs_status r)))"

text \<open>After a recording was started, its path is shown before the next report.\<close>

definition note_log_path :: "click \<Rightarrow> body \<Rightarrow> display \<Rightarrow> display" where
  "note_log_path b payload d =
     (case payload of
        StateBody v \<Rightarrow> (if b = ClickStartLog \<and> shown_or [] (st_log_path v) \<noteq> [] then d\<lparr>ds_log_path := shown_or [] (st_log_path v)\<rparr> else d)
      | _ \<Rightarrow> d)"

text \<open>\<open>refreshState\<close> against the server; a failed fetch or another body throws.\<close>

definition fetch_state ::
    "(real \<Rightarrow> string) \<Rightarrow> string \<Rightarrow> http_env \<Rightarrow> 'r collector_env \<Rightarrow> 'r collector \<times> display \<Rightarrow> string option \<times> 'r collector \<times> display" where
  "fetch_state js_str fetch_error he env s =
     (case s of (c, d) \<Rightarrow>
        (case do_get he env ''/api/state'' [] c of
           (Answered r, c') \<Rightarrow> (case rs_body r of
               StateBody v \<Rightarrow> (None, c', refresh_display js_str v d)
             | _ \<Rightarrow> (Some fetch_error, c', d))
         | (Dropped _, c') \<Rightarrow> (Some fetch_error, c', d)))"

text \<open>A click handler: the text of the alert, if any, the server and the page.\<close>

definition handle_click ::
    "(real \<Rightarrow> string) \<Rightarrow> (pyval \<Rightarrow> byte list) \<Rightarrow> string \<Rightarrow> http_env \<Rightarrow> 'r collector_env \<Rightarrow> click \<Rightarrow> string \<Rightarrow> string \<Rightarrow>
     'r collector \<times> display \<Rightarrow> string option \<times> 'r collector \<times> display" where
  "handle_click js_str stringify fetch_error he env b config_input log_dir_input s =
     (case s of (c, d) \<Rightarrow>
        (case do_post he env (json_request stringify (click_path b) (click_body b config_input log_dir_input)) c of
           (out, c') \<Rightarrow> (case post_json fetch_error out of
               Inl message \<Rightarrow> (Some message, c', d)
             | Inr payload \<Rightarrow> fetch_state js_str fetch_error he env (c', note_log_path b payload d))))"

section \<open>A click is its command\<close>

text \<open>The operation behind a button.\<close>

definition click_command :: "'r collector_env \<Rightarrow> click \<Rightarrow> string \<Rightarrow> string \<Rightarrow> ('r collector, snapshot_view) meth" where
  "click_command env b cfg dir = (case b of
       ClickStartApp \<Rightarrow> start_main_app env cfg
     | ClickStopApp \<Rightarrow> stop_main_app env
     | ClickStartLog \<Rightarrow> start_logging env cfg dir
     | ClickStopLog \<Rightarrow> stop_logging env)"

lemma click_command_posted:
  "post_command env (click_path b) (click_body b cfg dir) = Some (click_command env b (js_trim cfg) (js_trim dir))"
  by (cases b) (simp_all add: post_command_def click_path_def click_body_def click_command_def body_string_def fun_eq_iff)

lemma json_request_read:
  assumes "stringify data \<noteq> []" and "utf8_decode (map unat (stringify data)) = Some t" and "he_json he t = Inr data"
  shows "read_json he (json_request stringify path data) = Inr data"
proof -
  have "parse_int (nat_str (length (stringify data))) = Inr (int (length (stringify data)))"
    using parse_int_str [of "int (length (stringify data))"] by (simp add: int_str_def)
  then show ?thesis using assms by (simp add: read_json_def json_request_def)
qed


text \<open>What the command gives is what the page goes by.\<close>

definition alert_of :: "py_error \<Rightarrow> string" where
  "alert_of e = (if error_text e = [] then ''HTTP '' @ nat_str 400 else error_text e)"

text \<open>
  C14. From the input fields to the collector and back: when the server reads the JSON the browser writes,
  a click runs exactly the operation of its button, on the trimmed inputs. If the operation raises, the
  page shows the text of the exception and nothing else changes; if it returns, the page then takes the
  state from a report of the server in the state the operation left, in which the labels are those of
  the processes: running exactly if the process runs, starting while its memory is not there yet.
\<close>

theorem click_runs_its_command:
  assumes "stringify (click_body b cfg dir) \<noteq> []" and "utf8_decode (map unat (stringify (click_body b cfg dir))) = Some t"
    and "he_json he t = Inr (click_body b cfg dir)"
  shows "(\<forall>e c1. click_command env b (js_trim cfg) (js_trim dir) c = (Inl e, c1) \<longrightarrow>
       handle_click js_str stringify fetch_error he env b cfg dir (c, d) = (Some (alert_of e), c1, d)) \<and>
    (\<forall>v c1 w c2. click_command env b (js_trim cfg) (js_trim dir) c = (Inr v, c1) \<and> collector_snapshot env c1 = (Inr w, c2) \<longrightarrow>
       (\<exists>d'. handle_click js_str stringify fetch_error he env b cfg dir (c, d) = (None, c2, d') \<and>
         ds_log_path d' = shown_or ''-'' (st_log_path w) \<and> ds_fatal d' = shown_or [] (st_fatal_error w) \<and>
         (fst (ds_log d') = ''running'' \<longleftrightarrow> pv_running (st_logging w)) \<and>
         (fst (ds_app d') = ''running'' \<longleftrightarrow> pv_running (st_main_app w) \<and> st_shared_memory_ready w \<and> \<not> fatal_shown w) \<and>
         (fst (ds_app d') = ''starting'' \<longleftrightarrow> pv_running (st_main_app w) \<and> \<not> st_shared_memory_ready w \<and> \<not> fatal_shown w)))"
proof -
  let ?rq = "json_request stringify (click_path b) (click_body b cfg dir)"
  have read: "read_json he ?rq = Inr (click_body b cfg dir)" using assms by (rule json_request_read)
  have path: "po_path ?rq = click_path b" by (simp add: json_request_def)
  have posted: "do_post he env ?rq c = (case click_command env b (js_trim cfg) (js_trim dir) c of
      (Inl e, c1) \<Rightarrow> (answer 400 (ErrorBody (error_text e)), c1) | (Inr v, c1) \<Rightarrow> (answer 200 (StateBody v), c1))"
    by (simp add: do_post_def read path click_command_posted)
  show ?thesis
  proof (intro conjI allI impI)
    fix e c1
    assume "click_command env b (js_trim cfg) (js_trim dir) c = (Inl e, c1)"
    then show "handle_click js_str stringify fetch_error he env b cfg dir (c, d) = (Some (alert_of e), c1, d)"
      by (simp add: handle_click_def posted post_json_def answer_def alert_of_def)
  next
    fix v c1 w c2
    assume "click_command env b (js_trim cfg) (js_trim dir) c = (Inr v, c1) \<and> collector_snapshot env c1 = (Inr w, c2)"
    then have "handle_click js_str stringify fetch_error he env b cfg dir (c, d) =
        (None, c2, refresh_display js_str w (note_log_path b (StateBody v) d))"
      by (simp add: handle_click_def posted post_json_def answer_def fetch_state_def do_get_def)
    then show "\<exists>d'. handle_click js_str stringify fetch_error he env b cfg dir (c, d) = (None, c2, d') \<and>
         ds_log_path d' = shown_or ''-'' (st_log_path w) \<and> ds_fatal d' = shown_or [] (st_fatal_error w) \<and>
         (fst (ds_log d') = ''running'' \<longleftrightarrow> pv_running (st_logging w)) \<and>
         (fst (ds_app d') = ''running'' \<longleftrightarrow> pv_running (st_main_app w) \<and> st_shared_memory_ready w \<and> \<not> fatal_shown w) \<and>
         (fst (ds_app d') = ''starting'' \<longleftrightarrow> pv_running (st_main_app w) \<and> \<not> st_shared_memory_ready w \<and> \<not> fatal_shown w)"
      by (auto simp: refresh_display_def Let_def app_label_def)
  qed
qed

text \<open>Starting the application of a server that records already.\<close>

theorem click_runs_its_command_witness:
  "\<forall>d. \<exists>c1. handle_click (\<lambda>_. []) (\<lambda>_. [0x7b]) ''Failed to fetch'' (demo_http\<lparr>he_json := \<lambda>_. Inr (click_body ClickStartApp '' other '' [])\<rparr>)
     rec_env ClickStartApp '' other '' [] (rec_recording, d) = (Some ''main application is already running'', c1, d)"
proof
  fix d
  let ?json = "\<lambda>_. Inr (click_body ClickStartApp '' other '' []) :: pyval res"
  let ?c1 = "rec_recording\<lparr>co_os := tick (co_os rec_recording)\<rparr>"
  have "ph_running (ce_os rec_env) (co_main rec_recording, co_os rec_recording) = (Inr True, (co_main rec_recording, tick (co_os rec_recording)))"
    using rec_alive(1) rec_logging by (simp add: ph_running_eq ph_alive_def)
  then have run: "click_command rec_env ClickStartApp (js_trim '' other '') (js_trim []) rec_recording =
      (Inl (RuntimeError ''main application is already running''), ?c1)"
    by (simp add: click_command_def start_main_app_def m_bind_def main_running_def on_main_def)
  have json: "(\<lambda>_. [0x7b]) (click_body ClickStartApp '' other '' []) \<noteq> ([] :: byte list)" by simp
  have utf: "utf8_decode (map unat ((\<lambda>_. [0x7b]) (click_body ClickStartApp '' other '' []) :: byte list)) = Some [0x7b]" by code_simp
  from click_runs_its_command [where stringify = "\<lambda>_. [0x7b]" and he = "demo_http\<lparr>he_json := ?json\<rparr>" and js_str = "\<lambda>_. []"
      and fetch_error = "''Failed to fetch''" and d = d and env = rec_env and c = rec_recording, OF json utf] run
  show "\<exists>c1. handle_click (\<lambda>_. []) (\<lambda>_. [0x7b]) ''Failed to fetch'' (demo_http\<lparr>he_json := ?json\<rparr>)
     rec_env ClickStartApp '' other '' [] (rec_recording, d) = (Some ''main application is already running'', c1, d)"
    by (simp add: alert_of_def)
qed

end
