(* ===== verification/Ros_Topics.thy ===== *)
theory Ros_Topics imports Py_Strings begin

text \<open>
  The topic inference of \<open>python/ros1_bag_to_mcap.py\<close>: which connections of a ROS 1 bag are
  cameras and IMUs, the topics their messages are written to, and the check that no sensor
  is left out. The two inference loops are one algorithm on different keys, so its laws are
  a locale that both interpret.
\<close>

section \<open>Names\<close>

definition normalize_msgtype_name :: "string \<Rightarrow> string" where
  "normalize_msgtype_name msgtype = py_replace ''/msg/'' ''/'' msgtype"

function strip_trailing :: "string \<Rightarrow> string" where
  "strip_trailing s = (if suffix ''/'' s \<and> s \<noteq> ''/'' then strip_trailing (butlast s) else s)"
  by pat_completeness auto
termination
  by (relation "measure length") (auto simp: suffix_def)

declare strip_trailing.simps [simp del]

definition normalize_topic :: "string \<Rightarrow> string" where
  "normalize_topic topic =
     (let normalized = py_strip topic
      in strip_trailing (if prefix ''/'' normalized then normalized else ''/'' @ normalized))"

definition strip_slashes :: "string \<Rightarrow> string" where
  "strip_slashes s = strip_by slash s"

section \<open>The topics of cameras and IMUs\<close>

definition no_camera_name :: "string \<Rightarrow> py_error" where
  "no_camera_name source_topic =
     ValueError (''Camera topic '' @ quoted source_topic @ '' does not contain a camera name'')"

definition infer_camera_output_topic :: "string \<Rightarrow> string res" where
  "infer_camera_output_topic source_topic =
     (let t = normalize_topic source_topic
      in if suffix ''/image/compressed'' t then
           (let topic_root = strip_slashes (drop_end (length ''/image/compressed'') t)
            in if topic_root = [] then Inl (no_camera_name source_topic)
               else if prefix ''camera/'' topic_root then Inr (''/'' @ topic_root @ ''/image/compressed'')
               else Inr (''/camera/'' @ topic_root @ ''/image/compressed''))
         else if suffix ''/compressed'' t then
           (let topic_root = strip_slashes (drop_end (length ''/compressed'') t)
            in if topic_root = [] then Inl (no_camera_name source_topic)
               else Inr (''/camera/'' @ last_component topic_root @ ''/image/compressed''))
         else Inl (ValueError (''Camera topic '' @ quoted source_topic @ '' must end with '' @ quoted ''/compressed'')))"

definition is_camera_source_topic :: "string \<Rightarrow> bool" where
  "is_camera_source_topic source_topic \<longleftrightarrow> suffix ''/compressed'' (normalize_topic source_topic)"

definition infer_imu_output_prefix :: "string \<Rightarrow> string" where
  "infer_imu_output_prefix source_topic =
     (let t = normalize_topic source_topic
      in if suffix ''/imu'' t then ''/imu''
         else let cut = (if suffix ''/data_raw'' t then drop_end (length ''/data_raw'') t
                         else if suffix ''/data'' t then drop_end (length ''/data'') t else t);
                  base = rstrip_by slash cut
              in if base = [] then ''/imu'' else base)"

definition is_imu_source_topic :: "string \<Rightarrow> bool" where
  "is_imu_source_topic source_topic \<longleftrightarrow>
     (let t = normalize_topic source_topic
      in suffix ''/data'' t \<or> suffix ''/data_raw'' t \<or> suffix ''/imu'' t)"

section \<open>The inference loops\<close>

record connection =
  cn_topic :: string
  cn_msgtype :: string

record inferred_camera_topic =
  ict_source :: string
  ict_output :: string

record inferred_imu_topic =
  iit_source :: string
  iit_accel :: string
  iit_gyro :: string

definition wrong_type :: "string \<Rightarrow> string \<Rightarrow> connection \<Rightarrow> py_error" where
  "wrong_type kind expected c =
     ValueError (kind @ '' topic '' @ quoted (cn_topic c) @ '' must contain '' @ expected @ '', got '' @
                 quoted (cn_msgtype c))"

text \<open>\<open>seen_outputs\<close> is the dictionary from an output to its first source.\<close>

fun infer_camera_loop ::
    "(string \<rightharpoonup> string) \<Rightarrow> connection list \<Rightarrow> inferred_camera_topic list res" where
  "infer_camera_loop seen [] = Inr []"
| "infer_camera_loop seen (c # cs) =
     (if \<not> is_camera_source_topic (cn_topic c) then infer_camera_loop seen cs
      else if normalize_msgtype_name (cn_msgtype c) \<noteq> ''sensor_msgs/CompressedImage'' then
        Inl (wrong_type ''Camera'' ''sensor_msgs/CompressedImage'' c)
      else res_bind (infer_camera_output_topic (cn_topic c)) (\<lambda>output_topic.
        case seen output_topic of
          Some previous_source \<Rightarrow>
            if previous_source \<noteq> cn_topic c then
              Inl (ValueError (''Camera topics '' @ quoted previous_source @ '' and '' @ quoted (cn_topic c) @
                               '' both infer the same output topic '' @ quoted output_topic))
            else infer_camera_loop seen cs
        | None \<Rightarrow>
            res_bind (infer_camera_loop (seen(output_topic \<mapsto> cn_topic c)) cs) (\<lambda>rest.
              Inr (\<lparr>ict_source = cn_topic c, ict_output = output_topic\<rparr> # rest))))"

definition infer_camera_topics :: "connection list \<Rightarrow> inferred_camera_topic list res" where
  "infer_camera_topics connections = infer_camera_loop Map.empty connections"

fun infer_imu_loop ::
    "(string \<times> string \<rightharpoonup> string) \<Rightarrow> connection list \<Rightarrow> inferred_imu_topic list res" where
  "infer_imu_loop seen [] = Inr []"
| "infer_imu_loop seen (c # cs) =
     (if \<not> is_imu_source_topic (cn_topic c) then infer_imu_loop seen cs
      else if normalize_msgtype_name (cn_msgtype c) \<noteq> ''sensor_msgs/Imu'' then
        Inl (wrong_type ''IMU'' ''sensor_msgs/Imu'' c)
      else let output_prefix = infer_imu_output_prefix (cn_topic c);
               accel_topic = output_prefix @ ''/accelerometer'';
               gyro_topic = output_prefix @ ''/gyroscope''
           in case seen (accel_topic, gyro_topic) of
                Some previous_source \<Rightarrow>
                  if previous_source \<noteq> cn_topic c then
                    Inl (ValueError (''IMU topics '' @ quoted previous_source @ '' and '' @ quoted (cn_topic c) @
                                     '' both infer the same output prefix '' @ quoted output_prefix))
                  else infer_imu_loop seen cs
              | None \<Rightarrow>
                  res_bind (infer_imu_loop (seen((accel_topic, gyro_topic) \<mapsto> cn_topic c)) cs) (\<lambda>rest.
                    Inr (\<lparr>iit_source = cn_topic c, iit_accel = accel_topic, iit_gyro = gyro_topic\<rparr> # rest)))"

definition infer_imu_topics :: "connection list \<Rightarrow> inferred_imu_topic list res" where
  "infer_imu_topics connections = infer_imu_loop Map.empty connections"

section \<open>Nothing may be dropped\<close>

definition sensor_msgtype :: "connection \<Rightarrow> bool" where
  "sensor_msgtype c \<longleftrightarrow>
     normalize_msgtype_name (cn_msgtype c) \<in> {''sensor_msgs/CompressedImage'', ''sensor_msgs/Imu''}"

definition validate_sensor_topics ::
    "connection list \<Rightarrow> inferred_camera_topic list \<Rightarrow> inferred_imu_topic list \<Rightarrow> unit res" where
  "validate_sensor_topics connections cameras imus =
     (let inferred = set (map ict_source cameras) \<union> set (map iit_source imus);
          skipped = map (\<lambda>c. cn_topic c @ '' ('' @ cn_msgtype c @ '')'')
                      (filter (\<lambda>c. sensor_msgtype c \<and> cn_topic c \<notin> inferred) connections)
      in if skipped \<noteq> [] then
           Inl (ValueError (''Sensor topics were not inferred and would be dropped: '' @ join_comma skipped))
         else Inr ())"

section \<open>Normal forms of topics\<close>

lemma strip_trailing_form:
  "s \<noteq> [] \<Longrightarrow> strip_trailing s = ''/'' \<or> strip_trailing s \<noteq> [] \<and> \<not> suffix ''/'' (strip_trailing s)"
proof (induction s rule: strip_trailing.induct)
  case (1 s)
  show ?case
  proof (cases "suffix ''/'' s \<and> s \<noteq> ''/''")
    case True
    then have "butlast s \<noteq> []" by (cases s rule: rev_cases) (auto simp: suffix_def)
    with 1 True show ?thesis by (simp add: strip_trailing.simps [of s])
  next
    case False
    with 1 show ?thesis by (auto simp: strip_trailing.simps [of s])
  qed
qed

lemma strip_trailing_prefix: "s \<noteq> [] \<Longrightarrow> hd (strip_trailing s) = hd s \<and> strip_trailing s \<noteq> []"
proof (induction s rule: strip_trailing.induct)
  case (1 s)
  show ?case
  proof (cases "suffix ''/'' s \<and> s \<noteq> ''/''")
    case True
    then obtain t where t: "s = t @ ''/''" "t \<noteq> []" by (auto simp: suffix_def)
    then have b: "hd (butlast s) = hd s" "butlast s \<noteq> []" by simp_all
    have "strip_trailing s = strip_trailing (butlast s)"
      using True by (subst strip_trailing.simps) simp
    with 1(1) [OF True b(2)] b(1) show ?thesis by simp
  next
    case False
    with 1 show ?thesis by (auto simp: strip_trailing.simps [of s])
  qed
qed

lemma strip_trailing_id: "\<not> suffix ''/'' s \<Longrightarrow> strip_trailing s = s"
  by (simp add: strip_trailing.simps)

lemma strip_trailing_root: "strip_trailing ''/'' = ''/''"
  by (simp add: strip_trailing.simps)

lemma normalize_topic_form:
  "normalize_topic t = ''/'' \<or>
   (\<exists>rest. normalize_topic t = ''/'' @ rest \<and> rest \<noteq> [] \<and> \<not> suffix ''/'' (normalize_topic t))"
proof -
  let ?n = "if prefix ''/'' (py_strip t) then py_strip t else ''/'' @ py_strip t"
  have n: "?n \<noteq> []" "hd ?n = CHR ''/''" by (auto simp: prefix_def)
  have "hd (strip_trailing ?n) = CHR ''/'' \<and> strip_trailing ?n \<noteq> []"
    using strip_trailing_prefix [OF n(1)] n(2) by simp
  then obtain rest where "strip_trailing ?n = CHR ''/'' # rest" by (cases "strip_trailing ?n") auto
  with strip_trailing_form [OF n(1)] show ?thesis
    unfolding normalize_topic_def Let_def by (cases rest) auto
qed

lemma py_strip_id:
  "s \<noteq> [] \<Longrightarrow> \<not> py_space (hd s) \<Longrightarrow> \<not> py_space (last s) \<Longrightarrow> py_strip s = s"
  unfolding py_strip_def strip_by_def
  by (cases s) (simp_all add: rstrip_by_id)

lemma normalize_topic_id:
  assumes "s = ''/'' @ rest" and "rest \<noteq> []" and "\<not> py_space (last s)" and "\<not> suffix ''/'' s"
  shows "normalize_topic s = s"
proof -
  have "\<not> py_space (CHR ''/'')" by (simp add: py_space_def)
  then have "py_strip s = s" using assms by (intro py_strip_id) auto
  then show ?thesis using assms by (simp add: normalize_topic_def strip_trailing_id)
qed

text \<open>Stripped roots begin and end with something else than a slash.\<close>

definition clean_root :: "string \<Rightarrow> bool" where
  "clean_root r \<longleftrightarrow> r \<noteq> [] \<and> \<not> slash (hd r) \<and> \<not> slash (last r)"

lemma strip_slashes_clean: "strip_slashes s \<noteq> [] \<Longrightarrow> clean_root (strip_slashes s)"
proof -
  assume ne: "strip_slashes s \<noteq> []"
  let ?d = "dropWhile slash s"
  have "hd (strip_slashes s) = hd ?d"
    using ne rstrip_by_hd [of slash ?d] by (simp add: strip_slashes_def strip_by_def)
  moreover have "?d \<noteq> []"
  proof
    assume "?d = []"
    then have "strip_slashes s = rstrip_by slash []" by (simp only: strip_slashes_def strip_by_def)
    with ne show False by (simp add: rstrip_by_def)
  qed
  then have "\<not> slash (hd ?d)" by (rule hd_dropWhile)
  moreover have "\<not> slash (last (strip_slashes s))"
    using ne rstrip_by_last [of slash ?d] by (simp add: strip_slashes_def strip_by_def)
  ultimately show ?thesis using ne by (simp add: clean_root_def)
qed

lemma strip_slashes_slash: "clean_root r \<Longrightarrow> strip_slashes (''/'' @ r) = r"
  by (cases r) (simp_all add: strip_slashes_def strip_by_def clean_root_def slash_def rstrip_by_id)

lemma last_component_clean: "clean_root r \<Longrightarrow> clean_root (last_component r)"
proof -
  assume r: "clean_root r"
  then obtain cs c where s: "rev r = c # cs" "\<not> slash c"
    by (cases "rev r") (auto simp: clean_root_def)
  then have lc: "last_component r = rev (c # takeWhile (\<lambda>c. \<not> slash c) cs)"
    by (simp add: last_component_def)
  have "\<not> slash x" if "x \<in> set (last_component r)" for x
    using that lc s by (auto dest: set_takeWhileD)
  moreover have "last_component r \<noteq> []" using lc by simp
  ultimately show ?thesis using hd_in_set last_in_set by (auto simp: clean_root_def)
qed

lemma infer_camera_canonical:
  assumes "clean_root r" and "prefix ''camera/'' r"
  shows "infer_camera_output_topic (''/'' @ r @ ''/image/compressed'') = Inr (''/'' @ r @ ''/image/compressed'')"
proof -
  let ?t = "''/'' @ r @ ''/image/compressed''"
  have "\<not> suffix ''/'' ?t" by (simp add: suffix_def)
  then have n: "normalize_topic ?t = ?t"
    by (intro normalize_topic_id [OF refl]) (simp_all add: py_space_def)
  have suf: "suffix ''/image/compressed'' ?t" by (simp add: suffix_def)
  have "drop_end (length ''/image/compressed'') ((''/'' @ r) @ ''/image/compressed'') = ''/'' @ r"
    by (rule drop_end_append)
  then have "strip_slashes (drop_end (length ''/image/compressed'') ?t) = r"
    using strip_slashes_slash [OF assms(1)] by simp
  moreover have "r \<noteq> []" using assms(1) by (simp add: clean_root_def)
  ultimately show ?thesis
    unfolding infer_camera_output_topic_def Let_def n using suf assms(2) by simp
qed

lemma infer_camera_shape:
  assumes "infer_camera_output_topic t = Inr out"
  shows "\<exists>r. clean_root r \<and> prefix ''camera/'' r \<and> out = ''/'' @ r @ ''/image/compressed''"
proof -
  have cam: "clean_root (''camera/'' @ r) \<and> prefix ''camera/'' (''camera/'' @ r)" if "clean_root r" for r
    using that by (simp add: clean_root_def slash_def)
  have wrap: "\<exists>q. clean_root q \<and> prefix ''camera/'' q \<and> ''/camera/'' @ r @ ''/image/compressed'' = ''/'' @ q @ ''/image/compressed''"
    if "clean_root r" for r
    using cam [OF that] by (intro exI [of _ "''camera/'' @ r"]) simp
  show ?thesis
  proof (cases "suffix ''/image/compressed'' (normalize_topic t)")
    case True
    define r where "r = strip_slashes (drop_end (length ''/image/compressed'') (normalize_topic t))"
    have out: "r \<noteq> []" "out = (if prefix ''camera/'' r then ''/'' @ r @ ''/image/compressed''
                                 else ''/camera/'' @ r @ ''/image/compressed'')"
      using assms True unfolding infer_camera_output_topic_def Let_def r_def [symmetric]
      by (auto split: if_splits)
    then have "clean_root r" using strip_slashes_clean r_def by blast
    with out(2) show ?thesis using wrap by (cases "prefix ''camera/'' r") auto
  next
    case False
    define r where "r = strip_slashes (drop_end (length ''/compressed'') (normalize_topic t))"
    have out: "r \<noteq> []" "out = ''/camera/'' @ last_component r @ ''/image/compressed''"
      using assms False unfolding infer_camera_output_topic_def Let_def r_def [symmetric]
      by (auto split: if_splits)
    then have "clean_root (last_component r)" using strip_slashes_clean r_def last_component_clean by blast
    with out(2) show ?thesis using wrap by simp
  qed
qed

text \<open>
  Camera topics have a canonical form: every topic the inference produces is
  \<open>/camera/<name>/image/compressed\<close>, is recognised as a camera topic itself, and is a fixed
  point of the inference, so converting a converted recording does not rename it.
\<close>

theorem camera_topic_canonical:
  assumes "infer_camera_output_topic t = Inr out"
  shows "infer_camera_output_topic out = Inr out \<and> prefix ''/camera/'' out \<and>
     suffix ''/image/compressed'' out \<and> is_camera_source_topic out"
proof -
  obtain r where r: "clean_root r" "prefix ''camera/'' r" "out = ''/'' @ r @ ''/image/compressed''"
    using infer_camera_shape [OF assms] by blast
  have "\<not> suffix ''/'' out" by (simp add: r(3) suffix_def)
  then have n: "normalize_topic out = out"
    by (intro normalize_topic_id [OF r(3)]) (simp_all add: r(3) py_space_def)
  have "suffix ''/compressed'' out"
    unfolding r(3) by (simp add: suffix_def)
  then show ?thesis
    using infer_camera_canonical [OF r(1,2)] r n
    by (auto simp: is_camera_source_topic_def prefix_def suffix_def)
qed

lemma camera_topic_canonical_witness:
  "infer_camera_output_topic ''/camera/left/image/compressed'' = Inr ''/camera/left/image/compressed''"
proof -
  have "infer_camera_output_topic ''ns/left/compressed/'' = Inr ''/camera/left/image/compressed''" by code_simp
  from camera_topic_canonical [OF this] show ?thesis by simp
qed

section \<open>The laws of an inference loop\<close>

locale topic_inference =
  fixes infer :: "('k \<rightharpoonup> string) \<Rightarrow> connection list \<Rightarrow> 'e list res"
    and accepts :: "connection \<Rightarrow> bool"
    and typed :: "connection \<Rightarrow> bool"
    and entry :: "string \<Rightarrow> 'e res"
    and source :: "'e \<Rightarrow> string"
    and key :: "'e \<Rightarrow> 'k"
  assumes infer_Nil: "infer seen [] = Inr es \<Longrightarrow> es = []"
    and infer_skip: "\<not> accepts c \<Longrightarrow> infer seen (c # cs) = infer seen cs"
    and infer_accept: "accepts c \<Longrightarrow> infer seen (c # cs) = Inr es \<Longrightarrow>
       typed c \<and> (\<exists>e. entry (cn_topic c) = Inr e \<and> source e = cn_topic c \<and>
         (case seen (key e) of
            Some p \<Rightarrow> p = cn_topic c \<and> infer seen cs = Inr es
          | None \<Rightarrow> \<exists>rest. infer (seen(key e \<mapsto> cn_topic c)) cs = Inr rest \<and> es = e # rest))"
begin

lemma infer_sound:
  "infer seen cs = Inr es \<Longrightarrow>
   distinct (map key es) \<and>
   (\<forall>e \<in> set es. seen (key e) = None \<and> entry (source e) = Inr e \<and>
      (\<exists>c \<in> set cs. accepts c \<and> cn_topic c = source e))"
proof (induction cs arbitrary: seen es)
  case Nil
  then have "es = []" by (rule infer_Nil)
  then show ?case by simp
next
  case (Cons c cs)
  show ?case
  proof (cases "accepts c")
    case False
    then show ?thesis using Cons.IH [of seen es] Cons.prems infer_skip by auto
  next
    case True
    obtain e where e: "entry (cn_topic c) = Inr e" "source e = cn_topic c"
      and cases: "case seen (key e) of Some p \<Rightarrow> p = cn_topic c \<and> infer seen cs = Inr es
        | None \<Rightarrow> \<exists>rest. infer (seen(key e \<mapsto> cn_topic c)) cs = Inr rest \<and> es = e # rest"
      using infer_accept [OF True Cons.prems] by blast
    show ?thesis
    proof (cases "seen (key e)")
      case (Some p)
      then show ?thesis using cases Cons.IH [of seen es] by auto
    next
      case None
      then obtain rest where rest: "infer (seen(key e \<mapsto> cn_topic c)) cs = Inr rest" "es = e # rest"
        using cases by auto
      have "\<forall>x \<in> set rest. key x \<noteq> key e \<and> seen (key x) = None"
        using Cons.IH [OF rest(1)] by (auto split: if_splits)
      then show ?thesis using Cons.IH [OF rest(1)] rest(2) None e True by auto
    qed
  qed
qed

lemma infer_complete:
  "infer seen cs = Inr es \<Longrightarrow> c \<in> set cs \<Longrightarrow> accepts c \<Longrightarrow>
   typed c \<and> ((\<exists>e \<in> set es. source e = cn_topic c) \<or> cn_topic c \<in> ran seen)"
proof (induction cs arbitrary: seen es)
  case (Cons d cs)
  show ?case
  proof (cases "accepts d")
    case False
    then have "c \<in> set cs" "infer seen cs = Inr es" using Cons.prems infer_skip by auto
    then show ?thesis using Cons.IH Cons.prems(3) by blast
  next
    case True
    obtain e where ty: "typed d" and e: "source e = cn_topic d"
      and cases: "case seen (key e) of Some p \<Rightarrow> p = cn_topic d \<and> infer seen cs = Inr es
        | None \<Rightarrow> \<exists>rest. infer (seen(key e \<mapsto> cn_topic d)) cs = Inr rest \<and> es = e # rest"
      using infer_accept [OF True Cons.prems(1)] by blast
    show ?thesis
    proof (cases "seen (key e)")
      case (Some p)
      then have p: "cn_topic d \<in> ran seen" "infer seen cs = Inr es" using cases by (auto simp: ran_def)
      then show ?thesis using Cons.IH [OF p(2)] Cons.prems(2,3) ty by (cases "c = d") auto
    next
      case None
      then obtain rest where rest: "infer (seen(key e \<mapsto> cn_topic d)) cs = Inr rest" "es = e # rest"
        using cases by auto
      show ?thesis
      proof (cases "c = d")
        case True
        then show ?thesis using ty e rest(2) by auto
      next
        case False
        then have "c \<in> set cs" using Cons.prems(2) by simp
        note this [THEN Cons.IH [OF rest(1)], OF Cons.prems(3)]
        then show ?thesis 
          using e rest(2) unfolding ran_map_upd [where m = seen and a = "key e", OF None] by auto
      qed
    qed
  qed
qed simp

lemma infer_sources_distinct:
  assumes "infer seen cs = Inr es"
  shows "distinct (map source es)"
proof -
  have inj: "x = y" if "x \<in> set es" "y \<in> set es" "source x = source y" for x y
    using infer_sound [OF assms] that by (metis sum.inject(2))
  have "distinct es" using infer_sound [OF assms] by (simp add: distinct_map)
  then show ?thesis using inj by (auto simp: distinct_map inj_on_def)
qed

end

definition camera_entry :: "string \<Rightarrow> inferred_camera_topic res" where
  "camera_entry t = res_bind (infer_camera_output_topic t) (\<lambda>out. Inr \<lparr>ict_source = t, ict_output = out\<rparr>)"

definition imu_entry :: "string \<Rightarrow> inferred_imu_topic res" where
  "imu_entry t = Inr \<lparr>iit_source = t, iit_accel = infer_imu_output_prefix t @ ''/accelerometer'',
     iit_gyro = infer_imu_output_prefix t @ ''/gyroscope''\<rparr>"

lemma camera_loop_accept:
  assumes "is_camera_source_topic (cn_topic c)" and "infer_camera_loop seen (c # cs) = Inr es"
  shows "normalize_msgtype_name (cn_msgtype c) = ''sensor_msgs/CompressedImage'' \<and>
     (\<exists>e. camera_entry (cn_topic c) = Inr e \<and> ict_source e = cn_topic c \<and>
       (case seen (ict_output e) of
          Some p \<Rightarrow> p = cn_topic c \<and> infer_camera_loop seen cs = Inr es
        | None \<Rightarrow> \<exists>rest. infer_camera_loop (seen(ict_output e \<mapsto> cn_topic c)) cs = Inr rest \<and> es = e # rest))"
proof -
  have ty: "normalize_msgtype_name (cn_msgtype c) = ''sensor_msgs/CompressedImage''"
    using assms by (simp split: if_splits)
  obtain out where out: "infer_camera_output_topic (cn_topic c) = Inr out"
    using assms ty by (auto simp: res_bind_Inr_iff)
  let ?e = "\<lparr>ict_source = cn_topic c, ict_output = out\<rparr>"
  have "camera_entry (cn_topic c) = Inr ?e" by (simp add: camera_entry_def out)
  moreover have "case seen (ict_output ?e) of
          Some p \<Rightarrow> p = cn_topic c \<and> infer_camera_loop seen cs = Inr es
        | None \<Rightarrow> \<exists>rest. infer_camera_loop (seen(ict_output ?e \<mapsto> cn_topic c)) cs = Inr rest \<and> es = ?e # rest"
    using assms ty out by (auto simp: res_bind_Inr_iff split: option.splits if_splits)
  ultimately show ?thesis using ty by (intro conjI exI [of _ ?e]) simp_all
qed

lemma imu_loop_accept:
  assumes "is_imu_source_topic (cn_topic c)" and "infer_imu_loop seen (c # cs) = Inr es"
  shows "normalize_msgtype_name (cn_msgtype c) = ''sensor_msgs/Imu'' \<and>
     (\<exists>e. imu_entry (cn_topic c) = Inr e \<and> iit_source e = cn_topic c \<and>
       (case seen (iit_accel e, iit_gyro e) of
          Some p \<Rightarrow> p = cn_topic c \<and> infer_imu_loop seen cs = Inr es
        | None \<Rightarrow> \<exists>rest. infer_imu_loop (seen((iit_accel e, iit_gyro e) \<mapsto> cn_topic c)) cs = Inr rest \<and>
                     es = e # rest))"
proof -
  have ty: "normalize_msgtype_name (cn_msgtype c) = ''sensor_msgs/Imu''"
    using assms by (simp split: if_splits)
  let ?p = "infer_imu_output_prefix (cn_topic c)"
  let ?e = "\<lparr>iit_source = cn_topic c, iit_accel = ?p @ ''/accelerometer'', iit_gyro = ?p @ ''/gyroscope''\<rparr>"
  have "imu_entry (cn_topic c) = Inr ?e" by (simp add: imu_entry_def)
  moreover have "case seen (iit_accel ?e, iit_gyro ?e) of
          Some p \<Rightarrow> p = cn_topic c \<and> infer_imu_loop seen cs = Inr es
        | None \<Rightarrow> \<exists>rest. infer_imu_loop (seen((iit_accel ?e, iit_gyro ?e) \<mapsto> cn_topic c)) cs = Inr rest \<and>
                     es = ?e # rest"
    using assms ty by (auto simp: res_bind_Inr_iff Let_def split: option.splits if_splits)
  ultimately show ?thesis using ty by (intro conjI exI [of _ ?e]) simp_all
qed

interpretation cam: topic_inference infer_camera_loop "\<lambda>c. is_camera_source_topic (cn_topic c)"
  "\<lambda>c. normalize_msgtype_name (cn_msgtype c) = ''sensor_msgs/CompressedImage''"
  camera_entry ict_source ict_output
  by unfold_locales (simp, simp, rule camera_loop_accept)

interpretation imu: topic_inference infer_imu_loop "\<lambda>c. is_imu_source_topic (cn_topic c)"
  "\<lambda>c. normalize_msgtype_name (cn_msgtype c) = ''sensor_msgs/Imu''"
  imu_entry iit_source "\<lambda>e. (iit_accel e, iit_gyro e)"
  by unfold_locales (simp, simp, rule imu_loop_accept)

section \<open>What the inference guarantees\<close>

text \<open>
  C15. No message is dropped silently: when both inferences and the validation succeed, every
  connection whose message type is a camera or IMU type is in the lookup of its own kind
  (a camera with its inferred output), and each source is listed once; a topic that looks
  like one kind but carries another type makes the conversion fail.
\<close>

theorem inferred_topics_cover_sensors:
  assumes "infer_camera_topics cs = Inr cams" and "infer_imu_topics cs = Inr imus"
    and "validate_sensor_topics cs cams imus = Inr ()" and "c \<in> set cs"
  shows "(normalize_msgtype_name (cn_msgtype c) = ''sensor_msgs/CompressedImage'' \<longrightarrow>
            (\<exists>e \<in> set cams. ict_source e = cn_topic c \<and> infer_camera_output_topic (cn_topic c) = Inr (ict_output e))) \<and>
     (normalize_msgtype_name (cn_msgtype c) = ''sensor_msgs/Imu'' \<longrightarrow>
            (\<exists>e \<in> set imus. iit_source e = cn_topic c)) \<and>
     distinct (map ict_source cams) \<and> distinct (map iit_source imus)"
proof -
  note cam_run = assms(1) [unfolded infer_camera_topics_def]
    and imu_run = assms(2) [unfolded infer_imu_topics_def]
  have cover: "sensor_msgtype c \<Longrightarrow> cn_topic c \<in> set (map ict_source cams) \<union> set (map iit_source imus)"
    using assms(3,4) by (auto simp: validate_sensor_topics_def Let_def filter_empty_conv split: if_splits)
  have cam_ty: "normalize_msgtype_name (cn_msgtype c) = ''sensor_msgs/CompressedImage''"
    if e: "e \<in> set cams" "ict_source e = cn_topic c" for e
  proof -
    have "is_camera_source_topic (cn_topic c)" using cam.infer_sound [OF cam_run] e by metis
    then show ?thesis using cam.infer_complete [OF cam_run assms(4)] by simp
  qed
  have imu_ty: "normalize_msgtype_name (cn_msgtype c) = ''sensor_msgs/Imu''"
    if e: "e \<in> set imus" "iit_source e = cn_topic c" for e
  proof -
    have "is_imu_source_topic (cn_topic c)" using imu.infer_sound [OF imu_run] e by metis
    then show ?thesis using imu.infer_complete [OF imu_run assms(4)] by simp
  qed
  have out: "infer_camera_output_topic (cn_topic c) = Inr (ict_output e)"
    if "e \<in> set cams" "ict_source e = cn_topic c" for e
  proof -
    have "camera_entry (cn_topic c) = Inr e" using cam.infer_sound [OF cam_run] that by metis
    then show ?thesis by (auto simp: camera_entry_def res_bind_Inr_iff)
  qed
  show ?thesis
    using cover cam_ty imu_ty out cam.infer_sources_distinct [OF cam_run]
      imu.infer_sources_distinct [OF imu_run]
    by (fastforce simp: sensor_msgtype_def)
qed

lemma inferred_topics_cover_sensors_witness:
  "\<exists>e \<in> {\<lparr>iit_source = ''/imu/data'', iit_accel = ''/imu/accelerometer'', iit_gyro = ''/imu/gyroscope''\<rparr>}.
     iit_source e = ''/imu/data''"
proof -
  let ?c = "\<lparr>cn_topic = ''/imu/data'', cn_msgtype = ''sensor_msgs/msg/Imu''\<rparr>"
  let ?e = "\<lparr>iit_source = ''/imu/data'', iit_accel = ''/imu/accelerometer'', iit_gyro = ''/imu/gyroscope''\<rparr>"
  have 1: "infer_camera_topics [?c] = Inr []" by code_simp
  have 2: "infer_imu_topics [?c] = Inr [?e]" by code_simp
  have 3: "validate_sensor_topics [?c] [] [?e] = Inr ()" by code_simp
  have 4: "normalize_msgtype_name (cn_msgtype ?c) = ''sensor_msgs/Imu''" by code_simp
  show ?thesis using inferred_topics_cover_sensors [OF 1 2 3, of ?c] 4 by simp
qed

end
