(* ===== verification/Ros_Convert.thy ===== *)
theory Ros_Convert imports Ros_Topics Byte_Codec begin

text \<open>
  The conversion of \<open>python/ros1_bag_to_mcap.py\<close>: timestamps and payloads of a message, the
  channels of the output, and the loop over the bag with every exception and the closing of
  the file. The bag reader (\<open>rosbags\<close>) and the MCAP writer (\<open>mcap\<close>) are parameters: what the
  reader yields, which identifiers the writer hands out and which of its calls raise; the
  output is the trace of the writer's calls.
\<close>

section \<open>Messages\<close>

text \<open>An attribute that may be missing is optional, as \<open>getattr\<close> with a default reads it.\<close>

record ros_stamp =
  rt_sec :: "int option"
  rt_secs :: "int option"
  rt_nanosec :: "int option"
  rt_nsecs :: "int option"

record ros_header =
  rh_stamp :: "ros_stamp option"
  rh_frame_id :: "string option"
  rh_seq :: "int option"
  rh_sequence :: "int option"

record ros_vector =
  rv_x :: "real option"
  rv_y :: "real option"
  rv_z :: "real option"

record ros_message =
  rm_header :: "ros_header option"
  rm_format :: "string option"
  rm_data :: "byte list option"
  rm_linear :: "ros_vector option"
  rm_angular :: "ros_vector option"

definition nanoseconds_per_second :: int where
  "nanoseconds_per_second = 1000000000"

text \<open>\<open>getattr(x, a, None)\<close>, and \<open>getattr(x, b, None)\<close> where that is \<open>None\<close>.\<close>

definition first_of :: "'a option \<Rightarrow> 'a option \<Rightarrow> 'a option" where
  "first_of a b = (case a of None \<Rightarrow> b | Some x \<Rightarrow> Some x)"

definition missing_header :: py_error where
  "missing_header = ValueError ''ROS message is missing header''"

definition topic_timestamp_ns :: "ros_message \<Rightarrow> int res" where
  "topic_timestamp_ns m =
     (case rm_header m of
        None \<Rightarrow> Inl missing_header
      | Some header \<Rightarrow>
        (case rh_stamp header of
           None \<Rightarrow> Inl (ValueError ''ROS message header is missing stamp'')
         | Some stamp \<Rightarrow>
           (case (first_of (rt_sec stamp) (rt_secs stamp), first_of (rt_nanosec stamp) (rt_nsecs stamp)) of
              (Some sec, Some nsec) \<Rightarrow> Inr (sec * nanoseconds_per_second + nsec)
            | _ \<Rightarrow> Inl (ValueError ''ROS message timestamp does not expose sec/nsec fields''))))"

definition topic_frame_id :: "ros_message \<Rightarrow> string res" where
  "topic_frame_id m =
     (case rm_header m of
        None \<Rightarrow> Inl missing_header
      | Some header \<Rightarrow> Inr (case rh_frame_id header of None \<Rightarrow> [] | Some f \<Rightarrow> f))"

definition message_sequence :: "ros_message \<Rightarrow> int res" where
  "message_sequence m =
     (case rm_header m of
        None \<Rightarrow> Inl missing_header
      | Some header \<Rightarrow>
        (case first_of (rh_seq header) (rh_sequence header) of
           None \<Rightarrow> Inl (ValueError ''ROS message header is missing sequence'')
         | Some n \<Rightarrow> Inr n))"

text \<open>\<open>//\<close> and \<open>%\<close> round towards minus infinity, as \<open>div\<close> and \<open>mod\<close> do.\<close>

definition seconds_and_nanoseconds :: "int \<Rightarrow> int \<times> int" where
  "seconds_and_nanoseconds timestamp_ns =
     (timestamp_ns div nanoseconds_per_second, timestamp_ns mod nanoseconds_per_second)"

section \<open>Payloads\<close>

text \<open>The text of \<open>json.dumps(body, separators=(",", ":"), ensure_ascii=False)\<close>.\<close>

definition hex_digit :: "nat \<Rightarrow> char" where
  "hex_digit n = (if n < 10 then char_of (48 + n) else char_of (87 + n))"

definition json_char :: "char \<Rightarrow> string" where
  "json_char c =
     (let n = of_char c :: nat
      in if n = 34 then [CHR 0x5C, CHR 0x22]
         else if n = 92 then [CHR 0x5C, CHR 0x5C]
         else if n = 10 then [CHR 0x5C, CHR ''n'']
         else if n = 13 then [CHR 0x5C, CHR ''r'']
         else if n = 9 then [CHR 0x5C, CHR ''t'']
         else if n = 12 then [CHR 0x5C, CHR ''f'']
         else if n = 8 then [CHR 0x5C, CHR ''b'']
         else if n < 32 then [CHR 0x5C, CHR ''u'', CHR ''0'', CHR ''0'', hex_digit (n div 16), hex_digit (n mod 16)]
         else [c])"

definition json_string :: "string \<Rightarrow> string" where
  "json_string s = [CHR 0x22] @ concat (map json_char s) @ [CHR 0x22]"

fun json_text :: "(real \<Rightarrow> string) \<Rightarrow> pyval \<Rightarrow> string"
  and json_items :: "(real \<Rightarrow> string) \<Rightarrow> pyval list \<Rightarrow> string"
  and json_pairs :: "(real \<Rightarrow> string) \<Rightarrow> (string \<times> pyval) list \<Rightarrow> string" where
  "json_text repr PNone = ''null''"
| "json_text repr (PBool b) = (if b then ''true'' else ''false'')"
| "json_text repr (PInt n) = int_str n"
| "json_text repr (PFloat x) = repr x"
| "json_text repr (PStr s) = json_string s"
| "json_text repr (PList xs) = ''['' @ json_items repr xs @ '']''"
| "json_text repr (PDict kvs) = ''{'' @ json_pairs repr kvs @ ''}''"
| "json_items repr [] = []"
| "json_items repr [x] = json_text repr x"
| "json_items repr (x # xs) = json_text repr x @ '','' @ json_items repr xs"
| "json_pairs repr [] = []"
| "json_pairs repr [(k, v)] = json_string k @ '':'' @ json_text repr v"
| "json_pairs repr ((k, v) # kvs) = json_string k @ '':'' @ json_text repr v @ '','' @ json_pairs repr kvs"

definition json_payload :: "(real \<Rightarrow> string) \<Rightarrow> pyval \<Rightarrow> byte list" where
  "json_payload repr body = utf8_encode (json_text repr body)"

text \<open>\<open>base64.b64encode\<close>.\<close>

definition b64_char :: "nat \<Rightarrow> char" where
  "b64_char n =
     (if n < 26 then char_of (65 + n) else if n < 52 then char_of (71 + n)
      else if n < 62 then char_of (n - 4) else if n = 62 then CHR ''+'' else CHR ''/'')"

fun b64encode :: "byte list \<Rightarrow> string" where
  "b64encode [] = []"
| "b64encode [a] =
     (let n = unat a in [b64_char (n div 4), b64_char (n mod 4 * 16), CHR ''='', CHR ''=''])"
| "b64encode [a, b] =
     (let n = unat a * 256 + unat b
      in [b64_char (n div 1024), b64_char (n div 16 mod 64), b64_char (n mod 16 * 4), CHR ''=''])"
| "b64encode (a # b # c # rest) =
     (let n = (unat a * 256 + unat b) * 256 + unat c
      in [b64_char (n div 262144), b64_char (n div 4096 mod 64), b64_char (n div 64 mod 64),
          b64_char (n mod 64)] @ b64encode rest)"

definition timestamp_body :: "int \<Rightarrow> pyval" where
  "timestamp_body timestamp_ns =
     (case seconds_and_nanoseconds timestamp_ns of
        (sec, nsec) \<Rightarrow> PDict [(''sec'', PInt sec), (''nsec'', PInt nsec)])"

definition compressed_image_body :: "int \<Rightarrow> string \<Rightarrow> string \<Rightarrow> byte list \<Rightarrow> pyval" where
  "compressed_image_body timestamp_ns frame_id image_format data =
     PDict [(''timestamp'', timestamp_body timestamp_ns), (''frame_id'', PStr frame_id),
            (''data'', PStr (b64encode data)), (''format'', PStr image_format)]"

definition imu_body :: "int \<Rightarrow> int \<Rightarrow> real \<times> real \<times> real \<Rightarrow> pyval" where
  "imu_body timestamp_ns sequence v =
     (case v of (x, y, z) \<Rightarrow>
        PDict [(''timestamp'', timestamp_body timestamp_ns), (''sequence'', PInt sequence),
               (''x'', PFloat x), (''y'', PFloat y), (''z'', PFloat z)])"

section \<open>The writer\<close>

datatype 'c mcap_event =
    RegisterSchema string string string 'c
  | RegisterChannel string string 'c 'c
  | AddMessage 'c int "byte list" int int
  | Finish
  | CloseFile

text \<open>
  The writer's part of the environment: the identifiers it returns and the calls that raise,
  both by the number of the call in the trace.
\<close>

record 'c bag_env =
  be_input_path :: string
  be_repr :: "real \<Rightarrow> string"
  be_open_writer :: "unit res"
  be_open_reader :: "unit res"
  be_connections :: "connection list"
  be_messages :: "(connection \<times> int \<times> byte list) list"
  be_iteration_error :: "py_error option"
  be_deserialize :: "byte list \<Rightarrow> string \<Rightarrow> ros_message res"
  be_id :: "nat \<Rightarrow> 'c"
  be_writer_error :: "nat \<Rightarrow> py_error option"

type_synonym 'c trace = "'c mcap_event list"

text \<open>A call of the writer: it raises, or is recorded.\<close>

definition emit :: "'c bag_env \<Rightarrow> 'c mcap_event \<Rightarrow> ('c trace, unit) meth" where
  "emit env e tr =
     (case be_writer_error env (length tr) of
        Some err \<Rightarrow> (Inl err, tr)
      | None \<Rightarrow> (Inr (), tr @ [e]))"

definition image_schema_name :: string where
  "image_schema_name = ''foxglove.CompressedImage''"

definition imu_schema_name :: string where
  "imu_schema_name = ''core.ImuXYZ''"

definition text_lines :: "string list \<Rightarrow> string" where
  "text_lines ls = concat (map (\<lambda>l. l @ [CHR 0x0A]) ls)"

definition compressed_image_schema :: string where
  "compressed_image_schema = text_lines
    [''{'',
     ''  \"title\": \"foxglove.CompressedImage\",'',
     ''  \"description\": \"A compressed image\",'',
     ''  \"type\": \"object\",'',
     ''  \"properties\": {'',
     ''    \"timestamp\": {'',
     ''      \"type\": \"object\",'',
     ''      \"properties\": {'',
     ''        \"sec\": { \"type\": \"integer\", \"minimum\": 0 },'',
     ''        \"nsec\": { \"type\": \"integer\", \"minimum\": 0 }'',
     ''      },'',
     ''      \"required\": [ \"sec\", \"nsec\" ]'',
     ''    },'',
     ''    \"frame_id\": { \"type\": \"string\" },'',
     ''    \"data\": { \"type\": \"string\", \"contentEncoding\": \"base64\" },'',
     ''    \"format\": { \"type\": \"string\" }'',
     ''  },'',
     ''  \"required\": [ \"timestamp\", \"frame_id\", \"data\", \"format\" ]'',
     ''}'']"

definition imu_schema :: string where
  "imu_schema = text_lines
    [''{'',
     ''  \"title\": \"core.ImuXYZ\",'',
     ''  \"description\": \"A 3-axis IMU sample\",'',
     ''  \"type\": \"object\",'',
     ''  \"properties\": {'',
     ''    \"timestamp\": {'',
     ''      \"type\": \"object\",'',
     ''      \"properties\": {'',
     ''        \"sec\": { \"type\": \"integer\", \"minimum\": 0 },'',
     ''        \"nsec\": { \"type\": \"integer\", \"minimum\": 0 }'',
     ''      },'',
     ''      \"required\": [ \"sec\", \"nsec\" ]'',
     ''    },'',
     ''    \"sequence\": { \"type\": \"integer\", \"minimum\": 0 },'',
     ''    \"x\": { \"type\": \"number\" },'',
     ''    \"y\": { \"type\": \"number\" },'',
     ''    \"z\": { \"type\": \"number\" }'',
     ''  },'',
     ''  \"required\": [ \"timestamp\", \"sequence\", \"x\", \"y\", \"z\" ]'',
     ''}'']"

text \<open>Registering a schema or a channel answers the identifier the writer gives it.\<close>

definition register_schema :: "'c bag_env \<Rightarrow> string \<Rightarrow> string \<Rightarrow> ('c trace, 'c) meth" where
  "register_schema env name body tr =
     (let i = be_id env (length tr)
      in m_seq (emit env (RegisterSchema name ''jsonschema'' body i)) (m_return i) tr)"

definition register_core_schemas :: "'c bag_env \<Rightarrow> ('c trace, 'c \<times> 'c) meth" where
  "register_core_schemas env =
     m_bind (register_schema env image_schema_name compressed_image_schema) (\<lambda>image.
     m_bind (register_schema env imu_schema_name imu_schema) (\<lambda>imu. m_return (image, imu)))"

definition register_channel ::
    "'c bag_env \<Rightarrow> string \<Rightarrow> 'c \<Rightarrow> (string \<rightharpoonup> 'c) \<Rightarrow> ('c trace, string \<rightharpoonup> 'c) meth" where
  "register_channel env topic schema channels tr =
     (let i = be_id env (length tr)
      in m_seq (emit env (RegisterChannel topic ''json'' schema i)) (m_return (channels(topic \<mapsto> i))) tr)"

fun register_cameras ::
    "'c bag_env \<Rightarrow> 'c \<Rightarrow> inferred_camera_topic list \<Rightarrow> (string \<rightharpoonup> 'c) \<Rightarrow> ('c trace, string \<rightharpoonup> 'c) meth" where
  "register_cameras env schema [] channels = m_return channels"
| "register_cameras env schema (t # ts) channels =
     m_bind (register_channel env (ict_output t) schema channels) (register_cameras env schema ts)"

fun register_imus ::
    "'c bag_env \<Rightarrow> 'c \<Rightarrow> inferred_imu_topic list \<Rightarrow> (string \<rightharpoonup> 'c) \<Rightarrow> ('c trace, string \<rightharpoonup> 'c) meth" where
  "register_imus env schema [] channels = m_return channels"
| "register_imus env schema (t # ts) channels =
     m_bind (register_channel env (iit_accel t) schema channels) (\<lambda>channels.
     m_bind (register_channel env (iit_gyro t) schema channels) (register_imus env schema ts))"

definition register_core_channels ::
    "'c bag_env \<Rightarrow> inferred_camera_topic list \<Rightarrow> inferred_imu_topic list \<Rightarrow> ('c trace, string \<rightharpoonup> 'c) meth" where
  "register_core_channels env cameras imus =
     m_bind (register_core_schemas env) (\<lambda>(image_schema_id, imu_schema_id).
     m_bind (register_cameras env image_schema_id cameras Map.empty) (register_imus env imu_schema_id imus))"

section \<open>The loop\<close>

definition lift_res :: "'a res \<Rightarrow> ('s, 'a) meth" where
  "lift_res r = (\<lambda>s. (r, s))"

definition channel_of :: "(string \<rightharpoonup> 'c) \<Rightarrow> string \<Rightarrow> 'c res" where
  "channel_of channels topic = (case channels topic of None \<Rightarrow> Inl (KeyError topic) | Some i \<Rightarrow> Inr i)"

definition write_camera_message :: "'c \<Rightarrow> int \<Rightarrow> byte list \<Rightarrow> 'c mcap_event" where
  "write_camera_message channel_id timestamp_ns payload = AddMessage channel_id timestamp_ns payload timestamp_ns 0"

definition write_imu_message :: "'c \<Rightarrow> int \<Rightarrow> int \<Rightarrow> byte list \<Rightarrow> 'c mcap_event" where
  "write_imu_message channel_id timestamp_ns sequence payload =
     AddMessage channel_id timestamp_ns payload timestamp_ns sequence"

declare write_camera_message_def [simp] write_imu_message_def [simp]

text \<open>What a camera message contributes: one call of the writer.\<close>

definition camera_message ::
    "'c bag_env \<Rightarrow> (string \<rightharpoonup> 'c) \<Rightarrow> inferred_camera_topic \<Rightarrow> connection \<Rightarrow> ros_message \<Rightarrow> 'c mcap_event list res" where
  "camera_message env channels t c m =
     (if normalize_msgtype_name (cn_msgtype c) \<noteq> ''sensor_msgs/CompressedImage'' then
        Inl (wrong_type ''Camera'' ''sensor_msgs/CompressedImage'' c)
      else res_bind (topic_timestamp_ns m) (\<lambda>ts.
           res_bind (topic_frame_id m) (\<lambda>frame_id.
           let image_format = (case rm_format m of None \<Rightarrow> [] | Some f \<Rightarrow> f);
               data = (case rm_data m of None \<Rightarrow> [] | Some d \<Rightarrow> d)
           in res_bind (channel_of channels (ict_output t)) (\<lambda>i.
                Inr [write_camera_message i ts (json_payload (be_repr env)
                       (compressed_image_body ts frame_id image_format data))]))))"

definition vector_values :: "ros_vector \<Rightarrow> (real \<times> real \<times> real) res" where
  "vector_values v =
     (case (rv_x v, rv_y v, rv_z v) of
        (Some x, Some y, Some z) \<Rightarrow> Inr (x, y, z)
      | (None, _, _) \<Rightarrow> Inl (AttributeError ''x'')
      | (_, None, _) \<Rightarrow> Inl (AttributeError ''y'')
      | _ \<Rightarrow> Inl (AttributeError ''z''))"

text \<open>What an IMU message contributes: one call for each of the two channels.\<close>

definition imu_message ::
    "'c bag_env \<Rightarrow> (string \<rightharpoonup> 'c) \<Rightarrow> inferred_imu_topic \<Rightarrow> connection \<Rightarrow> ros_message \<Rightarrow> 'c mcap_event list res" where
  "imu_message env channels t c m =
     (if normalize_msgtype_name (cn_msgtype c) \<noteq> ''sensor_msgs/Imu'' then
        Inl (wrong_type ''IMU'' ''sensor_msgs/Imu'' c)
      else res_bind (topic_timestamp_ns m) (\<lambda>ts.
           res_bind (message_sequence m) (\<lambda>sequence.
           case (rm_linear m, rm_angular m) of
             (Some lin, Some ang) \<Rightarrow>
               res_bind (vector_values lin) (\<lambda>accel.
               res_bind (vector_values ang) (\<lambda>gyro.
               res_bind (channel_of channels (iit_accel t)) (\<lambda>i.
               res_bind (channel_of channels (iit_gyro t)) (\<lambda>j.
                 Inr [write_imu_message i ts sequence (json_payload (be_repr env) (imu_body ts sequence accel)),
                      write_imu_message j ts sequence (json_payload (be_repr env) (imu_body ts sequence gyro))]))))
           | _ \<Rightarrow> Inl (ValueError (''IMU topic '' @ quoted (cn_topic c) @
                          '' is missing linear_acceleration or angular_velocity'')))))"

fun emit_all :: "'c bag_env \<Rightarrow> 'c mcap_event list \<Rightarrow> ('c trace, unit) meth" where
  "emit_all env [] = m_return ()"
| "emit_all env (e # es) = m_seq (emit env e) (emit_all env es)"

text \<open>The lookups from the source topic: a later entry of the same source wins.\<close>

definition camera_lookup :: "inferred_camera_topic list \<Rightarrow> string \<rightharpoonup> inferred_camera_topic" where
  "camera_lookup cameras = map_of (rev (map (\<lambda>t. (ict_source t, t)) cameras))"

definition imu_lookup :: "inferred_imu_topic list \<Rightarrow> string \<rightharpoonup> inferred_imu_topic" where
  "imu_lookup imus = map_of (rev (map (\<lambda>t. (iit_source t, t)) imus))"

definition message_events ::
    "'c bag_env \<Rightarrow> inferred_camera_topic list \<Rightarrow> inferred_imu_topic list \<Rightarrow> (string \<rightharpoonup> 'c) \<Rightarrow>
     connection \<times> int \<times> byte list \<Rightarrow> 'c mcap_event list res" where
  "message_events env cameras imus channels msg =
     (case msg of (c, _, rawdata) \<Rightarrow>
        res_bind (be_deserialize env rawdata (cn_msgtype c)) (\<lambda>m.
          case camera_lookup cameras (cn_topic c) of
            Some t \<Rightarrow> camera_message env channels t c m
          | None \<Rightarrow>
            (case imu_lookup imus (cn_topic c) of
               Some t \<Rightarrow> imu_message env channels t c m
             | None \<Rightarrow> Inr [])))"

fun convert_messages ::
    "'c bag_env \<Rightarrow> inferred_camera_topic list \<Rightarrow> inferred_imu_topic list \<Rightarrow> (string \<rightharpoonup> 'c) \<Rightarrow>
     (connection \<times> int \<times> byte list) list \<Rightarrow> ('c trace, unit) meth" where
  "convert_messages env cameras imus channels [] =
     lift_res (case be_iteration_error env of None \<Rightarrow> Inr () | Some e \<Rightarrow> Inl e)"
| "convert_messages env cameras imus channels (msg # msgs) =
     m_seq (m_bind (lift_res (message_events env cameras imus channels msg)) (emit_all env))
           (convert_messages env cameras imus channels msgs)"

definition convert_body :: "'c bag_env \<Rightarrow> ('c trace, unit) meth" where
  "convert_body env =
     m_seq (lift_res (be_open_reader env))
       (if be_connections env = [] then m_raise (ValueError (''No connections were found in rosbag '' @ quoted (be_input_path env)))
        else m_bind (lift_res (infer_camera_topics (be_connections env))) (\<lambda>cameras.
             m_bind (lift_res (infer_imu_topics (be_connections env))) (\<lambda>imus.
             m_seq (lift_res (validate_sensor_topics (be_connections env) cameras imus))
              (m_bind (register_core_channels env cameras imus) (\<lambda>channels.
               m_seq (convert_messages env cameras imus channels (be_messages env))
                     (emit env Finish))))))"

text \<open>\<open>try: ... finally: handle.close()\<close>, after the writer has been opened.\<close>

definition convert_bag :: "'c bag_env \<Rightarrow> unit res \<times> 'c trace" where
  "convert_bag env =
     (case be_open_writer env of
        Inl e \<Rightarrow> (Inl e, [])
      | Inr _ \<Rightarrow> (case convert_body env [] of (r, tr) \<Rightarrow> (r, tr @ [CloseFile])))"

section \<open>Timestamps\<close>

text \<open>
  The timestamp written into a payload is the message's timestamp: the pair of seconds
  and nanoseconds is normalised (0 to 999999999, also for times before the epoch), and
  reading it back from a message with that stamp gives the same number of nanoseconds; two
  different timestamps never get the same pair.
\<close>

theorem timestamp_pair_roundtrip:
  "inj seconds_and_nanoseconds \<and>
   (case seconds_and_nanoseconds ts of (sec, nsec) \<Rightarrow>
     0 \<le> nsec \<and> nsec < nanoseconds_per_second \<and>
     topic_timestamp_ns (m\<lparr>rm_header := Some (h\<lparr>rh_stamp := Some
       \<lparr>rt_sec = Some sec, rt_secs = None, rt_nanosec = Some nsec, rt_nsecs = None\<rparr>\<rparr>)\<rparr>) = Inr ts)"
proof -
  obtain sec nsec where pair: "seconds_and_nanoseconds ts = (sec, nsec)"
    by (cases "seconds_and_nanoseconds ts")
  have inv: "us = fst (seconds_and_nanoseconds us) * nanoseconds_per_second + snd (seconds_and_nanoseconds us)" for us
    by (simp add: seconds_and_nanoseconds_def)
  then have "inj seconds_and_nanoseconds" by (metis injI)
  moreover have "0 \<le> nsec" "nsec < nanoseconds_per_second"
    using pair by (auto simp: seconds_and_nanoseconds_def nanoseconds_per_second_def)
  moreover have "topic_timestamp_ns (m\<lparr>rm_header := Some (h\<lparr>rh_stamp := Some
       \<lparr>rt_sec = Some sec, rt_secs = None, rt_nanosec = Some nsec, rt_nsecs = None\<rparr>\<rparr>)\<rparr>) = Inr ts"
    using inv [of ts] pair by (simp add: topic_timestamp_ns_def first_of_def)
  ultimately show ?thesis unfolding pair prod.case by blast
qed

section \<open>The trace of a conversion\<close>

lemma emit_result:
  assumes "emit env e tr = (r, tr')"
  shows "tr' = (if r = Inr () then tr @ [e] else tr)"
  using assms by (auto simp: emit_def split: option.splits)

lemma emit_all_result:
  assumes "emit_all env es tr = (Inr u, tr')"
  shows "tr' = tr @ es"
  using assms
proof (induction es arbitrary: tr)
  case (Cons e es)
  then obtain tr1 where e: "emit env e tr = (Inr (), tr1)" and es: "emit_all env es tr1 = (Inr u, tr')"
    by (auto simp: m_seq_def m_bind_Inr_iff)
  show ?case using Cons.IH [OF es] emit_result [OF e] by simp
qed simp

text \<open>A predicate on events that every recorded call keeps.\<close>

definition grows :: "('c mcap_event \<Rightarrow> bool) \<Rightarrow> ('c trace, 'a) meth \<Rightarrow> bool" where
  "grows P m \<longleftrightarrow> (\<forall>tr. \<exists>es. snd (m tr) = tr @ es \<and> list_all P es)"

lemma growsI: "(\<And>tr r tr'. m tr = (r, tr') \<Longrightarrow> \<exists>es. tr' = tr @ es \<and> list_all P es) \<Longrightarrow> grows P m"
  unfolding grows_def by (metis prod.collapse)

lemma growsD: "grows P m \<Longrightarrow> m tr = (r, tr') \<Longrightarrow> \<exists>es. tr' = tr @ es \<and> list_all P es"
  unfolding grows_def by (metis snd_conv)

lemma grows_pure: "grows P (lift_res x)" "grows P (m_return y)" "grows P (m_raise e)"
  by (auto simp: grows_def lift_res_def)

lemma grows_emit: "P e \<Longrightarrow> grows P (emit env e)"
  by (rule growsI) (auto dest!: emit_result)

lemma grows_bind:
  assumes "grows P m" and "\<And>x. grows P (f x)"
  shows "grows P (m_bind m f)"
proof (rule growsI)
  fix tr r tr' assume run: "m_bind m f tr = (r, tr')"
  obtain q u where m: "m tr = (q, u)" by (cases "m tr")
  obtain es where es: "u = tr @ es" "list_all P es" using growsD [OF assms(1) m] by blast
  show "\<exists>es. tr' = tr @ es \<and> list_all P es"
  proof (cases q)
    case (Inl e)
    then have "tr' = u" using run m by (simp add: m_bind_def)
    then show ?thesis using es by blast
  next
    case (Inr x)
    then have "f x u = (r, tr')" using run m by (simp add: m_bind_def)
    then obtain fs where "tr' = u @ fs" "list_all P fs" using growsD [OF assms(2)] by blast
    then show ?thesis using es by (intro exI [of _ "es @ fs"]) simp
  qed
qed

lemma grows_seq: "grows P m \<Longrightarrow> grows P n \<Longrightarrow> grows P (m_seq m n)"
  unfolding m_seq_def by (rule grows_bind)

lemma grows_emit_all: "list_all P es \<Longrightarrow> grows P (emit_all env es)"
  by (induction es) (simp_all add: grows_pure grows_seq grows_emit)

definition is_registration :: "'c mcap_event \<Rightarrow> bool" where
  "is_registration e \<longleftrightarrow> (case e of RegisterSchema _ _ _ _ \<Rightarrow> True | RegisterChannel _ _ _ _ \<Rightarrow> True | _ \<Rightarrow> False)"

definition is_message :: "'c mcap_event \<Rightarrow> bool" where
  "is_message e \<longleftrightarrow> (case e of AddMessage _ _ _ _ _ \<Rightarrow> True | _ \<Rightarrow> False)"

lemma grows_channel:
  "(\<And>i. P (RegisterChannel topic ''json'' schema i)) \<Longrightarrow> grows P (register_channel env topic schema channels)"
  by (rule growsI)
    (auto simp: register_channel_def Let_def m_seq_def m_bind_def emit_def split: option.splits)

lemma grows_schema:
  "(\<And>i. P (RegisterSchema name ''jsonschema'' body i)) \<Longrightarrow> grows P (register_schema env name body)"
  by (rule growsI)
    (auto simp: register_schema_def Let_def m_seq_def m_bind_def emit_def split: option.splits)

lemma grows_register: "grows is_registration (register_core_channels env cams imus)"
proof -
  have ch: "grows is_registration (register_channel env t s ch)" for t s and ch :: "string \<rightharpoonup> 'a"
    by (rule grows_channel) (simp add: is_registration_def)
  have "grows is_registration (register_cameras env s cams ch)" for s ch
    by (induction cams arbitrary: ch) (simp_all add: grows_pure grows_bind ch)
  moreover have "grows is_registration (register_imus env s imus ch)" for s ch
    by (induction imus arbitrary: ch) (simp_all add: grows_pure grows_bind ch)
  moreover have "grows is_registration (register_core_schemas env)"
    unfolding register_core_schemas_def
    by (intro grows_bind grows_schema grows_pure) (simp_all add: is_registration_def)
  ultimately show ?thesis
    unfolding register_core_channels_def by (intro grows_bind) (auto intro: grows_bind split: prod.split)
qed

lemma camera_message_result:
  "camera_message env ch t c m = Inr es \<Longrightarrow>
   \<exists>i ts p. es = [AddMessage i ts p ts 0] \<and> topic_timestamp_ns m = Inr ts \<and> ch (ict_output t) = Some i \<and>
     normalize_msgtype_name (cn_msgtype c) = ''sensor_msgs/CompressedImage''"
  by (auto simp: camera_message_def res_bind_Inr_iff Let_def channel_of_def split: if_splits option.splits)

lemma imu_message_result:
  assumes "imu_message env ch t c m = Inr es"
  shows "\<exists>i j ts p q n. es = [AddMessage i ts p ts n, AddMessage j ts q ts n] \<and>
     topic_timestamp_ns m = Inr ts \<and> message_sequence m = Inr n \<and>
     ch (iit_accel t) = Some i \<and> ch (iit_gyro t) = Some j \<and>
     normalize_msgtype_name (cn_msgtype c) = ''sensor_msgs/Imu''"
proof -
  have ty: "normalize_msgtype_name (cn_msgtype c) = ''sensor_msgs/Imu''"
    using assms by (simp add: imu_message_def split: if_splits)
  obtain ts n where ts: "topic_timestamp_ns m = Inr ts" "message_sequence m = Inr n"
    using assms ty by (auto simp: imu_message_def res_bind_Inr_iff)
  obtain lin ang where v: "rm_linear m = Some lin" "rm_angular m = Some ang"
    using assms ty ts by (cases "rm_linear m"; cases "rm_angular m") (auto simp: imu_message_def)
  show ?thesis
    using assms ty ts v
    by (auto simp: imu_message_def res_bind_Inr_iff channel_of_def split: option.splits)
qed

lemma message_events_are_messages:
  "message_events env cams imus ch msg = Inr es \<Longrightarrow> list_all is_message es"
  by (auto simp: message_events_def res_bind_Inr_iff is_message_def split: prod.splits option.splits
      dest!: camera_message_result imu_message_result)

lemma grows_messages: "grows is_message (convert_messages env cams imus ch msgs)"
proof (induction msgs)
  case Nil
  then show ?case by (simp add: grows_pure)
next
  case (Cons msg msgs)
  have "grows is_message (m_bind (lift_res (message_events env cams imus ch msg)) (emit_all env))"
  proof (cases "message_events env cams imus ch msg")
    case (Inl e)
    then show ?thesis by (auto simp: grows_def m_bind_def lift_res_def)
  next
    case (Inr es)
    then have "grows is_message (emit_all env es)"
      using grows_emit_all message_events_are_messages by blast
    then show ?thesis using Inr by (simp add: grows_def m_bind_def lift_res_def)
  qed
  with Cons show ?case by (simp add: grows_seq)
qed

lemma convert_messages_result:
  assumes "convert_messages env cams imus ch msgs tr = (Inr u, tr')"
  shows "\<exists>ess. list_all2 (\<lambda>msg es. message_events env cams imus ch msg = Inr es) msgs ess \<and> tr' = tr @ concat ess"
  using assms
proof (induction msgs arbitrary: tr)
  case Nil
  then show ?case by (simp add: lift_res_def)
next
  case (Cons msg msgs)
  then obtain es tr1 where es: "message_events env cams imus ch msg = Inr es"
      "emit_all env es tr = (Inr (), tr1)" "convert_messages env cams imus ch msgs tr1 = (Inr u, tr')"
    by (auto simp: m_seq_def m_bind_Inr_iff lift_res_def)
  have "tr1 = tr @ es" by (rule emit_all_result [OF es(2)])
  then obtain ess where "list_all2 (\<lambda>msg es. message_events env cams imus ch msg = Inr es) msgs ess"
      "tr' = tr @ es @ concat ess" using Cons.IH [OF es(3)] by auto
  then show ?case using es(1) by (intro exI [of _ "es # ess"]) simp
qed

text \<open>What one message of the bag must leave in the output.\<close>

definition converted_as ::
    "'c bag_env \<Rightarrow> inferred_camera_topic list \<Rightarrow> inferred_imu_topic list \<Rightarrow> (string \<rightharpoonup> 'c) \<Rightarrow>
     connection \<times> int \<times> byte list \<Rightarrow> 'c mcap_event list \<Rightarrow> bool" where
  "converted_as env cams imus ch msg es \<longleftrightarrow>
     (case msg of (c, _, raw) \<Rightarrow>
        \<exists>m. be_deserialize env raw (cn_msgtype c) = Inr m \<and>
          (case camera_lookup cams (cn_topic c) of
             Some t \<Rightarrow> \<exists>i ts p. es = [AddMessage i ts p ts 0] \<and> topic_timestamp_ns m = Inr ts \<and>
                         ch (ict_output t) = Some i
           | None \<Rightarrow>
             (case imu_lookup imus (cn_topic c) of
                Some t \<Rightarrow> \<exists>i j ts p q n. es = [AddMessage i ts p ts n, AddMessage j ts q ts n] \<and>
                   topic_timestamp_ns m = Inr ts \<and> message_sequence m = Inr n \<and>
                   ch (iit_accel t) = Some i \<and> ch (iit_gyro t) = Some j
              | None \<Rightarrow> es = [])))"

lemma message_events_converted:
  "message_events env cams imus ch msg = Inr es \<Longrightarrow> converted_as env cams imus ch msg es"
  by (auto simp: message_events_def converted_as_def res_bind_Inr_iff split: prod.splits option.splits
      dest!: camera_message_result imu_message_result)

lemma convert_body_run:
  assumes "convert_body env [] = (Inr u, tr)"
  obtains cams imus ch regs ess where
    "infer_camera_topics (be_connections env) = Inr cams" "infer_imu_topics (be_connections env) = Inr imus"
    "validate_sensor_topics (be_connections env) cams imus = Inr ()"
    "list_all is_registration regs"
    "list_all2 (converted_as env cams imus ch) (be_messages env) ess"
    "tr = regs @ concat ess @ [Finish]"
proof -
  obtain cams imus ch t1 t2 where
    i: "infer_camera_topics (be_connections env) = Inr cams" "infer_imu_topics (be_connections env) = Inr imus"
       "validate_sensor_topics (be_connections env) cams imus = Inr ()"
    and r: "register_core_channels env cams imus [] = (Inr ch, t1)"
    and c: "convert_messages env cams imus ch (be_messages env) t1 = (Inr (), t2)"
    and f: "emit env Finish t2 = (Inr u, tr)"
    using assms
    by (auto simp: convert_body_def m_seq_def m_bind_Inr_iff lift_res_def split: if_splits)
  obtain regs where "t1 = regs" "list_all is_registration regs"
    using growsD [OF grows_register r] by auto
  moreover obtain ess where "list_all2 (\<lambda>msg es. message_events env cams imus ch msg = Inr es) (be_messages env) ess"
      "t2 = t1 @ concat ess" using convert_messages_result [OF c] by blast
  moreover have "tr = t2 @ [Finish]" using emit_result [OF f] by simp
  ultimately have tr: "tr = regs @ concat ess @ [Finish]" and regs: "list_all is_registration regs"
    and ev: "list_all2 (\<lambda>msg es. message_events env cams imus ch msg = Inr es) (be_messages env) ess"
    by simp_all
  have "list_all2 (converted_as env cams imus ch) (be_messages env) ess"
    using ev by (rule list_all2_mono) (rule message_events_converted)
  then show thesis using that [OF i regs _ tr] by blast
qed


text \<open>Everything before the finish records registrations and messages only.\<close>

definition convert_before :: "'c bag_env \<Rightarrow> ('c trace, unit) meth" where
  "convert_before env =
     m_seq (lift_res (be_open_reader env))
       (if be_connections env = [] then m_raise (ValueError (''No connections were found in rosbag '' @ quoted (be_input_path env)))
        else m_bind (lift_res (infer_camera_topics (be_connections env))) (\<lambda>cameras.
             m_bind (lift_res (infer_imu_topics (be_connections env))) (\<lambda>imus.
             m_seq (lift_res (validate_sensor_topics (be_connections env) cameras imus))
              (m_bind (register_core_channels env cameras imus) (\<lambda>channels.
               convert_messages env cameras imus channels (be_messages env))))))"

lemma convert_body_split: "convert_body env = m_seq (convert_before env) (emit env Finish)"
proof -
  have raise: "m_bind (m_raise e) f = m_raise e" for e and f :: "'b \<Rightarrow> ('s, 'c) meth"
    by (simp add: m_bind_def fun_eq_iff)
  show ?thesis
    by (simp add: convert_body_def convert_before_def m_seq_def m_bind_assoc raise)
qed

definition is_output :: "'c mcap_event \<Rightarrow> bool" where
  "is_output e \<longleftrightarrow> is_registration e \<or> is_message e"

lemma grows_weaken: "grows P m \<Longrightarrow> (\<And>e. P e \<Longrightarrow> Q e) \<Longrightarrow> grows Q m"
  unfolding grows_def list_all_iff by meson

lemma grows_before: "grows is_output (convert_before env)"
proof -
  have "grows is_output (register_core_channels env cams imus)" for cams imus
    by (rule grows_weaken [OF grows_register]) (simp add: is_output_def)
  moreover have "grows is_output (convert_messages env cams imus ch ms)" for cams imus ch ms
    by (rule grows_weaken [OF grows_messages]) (simp add: is_output_def)
  ultimately show ?thesis
    unfolding convert_before_def by (simp add: grows_seq grows_bind grows_pure)
qed

lemma convert_body_finish:
  assumes "convert_body env [] = (r, tr)"
  shows "CloseFile \<notin> set tr \<and> (Finish \<in> set tr \<longleftrightarrow> r = Inr ())"
proof -
  obtain q t where b: "convert_before env [] = (q, t)" by (cases "convert_before env []")
  have t: "list_all is_output t" using growsD [OF grows_before b] by auto
  then have no: "CloseFile \<notin> set t" "Finish \<notin> set t"
    by (auto simp: list_all_iff is_output_def is_registration_def is_message_def)
  show ?thesis
  proof (cases q)
    case (Inl e)
    then show ?thesis using assms b no by (auto simp: convert_body_split m_seq_def m_bind_def)
  next
    case (Inr u)
    then have "emit env Finish t = (r, tr)"
      using assms b by (simp add: convert_body_split m_seq_def m_bind_def)
    from emit_result [OF this] show ?thesis using no by (cases r) auto
  qed
qed


text \<open>A bag with one camera and one message.\<close>

definition demo_bag :: "nat bag_env" where
  "demo_bag =
     \<lparr>be_input_path = ''run.bag'', be_repr = \<lambda>_. ''0.0'', be_open_writer = Inr (), be_open_reader = Inr (),
      be_connections = [\<lparr>cn_topic = ''/left/compressed'', cn_msgtype = ''sensor_msgs/CompressedImage''\<rparr>],
      be_messages = [(\<lparr>cn_topic = ''/left/compressed'', cn_msgtype = ''sensor_msgs/CompressedImage''\<rparr>, 0, [])],
      be_iteration_error = None,
      be_deserialize = \<lambda>_ _. Inr \<lparr>rm_header = Some \<lparr>rh_stamp = Some \<lparr>rt_sec = Some 1, rt_secs = None,
          rt_nanosec = Some 5, rt_nsecs = None\<rparr>, rh_frame_id = None, rh_seq = None, rh_sequence = None\<rparr>,
        rm_format = Some ''jpeg'', rm_data = Some [255, 0], rm_linear = None, rm_angular = None\<rparr>,
      be_id = \<lambda>n. n, be_writer_error = \<lambda>_. None\<rparr>"

lemma demo_bag_inferred:
  "infer_camera_topics (be_connections demo_bag) =
     Inr [\<lparr>ict_source = ''/left/compressed'', ict_output = ''/camera/left/image/compressed''\<rparr>]"
  "infer_imu_topics (be_connections demo_bag) = Inr []"
  "validate_sensor_topics (be_connections demo_bag)
     [\<lparr>ict_source = ''/left/compressed'', ict_output = ''/camera/left/image/compressed''\<rparr>] [] = Inr ()"
  by (simp_all add: demo_bag_def) code_simp+

lemma demo_bag_converts: "\<exists>p. convert_bag demo_bag =
    (Inr (), [RegisterSchema image_schema_name ''jsonschema'' compressed_image_schema 0,
      RegisterSchema imu_schema_name ''jsonschema'' imu_schema 1,
      RegisterChannel ''/camera/left/image/compressed'' ''json'' 0 2,
      AddMessage 2 1000000005 p 1000000005 0, Finish, CloseFile])"
proof -
  have ty: "normalize_msgtype_name ''sensor_msgs/CompressedImage'' = ''sensor_msgs/CompressedImage''"
    by code_simp
  have fields: "be_open_writer demo_bag = Inr ()" "be_open_reader demo_bag = Inr ()"
    "be_connections demo_bag \<noteq> []" "be_writer_error demo_bag = (\<lambda>_. None)" "be_id demo_bag = (\<lambda>n. n)"
    "be_iteration_error demo_bag = None"
    by (simp_all add: demo_bag_def)
  show ?thesis
    by (simp add: convert_bag_def convert_body_def m_seq_def m_bind_def lift_res_def fields demo_bag_inferred
        register_core_channels_def register_core_schemas_def register_schema_def register_channel_def
        emit_def Let_def numeral_eq_Suc del: One_nat_def)
      (simp add: demo_bag_def message_events_def camera_lookup_def camera_message_def ty emit_def m_seq_def
        m_bind_def topic_timestamp_ns_def first_of_def nanoseconds_per_second_def topic_frame_id_def Let_def
        channel_of_def lift_res_def)
qed



section \<open>Channels and image data\<close>

lemma accel_not_gyro: "p @ ''/accelerometer'' \<noteq> q @ ''/gyroscope''"
proof
  assume "p @ ''/accelerometer'' = q @ ''/gyroscope''"
  then have "last (p @ ''/accelerometer'') = last (q @ ''/gyroscope'')" by simp
  then show False by simp
qed

lemma camera_not_imu: "r @ ''/image/compressed'' \<noteq> q @ ''/gyroscope''" "r @ ''/image/compressed'' \<noteq> q @ ''/accelerometer''"
proof -
  show "r @ ''/image/compressed'' \<noteq> q @ ''/gyroscope''"
  proof
    assume "r @ ''/image/compressed'' = q @ ''/gyroscope''"
    then have "last (r @ ''/image/compressed'') = last (q @ ''/gyroscope'')" by simp
    then show False by simp
  qed
  show "r @ ''/image/compressed'' \<noteq> q @ ''/accelerometer''"
  proof
    assume "r @ ''/image/compressed'' = q @ ''/accelerometer''"
    then have "last (r @ ''/image/compressed'') = last (q @ ''/accelerometer'')" by simp
    then show False by simp
  qed
qed

text \<open>
  Every output topic has a channel of its own: the topics the inferences produce for all
  cameras, accelerometers and gyroscopes of a bag are pairwise different, so no two streams
  of a recording are merged into one channel.
\<close>

theorem output_topics_distinct:
  assumes "infer_camera_topics cs = Inr cams" and "infer_imu_topics cs = Inr imus"
  shows "distinct (map ict_output cams @ map iit_accel imus @ map iit_gyro imus)"
proof -
  note cam = cam.infer_sound [OF assms(1) [unfolded infer_camera_topics_def]]
    and imu = imu.infer_sound [OF assms(2) [unfolded infer_imu_topics_def]]
  have imu_form: "\<exists>p. iit_accel e = p @ ''/accelerometer'' \<and> iit_gyro e = p @ ''/gyroscope''"
    if "e \<in> set imus" for e
  proof -
    have "imu_entry (iit_source e) = Inr e" using imu that by blast
    then have "e = \<lparr>iit_source = iit_source e,
        iit_accel = infer_imu_output_prefix (iit_source e) @ ''/accelerometer'',
        iit_gyro = infer_imu_output_prefix (iit_source e) @ ''/gyroscope''\<rparr>"
      by (simp add: imu_entry_def)
    then show ?thesis by (metis inferred_imu_topic.select_convs(2,3))
  qed
  have cam_form: "\<exists>r. ict_output e = r @ ''/image/compressed''" if "e \<in> set cams" for e
  proof -
    have "camera_entry (ict_source e) = Inr e" using cam that by blast
    then have "infer_camera_output_topic (ict_source e) = Inr (ict_output e)"
      by (cases e) (auto simp: camera_entry_def res_bind_Inr_iff)
    then show ?thesis using infer_camera_shape by (metis append_assoc)
  qed
  have d: "distinct (map (\<lambda>e. (iit_accel e, iit_gyro e)) imus)" using imu by blast
  have same: "iit_accel x = iit_accel y \<longleftrightarrow> iit_gyro x = iit_gyro y" if "x \<in> set imus" "y \<in> set imus" for x y
    using imu_form [OF that(1)] imu_form [OF that(2)] by auto
  have "distinct (map iit_accel imus)" "distinct (map iit_gyro imus)"
    using d same by (auto simp: distinct_map inj_on_def)
  moreover have "distinct (map ict_output cams)" using cam by blast
  moreover have "iit_accel x \<noteq> iit_gyro y" if "x \<in> set imus" "y \<in> set imus" for x y
    using imu_form [OF that(1)] imu_form [OF that(2)] accel_not_gyro by metis
  moreover have "ict_output x \<noteq> iit_accel y \<and> ict_output x \<noteq> iit_gyro y" if "x \<in> set cams" "y \<in> set imus" for x y
    using cam_form [OF that(1)] imu_form [OF that(2)] camera_not_imu by metis
  ultimately show ?thesis by auto
qed

lemma output_topics_distinct_witness:
  "distinct (map ict_output [\<lparr>ict_source = ''/left/compressed'', ict_output = ''/camera/left/image/compressed''\<rparr>])"
  using output_topics_distinct [OF demo_bag_inferred(1,2)] by simp

text \<open>The decoder of base64, to state that the image data can be read back.\<close>

definition b64_value :: "char \<Rightarrow> nat option" where
  "b64_value c =
     (let n = of_char c :: nat
      in if 65 \<le> n \<and> n \<le> 90 then Some (n - 65) else if 97 \<le> n \<and> n \<le> 122 then Some (n - 71)
         else if 48 \<le> n \<and> n \<le> 57 then Some (n + 4) else if n = 43 then Some 62
         else if n = 47 then Some 63 else None)"

lemma b64_value_char: "n < 64 \<Longrightarrow> b64_value (b64_char n) = Some n"
  by (auto simp: b64_value_def b64_char_def Let_def)

lemma b64_char_not_pad: "n < 64 \<Longrightarrow> b64_char n \<noteq> CHR ''=''"
  using b64_value_char [of n] by (auto simp: b64_value_def)

fun b64decode :: "string \<Rightarrow> byte list option" where
  "b64decode [] = Some []"
| "b64decode (p # q # r # s # rest) =
     (case (b64_value p, b64_value q) of
        (Some i, Some j) \<Rightarrow>
          (case b64_value r of
             None \<Rightarrow> if r = CHR ''='' \<and> s = CHR ''='' \<and> rest = []
                     then Some [word_of_nat ((i * 64 + j) div 16)] else None
           | Some k \<Rightarrow>
             (case b64_value s of
                None \<Rightarrow> if s = CHR ''='' \<and> rest = []
                        then (let n = ((i * 64 + j) * 64 + k) div 4
                              in Some [word_of_nat (n div 256), word_of_nat (n mod 256)]) else None
              | Some l \<Rightarrow>
                  (let n = ((i * 64 + j) * 64 + k) * 64 + l
                   in map_option (\<lambda>bs. [word_of_nat (n div 65536), word_of_nat (n div 256 mod 256),
                                          word_of_nat (n mod 256)] @ bs) (b64decode rest))))
      | _ \<Rightarrow> None)"
| "b64decode _ = None"

lemma b64_value_pad: "b64_value (CHR ''='') = None"
  by (simp add: b64_value_def)

lemma split_sextets: "((n div 262144 * 64 + n div 4096 mod 64) * 64 + n div 64 mod 64) * 64 + n mod 64 = (n :: nat)"
proof -
  have "n div 262144 = n div 64 div 64 div 64" "n div 4096 = n div 64 div 64"
    by (simp_all add: div_mult2_eq [symmetric])
  then show ?thesis by (simp only: div_mult_mod_eq)
qed

lemma split_sextets': "262144 * (n div 262144) + 4096 * (n div 4096 mod 64) + n div 64 mod 64 * 64 + n mod 64 = (n :: nat)"
  using split_sextets [of n] by (simp add: algebra_simps)

lemma octet_divmod: "r < 256 \<Longrightarrow> (m * 256 + r) div 256 = m" "r < 256 \<Longrightarrow> (m * 256 + r) mod 256 = (r :: nat)"
  by simp_all

lemma split_octets:
  fixes a b c :: byte
  defines "n \<equiv> (unat a * 256 + unat b) * 256 + unat c"
  shows "n div 65536 = unat a" "n div 256 mod 256 = unat b" "n mod 256 = unat c" "n < 16777216"
proof -
  have b: "unat a < 256" "unat b < 256" "unat c < 256" by (rule unat_byte_bound)+
  have 1: "n div 256 = unat a * 256 + unat b" unfolding n_def by (rule octet_divmod) (rule b)
  have "n div 65536 = n div 256 div 256" by (simp add: div_mult2_eq [symmetric])
  also have "\<dots> = unat a" using 1 b by simp
  finally show "n div 65536 = unat a" .
  show "n div 256 mod 256 = unat b" using 1 b by simp
  show "n mod 256 = unat c" unfolding n_def by (rule octet_divmod) (rule b)
  have "n = unat a * 65536 + unat b * 256 + unat c" by (simp add: n_def)
  then show "n < 16777216" using b by linarith
qed

lemma b64decode_encode:
  "b64decode (b64encode bs) = Some bs"
proof (induction bs rule: b64encode.induct)
  case 1
  then show ?case by simp
next
  case (2 a)
  have a: "unat a < 256" by (rule unat_byte_bound)
  then have v: "b64_value (b64_char (unat a div 4)) = Some (unat a div 4)"
      "b64_value (b64_char (unat a mod 4 * 16)) = Some (unat a mod 4 * 16)"
    by (intro b64_value_char; linarith)+
  have "(unat a div 4 * 64 + unat a mod 4 * 16) div 16 = unat a" by presburger
  then show ?case by (simp add: Let_def v b64_value_pad)
next
  case (3 a b)
  define n where "n = unat a * 256 + unat b"
  have ab: "unat a < 256" "unat b < 256" by (rule unat_byte_bound)+
  then have n: "n < 65536" unfolding n_def by linarith
  have n2: "n div 256 = unat a" "n mod 256 = unat b" unfolding n_def by (rule octet_divmod, rule ab)+
  have v: "b64_value (b64_char (n div 1024)) = Some (n div 1024)"
      "b64_value (b64_char (n div 16 mod 64)) = Some (n div 16 mod 64)"
      "b64_value (b64_char (n mod 16 * 4)) = Some (n mod 16 * 4)"
    using n by (intro b64_value_char; simp; linarith)+
  have "n div 1024 = n div 16 div 64" by (simp add: div_mult2_eq [symmetric])
  then have "n div 1024 * 64 + n div 16 mod 64 = n div 16" by (simp only: div_mult_mod_eq)
  moreover have "n div 16 * 64 + n mod 16 * 4 = n * 4" using div_mult_mod_eq [of n 16] by linarith
  ultimately have "((n div 1024 * 64 + n div 16 mod 64) * 64 + n mod 16 * 4) div 4 = n" by simp
  then show ?case by (simp add: Let_def v b64_value_pad n2 flip: n_def)
next
  case (4 a b c rest)
  define n where "n = (unat a * 256 + unat b) * 256 + unat c"
  note oct = split_octets [of a b c, folded n_def]
  have v: "b64_value (b64_char (n div 262144)) = Some (n div 262144)"
      "b64_value (b64_char (n div 4096 mod 64)) = Some (n div 4096 mod 64)"
      "b64_value (b64_char (n div 64 mod 64)) = Some (n div 64 mod 64)"
      "b64_value (b64_char (n mod 64)) = Some (n mod 64)"
    using oct(4) by (intro b64_value_char; simp; linarith)+
  have enc: "b64encode (a # b # c # rest) = b64_char (n div 262144) # b64_char (n div 4096 mod 64) #
      b64_char (n div 64 mod 64) # b64_char (n mod 64) # b64encode rest"
    by (simp only: b64encode.simps Let_def n_def append_Cons append_Nil)
  have "b64decode (b64encode rest) = Some rest" using 4 by simp
  then show ?case unfolding enc by (simp add: v split_sextets' oct)
qed

text \<open>
  The image data survives the payload: the text stored under \<open>data\<close> decodes to exactly
  the bytes of the camera message, for data of every length, and the other three entries
  carry the timestamp, the frame and the format unchanged.
\<close>

theorem image_payload_roundtrip:
  "\<exists>kvs text. compressed_image_body ts frame_id fmt bs = PDict kvs \<and>
     map_of kvs ''data'' = Some (PStr text) \<and> b64decode text = Some bs \<and>
     map_of kvs ''frame_id'' = Some (PStr frame_id) \<and> map_of kvs ''format'' = Some (PStr fmt) \<and>
     map_of kvs ''timestamp'' = Some (PDict [(''sec'', PInt (ts div 1000000000)), (''nsec'', PInt (ts mod 1000000000))])"
  by (simp add: compressed_image_body_def b64decode_encode timestamp_body_def seconds_and_nanoseconds_def
      nanoseconds_per_second_def)

end
