(* ===== verification/Clock_Anchor.thy ===== *)
theory Clock_Anchor imports Prelude begin

text \<open>
  \<open>ClockAnchor\<close> of \<open>dataset_collection/clock.py\<close>: device ticks onto the host's monotonic
  clock, with a warm-up fit and a running least-squares rate. Ticks and nanoseconds are
  integers and the sums are exact as in the code; the two quotients, floats in the code, are
  reals.
\<close>

section \<open>The anchor\<close>

record clock_anchor =
  ca_nominal :: real
  ca_rate :: real
  ca_warmup :: int
  ca_buffer :: "(int \<times> int) list"
  ca_anchored :: bool
  ca_device_start :: "int option"
  ca_host_start :: "int option"
  ca_sum_sq :: int
  ca_sum_ns :: int
  ca_count :: int

definition new_clock_anchor :: "real \<Rightarrow> int \<Rightarrow> clock_anchor" where
  "new_clock_anchor device_ticks_to_ns warmup_samples =
     \<lparr>ca_nominal = device_ticks_to_ns, ca_rate = device_ticks_to_ns, ca_warmup = max 2 warmup_samples,
      ca_buffer = [], ca_anchored = False, ca_device_start = None, ca_host_start = None,
      ca_sum_sq = 0, ca_sum_ns = 0, ca_count = 0\<rparr>"

text \<open>The sums of the warm-up fit, relative to the first tick.\<close>

definition warmup_sums :: "(int \<times> int) list \<Rightarrow> int \<Rightarrow> int \<times> int \<times> int \<times> int" where
  "warmup_sums samples reference_ticks =
     foldl (\<lambda>(sx, sy, sxx, sxy) (ticks, host_ns).
              let x = ticks - reference_ticks
              in (sx + x, sy + host_ns, sxx + x * x, sxy + x * host_ns)) (0, 0, 0, 0) samples"

text \<open>The slope and the intercept, the nominal rate and the first sample if all ticks agree.\<close>

definition warmup_fit :: "real \<Rightarrow> (int \<times> int) list \<Rightarrow> real \<times> real" where
  "warmup_fit nominal samples =
     (case warmup_sums samples (fst (hd samples)) of
        (sum_x, sum_y, sum_xx, sum_xy) \<Rightarrow>
          let n = int (length samples);
              denominator = n * sum_xx - sum_x * sum_x
          in if denominator \<noteq> 0
             then let slope = of_int (n * sum_xy - sum_x * sum_y) / of_int denominator
                  in (slope, (of_int sum_y - slope * of_int sum_x) / of_int n)
             else (nominal, of_int (snd (hd samples))))"

text \<open>The bootstrap of the running fit with the warm-up samples.\<close>

definition anchored_sums :: "(int \<times> int) list \<Rightarrow> int \<Rightarrow> int \<Rightarrow> int \<times> int" where
  "anchored_sums samples device_start host_start =
     foldl (\<lambda>(sq, ns) (ticks, host_ns).
              let dt = ticks - device_start; dh = host_ns - host_start
              in (sq + dt * dt, ns + dt * dh)) (0, 0) samples"

definition finish_warmup :: "clock_anchor \<Rightarrow> clock_anchor" where
  "finish_warmup ca =
     (let samples = ca_buffer ca;
          reference_ticks = fst (hd samples)
      in case warmup_fit (ca_nominal ca) samples of
           (slope, intercept) \<Rightarrow>
             let host_start = py_round intercept
             in case anchored_sums samples reference_ticks host_start of
                  (sq, ns) \<Rightarrow>
                    ca\<lparr>ca_device_start := Some reference_ticks, ca_host_start := Some host_start,
                       ca_rate := slope, ca_sum_sq := sq, ca_sum_ns := ns, ca_buffer := [],
                       ca_anchored := True\<rparr>)"

text \<open>\<open>observed = None\<close> falls back to \<open>now_ns()\<close>, the argument \<open>now\<close>.\<close>

definition to_host_ns :: "int \<Rightarrow> int option \<Rightarrow> int \<Rightarrow> (clock_anchor, int) meth" where
  "to_host_ns device_ticks observed now ca0 =
     (let observed_host_ns = (case observed of None \<Rightarrow> now | Some h \<Rightarrow> h);
          ca = ca0\<lparr>ca_count := ca_count ca0 + 1\<rparr>
      in if \<not> ca_anchored ca then
           (let buffered = ca\<lparr>ca_buffer := ca_buffer ca @ [(device_ticks, observed_host_ns)]\<rparr>
            in (Inr observed_host_ns,
                if ca_warmup buffered \<le> int (length (ca_buffer buffered))
                then finish_warmup buffered else buffered))
         else
           (case (ca_host_start ca, ca_device_start ca) of
              (Some host_start, Some device_start) \<Rightarrow>
                (let delta_ticks = device_ticks - device_start;
                     delta_host_ns = observed_host_ns - host_start;
                     sq = ca_sum_sq ca + delta_ticks * delta_ticks;
                     ns = ca_sum_ns ca + delta_ticks * delta_host_ns;
                     rate = (if sq > 0 then of_int ns / of_int sq else ca_rate ca)
                 in (Inr (host_start + py_trunc (of_int delta_ticks * rate)),
                     ca\<lparr>ca_sum_sq := sq, ca_sum_ns := ns, ca_rate := rate\<rparr>))
            | _ \<Rightarrow> (Inl (AssertionError []), ca)))"

definition drift_from_nominal_ppm :: "clock_anchor \<Rightarrow> real" where
  "drift_from_nominal_ppm ca =
     (if ca_nominal ca = 0 then 0 else (ca_rate ca - ca_nominal ca) / ca_nominal ca * 1000000)"

text \<open>A recording: the samples in order, each with its arrival time.\<close>

fun anchor_run :: "(int \<times> int) list \<Rightarrow> clock_anchor \<Rightarrow> int res list \<times> clock_anchor" where
  "anchor_run [] ca = ([], ca)"
| "anchor_run ((ticks, host) # xs) ca =
     (case to_host_ns ticks (Some host) 0 ca of
        (r, ca') \<Rightarrow> (case anchor_run xs ca' of (rs, ca'') \<Rightarrow> (r # rs, ca'')))"

section \<open>The sums as sums\<close>

lemma anchored_sums_eq:
  "anchored_sums xs d h = ((\<Sum>(t, y) \<leftarrow> xs. (t - d) * (t - d)), (\<Sum>(t, y) \<leftarrow> xs. (t - d) * (y - h)))"
proof -
  have "foldl (\<lambda>(sq, ns) (ticks, host_ns). let dt = ticks - d; dh = host_ns - h
      in (sq + dt * dt, ns + dt * dh)) (p, q) xs =
    (p + (\<Sum>(t, y) \<leftarrow> xs. (t - d) * (t - d)), q + (\<Sum>(t, y) \<leftarrow> xs. (t - d) * (y - h)))" for p q
    by (induction xs arbitrary: p q) (auto simp: Let_def)
  then show ?thesis by (simp add: anchored_sums_def)
qed

lemma warmup_sums_eq:
  "warmup_sums xs d = ((\<Sum>(t, y) \<leftarrow> xs. t - d), (\<Sum>(t, y) \<leftarrow> xs. y),
     (\<Sum>(t, y) \<leftarrow> xs. (t - d) * (t - d)), (\<Sum>(t, y) \<leftarrow> xs. (t - d) * y))"
proof -
  have "foldl (\<lambda>(sx, sy, sxx, sxy) (ticks, host_ns). let x = ticks - d
      in (sx + x, sy + host_ns, sxx + x * x, sxy + x * host_ns)) (a, b, c, e) xs =
    (a + (\<Sum>(t, y) \<leftarrow> xs. t - d), b + (\<Sum>(t, y) \<leftarrow> xs. y),
     c + (\<Sum>(t, y) \<leftarrow> xs. (t - d) * (t - d)), e + (\<Sum>(t, y) \<leftarrow> xs. (t - d) * y))" for a b c e
    by (induction xs arbitrary: a b c e) (auto simp: Let_def)
  then show ?thesis by (simp add: warmup_sums_def)
qed

text \<open>
  The denominator of the fit is the Lagrange sum of the pairwise differences: it is zero
  only if all ticks agree.
\<close>

lemma lagrange_step:
  "(int (length xs) + 1) * ((\<Sum>x \<leftarrow> xs. x * x) + y * y) - ((\<Sum>x \<leftarrow> xs. x) + y) * ((\<Sum>x \<leftarrow> xs. x) + y) =
   (int (length xs) * (\<Sum>x \<leftarrow> xs. x * x) - (\<Sum>x \<leftarrow> xs. x) * (\<Sum>x \<leftarrow> xs. x)) +
   (\<Sum>x \<leftarrow> xs. (x - y) * (x - y))" for y :: int
proof -
  have "(\<Sum>x \<leftarrow> xs. (x - y) * (x - y)) =
      (\<Sum>x \<leftarrow> xs. x * x) - 2 * y * (\<Sum>x \<leftarrow> xs. x) + int (length xs) * (y * y)"
    by (induction xs) (simp_all add: algebra_simps)
  then show ?thesis by (simp add: algebra_simps)
qed

lemma spread_nonneg:
  "0 \<le> int (length xs) * (\<Sum>x \<leftarrow> xs. x * x) - (\<Sum>x \<leftarrow> xs. x) * (\<Sum>x \<leftarrow> xs. x :: int)"
proof (induction xs)
  case (Cons y xs)
  have "0 \<le> (\<Sum>x \<leftarrow> xs. (x - y) * (x - y))" by (rule sum_list_sq_nonneg)
  with Cons lagrange_step [of xs y] show ?case by (simp add: algebra_simps)
qed simp

lemma sum_sq_zero:
  "(\<Sum>x \<leftarrow> xs. (x - y) * (x - y)) = 0 \<Longrightarrow> z \<in> set xs \<Longrightarrow> z = (y :: int)"
proof (induction xs)
  case (Cons w xs)
  define p q where "p = (w - y) * (w - y)" and "q = (\<Sum>x \<leftarrow> xs. (x - y) * (x - y))"
  have "0 \<le> p" "0 \<le> q" unfolding p_def q_def by (simp, rule sum_list_sq_nonneg)
  moreover have "p + q = 0" using Cons.prems(1) by (simp add: p_def q_def)
  ultimately have "p = 0" "q = 0" by linarith+
  then have "(w - y) * (w - y) = 0" "(\<Sum>x \<leftarrow> xs. (x - y) * (x - y)) = 0"
    unfolding p_def q_def .
  with Cons show ?case by auto
qed simp

lemma spread_zero:
  "int (length xs) * (\<Sum>x \<leftarrow> xs. x * x) - (\<Sum>x \<leftarrow> xs. x) * (\<Sum>x \<leftarrow> xs. x :: int) = 0 \<Longrightarrow>
   x \<in> set xs \<Longrightarrow> x = hd xs"
proof (induction xs)
  case (Cons y ys)
  have n: "0 \<le> int (length ys) * (\<Sum>x \<leftarrow> ys. x * x) - (\<Sum>x \<leftarrow> ys. x) * (\<Sum>x \<leftarrow> ys. x)"
    by (rule spread_nonneg)
  have q: "0 \<le> (\<Sum>x \<leftarrow> ys. (x - y) * (x - y))" by (rule sum_list_sq_nonneg)
  have "(\<Sum>x \<leftarrow> ys. (x - y) * (x - y)) = 0"
    using Cons.prems(1) n q lagrange_step [of ys y] by (simp add: algebra_simps)
  then show ?case using sum_sq_zero Cons.prems(2) by auto
qed simp

lemma spread_pos:
  "\<exists>s \<in> set xs. fst s \<noteq> d \<Longrightarrow> 0 < (\<Sum>(t, y) \<leftarrow> xs. (t - d) * (t - d :: int))"
proof -
  assume ex: "\<exists>s \<in> set xs. fst s \<noteq> d"
  have eq: "(\<Sum>(t, y) \<leftarrow> xs. (t - d) * (t - d)) = (\<Sum>x \<leftarrow> map fst xs. (x - d) * (x - d))"
    by (induction xs) auto
  have "(\<Sum>x \<leftarrow> map fst xs. (x - d) * (x - d)) \<noteq> 0"
    using sum_sq_zero [of d "map fst xs"] ex by auto
  then show ?thesis unfolding eq using antisym_conv1 sum_list_sq_nonneg by (metis order_le_less)
qed

section \<open>A clock without jitter\<close>

text \<open>The samples lie on one line through the first of them, with rate \<open>r\<close>.\<close>

definition on_line :: "real \<Rightarrow> int \<times> int \<Rightarrow> int \<times> int \<Rightarrow> bool" where
  "on_line r p s \<longleftrightarrow> of_int (snd s - snd p) = r * of_int (fst s - fst p)"

lemma on_line_iff:
  "on_line r (d, h) (t, y) \<longleftrightarrow> real_of_int y = of_int h + r * (of_int t - of_int d)"
  by (auto simp: on_line_def)

lemma line_sums:
  assumes "\<forall>s \<in> set xs. on_line r (d, h) s"
  shows "of_int (\<Sum>(t, y) \<leftarrow> xs. y) = of_nat (length xs) * of_int h + r * of_int (\<Sum>(t, y) \<leftarrow> xs. t - d)"
    and "of_int (\<Sum>(t, y) \<leftarrow> xs. (t - d) * y) =
      of_int h * of_int (\<Sum>(t, y) \<leftarrow> xs. t - d) + r * of_int (\<Sum>(t, y) \<leftarrow> xs. (t - d) * (t - d))"
    and "of_int (\<Sum>(t, y) \<leftarrow> xs. (t - d) * (y - h)) = r * of_int (\<Sum>(t, y) \<leftarrow> xs. (t - d) * (t - d))"
proof -
  have "real_of_int (\<Sum>(t, y) \<leftarrow> xs. y) = of_nat (length xs) * of_int h + r * of_int (\<Sum>(t, y) \<leftarrow> xs. t - d) \<and>
    real_of_int (\<Sum>(t, y) \<leftarrow> xs. (t - d) * y) =
      of_int h * of_int (\<Sum>(t, y) \<leftarrow> xs. t - d) + r * of_int (\<Sum>(t, y) \<leftarrow> xs. (t - d) * (t - d)) \<and>
    real_of_int (\<Sum>(t, y) \<leftarrow> xs. (t - d) * (y - h)) = r * of_int (\<Sum>(t, y) \<leftarrow> xs. (t - d) * (t - d))"
    using assms
  proof (induction xs)
    case (Cons s xs)
    obtain a b where s: "s = (a, b)" by (cases s)
    have b: "real_of_int b = of_int h + r * (of_int a - of_int d)"
      using Cons.prems s by (simp add: on_line_iff)
    define A B C D E where "A = (\<Sum>(t, y) \<leftarrow> xs. y)" and "B = (\<Sum>(t, y) \<leftarrow> xs. t - d)"
      and "C = (\<Sum>(t, y) \<leftarrow> xs. (t - d) * y)" and "D = (\<Sum>(t, y) \<leftarrow> xs. (t - d) * (t - d))"
      and "E = (\<Sum>(t, y) \<leftarrow> xs. (t - d) * (y - h))"
    have IH: "real_of_int A = of_nat (length xs) * of_int h + r * of_int B"
        "real_of_int C = of_int h * of_int B + r * of_int D" "real_of_int E = r * of_int D"
      using Cons by (simp_all add: A_def B_def C_def D_def E_def)
    have "(\<Sum>(t, y) \<leftarrow> s # xs. y) = b + A" "(\<Sum>(t, y) \<leftarrow> s # xs. t - d) = (a - d) + B"
      "(\<Sum>(t, y) \<leftarrow> s # xs. (t - d) * y) = (a - d) * b + C"
      "(\<Sum>(t, y) \<leftarrow> s # xs. (t - d) * (t - d)) = (a - d) * (a - d) + D"
      "(\<Sum>(t, y) \<leftarrow> s # xs. (t - d) * (y - h)) = (a - d) * (b - h) + E"
      by (simp_all add: s A_def B_def C_def D_def E_def)
    then show ?case by (simp only: of_int_add of_int_mult of_int_diff b IH) (simp add: algebra_simps)
  qed simp
  then show "of_int (\<Sum>(t, y) \<leftarrow> xs. y) = of_nat (length xs) * of_int h + r * of_int (\<Sum>(t, y) \<leftarrow> xs. t - d)"
    "of_int (\<Sum>(t, y) \<leftarrow> xs. (t - d) * y) =
      of_int h * of_int (\<Sum>(t, y) \<leftarrow> xs. t - d) + r * of_int (\<Sum>(t, y) \<leftarrow> xs. (t - d) * (t - d))"
    "of_int (\<Sum>(t, y) \<leftarrow> xs. (t - d) * (y - h)) = r * of_int (\<Sum>(t, y) \<leftarrow> xs. (t - d) * (t - d))"
    by blast+
qed

lemma warmup_fit_line:
  assumes "\<forall>s \<in> set xs. on_line r (hd xs) s" and "\<exists>s \<in> set xs. fst s \<noteq> fst (hd xs)"
  shows "warmup_fit nominal xs = (r, of_int (snd (hd xs)))"
proof -
  obtain d h where dh: "hd xs = (d, h)" by (cases "hd xs")
  define sx sy sxx sxy where "sx = (\<Sum>(t, y) \<leftarrow> xs. t - d)" and "sy = (\<Sum>(t, y) \<leftarrow> xs. y)"
    and "sxx = (\<Sum>(t, y) \<leftarrow> xs. (t - d) * (t - d))" and "sxy = (\<Sum>(t, y) \<leftarrow> xs. (t - d) * y)"
  have sums: "warmup_sums xs d = (sx, sy, sxx, sxy)"
    by (simp add: warmup_sums_eq sx_def sy_def sxx_def sxy_def)
  let ?n = "int (length xs)" and ?xs = "map (\<lambda>s. fst s - d) xs"
  have xs: "sx = (\<Sum>x \<leftarrow> ?xs. x)" "sxx = (\<Sum>x \<leftarrow> ?xs. x * x)"
    unfolding sx_def sxx_def by (induction xs) auto
  have ne: "xs \<noteq> []" using assms(2) by auto
  have den: "?n * sxx - sx * sx \<noteq> 0"
  proof
    assume z: "?n * sxx - sx * sx = 0"
    obtain s where s: "s \<in> set xs" "fst s \<noteq> d" using assms(2) dh by auto
    then have "fst s - d \<in> set ?xs" by auto
    then have "fst s - d = hd ?xs" using z spread_zero [of ?xs] by (simp add: xs)
    then show False using s(2) ne dh by (simp add: hd_map)
  qed
  note line = line_sums [OF assms(1) [unfolded dh]]
  have y: "real_of_int sy = real_of_int ?n * real_of_int h + r * real_of_int sx"
    using line(1) by (simp add: sy_def sx_def)
  have xy: "real_of_int sxy = real_of_int h * real_of_int sx + r * real_of_int sxx"
    using line(2) by (simp add: sxy_def sx_def sxx_def)
  have "real_of_int (?n * sxy - sx * sy) = r * real_of_int (?n * sxx - sx * sx)"
    using y xy by (simp add: algebra_simps)
  then have slope: "real_of_int (?n * sxy - sx * sy) / real_of_int (?n * sxx - sx * sx) = r"
    using den by (simp add: nonzero_divide_eq_eq del: of_int_diff of_int_mult)
  have "real_of_int ?n \<noteq> 0" using ne by simp
  then have "(real_of_int sy - r * real_of_int sx) / real_of_int ?n = real_of_int h"
    using y by (simp add: field_simps)
  moreover have "warmup_fit nominal xs = (r, (real_of_int sy - r * real_of_int sx) / real_of_int ?n)"
    unfolding warmup_fit_def dh fst_conv sums prod.case Let_def slope using den by simp
  ultimately show ?thesis by (simp add: dh)
qed

text \<open>Anchored on a line: the rate is the true one, and stays it.\<close>

definition tracks :: "real \<Rightarrow> int \<Rightarrow> int \<Rightarrow> clock_anchor \<Rightarrow> bool" where
  "tracks r d h ca \<longleftrightarrow>
     ca_anchored ca \<and> ca_device_start ca = Some d \<and> ca_host_start ca = Some h \<and> ca_rate ca = r \<and>
     of_int (ca_sum_ns ca) = r * of_int (ca_sum_sq ca)"

lemma tracks_step:
  assumes "tracks r d h ca" and "on_line r (d, h) (t, y)"
  shows "\<exists>ca'. to_host_ns t (Some y) 0 ca = (Inr y, ca') \<and> tracks r d h ca'"
proof -
  let ?sq = "ca_sum_sq ca + (t - d) * (t - d)" and ?ns = "ca_sum_ns ca + (t - d) * (y - h)"
  have line: "of_int (y - h) = r * of_int (t - d)" using assms(2) by (simp add: on_line_def)
  have ns: "real_of_int ?ns = r * real_of_int ?sq"
    using assms(1) line by (simp only: tracks_def of_int_add of_int_mult) (simp add: algebra_simps)
  have div: "real_of_int ?ns / real_of_int ?sq = r" if "?sq > 0"
    unfolding ns using that by (simp del: of_int_add of_int_mult of_int_diff)
  define rate where "rate = (if ?sq > 0 then real_of_int ?ns / real_of_int ?sq else ca_rate ca)"
  have r: "rate = r" using div assms(1) by (simp only: rate_def tracks_def split: if_split) blast
  have run: "to_host_ns t (Some y) 0 ca = (Inr (h + py_trunc (of_int (t - d) * rate)),
      ca\<lparr>ca_count := ca_count ca + 1, ca_sum_sq := ?sq, ca_sum_ns := ?ns, ca_rate := rate\<rparr>)"
    using assms(1) by (simp add: tracks_def to_host_ns_def Let_def rate_def)
  have "of_int (t - d) * r = real_of_int (y - h)" using line by (simp add: mult.commute)
  then have "h + py_trunc (of_int (t - d) * r) = y" by (simp only: py_trunc_of_int)
  moreover have "tracks r d h (ca\<lparr>ca_count := ca_count ca + 1, ca_sum_sq := ?sq, ca_sum_ns := ?ns, ca_rate := rate\<rparr>)"
    using assms(1) ns r by (simp add: tracks_def del: of_int_add of_int_mult of_int_diff)
  ultimately show ?thesis using run r by simp
qed

lemma tracks_finish:
  assumes "\<forall>s \<in> set (ca_buffer ca). on_line r (hd (ca_buffer ca)) s"
    and "\<exists>s \<in> set (ca_buffer ca). fst s \<noteq> fst (hd (ca_buffer ca))"
  shows "tracks r (fst (hd (ca_buffer ca))) (snd (hd (ca_buffer ca))) (finish_warmup ca)"
  using line_sums(3) [of "ca_buffer ca" r "fst (hd (ca_buffer ca))" "snd (hd (ca_buffer ca))"] assms
  by (simp add: tracks_def finish_warmup_def warmup_fit_line Let_def anchored_sums_eq)

section \<open>Recordings\<close>

lemma tracks_run:
  assumes "tracks r d h ca" and "\<forall>s \<in> set xs. on_line r (d, h) s"
  shows "fst (anchor_run xs ca) = map (\<lambda>s. Inr (snd s)) xs \<and> tracks r d h (snd (anchor_run xs ca))"
  using assms
proof (induction xs arbitrary: ca)
  case (Cons s xs)
  obtain t y where s: "s = (t, y)" by (cases s)
  obtain ca' where "to_host_ns t (Some y) 0 ca = (Inr y, ca')" "tracks r d h ca'"
    using tracks_step [OF Cons.prems(1), of t y] Cons.prems(2) s by auto
  then show ?case using Cons.IH [of ca'] Cons.prems(2) s by (simp split: prod.split) auto
qed simp

text \<open>While the window fills, samples are buffered and answered as observed.\<close>

definition warming :: "real \<Rightarrow> int \<Rightarrow> (int \<times> int) list \<Rightarrow> clock_anchor \<Rightarrow> bool" where
  "warming nominal w buf ca \<longleftrightarrow>
     \<not> ca_anchored ca \<and> ca_buffer ca = buf \<and> ca_warmup ca = w \<and> ca_nominal ca = nominal \<and>
     ca_rate ca = nominal"

lemma warming_step:
  assumes "warming nom w buf ca" and "int (length buf) + 1 < w"
  shows "\<exists>ca'. to_host_ns t (Some y) 0 ca = (Inr y, ca') \<and> warming nom w (buf @ [(t, y)]) ca'"
  using assms by (simp add: warming_def to_host_ns_def Let_def)

lemma warming_last:
  assumes "warming nom w buf ca" and "int (length buf) + 1 \<ge> w"
  shows "\<exists>ca'. to_host_ns t (Some y) 0 ca = (Inr y, finish_warmup ca') \<and> ca_buffer ca' = buf @ [(t, y)] \<and>
     ca_nominal ca' = nom"
  using assms
  by (intro exI [of _ "ca\<lparr>ca_count := ca_count ca + 1, ca_buffer := buf @ [(t, y)]\<rparr>"])
    (simp add: warming_def to_host_ns_def Let_def)

lemma anchor_run_append:
  "anchor_run (xs @ ys) ca =
     (case anchor_run xs ca of (rs, ca') \<Rightarrow> (case anchor_run ys ca' of (ss, ca'') \<Rightarrow> (rs @ ss, ca'')))"
  by (induction xs arbitrary: ca) (auto split: prod.split)

lemma warming_run:
  assumes "warming nom w buf ca" and "int (length buf + length xs) < w"
  shows "fst (anchor_run xs ca) = map (\<lambda>s. Inr (snd s)) xs \<and> warming nom w (buf @ xs) (snd (anchor_run xs ca))"
  using assms
proof (induction xs arbitrary: buf ca)
  case (Cons s xs)
  obtain t y where s: "s = (t, y)" by (cases s)
  obtain ca' where "to_host_ns t (Some y) 0 ca = (Inr y, ca')" "warming nom w (buf @ [(t, y)]) ca'"
    using warming_step [OF Cons.prems(1), of t y] Cons.prems(2) by auto
  then show ?case using Cons.IH [of "buf @ [(t, y)]" ca'] Cons.prems(2) s
    by (auto split: prod.split)
qed simp

lemma warming_new: "warming nom (max 2 w) [] (new_clock_anchor nom w)"
  by (simp add: warming_def new_clock_anchor_def)



section \<open>A clock with jitter\<close>

text \<open>The anchor's sums are those of all samples so far, relative to a fixed anchor point.\<close>

definition fitted :: "int \<Rightarrow> int \<Rightarrow> (int \<times> int) list \<Rightarrow> clock_anchor \<Rightarrow> bool" where
  "fitted d h seen ca \<longleftrightarrow>
     ca_anchored ca \<and> ca_device_start ca = Some d \<and> ca_host_start ca = Some h \<and>
     (ca_sum_sq ca, ca_sum_ns ca) = anchored_sums seen d h"

lemma anchored_sums_append:
  "anchored_sums (xs @ [(t, y)]) d h =
     (case anchored_sums xs d h of (sq, ns) \<Rightarrow> (sq + (t - d) * (t - d), ns + (t - d) * (y - h)))"
  by (simp add: anchored_sums_def Let_def split: prod.split)

lemma fitted_finish:
  "fitted (fst (hd (ca_buffer ca))) (the (ca_host_start (finish_warmup ca))) (ca_buffer ca) (finish_warmup ca)"
  by (simp add: fitted_def finish_warmup_def Let_def split: prod.split)

lemma fitted_step:
  assumes "fitted d h seen ca"
  shows "fitted d h (seen @ [(t, y)]) (snd (to_host_ns t (Some y) now ca))"
    and "0 < ca_sum_sq (snd (to_host_ns t (Some y) now ca)) \<Longrightarrow>
      ca_rate (snd (to_host_ns t (Some y) now ca)) =
        of_int (ca_sum_ns (snd (to_host_ns t (Some y) now ca))) / of_int (ca_sum_sq (snd (to_host_ns t (Some y) now ca)))"
  using assms by (auto simp: fitted_def to_host_ns_def Let_def anchored_sums_append split: prod.split)

lemma fitted_run:
  assumes "fitted d h seen ca"
  shows "fitted d h (seen @ xs) (snd (anchor_run xs ca))"
  using assms
proof (induction xs arbitrary: seen ca)
  case (Cons s xs)
  obtain t y where s: "s = (t, y)" by (cases s)
  from Cons.IH [OF fitted_step(1) [OF Cons.prems, of t y 0]] show ?case
    by (auto simp: s split: prod.split)
qed simp

lemma fitted_run_rate:
  assumes "fitted d h seen ca" and "xs \<noteq> []" and "0 < ca_sum_sq (snd (anchor_run xs ca))"
  shows "ca_rate (snd (anchor_run xs ca)) =
    of_int (ca_sum_ns (snd (anchor_run xs ca))) / of_int (ca_sum_sq (snd (anchor_run xs ca)))"
proof -
  obtain ys t y where xs: "xs = ys @ [(t, y)]"
    using assms(2) by (metis rev_exhaust surj_pair)
  have run: "snd (anchor_run xs ca) = snd (to_host_ns t (Some y) 0 (snd (anchor_run ys ca)))"
    by (simp add: xs anchor_run_append split: prod.split)
  show ?thesis
    using fitted_step(2) [OF fitted_run [OF assms(1), of ys], of t y 0] assms(3) unfolding run .
qed

text \<open>The squared residuals of a rate, and the quadratic they are in it.\<close>

definition residual :: "(int \<times> int) list \<Rightarrow> int \<Rightarrow> int \<Rightarrow> real \<Rightarrow> real" where
  "residual xs d h c = (\<Sum>(t, y) \<leftarrow> xs. (of_int (y - h) - c * of_int (t - d))\<^sup>2)"

lemma residual_quadratic:
  "residual xs d h c = (\<Sum>(t, y) \<leftarrow> xs. (of_int (y - h))\<^sup>2) - 2 * c * of_int (snd (anchored_sums xs d h)) +
     c\<^sup>2 * of_int (fst (anchored_sums xs d h))"
  unfolding anchored_sums_eq residual_def
  by (induction xs) (auto simp: power2_eq_square algebra_simps)

lemma least_squares:
  assumes "anchored_sums xs d h = (sq, ns)" and "0 < sq"
  shows "residual xs d h (of_int ns / of_int sq) \<le> residual xs d h c"
proof -
  let ?q = "real_of_int sq" and ?n = "real_of_int ns"
  have q: "?q > 0" using assms(2) by simp
  have "residual xs d h c - residual xs d h (?n / ?q) = (c * ?q - ?n)\<^sup>2 / ?q"
    using q by (simp add: residual_quadratic assms(1) power2_eq_square field_simps)
  moreover have "0 \<le> (c * ?q - ?n)\<^sup>2 / ?q" using q by simp
  ultimately show ?thesis by linarith
qed

lemma warmup_anchors:
  assumes "nat (max 2 w) \<le> length xs"
  shows "\<exists>h. fitted (fst (hd xs)) h (take (nat (max 2 w)) xs)
    (snd (anchor_run (take (nat (max 2 w)) xs) (new_clock_anchor nominal w)))"
proof -
  let ?W = "nat (max 2 w)"
  have len: "?W - 1 < length xs" using assms by linarith
  then have W: "max 2 w \<le> int (length (take (?W - 1) xs)) + 1" by simp
  obtain t y where ty: "xs ! (?W - 1) = (t, y)" by (cases "xs ! (?W - 1)")
  let ?a = "take (?W - 1) xs"
  have buf: "take ?W xs = ?a @ [(t, y)]"
    using take_Suc_conv_app_nth [OF len] ty by (simp add: Suc_diff_le)
  have hd: "fst (hd (?a @ [(t, y)])) = fst (hd xs)"
    unfolding buf [symmetric] using assms by (cases xs) auto
  have "warming nominal (max 2 w) ?a (snd (anchor_run ?a (new_clock_anchor nominal w)))"
    using warming_run [OF warming_new, of ?a w nominal] len by auto
  from warming_last [OF this W, of t y]
  obtain ca' where ca': "to_host_ns t (Some y) 0 (snd (anchor_run ?a (new_clock_anchor nominal w))) =
      (Inr y, finish_warmup ca')" "ca_buffer ca' = ?a @ [(t, y)]"
    by blast
  have "snd (anchor_run (take ?W xs) (new_clock_anchor nominal w)) = finish_warmup ca'"
    using ca'(1) by (auto simp: buf anchor_run_append split: prod.split)
  then show ?thesis using fitted_finish [of ca'] unfolding ca'(2) hd buf by metis
qed

text \<open>
  C19. With any jitter, any drift and any duplicated or reordered ticks, once a sample has
  arrived after the warm-up the anchor's rate is optimal in the least-squares sense over the
  whole recording: relative to an anchor point that the warm-up fixed and no later sample
  moved, no other rate has a smaller sum of squared residuals over all samples, those of the
  warm-up included.
\<close>

theorem rate_is_least_squares:
  assumes "nat (max 2 w) < length xs" and "\<exists>s \<in> set xs. fst s \<noteq> fst (hd xs)"
  shows "\<exists>h. ca_device_start (snd (anchor_run xs (new_clock_anchor nominal w))) = Some (fst (hd xs)) \<and>
    ca_host_start (snd (anchor_run (take (nat (max 2 w)) xs) (new_clock_anchor nominal w))) = Some h \<and>
    ca_host_start (snd (anchor_run xs (new_clock_anchor nominal w))) = Some h \<and>
    (\<forall>c. residual xs (fst (hd xs)) h (ca_rate (snd (anchor_run xs (new_clock_anchor nominal w)))) \<le>
         residual xs (fst (hd xs)) h c)"
proof -
  let ?W = "nat (max 2 w)" and ?d = "fst (hd xs)"
  let ?warm = "snd (anchor_run (take ?W xs) (new_clock_anchor nominal w))"
  let ?fin = "snd (anchor_run xs (new_clock_anchor nominal w))"
  obtain h where warm: "fitted ?d h (take ?W xs) ?warm"
    using warmup_anchors [of w xs nominal] assms(1) by auto
  have run: "?fin = snd (anchor_run (drop ?W xs) ?warm)"
    using anchor_run_append [of "take ?W xs" "drop ?W xs" "new_clock_anchor nominal w"]
    by (simp split: prod.splits)
  have fit: "fitted ?d h xs ?fin"
    using fitted_run [OF warm, of "drop ?W xs"] unfolding run by simp
  have sq: "0 < ca_sum_sq ?fin"
    using fit assms(2) spread_pos [of xs ?d] by (simp add: fitted_def anchored_sums_eq)
  have "ca_rate ?fin = of_int (ca_sum_ns ?fin) / of_int (ca_sum_sq ?fin)"
    using fitted_run_rate [OF warm, of "drop ?W xs"] assms(1) sq unfolding run by simp
  then have "residual xs ?d h (ca_rate ?fin) \<le> residual xs ?d h c" for c
    using least_squares [of xs ?d h "ca_sum_sq ?fin" "ca_sum_ns ?fin" c] fit sq by (simp add: fitted_def)
  then show ?thesis using warm fit by (auto simp: fitted_def)
qed

theorem rate_is_least_squares_witness:
  "\<exists>h. ca_device_start (snd (anchor_run [(0, 7), (10, 21), (20, 37), (20, 38)] (new_clock_anchor 1 2))) = Some 0 \<and>
    ca_host_start (snd (anchor_run [(0, 7), (10, 21), (20, 37), (20, 38)] (new_clock_anchor 1 2))) = Some h \<and>
    residual [(0, 7), (10, 21), (20, 37), (20, 38)] 0 h
      (ca_rate (snd (anchor_run [(0, 7), (10, 21), (20, 37), (20, 38)] (new_clock_anchor 1 2)))) \<le>
    residual [(0, 7), (10, 21), (20, 37), (20, 38)] 0 h (3 / 2)"
  using rate_is_least_squares [of 2 "[(0, 7), (10, 21), (20, 37), (20, 38)]" 1] by auto

end
