(* ===== verification/Basler_Recorder.thy ===== *)
theory Basler_Recorder imports Clock_Anchor Py_Strings begin

text \<open>
  \<open>dataset_collection/basler_recorder.py\<close>: opening and configuring a camera, starting and
  stopping the grab thread, and the grab loop with its frame and drop counters. What pypylon
  answers (the devices, their formats, the calls that raise) is the parameter \<open>pylon\<close>; the
  camera object itself is a record of what the recorder did to it. A camera object the
  recorder no longer refers to is kept in \<open>ba_let_go\<close>, in the state it was left in.
\<close>

section \<open>The recorder\<close>

record instant_camera =
  ic_device :: nat
  ic_is_open :: bool
  ic_grabbing :: bool
  ic_features :: "(string \<times> pyval) list"

record basler =
  ba_serial :: string
  ba_exposure_us :: real
  ba_gain :: real
  ba_fps :: real
  ba_camera :: "instant_camera option"
  ba_let_go :: "instant_camera list"
  ba_converter :: bool
  ba_ns_per_tick :: real
  ba_anchor :: clock_anchor
  ba_thread :: bool
  ba_stop_event :: bool
  ba_frame_count :: int
  ba_dropped_count :: int

definition new_basler :: "string \<Rightarrow> real \<Rightarrow> real \<Rightarrow> real \<Rightarrow> basler" where
  "new_basler serial exposure_us gain fps =
     \<lparr>ba_serial = serial, ba_exposure_us = exposure_us, ba_gain = gain, ba_fps = fps, ba_camera = None,
      ba_let_go = [], ba_converter = False, ba_ns_per_tick = 0, ba_anchor = new_clock_anchor 1 16, ba_thread = False,
      ba_stop_event = False, ba_frame_count = 0, ba_dropped_count = 0\<rparr>"

text \<open>
  What pypylon answers: the device of a serial number (the empty one asks for the first), the
  calls that raise, a camera's serial number, its pixel formats and its tick frequency.
\<close>

record pylon =
  py_create_device :: "string \<Rightarrow> nat res"
  py_open_error :: "nat \<Rightarrow> py_error option"
  py_serial_number :: "nat \<Rightarrow> string"
  py_pixel_formats :: "nat \<Rightarrow> string list"
  py_feature_error :: "nat \<Rightarrow> string \<Rightarrow> pyval \<Rightarrow> py_error option"
  py_tick_frequency :: "nat \<Rightarrow> real res"
  py_grab_error :: "nat \<Rightarrow> py_error option"

definition preferred_bayer_order :: "string list" where
  "preferred_bayer_order = [''BayerRG8'', ''BayerGB8'', ''BayerGR8'', ''BayerBG8'']"

text \<open>\<open>next((f for f in preferred if f in available), None)\<close>.\<close>

definition choose_format :: "string list \<Rightarrow> string option" where
  "choose_format available = find (\<lambda>f. f \<in> set available) preferred_bayer_order"

definition on_camera :: "(instant_camera \<Rightarrow> instant_camera) \<Rightarrow> basler \<Rightarrow> basler" where
  "on_camera f r = r\<lparr>ba_camera := map_option f (ba_camera r)\<rparr>"

definition sdk_call :: "py_error option \<Rightarrow> (basler \<Rightarrow> basler) \<Rightarrow> (basler, unit) meth" where
  "sdk_call failure f = (case failure of Some e \<Rightarrow> m_raise e | None \<Rightarrow> m_modify f)"

definition set_feature :: "pylon \<Rightarrow> nat \<Rightarrow> string \<Rightarrow> pyval \<Rightarrow> (basler, unit) meth" where
  "set_feature py d name v =
     sdk_call (py_feature_error py d name v) (on_camera (\<lambda>c. c\<lparr>ic_features := ic_features c @ [(name, v)]\<rparr>))"

text \<open>The settings of a camera, in the order of the calls.\<close>

definition camera_features :: "basler \<Rightarrow> string \<Rightarrow> (string \<times> pyval) list" where
  "camera_features r pixel_format =
     [(''PixelFormat'', PStr pixel_format), (''AcquisitionFrameRateEnable'', PBool True),
      (''AcquisitionFrameRate'', PFloat (ba_fps r)), (''ExposureAuto'', PStr ''Off''),
      (''ExposureTime'', PFloat (ba_exposure_us r)), (''GainAuto'', PStr ''Off''), (''Gain'', PFloat (ba_gain r))]"

definition tick_period :: "real res \<Rightarrow> real" where
  "tick_period freq = (case freq of Inr f \<Rightarrow> if f > 0 then 1000000000 / f else 0 | Inl _ \<Rightarrow> 0)"

definition let_go :: "basler \<Rightarrow> basler" where
  "let_go r = r\<lparr>ba_camera := None,
     ba_let_go := (case ba_camera r of None \<Rightarrow> ba_let_go r | Some c \<Rightarrow> c # ba_let_go r)\<rparr>"

definition basler_open :: "pylon \<Rightarrow> (basler, unit) meth" where
  "basler_open py r0 =
     (case py_create_device py (ba_serial r0) of
        Inl e \<Rightarrow> (Inl e, r0)
      | Inr d \<Rightarrow>
        m_seq (m_modify (\<lambda>r. (let_go r)\<lparr>ba_camera := Some \<lparr>ic_device = d, ic_is_open = False, ic_grabbing = False,
                 ic_features = []\<rparr>\<rparr>))
        (m_seq (sdk_call (py_open_error py d) (on_camera (\<lambda>c. c\<lparr>ic_is_open := True\<rparr>)))
        (m_seq (m_modify (\<lambda>r. r\<lparr>ba_serial := py_serial_number py d\<rparr>))
         (case choose_format (py_pixel_formats py d) of
            None \<Rightarrow> m_raise (RuntimeError (''No supported 8-bit Bayer pixel format found for camera '' @
                      py_serial_number py d @ ''; available formats: '' @ list_repr (py_pixel_formats py d)))
          | Some pixel_format \<Rightarrow>
            m_seq (m_for (camera_features r0 pixel_format) (\<lambda>(name, v). set_feature py d name v))
             (m_modify (\<lambda>r. let period = tick_period (py_tick_frequency py d)
                in r\<lparr>ba_converter := True, ba_ns_per_tick := period,
                     ba_anchor := new_clock_anchor (if period \<noteq> 0 then period else 1) 16\<rparr>))))) r0)"

definition basler_close :: "(basler, unit) meth" where
  "basler_close =
     m_modify (\<lambda>r. let_go (on_camera (\<lambda>c.
       (let c1 = (if ic_grabbing c then c\<lparr>ic_grabbing := False\<rparr> else c)
        in if ic_is_open c1 then c1\<lparr>ic_is_open := False\<rparr> else c1)) r))"

definition is_grabbing :: "basler \<Rightarrow> bool" where
  "is_grabbing r = (case ba_camera r of None \<Rightarrow> False | Some c \<Rightarrow> ic_grabbing c)"

text \<open>The thread is a flag: it is alive, and leaves its loop when the stop event is set.\<close>

definition basler_start :: "pylon \<Rightarrow> (basler, unit) meth" where
  "basler_start py r0 =
     m_seq (if ba_camera r0 = None then basler_open py else m_return ())
     (m_seq (m_modify (\<lambda>r. r\<lparr>ba_stop_event := False\<rparr>))
      (\<lambda>r. m_seq (sdk_call (case ba_camera r of None \<Rightarrow> None | Some c \<Rightarrow> py_grab_error py (ic_device c))
                    (on_camera (\<lambda>c. c\<lparr>ic_grabbing := True\<rparr>)))
             (m_modify (\<lambda>r. r\<lparr>ba_thread := True\<rparr>)) r)) r0"

definition basler_stop :: "(basler, unit) meth" where
  "basler_stop = m_modify (\<lambda>r. on_camera (\<lambda>c. c\<lparr>ic_grabbing := False\<rparr>) (r\<lparr>ba_stop_event := True, ba_thread := False\<rparr>))"

section \<open>The grab loop\<close>

record 'i basler_frame =
  bf_index :: int
  bf_image :: 'i
  bf_ticks :: int
  bf_exposure_ns :: int
  bf_arrival_ns :: int

text \<open>What \<open>RetrieveResult\<close> returns: nothing within the timeout, a failed grab, or a buffer.\<close>

datatype 'b grab = NoResult | GrabFailed | Grabbed (grab_block: int) (grab_ticks: int) (grab_buffer: 'b)

text \<open>
  One turn of the loop: whether the loop condition fails before it, what the camera returns
  and the host time it is returned at.
\<close>

record 'b grab_turn =
  gt_stopped :: bool
  gt_result :: "'b grab"
  gt_arrival :: int

text \<open>The locals of the loop with the recorder and the world the callback works on.\<close>

type_synonym 'w grab_state = "basler \<times> int option \<times> 'w"

definition missed_blocks :: "int option \<Rightarrow> int \<Rightarrow> int" where
  "missed_blocks last_block_id block_id =
     (case last_block_id of None \<Rightarrow> 0 | Some b \<Rightarrow> if block_id > b + 1 then block_id - b - 1 else 0)"

definition grab_body ::
    "('b \<Rightarrow> 'i res) \<Rightarrow> ('i basler_frame \<Rightarrow> ('w, unit) meth) \<Rightarrow> 'b grab \<Rightarrow> int \<Rightarrow> ('w grab_state, unit) meth" where
  "grab_body convert on_frame result arrival st =
     (case st of (r, last_block_id, w) \<Rightarrow>
        (case result of
           NoResult \<Rightarrow> (Inr (), st)
         | GrabFailed \<Rightarrow> (Inr (), st)
         | Grabbed block_id ticks buf \<Rightarrow>
           (let r1 = r\<lparr>ba_dropped_count := ba_dropped_count r + missed_blocks last_block_id block_id\<rparr>
            in case convert buf of
                 Inl e \<Rightarrow> (Inl e, (r1, Some block_id, w))
               | Inr img \<Rightarrow>
                 (let (exposure, anchor) =
                        (if ba_ns_per_tick r1 > 0 then to_host_ns ticks (Some arrival) 0 (ba_anchor r1)
                         else (Inr arrival, ba_anchor r1));
                      r2 = r1\<lparr>ba_anchor := anchor\<rparr>
                  in case exposure of
                       Inl e \<Rightarrow> (Inl e, (r2, Some block_id, w))
                     | Inr exposure_ns \<Rightarrow>
                       (let r3 = r2\<lparr>ba_frame_count := ba_frame_count r2 + 1\<rparr>
                        in case on_frame \<lparr>bf_index = ba_frame_count r3, bf_image = img, bf_ticks = ticks,
                                  bf_exposure_ns = exposure_ns, bf_arrival_ns = arrival\<rparr> w of
                             (res, w') \<Rightarrow> (res, (r3, Some block_id, w')))))))"

fun grab_turns ::
    "('b \<Rightarrow> 'i res) \<Rightarrow> ('i basler_frame \<Rightarrow> ('w, unit) meth) \<Rightarrow> 'b grab_turn list \<Rightarrow> ('w grab_state, unit) meth" where
  "grab_turns convert on_frame [] = m_return ()"
| "grab_turns convert on_frame (t # ts) =
     (if gt_stopped t then m_return ()
      else m_seq (grab_body convert on_frame (gt_result t) (gt_arrival t)) (grab_turns convert on_frame ts))"

definition grab_loop ::
    "('b \<Rightarrow> 'i res) \<Rightarrow> ('i basler_frame \<Rightarrow> ('w, unit) meth) \<Rightarrow> 'b grab_turn list \<Rightarrow> (basler \<times> 'w, unit) meth" where
  "grab_loop convert on_frame turns s =
     (case grab_turns convert on_frame turns (fst s, None, snd s) of (res, (r, _, w)) \<Rightarrow> (res, (r, w)))"

section \<open>What the counters count\<close>

text \<open>The buffers a loop sees before it leaves.\<close>

definition grabbed :: "'b grab_turn list \<Rightarrow> 'b grab list" where
  "grabbed turns = filter (\<lambda>g. case g of Grabbed _ _ _ \<Rightarrow> True | _ \<Rightarrow> False)
     (map gt_result (takeWhile (\<lambda>t. \<not> gt_stopped t) turns))"

lemma grabbed_simps [simp]:
  "grabbed [] = []"
  "gt_stopped t \<Longrightarrow> grabbed (t # ts) = []"
  "\<not> gt_stopped t \<Longrightarrow> gt_result t = NoResult \<Longrightarrow> grabbed (t # ts) = grabbed ts"
  "\<not> gt_stopped t \<Longrightarrow> gt_result t = GrabFailed \<Longrightarrow> grabbed (t # ts) = grabbed ts"
  "\<not> gt_stopped t \<Longrightarrow> gt_result t = Grabbed b k x \<Longrightarrow> grabbed (t # ts) = Grabbed b k x # grabbed ts"
  by (simp_all add: grabbed_def)

lemma grab_body_idle [simp]:
  "grab_body convert on_frame NoResult a st = (Inr (), st)"
  "grab_body convert on_frame GrabFailed a st = (Inr (), st)"
  by (simp_all add: grab_body_def split: prod.split)

lemma grab_body_returns:
  assumes "grab_body convert on_frame (Grabbed b k x) a (r, l, w) = (Inr (), (r', l', w'))"
  shows "l' = Some b" and "ba_frame_count r' = ba_frame_count r + 1"
    and "ba_dropped_count r' = ba_dropped_count r + missed_blocks l b"
  using assms by (auto simp: grab_body_def Let_def split: sum.splits prod.splits if_splits)

lemma grab_turns_count:
  assumes "grab_turns convert on_frame ts (r, l, w) = (Inr (), (r', l', w'))"
  shows "ba_frame_count r' = ba_frame_count r + int (length (grabbed ts))"
  using assms
proof (induction ts arbitrary: r l w)
  case (Cons t ts)
  show ?case
  proof (cases "gt_stopped t")
    case False
    then obtain r1 l1 w1 where body: "grab_body convert on_frame (gt_result t) (gt_arrival t) (r, l, w) = (Inr (), (r1, l1, w1))"
        "grab_turns convert on_frame ts (r1, l1, w1) = (Inr (), (r', l', w'))"
      using Cons.prems by (auto simp: m_seq_def m_bind_Inr_iff)
    show ?thesis using Cons.IH [OF body(2)] body(1) False
      by (cases "gt_result t") (auto dest: grab_body_returns)
  qed (use Cons.prems in simp)
qed simp

text \<open>After a first buffer, frames and drops together cover the block numbers passed over.\<close>

lemma grab_turns_blocks:
  assumes "grab_turns convert on_frame ts (r, Some b, w) = (Inr (), (r', l', w'))"
    and "sorted_wrt (<) (b # map grab_block (grabbed ts))"
  shows "(ba_frame_count r' - ba_frame_count r) + (ba_dropped_count r' - ba_dropped_count r) =
    last (b # map grab_block (grabbed ts)) - b"
  using assms
proof (induction ts arbitrary: r b w)
  case (Cons t ts)
  show ?case
  proof (cases "gt_stopped t")
    case False
    then obtain r1 l1 w1 where body: "grab_body convert on_frame (gt_result t) (gt_arrival t) (r, Some b, w) = (Inr (), (r1, l1, w1))"
        "grab_turns convert on_frame ts (r1, l1, w1) = (Inr (), (r', l', w'))"
      using Cons.prems(1) by (auto simp: m_seq_def m_bind_Inr_iff)
    show ?thesis
    proof (cases "gt_result t")
      case (Grabbed b' k x)
      note upd = grab_body_returns [OF body(1) [unfolded Grabbed]]
      have seen: "grabbed (t # ts) = Grabbed b' k x # grabbed ts" using False Grabbed by simp
      then have "b < b'" "sorted_wrt (<) (b' # map grab_block (grabbed ts))" using Cons.prems(2) by simp_all
      then show ?thesis
        using Cons.IH [OF body(2) [unfolded upd(1)]] upd(2,3) seen
        by (cases "grabbed ts = []"; cases "b + 1 < b'") (simp_all add: missed_blocks_def)
    qed (use Cons.IH body Cons.prems(2) False in auto)
  qed (use Cons.prems in simp)
qed simp

lemma grab_turns_first:
  assumes "grab_turns convert on_frame ts (r, None, w) = (Inr (), (r', l', w'))"
    and "grabbed ts \<noteq> []" and "sorted_wrt (<) (map grab_block (grabbed ts))"
  shows "(ba_frame_count r' - ba_frame_count r) + (ba_dropped_count r' - ba_dropped_count r) =
    grab_block (last (grabbed ts)) - grab_block (hd (grabbed ts)) + 1"
  using assms
proof (induction ts arbitrary: r w)
  case (Cons t ts)
  show ?case
  proof (cases "gt_stopped t")
    case False
    then obtain r1 l1 w1 where body: "grab_body convert on_frame (gt_result t) (gt_arrival t) (r, None, w) = (Inr (), (r1, l1, w1))"
        "grab_turns convert on_frame ts (r1, l1, w1) = (Inr (), (r', l', w'))"
      using Cons.prems(1) by (auto simp: m_seq_def m_bind_Inr_iff)
    show ?thesis
    proof (cases "gt_result t")
      case (Grabbed b' k x)
      note upd = grab_body_returns [OF body(1) [unfolded Grabbed]]
      have seen: "grabbed (t # ts) = Grabbed b' k x # grabbed ts" using False Grabbed by simp
      then have "sorted_wrt (<) (b' # map grab_block (grabbed ts))" using Cons.prems(3) by simp
      from grab_turns_blocks [OF body(2) [unfolded upd(1)] this] show ?thesis
        using upd(2,3) seen by (cases "grabbed ts = []") (simp_all add: missed_blocks_def last_map)
    qed (use Cons.IH body Cons.prems(2,3) False in auto)
  qed (use Cons.prems in simp)
qed simp

text \<open>
  C21. No frame is lost without being counted: while the camera numbers its blocks upwards,
  the frames handed to the callback and the frames counted as dropped add up to exactly the
  block numbers from the first to the last one grabbed, whatever timeouts and failed grabs lie
  between, and every successful grab is one frame.
\<close>

theorem frames_and_drops_account_for_blocks:
  assumes "grab_loop convert on_frame turns (r, w) = (Inr (), (r', w'))"
    and "grabbed turns \<noteq> []" and "sorted_wrt (<) (map grab_block (grabbed turns))"
  shows "ba_frame_count r' - ba_frame_count r = int (length (grabbed turns)) \<and>
     (ba_frame_count r' - ba_frame_count r) + (ba_dropped_count r' - ba_dropped_count r) =
       grab_block (last (grabbed turns)) - grab_block (hd (grabbed turns)) + 1"
proof -
  obtain l where "grab_turns convert on_frame turns (r, None, w) = (Inr (), (r', l, w'))"
    using assms(1) by (auto simp: grab_loop_def split: prod.splits)
  then show ?thesis using grab_turns_count grab_turns_first assms(2,3) by fastforce
qed

theorem frames_and_drops_account_for_blocks_witness:
  "\<exists>r' w'. grab_loop Inr (\<lambda>f w. (Inr (), f # w))
       [\<lparr>gt_stopped = False, gt_result = Grabbed 4 0 (), gt_arrival = 5\<rparr>, \<lparr>gt_stopped = False, gt_result = GrabFailed, gt_arrival = 6\<rparr>,
        \<lparr>gt_stopped = False, gt_result = Grabbed 9 1 (), gt_arrival = 7\<rparr>, \<lparr>gt_stopped = True, gt_result = Grabbed 10 2 (), gt_arrival = 8\<rparr>]
       (new_basler ''40'' 2000 1 30, []) = (Inr (), (r', w')) \<and> ba_frame_count r' = 2 \<and> ba_dropped_count r' = 4"
proof -
  let ?turns = "[\<lparr>gt_stopped = False, gt_result = Grabbed 4 0 (), gt_arrival = 5\<rparr>, \<lparr>gt_stopped = False, gt_result = GrabFailed, gt_arrival = 6\<rparr>,
        \<lparr>gt_stopped = False, gt_result = Grabbed 9 1 (), gt_arrival = 7\<rparr>, \<lparr>gt_stopped = True, gt_result = Grabbed 10 2 (), gt_arrival = 8\<rparr>]"
  obtain r' w' where run: "grab_loop Inr (\<lambda>f w. (Inr (), f # w)) ?turns (new_basler ''40'' 2000 1 30, []) = (Inr (), (r', w'))"
    by (simp add: grab_loop_def m_seq_def m_bind_def grab_body_def Let_def new_basler_def)
  have seen: "grabbed ?turns = [Grabbed 4 0 (), Grabbed 9 1 ()]" by (simp add: grabbed_def)
  from frames_and_drops_account_for_blocks [OF run] show ?thesis
    unfolding seen run by (simp add: new_basler_def)
qed

end
