(* ===== verification/Event_Records.thy ===== *)
theory Event_Records imports Byte_Codec begin

text \<open>
  \<open>dataset_collection/event_types.py\<close> and \<open>event_record_io.py\<close>: decoded events as arrays of
  columns, their 16-byte records, the file they are appended to, and the reading of that file
  with \<open>np.fromfile\<close>.
\<close>

section \<open>Batches and records\<close>

record event_batch =
  eb_x :: "16 word list"
  eb_y :: "16 word list"
  eb_polarity :: "8 word list"
  eb_host_ns :: "64 word list"

text \<open>The fields after the polarity, \<open>reserved\<close> and \<open>_pad\<close>, stay zero.\<close>

record event_record =
  er_timestamp_ns :: "64 word"
  er_x :: "16 word"
  er_y :: "16 word"
  er_polarity :: "8 word"

text \<open>Assigning an array to a column of \<open>n\<close> rows: one value is spread, other sizes must match.\<close>

definition np_column :: "nat \<Rightarrow> 'a list \<Rightarrow> 'a list res" where
  "np_column n xs =
     (if length xs = n then Inr xs
      else if length xs = 1 then Inr (replicate n (hd xs))
      else Inl (ValueError ''could not broadcast input array''))"

definition batch_to_records :: "event_batch \<Rightarrow> event_record list res" where
  "batch_to_records batch =
     (let n = length (eb_x batch)
      in res_bind (np_column n (eb_host_ns batch)) (\<lambda>ts.
         res_bind (np_column n (eb_x batch)) (\<lambda>xs.
         res_bind (np_column n (eb_y batch)) (\<lambda>ys.
         res_bind (np_column n (eb_polarity batch)) (\<lambda>ps.
           Inr (map (\<lambda>(t, x, y, p). \<lparr>er_timestamp_ns = t, er_x = x, er_y = y, er_polarity = p\<rparr>)
             (zip ts (zip xs (zip ys ps)))))))))"

text \<open>\<open>EVENT_RECORD_DTYPE\<close>: little-endian fields, packed.\<close>

definition record_bytes :: "event_record \<Rightarrow> byte list" where
  "record_bytes e =
     le_bytes 8 (unat (er_timestamp_ns e)) @ le_bytes 2 (unat (er_x e)) @ le_bytes 2 (unat (er_y e)) @
     [er_polarity e, 0, 0, 0]"

definition record_from :: "byte list \<Rightarrow> event_record" where
  "record_from bs =
     \<lparr>er_timestamp_ns = word_of_nat (le_nat (take 8 bs)), er_x = word_of_nat (le_nat (take 2 (drop 8 bs))),
      er_y = word_of_nat (le_nat (take 2 (drop 10 bs))), er_polarity = hd (drop 12 bs)\<rparr>"

section \<open>The file\<close>

record event_writer =
  ew_bytes :: "byte list"
  ew_count :: nat
  ew_open :: bool

definition new_event_writer :: event_writer where
  "new_event_writer = \<lparr>ew_bytes = [], ew_count = 0, ew_open = True\<rparr>"

definition write_batch :: "event_batch \<Rightarrow> (event_writer, unit) meth" where
  "write_batch batch w =
     (case batch_to_records batch of
        Inl e \<Rightarrow> (Inl e, w)
      | Inr records \<Rightarrow>
        if \<not> ew_open w then (Inl (ValueError ''I/O operation on closed file''), w)
        else (Inr (), w\<lparr>ew_bytes := ew_bytes w @ concat (map record_bytes records),
                        ew_count := ew_count w + length records\<rparr>))"

definition close_writer :: "event_writer \<Rightarrow> event_writer" where
  "close_writer w = w\<lparr>ew_open := False\<rparr>"

text \<open>\<open>np.fromfile(path, dtype=EVENT_RECORD_DTYPE)\<close>: as many whole records as there are.\<close>

function records_from :: "byte list \<Rightarrow> event_record list" where
  "records_from bs = (if length bs < 16 then [] else record_from (take 16 bs) # records_from (drop 16 bs))"
  by pat_completeness auto
termination by (relation "measure length") auto

declare records_from.simps [simp del]

section \<open>Round trips\<close>

lemma length_record_bytes [simp]: "length (record_bytes e) = 16"
  by (simp add: record_bytes_def)

lemma word_le_bytes:
  "(256 :: nat) ^ k = 2 ^ LENGTH('a) \<Longrightarrow> word_of_nat (le_nat (le_bytes k (unat (w :: 'a :: len word)))) = w"
  by (subst le_nat_le_bytes_id) (simp_all add: unsigned_less)

lemma record_from_bytes [simp]: "record_from (record_bytes e) = e"
proof -
  have "word_of_nat (le_nat (le_bytes 8 (unat t))) = t" for t :: "64 word"
    by (rule word_le_bytes) simp
  moreover have "word_of_nat (le_nat (le_bytes 2 (unat x))) = x" for x :: "16 word"
    by (rule word_le_bytes) simp
  ultimately show ?thesis
    by (cases e) (simp add: record_from_def record_bytes_def)
qed

lemma records_from_append: "records_from (record_bytes e @ bs) = e # records_from bs"
  by (subst records_from.simps) simp

lemma records_from_records: "records_from (concat (map record_bytes es)) = es"
  by (induction es) (simp_all add: records_from_append, simp add: records_from.simps)

text \<open>A well-formed batch, all columns of one length, has the records of its columns.\<close>

definition columns_agree :: "event_batch \<Rightarrow> bool" where
  "columns_agree b \<longleftrightarrow> length (eb_y b) = length (eb_x b) \<and> length (eb_polarity b) = length (eb_x b) \<and>
     length (eb_host_ns b) = length (eb_x b)"

definition batch_records :: "event_batch \<Rightarrow> event_record list" where
  "batch_records b =
     map (\<lambda>(t, x, y, p). \<lparr>er_timestamp_ns = t, er_x = x, er_y = y, er_polarity = p\<rparr>)
       (zip (eb_host_ns b) (zip (eb_x b) (zip (eb_y b) (eb_polarity b))))"

lemma batch_to_records_agree: "columns_agree b \<Longrightarrow> batch_to_records b = Inr (batch_records b)"
  by (simp add: columns_agree_def batch_to_records_def batch_records_def np_column_def)

lemma length_batch_to_records:
  "batch_to_records b = Inr rs \<Longrightarrow> length rs = length (eb_x b)"
  by (auto simp: batch_to_records_def Let_def res_bind_Inr_iff np_column_def split: if_splits)

definition file_ok :: "event_record list \<Rightarrow> event_writer \<Rightarrow> bool" where
  "file_ok rs w \<longleftrightarrow> ew_bytes w = concat (map record_bytes rs) \<and> ew_count w = length rs \<and> ew_open w"

lemma file_ok_new: "file_ok [] new_event_writer"
  by (simp add: file_ok_def new_event_writer_def)

lemma file_ok_write:
  assumes "file_ok rs w" and "batch_to_records b = Inr new"
  shows "\<exists>w'. write_batch b w = (Inr (), w') \<and> file_ok (rs @ new) w'"
  using assms by (simp add: file_ok_def write_batch_def)

lemma file_ok_read: "file_ok rs w \<Longrightarrow> records_from (ew_bytes w) = rs"
  by (simp add: file_ok_def records_from_records)

lemma write_batches_file:
  assumes "m_for batches write_batch w = (Inr (), w')" and "file_ok rs w"
  shows "\<exists>rss. list_all2 (\<lambda>b r. batch_to_records b = Inr r) batches rss \<and> file_ok (rs @ concat rss) w'"
  using assms
proof (induction batches arbitrary: w rs)
  case (Cons b bs)
  then obtain w1 where w1: "write_batch b w = (Inr (), w1)" "m_for bs write_batch w1 = (Inr (), w')"
    by (auto simp: m_bind_Inr_iff)
  obtain new where new: "batch_to_records b = Inr new"
    using w1(1) by (auto simp: write_batch_def split: sum.splits)
  have "file_ok (rs @ new) w1" using file_ok_write [OF Cons.prems(2) new] w1(1) by simp
  from Cons.IH [OF w1(2) this] obtain rss where
    "list_all2 (\<lambda>b r. batch_to_records b = Inr r) bs rss" "file_ok ((rs @ new) @ concat rss) w'" by blast
  then show ?case using new by (intro exI [of _ "new # rss"]) simp
qed simp

text \<open>
  C22. The event file is lossless: after any number of batches have been written, reading the
  file back as records gives exactly the events of the batches in their order, every field
  included; the file has 16 bytes per event and the counter is the number of events.
\<close>

theorem event_file_roundtrip:
  assumes "m_for batches write_batch new_event_writer = (Inr (), w)"
  shows "\<exists>rss. list_all2 (\<lambda>b rs. batch_to_records b = Inr rs) batches rss \<and>
     records_from (ew_bytes w) = concat rss \<and> length (ew_bytes w) = 16 * ew_count w \<and>
     ew_count w = sum_list (map (\<lambda>b. length (eb_x b)) batches)"
proof -
  obtain rss where rss: "list_all2 (\<lambda>b r. batch_to_records b = Inr r) batches rss" "file_ok (concat rss) w"
    using write_batches_file [OF assms file_ok_new] by auto
  have "length (concat rs) = sum_list (map (\<lambda>b. length (eb_x b)) bs)"
    if "list_all2 (\<lambda>b r. batch_to_records b = Inr r) bs rs" for bs rs
    using that by (induction rule: list_all2_induct) (auto dest: length_batch_to_records)
  moreover have "length (concat (map record_bytes es)) = 16 * length es" for es
    by (induction es) simp_all
  ultimately show ?thesis
    using rss file_ok_read [OF rss(2)] by (auto simp: file_ok_def)
qed

theorem event_file_roundtrip_witness:
  "\<exists>w. m_for [\<lparr>eb_x = [3, 319], eb_y = [7, 0], eb_polarity = [1, 0], eb_host_ns = [1000, - 1]\<rparr>,
      \<lparr>eb_x = [], eb_y = [], eb_polarity = [], eb_host_ns = []\<rparr>] write_batch new_event_writer = (Inr (), w) \<and>
    records_from (ew_bytes w) =
      [\<lparr>er_timestamp_ns = 1000, er_x = 3, er_y = 7, er_polarity = 1\<rparr>,
       \<lparr>er_timestamp_ns = - 1, er_x = 319, er_y = 0, er_polarity = 0\<rparr>]"
proof -
  let ?a = "\<lparr>eb_x = [3, 319], eb_y = [7, 0], eb_polarity = [1, 0], eb_host_ns = [1000, - 1]\<rparr>"
  let ?b = "\<lparr>eb_x = [], eb_y = [], eb_polarity = [], eb_host_ns = []\<rparr>"
  have recs: "batch_to_records ?a = Inr [\<lparr>er_timestamp_ns = 1000, er_x = 3, er_y = 7, er_polarity = 1\<rparr>,
       \<lparr>er_timestamp_ns = - 1, er_x = 319, er_y = 0, er_polarity = 0\<rparr>]" "batch_to_records ?b = Inr []"
    by (simp_all add: batch_to_records_def np_column_def)
  then obtain w where run: "m_for [?a, ?b] write_batch new_event_writer = (Inr (), w)"
    by (simp add: m_bind_def write_batch_def new_event_writer_def)
  show ?thesis using event_file_roundtrip [OF run] run recs by (auto simp: list_all2_Cons1)
qed

end
