(* ===== verification/Event_Recorder.thy ===== *)
theory Event_Recorder imports Event_Records Clock_Anchor begin

text \<open>
  \<open>dataset_collection/event_recorder.py\<close>: the event camera recorder, its raw recording, its
  live stream of decoded events and the stream loop. What the Metavision SDK answers is a
  parameter: whether a camera can be opened, the size of a live iterator, and the chunks the
  iterator yields.
\<close>

section \<open>The recorder\<close>

record events_stream =
  es_log_path :: "string option"
  es_started :: bool

record event_recorder =
  ev_serial :: string
  ev_bias_file :: string
  ev_camera :: bool
  ev_stream :: "events_stream option"
  ev_anchor :: clock_anchor
  ev_count :: int
  ev_running :: bool
  ev_poll_thread :: bool
  ev_stop_poll :: bool
  ev_stream_thread :: bool
  ev_stop_stream :: bool
  ev_width :: int
  ev_height :: int

definition new_event_recorder :: "string \<Rightarrow> string \<Rightarrow> event_recorder" where
  "new_event_recorder serial bias_file =
     \<lparr>ev_serial = serial, ev_bias_file = bias_file, ev_camera = False, ev_stream = None,
      ev_anchor = new_clock_anchor 1000 16, ev_count = 0, ev_running = False, ev_poll_thread = False,
      ev_stop_poll = False, ev_stream_thread = False, ev_stop_stream = False, ev_width = 0, ev_height = 0\<rparr>"

text \<open>The SDK: opening a camera (the empty serial asks for the first), the size of a live iterator.\<close>

record metavision =
  mv_camera_error :: "string \<Rightarrow> py_error option"
  mv_iterator_size :: "string \<Rightarrow> (int \<times> int) res"

definition bias_message :: "string \<Rightarrow> string" where
  "bias_message advice =
     ''bias_file loading not yet verified against this SDK's device.get_i_ll_biases() API -- rerun without --bias-file for now'' @ advice"

definition event_open :: "metavision \<Rightarrow> (event_recorder, unit) meth" where
  "event_open mv r =
     (case mv_camera_error mv (ev_serial r) of
        Some e \<Rightarrow> (Inl e, r)
      | None \<Rightarrow>
        (let r1 = r\<lparr>ev_camera := True, ev_stream := Some \<lparr>es_log_path = None, es_started = False\<rparr>\<rparr>
         in if ev_bias_file r \<noteq> [] then
           (Inl (NotImplementedError (bias_message '', or verify get_i_ll_biases()'s methods on-device and implement this before relying on it.'')), r1) else (Inr (), r1)))"

definition event_close :: "(event_recorder, unit) meth" where
  "event_close = m_modify (\<lambda>r. r\<lparr>ev_camera := False, ev_stream := None\<rparr>)"

text \<open>The raw recording: the log is opened before the stream starts, and closed after it stops.\<close>

definition start_raw_recording :: "metavision \<Rightarrow> string \<Rightarrow> (event_recorder, unit) meth" where
  "start_raw_recording mv output_path r0 =
     m_seq (if ev_camera r0 then m_return () else event_open mv)
      (m_modify (\<lambda>r. r\<lparr>ev_stream := map_option (\<lambda>s. s\<lparr>es_log_path := Some output_path, es_started := True\<rparr>) (ev_stream r),
         ev_stop_poll := False, ev_poll_thread := True, ev_running := True\<rparr>)) r0"

definition stop_raw_recording :: "(event_recorder, unit) meth" where
  "stop_raw_recording =
     m_modify (\<lambda>r. r\<lparr>ev_stop_poll := True, ev_poll_thread := False,
       ev_stream := map_option (\<lambda>s. s\<lparr>es_started := False, es_log_path := None\<rparr>) (ev_stream r),
       ev_running := False\<rparr>)"

definition stream_events :: "metavision \<Rightarrow> (event_recorder, unit) meth" where
  "stream_events mv r =
     (if ev_bias_file r \<noteq> [] then (Inl (NotImplementedError (bias_message ''.'')), r)
      else if ev_serial r = [] then
        (Inl (ValueError ''stream_events() requires an explicit serial_number (no 'first available' fallback for live decoded streaming).''), r)
      else case mv_iterator_size mv (ev_serial r) of
             Inl e \<Rightarrow> (Inl e, r)
           | Inr (height, width) \<Rightarrow>
             (Inr (), r\<lparr>ev_height := height, ev_width := width, ev_stop_stream := False,
                ev_stream_thread := True, ev_running := True\<rparr>))"

definition event_stop :: "(event_recorder, unit) meth" where
  "event_stop =
     m_modify (\<lambda>r. r\<lparr>ev_stop_stream := True, ev_stream_thread := False,
       ev_stream := (if ev_running r then map_option (\<lambda>s. s\<lparr>es_started := False\<rparr>) (ev_stream r) else ev_stream r),
       ev_running := False\<rparr>)"

section \<open>The stream loop\<close>

record raw_event =
  re_x :: "16 word"
  re_y :: "16 word"
  re_p :: "8 word"
  re_t :: int

text \<open>What \<open>next(mv_iter)\<close> yields or raises.\<close>

datatype stream_item = Chunk "raw_event list" | StreamEnd | Inconsistent string | StreamError py_error

record stream_turn =
  st_stopped :: bool
  st_item :: stream_item
  st_now :: int

definition in_sensor :: "event_recorder \<Rightarrow> raw_event \<Rightarrow> bool" where
  "in_sensor r e \<longleftrightarrow> uint (re_x e) < ev_width r \<and> uint (re_y e) < ev_height r"

text \<open>The chunk's times: one anchored reference, the others at the current rate around it.\<close>

definition event_host_ns :: "int \<Rightarrow> int \<Rightarrow> real \<Rightarrow> raw_event \<Rightarrow> int" where
  "event_host_ns anchor_host reference_t rate e =
     py_trunc (of_int anchor_host + (of_int (re_t e) - of_int reference_t) * rate)"

definition make_batch :: "(raw_event \<Rightarrow> int) \<Rightarrow> raw_event list \<Rightarrow> event_batch" where
  "make_batch host evs =
     \<lparr>eb_x = map re_x evs, eb_y = map re_y evs, eb_polarity = map re_p evs,
      eb_host_ns = map (\<lambda>e. word_of_int (host e)) evs\<rparr>"

definition publish_chunk ::
    "(event_batch \<Rightarrow> ('w, unit) meth) \<Rightarrow> raw_event list \<Rightarrow> int \<Rightarrow> (event_recorder \<times> 'w, unit) meth" where
  "publish_chunk on_events evs host_now s =
     (case s of (r, w) \<Rightarrow>
        let reference_t = re_t (last evs)
        in case to_host_ns reference_t (Some host_now) 0 (ev_anchor r) of
             (Inl e, anchor) \<Rightarrow> (Inl e, (r\<lparr>ev_anchor := anchor\<rparr>, w))
           | (Inr anchor_host, anchor) \<Rightarrow>
             (case on_events (make_batch (event_host_ns anchor_host reference_t (ca_rate anchor)) evs) w of
                (Inl e, w') \<Rightarrow> (Inl e, (r\<lparr>ev_anchor := anchor\<rparr>, w'))
              | (Inr _, w') \<Rightarrow> (Inr (), (r\<lparr>ev_anchor := anchor, ev_count := ev_count r + int (length evs)\<rparr>, w'))))"

definition stream_chunk ::
    "(event_batch \<Rightarrow> ('w, unit) meth) \<Rightarrow> raw_event list \<Rightarrow> int \<Rightarrow> (event_recorder \<times> 'w, unit) meth" where
  "stream_chunk on_events evs host_now s =
     (let kept = (if list_all (in_sensor (fst s)) evs then evs else filter (in_sensor (fst s)) evs)
      in if evs = [] \<or> kept = [] then (Inr (), s) else publish_chunk on_events kept host_now s)"

definition loop_exit :: "event_recorder \<times> 'w \<Rightarrow> event_recorder \<times> 'w" where
  "loop_exit s = ((fst s)\<lparr>ev_running := False\<rparr>, snd s)"

text \<open>A list of turns that ends before the loop does leaves the thread in the loop.\<close>

fun stream_loop ::
    "(event_batch \<Rightarrow> ('w, unit) meth) \<Rightarrow> stream_turn list \<Rightarrow> (event_recorder \<times> 'w, unit) meth" where
  "stream_loop on_events [] = m_return ()"
| "stream_loop on_events (t # ts) =
     (if st_stopped t then m_modify loop_exit
      else case st_item t of
             StreamEnd \<Rightarrow> m_modify loop_exit
           | Inconsistent _ \<Rightarrow> m_modify loop_exit
           | StreamError e \<Rightarrow> m_raise e
           | Chunk evs \<Rightarrow> m_seq (stream_chunk on_events evs (st_now t)) (stream_loop on_events ts))"

end
