(* ===== verification/Imu_Recorder.thy ===== *)
theory Imu_Recorder imports Py_Strings begin

text \<open>
  \<open>dataset_collection/imu_recorder.py\<close>: opening an IIO device and its channels, the sampling
  rate with its tolerated and fatal failures, and the polling loop. What libiio answers is the
  parameter \<open>iio\<close>.
\<close>

section \<open>The recorder\<close>

record imu_recorder =
  iu_device_id :: string
  iu_channel_names :: "string list"
  iu_scale :: real
  iu_sampling_frequency :: real
  iu_context :: bool
  iu_device :: bool
  iu_channels :: "string list"
  iu_buffer :: bool
  iu_thread :: bool
  iu_stop_event :: bool
  iu_sample_count :: int

definition new_imu_recorder :: "string \<Rightarrow> string list \<Rightarrow> real \<Rightarrow> real \<Rightarrow> imu_recorder" where
  "new_imu_recorder device_id channels scale sampling_frequency =
     \<lparr>iu_device_id = device_id, iu_channel_names = channels, iu_scale = scale,
      iu_sampling_frequency = sampling_frequency, iu_context = False, iu_device = False, iu_channels = [],
      iu_buffer = False, iu_thread = False, iu_stop_event = False, iu_sample_count = 0\<rparr>"

text \<open>
  libiio, by device and channel: what exists, which channels have a \<open>sampling_frequency\<close>, and
  the calls that raise. \<open>io_str\<close> is how a float prints.
\<close>

record iio =
  io_context_error :: "py_error option"
  io_device :: "string \<Rightarrow> bool"
  io_channel :: "string \<Rightarrow> string \<Rightarrow> bool"
  io_enable_error :: "string \<Rightarrow> string \<Rightarrow> py_error option"
  io_has_rate :: "string \<Rightarrow> string \<Rightarrow> bool"
  io_rate_error :: "string \<Rightarrow> string \<Rightarrow> py_error option"
  io_buffer_error :: "string \<Rightarrow> py_error option"
  io_str :: "real \<Rightarrow> string"

text \<open>The channel loop: found, enabled, appended.\<close>

fun enable_channels :: "iio \<Rightarrow> string list \<Rightarrow> (imu_recorder, unit) meth" where
  "enable_channels io [] = m_return ()"
| "enable_channels io (name # names) =
     (\<lambda>r. if \<not> io_channel io (iu_device_id r) name then
            (Inl (RuntimeError (''IIO channel '' @ quoted name @ '' not found on device '' @ quoted (iu_device_id r))), r)
          else case io_enable_error io (iu_device_id r) name of
                 Some e \<Rightarrow> (Inl e, r)
               | None \<Rightarrow> enable_channels io names (r\<lparr>iu_channels := iu_channels r @ [name]\<rparr>))"

text \<open>
  The rate loop: channels without the attribute are skipped, a missing permission is
  remembered, any other \<open>OSError\<close> becomes a \<open>RuntimeError\<close>.
\<close>

fun set_rates :: "iio \<Rightarrow> imu_recorder \<Rightarrow> string list \<Rightarrow> bool \<Rightarrow> bool \<Rightarrow> (bool \<times> bool) res" where
  "set_rates io r [] set_on_any denied = Inr (set_on_any, denied)"
| "set_rates io r (c # cs) set_on_any denied =
     (if \<not> io_has_rate io (iu_device_id r) c then set_rates io r cs set_on_any denied
      else case io_rate_error io (iu_device_id r) c of
             None \<Rightarrow> set_rates io r cs True denied
           | Some (PermissionError _) \<Rightarrow> set_rates io r cs set_on_any True
           | Some e \<Rightarrow>
             Inl (if is_os_error e then
                    RuntimeError (''Failed to set sampling_frequency='' @ io_str io (iu_sampling_frequency r) @
                      '' on channel '' @ quoted c @ '' of '' @ quoted (iu_device_id r) @ '': '' @ error_text e)
                  else e))"

definition no_rate_channel :: "iio \<Rightarrow> imu_recorder \<Rightarrow> py_error" where
  "no_rate_channel io r =
     RuntimeError (''No channel on '' @ quoted (iu_device_id r) @ '' exposes a 'sampling_frequency' attribute (checked: '' @
       list_repr (iu_channels r) @ '') -- can't set sampling_frequency='' @ io_str io (iu_sampling_frequency r) @
       ''. Pass 0 to skip this and use the driver's default rate instead.'')"

definition set_sampling_frequency :: "iio \<Rightarrow> imu_recorder \<Rightarrow> unit res" where
  "set_sampling_frequency io r =
     (if iu_sampling_frequency r > 0 then
        res_bind (set_rates io r (iu_channels r) False False) (\<lambda>(set_on_any, denied).
          if \<not> set_on_any \<and> denied then Inr ()
          else if \<not> set_on_any then Inl (no_rate_channel io r) else Inr ())
      else Inr ())"

definition imu_open :: "iio \<Rightarrow> (imu_recorder, unit) meth" where
  "imu_open io r0 =
     (case io_context_error io of
        Some e \<Rightarrow> (Inl e, r0)
      | None \<Rightarrow>
        if \<not> io_device io (iu_device_id r0) then
          (Inl (RuntimeError (''IIO device '' @ quoted (iu_device_id r0) @ '' not found'')),
           r0\<lparr>iu_context := True, iu_device := False\<rparr>)
        else
          m_seq (m_modify (\<lambda>r. r\<lparr>iu_context := True, iu_device := True, iu_channels := []\<rparr>))
          (m_seq (enable_channels io (iu_channel_names r0))
          (m_seq (\<lambda>r. (set_sampling_frequency io r, r))
           (case io_buffer_error io (iu_device_id r0) of
              Some e \<Rightarrow> m_raise e
            | None \<Rightarrow> m_modify (\<lambda>r. r\<lparr>iu_buffer := True\<rparr>)))) r0)"

definition imu_close :: "(imu_recorder, unit) meth" where
  "imu_close = m_modify (\<lambda>r. r\<lparr>iu_buffer := False, iu_device := False, iu_context := False\<rparr>)"

definition imu_start :: "iio \<Rightarrow> (imu_recorder, unit) meth" where
  "imu_start io r0 =
     m_seq (if iu_device r0 then m_return () else imu_open io)
       (m_modify (\<lambda>r. r\<lparr>iu_stop_event := False, iu_thread := True\<rparr>)) r0"

definition imu_stop :: "(imu_recorder, unit) meth" where
  "imu_stop = m_modify (\<lambda>r. r\<lparr>iu_stop_event := True, iu_thread := False\<rparr>)"

section \<open>The polling loop\<close>

record imu_sample =
  is_index :: int
  is_x :: real
  is_y :: real
  is_z :: real
  is_host_ns :: int
  is_source :: string

text \<open>
  One turn: whether the stop event is set before it, the host time, and what reading each
  channel's \<open>raw\<close> attribute as a float gives.
\<close>

record poll_turn =
  po_stopped :: bool
  po_host_ns :: int
  po_raw :: "real res list"

text \<open>Unpacking the generator into three names reads at most four values.\<close>

fun unpack3 :: "real res list \<Rightarrow> (real \<times> real \<times> real) res" where
  "unpack3 (x # y # z # others) =
     res_bind x (\<lambda>x. res_bind y (\<lambda>y. res_bind z (\<lambda>z.
       case others of [] \<Rightarrow> Inr (x, y, z)
       | m # _ \<Rightarrow> res_bind m (\<lambda>_. Inl (ValueError ''too many values to unpack (expected 3)'')))))"
| "unpack3 [x, y] = res_bind x (\<lambda>x. res_bind y (\<lambda>y. Inl (ValueError ''not enough values to unpack (expected 3, got 2)'')))"
| "unpack3 [x] = res_bind x (\<lambda>x. Inl (ValueError ''not enough values to unpack (expected 3, got 1)''))"
| "unpack3 [] = Inl (ValueError ''not enough values to unpack (expected 3, got 0)'')"

definition scaled :: "real \<Rightarrow> real res \<Rightarrow> real res" where
  "scaled scale v = res_bind v (\<lambda>x. Inr (x * scale))"

text \<open>The locals: whether the warning was printed, and how often it was.\<close>

type_synonym 'w poll_state = "imu_recorder \<times> bool \<times> nat \<times> 'w"

definition poll_body :: "(imu_sample \<Rightarrow> ('w, unit) meth) \<Rightarrow> poll_turn \<Rightarrow> ('w poll_state, unit) meth" where
  "poll_body on_sample t s =
     (case s of (r, warned, warnings, w) \<Rightarrow>
        (case unpack3 (map (scaled (iu_scale r)) (po_raw t)) of
           Inl _ \<Rightarrow> (Inr (), (r, True, if warned then warnings else Suc warnings, w))
         | Inr (x, y, z) \<Rightarrow>
           (let r' = r\<lparr>iu_sample_count := iu_sample_count r + 1\<rparr>
            in case on_sample \<lparr>is_index = iu_sample_count r', is_x = x, is_y = y, is_z = z,
                      is_host_ns = po_host_ns t, is_source = ''poll''\<rparr> w of
                 (res, w') \<Rightarrow> (res, (r', warned, warnings, w')))))"

fun poll_loop :: "(imu_sample \<Rightarrow> ('w, unit) meth) \<Rightarrow> poll_turn list \<Rightarrow> ('w poll_state, unit) meth" where
  "poll_loop on_sample [] = m_return ()"
| "poll_loop on_sample (t # ts) =
     (if po_stopped t then m_return () else m_seq (poll_body on_sample t) (poll_loop on_sample ts))"

section \<open>Opening\<close>

text \<open>The channels can all be found and enabled.\<close>

definition channels_ok :: "iio \<Rightarrow> imu_recorder \<Rightarrow> string list \<Rightarrow> bool" where
  "channels_ok io r names \<longleftrightarrow>
     (\<forall>n \<in> set names. io_channel io (iu_device_id r) n \<and> io_enable_error io (iu_device_id r) n = None)"

lemma enable_channels_iff:
  "enable_channels io names r = (Inr u, r') \<longleftrightarrow>
     channels_ok io r names \<and> r' = r\<lparr>iu_channels := iu_channels r @ names\<rparr>"
proof (induction names arbitrary: r)
  case (Cons n names)
  show ?case
    using Cons.IH [of "r\<lparr>iu_channels := iu_channels r @ [n]\<rparr>"]
    by (auto simp: channels_ok_def split: option.splits)
qed (auto simp: channels_ok_def)

lemma enable_channels_frame:
  "enable_channels io names r = (res, r') \<Longrightarrow> iu_thread r' = iu_thread r"
proof (induction names arbitrary: r)
  case (Cons n names)
  then show ?case using Cons.IH [of "r\<lparr>iu_channels := iu_channels r @ [n]\<rparr>"]
    by (auto split: if_splits option.splits)
qed simp

text \<open>The rates can be set, or only permissions are missing; and there is a rate to set.\<close>

definition rates_ok :: "iio \<Rightarrow> imu_recorder \<Rightarrow> string list \<Rightarrow> bool" where
  "rates_ok io r cs \<longleftrightarrow>
     (\<forall>c \<in> set cs. io_has_rate io (iu_device_id r) c \<longrightarrow>
        io_rate_error io (iu_device_id r) c = None \<or>
        (\<exists>m. io_rate_error io (iu_device_id r) c = Some (PermissionError m)))"

lemma set_rates_iff:
  "set_rates io r cs any denied = Inr (any', denied') \<longleftrightarrow>
     rates_ok io r cs \<and>
     any' = (any \<or> (\<exists>c \<in> set cs. io_has_rate io (iu_device_id r) c \<and> io_rate_error io (iu_device_id r) c = None)) \<and>
     denied' = (denied \<or> (\<exists>c \<in> set cs. io_has_rate io (iu_device_id r) c \<and>
        (\<exists>m. io_rate_error io (iu_device_id r) c = Some (PermissionError m))))"
proof (induction cs arbitrary: any denied)
  case (Cons c cs)
  show ?case
  proof (cases "io_has_rate io (iu_device_id r) c")
    case True
    show ?thesis
      using True Cons.IH [of True denied] Cons.IH [of any True]
      by (cases "io_rate_error io (iu_device_id r) c") (auto simp: rates_ok_def split: py_error.split)
  qed (use Cons.IH in \<open>auto simp: rates_ok_def\<close>)
qed (auto simp: rates_ok_def)

lemma set_sampling_frequency_iff:
  "set_sampling_frequency io r = Inr u \<longleftrightarrow>
     (iu_sampling_frequency r > 0 \<longrightarrow>
        rates_ok io r (iu_channels r) \<and> (\<exists>c \<in> set (iu_channels r). io_has_rate io (iu_device_id r) c))"
proof (cases "iu_sampling_frequency r > 0")
  case True
  let ?any = "\<exists>c \<in> set (iu_channels r). io_has_rate io (iu_device_id r) c \<and> io_rate_error io (iu_device_id r) c = None"
  let ?den = "\<exists>c \<in> set (iu_channels r). io_has_rate io (iu_device_id r) c \<and>
        (\<exists>m. io_rate_error io (iu_device_id r) c = Some (PermissionError m))"
  have "set_sampling_frequency io r = Inr u \<longleftrightarrow> rates_ok io r (iu_channels r) \<and> (?any \<or> ?den)"
    using True by (auto simp: set_sampling_frequency_def res_bind_Inr_iff set_rates_iff split: if_splits)
  moreover have "rates_ok io r (iu_channels r) \<Longrightarrow>
      (?any \<or> ?den) = (\<exists>c \<in> set (iu_channels r). io_has_rate io (iu_device_id r) c)"
    by (auto simp: rates_ok_def)
  ultimately show ?thesis using True by blast
qed (simp add: set_sampling_frequency_def)

text \<open>
  When an IMU opens: exactly if the IIO context, the device and every configured channel
  exist and can be enabled, the wake-up buffer can be created, and, where a rate is asked for,
  some channel has the attribute and setting it fails on none but for a missing permission.
  Then all channels are enabled and the buffer is held; a missing permission alone is never
  fatal, any other failure always is.
\<close>

theorem imu_opens_iff:
  "(\<exists>r'. imu_open io r = (Inr (), r')) \<longleftrightarrow>
     io_context_error io = None \<and> io_device io (iu_device_id r) \<and>
     channels_ok io r (iu_channel_names r) \<and> io_buffer_error io (iu_device_id r) = None \<and>
     (iu_sampling_frequency r \<le> 0 \<or>
      rates_ok io r (iu_channel_names r) \<and> (\<exists>c \<in> set (iu_channel_names r). io_has_rate io (iu_device_id r) c))"
  (is "?opens \<longleftrightarrow> ?ok")
proof -
  let ?r1 = "r\<lparr>iu_context := True, iu_device := True, iu_channels := []\<rparr>"
  let ?r2 = "?r1\<lparr>iu_channels := iu_channel_names r\<rparr>"
  have fields: "channels_ok io ?r1 names = channels_ok io r names" "rates_ok io ?r2 cs = rates_ok io r cs" for names cs
    by (simp_all add: channels_ok_def rates_ok_def)
  have en: "enable_channels io (iu_channel_names r) ?r1 = (Inr u, r') \<longleftrightarrow>
      channels_ok io r (iu_channel_names r) \<and> r' = ?r2" for u r'
    by (simp add: enable_channels_iff fields)
  have fr: "set_sampling_frequency io ?r2 = Inr u \<longleftrightarrow> (iu_sampling_frequency r \<le> 0 \<or>
      rates_ok io r (iu_channel_names r) \<and> (\<exists>c \<in> set (iu_channel_names r). io_has_rate io (iu_device_id r) c))" for u
    unfolding set_sampling_frequency_iff fields by auto
  show ?thesis
  proof (cases "io_context_error io = None \<and> io_device io (iu_device_id r)")
    case False
    then show ?thesis by (auto simp: imu_open_def split: option.split)
  next
    case True
    then have "?opens \<longleftrightarrow> (\<exists>r2. enable_channels io (iu_channel_names r) ?r1 = (Inr (), r2) \<and>
        set_sampling_frequency io r2 = Inr () \<and> io_buffer_error io (iu_device_id r) = None)"
      by (auto simp: imu_open_def m_seq_def m_bind_Inr_iff split: option.split)
    then show ?thesis unfolding en using fr True by blast
  qed
qed

end
