(* ===== verification/Device_Driver.thy ===== *)
theory Device_Driver imports Prelude begin

text \<open>
  What the rigs of \<open>dataset_collection/rgb_rig.py\<close> and \<open>event_rig.py\<close> share: a dictionary of
  recorders that is started in order, unwound when one of them does not start, and stopped.
  The contract a recorder keeps is a locale; the recorders interpret it.
\<close>

section \<open>Starting and stopping a dictionary of recorders\<close>

definition on_recorder :: "string \<Rightarrow> ('r, 'a) meth \<Rightarrow> (string \<Rightarrow> 'r, 'a) meth" where
  "on_recorder name m rs = (case m (rs name) of (res, r) \<Rightarrow> (res, rs(name := r)))"

text \<open>The exception that ended the loop, if any, and the names that were started before it.\<close>

fun start_each ::
    "('r, unit) meth \<Rightarrow> string list \<Rightarrow> string list \<Rightarrow> (string \<Rightarrow> 'r) \<Rightarrow>
     (py_error option \<times> string list) \<times> (string \<Rightarrow> 'r)" where
  "start_each start [] started rs = ((None, started), rs)"
| "start_each start (n # ns) started rs =
     (case on_recorder n start rs of
        (Inl e, rs') \<Rightarrow> ((Some e, started), rs')
      | (Inr _, rs') \<Rightarrow> start_each start ns (started @ [n]) rs')"

definition stop_each ::
    "('r, unit) meth \<Rightarrow> ('r, unit) meth \<Rightarrow> string list \<Rightarrow> (string \<Rightarrow> 'r, unit) meth" where
  "stop_each stop close names = m_for names (\<lambda>n. m_seq (on_recorder n stop) (on_recorder n close))"

definition rig_start ::
    "('r, unit) meth \<Rightarrow> ('r, unit) meth \<Rightarrow> ('r, unit) meth \<Rightarrow> string list \<Rightarrow> (string \<Rightarrow> 'r, unit) meth" where
  "rig_start start stop close names rs =
     (case start_each start names [] rs of
        ((None, _), rs') \<Rightarrow> (Inr (), rs')
      | ((Some e, started), rs') \<Rightarrow> m_seq (stop_each stop close started) (m_raise e) rs')"

section \<open>The contract of a recorder\<close>

text \<open>
  A recorder is idle when it has no thread and its device does not acquire. A start that
  raises leaves an idle recorder idle, and stopping and closing never raise and leave any
  recorder idle.
\<close>

locale recorder_driver =
  fixes start stop close :: "('r, unit) meth" and idle :: "'r \<Rightarrow> bool"
  assumes start_raises: "idle r \<Longrightarrow> start r = (Inl e, r') \<Longrightarrow> idle r'"
    and stop_returns: "fst (stop r) = Inr ()"
    and close_returns: "fst (close r) = Inr ()"
    and stop_close_idle: "idle (snd (close (snd (stop r))))"
    and stop_idle: "idle (snd (stop r))"
begin

lemma stop_close_run:
  "m_seq (on_recorder n stop) (on_recorder n close) rs =
     (Inr (), rs(n := snd (close (snd (stop (rs n))))))"
proof -
  obtain r1 where r1: "stop (rs n) = (Inr (), r1)" using stop_returns [of "rs n"] by (metis prod.collapse)
  obtain r2 where r2: "close r1 = (Inr (), r2)" using close_returns [of r1] by (metis prod.collapse)
  show ?thesis by (simp add: m_seq_def m_bind_def on_recorder_def r1 r2)
qed

lemma stop_each_run:
  "\<exists>rs'. stop_each stop close names rs = (Inr (), rs') \<and> (\<forall>n \<in> set names. idle (rs' n)) \<and>
     (\<forall>n. n \<notin> set names \<longrightarrow> rs' n = rs n)"
proof (induction names arbitrary: rs)
  case Nil
  then show ?case by (simp add: stop_each_def)
next
  case (Cons n names)
  let ?rs = "rs(n := snd (close (snd (stop (rs n)))))"
  obtain rs' where rs': "stop_each stop close names ?rs = (Inr (), rs')" "\<forall>k \<in> set names. idle (rs' k)"
      "\<forall>k. k \<notin> set names \<longrightarrow> rs' k = ?rs k"
    using Cons.IH by blast
  have "stop_each stop close (n # names) rs = (Inr (), rs')"
    using rs'(1) by (simp add: stop_each_def m_bind_def stop_close_run)
  moreover have "idle (rs' n)" using rs'(2,3) stop_close_idle by (cases "n \<in> set names") simp_all
  ultimately show ?case using rs'(2,3) by auto
qed

lemma start_each_props:
  assumes "start_each start names started rs = ((out, started'), rs')"
  shows "(\<forall>n. n \<notin> set names \<longrightarrow> rs' n = rs n) \<and> set started' \<subseteq> set started \<union> set names \<and>
    set started \<subseteq> set started'"
  using assms
proof (induction names arbitrary: started rs)
  case (Cons n names)
  obtain res r where run: "start (rs n) = (res, r)" by (cases "start (rs n)")
  show ?case
  proof (cases res)
    case (Inl e)
    then show ?thesis using Cons.prems run by (auto simp: on_recorder_def)
  next
    case (Inr u)
    then have "start_each start names (started @ [n]) (rs(n := r)) = ((out, started'), rs')"
      using Cons.prems run by (simp add: on_recorder_def)
    from Cons.IH [OF this] show ?thesis by auto
  qed
qed simp

lemma start_each_fails:
  assumes "start_each start names started rs = ((Some e, started'), rs')"
    and "\<forall>n \<in> set names. idle (rs n)" and "distinct names"
  shows "\<forall>n \<in> set names. idle (rs' n) \<or> n \<in> set started'"
  using assms
proof (induction names arbitrary: started rs)
  case (Cons n names)
  obtain res r where run: "start (rs n) = (res, r)" by (cases "start (rs n)")
  show ?case
  proof (cases res)
    case (Inl e')
    then have "rs' = rs(n := r)" using Cons.prems(1) run by (auto simp: on_recorder_def)
    then show ?thesis using start_raises run Inl Cons.prems(2) by auto
  next
    case (Inr u)
    then have rest: "start_each start names (started @ [n]) (rs(n := r)) = ((Some e, started'), rs')"
      using Cons.prems(1) run by (simp add: on_recorder_def)
    have "\<forall>k \<in> set names. idle ((rs(n := r)) k)" using Cons.prems(2,3) by auto
    from Cons.IH [OF rest this] Cons.prems(3) show ?thesis using start_each_props [OF rest] by auto
  qed
qed simp

text \<open>A rig that does not start leaves every one of its recorders idle, and raises the cause.\<close>

lemma rig_start_unwinds:
  assumes "\<forall>n \<in> set names. idle (rs n)" and "distinct names"
    and "rig_start start stop close names rs = (Inl e, rs')"
  shows "\<forall>n \<in> set names. idle (rs' n)" and "\<exists>n \<in> set names. \<exists>r r'. start r = (Inl e, r')"
proof -
  obtain out started rs1 where run: "start_each start names [] rs = ((out, started), rs1)"
    by (metis prod.collapse)
  obtain e' where out: "out = Some e'" using assms(3) run by (cases out) (simp_all add: rig_start_def)
  obtain rs2 where rs2: "stop_each stop close started rs1 = (Inr (), rs2)" "\<forall>n \<in> set started. idle (rs2 n)"
      "\<forall>n. n \<notin> set started \<longrightarrow> rs2 n = rs1 n"
    using stop_each_run by blast
  have res: "e' = e" "rs' = rs2"
    using assms(3) run out rs2(1) by (simp_all add: rig_start_def m_seq_def m_bind_def)
  show "\<forall>n \<in> set names. idle (rs' n)"
    using start_each_fails [OF run [unfolded out] assms(1,2)] rs2(2,3) unfolding res(2) by metis
  have "start_each start ns st rs = ((Some e', st'), rs'') \<Longrightarrow> \<exists>n \<in> set ns. \<exists>r r'. start r = (Inl e', r')" for ns st st' rs''
  proof (induction ns arbitrary: st rs)
    case (Cons n ns)
    obtain q r where q: "start (rs n) = (q, r)" by (cases "start (rs n)")
    show ?case
    proof (cases q)
      case (Inl f)
      then show ?thesis using Cons.prems q by (auto simp: on_recorder_def)
    next
      case (Inr u)
      then have "start_each start ns (st @ [n]) (rs(n := r)) = ((Some e', st'), rs'')"
        using Cons.prems q by (simp add: on_recorder_def)
      from Cons.IH [OF this] show ?thesis by auto
    qed
  qed simp
  from this [OF run [unfolded out]] show "\<exists>n \<in> set names. \<exists>r r'. start r = (Inl e, r')" using res(1) by simp
qed

lemma rig_start_frame:
  "rig_start start stop close names rs = (res, rs') \<Longrightarrow> n \<notin> set names \<Longrightarrow> rs' n = rs n"
proof -
  assume run: "rig_start start stop close names rs = (res, rs')" "n \<notin> set names"
  obtain out started rs1 where s: "start_each start names [] rs = ((out, started), rs1)"
    by (metis prod.collapse)
  note props = start_each_props [OF s]
  obtain rs2 where rs2: "stop_each stop close started rs1 = (Inr (), rs2)"
      "\<forall>n. n \<notin> set started \<longrightarrow> rs2 n = rs1 n"
    using stop_each_run by blast
  show ?thesis
    using run s props rs2 by (cases out) (auto simp: rig_start_def m_seq_def m_bind_def)
qed

end

end
