(* ===== verification/Recording_Files.thy ===== *)
theory Recording_Files imports Config_Layout begin

text \<open>
  \<open>make_output_dir\<close> of \<open>dataset_collection/dataset_writer.py\<close>: the numbered output directories.
  A directory tree is the list of the paths that exist; the calls of the operating system that
  fail are the parameter \<open>fails\<close>.
\<close>

section \<open>Numbered output directories\<close>

type_synonym file_tree = "string list"

definition path_norm :: "string \<Rightarrow> string" where
  "path_norm p = path_str (path_root p) (path_parts p)"

text \<open>The directories that \<open>mkdir(parents=True)\<close> creates where they are missing.\<close>

definition path_chain :: "string \<Rightarrow> string list" where
  "path_chain p = map (\<lambda>k. path_str (path_root p) (take k (path_parts p))) [1..<length (path_parts p)]"

definition mkdir_parents :: "(string \<Rightarrow> py_error option) \<Rightarrow> bool \<Rightarrow> string \<Rightarrow> (file_tree, unit) meth" where
  "mkdir_parents fails exist_ok p tree =
     (case fails p of
        Some e \<Rightarrow> (Inl e, tree)
      | None \<Rightarrow>
        if p \<in> set tree then (if exist_ok then (Inr (), tree) else (Inl (OSError ''File exists''), tree))
        else (Inr (), p # path_chain p @ tree))"

definition candidate_name :: "string \<Rightarrow> nat \<Rightarrow> string" where
  "candidate_name name counter = (if counter = 1 then name else name @ ''_'' @ nat_str counter)"

definition candidate :: "string \<Rightarrow> string \<Rightarrow> nat \<Rightarrow> string" where
  "candidate base name counter = path_join base (candidate_name name counter)"

lemma candidate_inj: "candidate base name i = candidate base name j \<Longrightarrow> i = j"
  unfolding candidate_def candidate_name_def
  by (drule path_join_inj) (auto split: if_splits dest: nat_str_inj)

text \<open>\<open>while candidate.exists(): counter += 1\<close>.\<close>

function next_counter :: "file_tree \<Rightarrow> string \<Rightarrow> string \<Rightarrow> nat \<Rightarrow> nat" where
  "next_counter tree base name counter =
     (if candidate base name counter \<in> set tree then next_counter tree base name (Suc counter) else counter)"
  by pat_completeness auto
termination
proof (relation "measure (\<lambda>(tree, base, name, counter). card {p \<in> set tree. \<exists>k \<ge> counter. p = candidate base name k})")
  fix tree base name counter
  assume "candidate base name counter \<in> set tree"
  then have "{p \<in> set tree. \<exists>k \<ge> Suc counter. p = candidate base name k} \<subset>
      {p \<in> set tree. \<exists>k \<ge> counter. p = candidate base name k}"
  proof (intro psubsetI subsetI notI)
    assume eq: "{p \<in> set tree. \<exists>k \<ge> Suc counter. p = candidate base name k} =
      {p \<in> set tree. \<exists>k \<ge> counter. p = candidate base name k}"
    have "candidate base name counter \<in> {p \<in> set tree. \<exists>k \<ge> Suc counter. p = candidate base name k}"
      unfolding eq using \<open>candidate base name counter \<in> set tree\<close> by blast
    then show False by (auto dest: candidate_inj)
  qed (auto dest: Suc_leD)
  then show "((tree, base, name, Suc counter), (tree, base, name, counter)) \<in>
      measure (\<lambda>(tree, base, name, counter). card {p \<in> set tree. \<exists>k \<ge> counter. p = candidate base name k})"
    by (simp add: psubset_card_mono)
qed simp

declare next_counter.simps [simp del]

definition make_output_dir :: "(string \<Rightarrow> py_error option) \<Rightarrow> string \<Rightarrow> string \<Rightarrow> (file_tree, string) meth" where
  "make_output_dir fails base name =
     m_seq (mkdir_parents fails True (path_norm base))
       (m_bind (m_gets (\<lambda>tree. candidate base name (next_counter tree base name 1))) (\<lambda>dir.
        m_seq (mkdir_parents fails False dir) (m_return dir)))"

lemma next_counter_free: "candidate base name (next_counter tree base name n) \<notin> set tree"
  by (induction tree base name n rule: next_counter.induct)
    (subst next_counter.simps, simp)

lemma next_counter_least:
  "n \<le> next_counter tree base name n \<and>
   (\<forall>j. n \<le> j \<longrightarrow> j < next_counter tree base name n \<longrightarrow> candidate base name j \<in> set tree)"
proof (induction tree base name n rule: next_counter.induct)
  case (1 tree base name n)
  show ?case
  proof (cases "candidate base name n \<in> set tree")
    case True
    then have "next_counter tree base name n = next_counter tree base name (Suc n)"
      by (subst next_counter.simps) simp
    then show ?thesis using 1 [OF True] True by (metis Suc_leD le_eq_less_or_eq Suc_leI)
  next
    case False
    then have "next_counter tree base name n = n" by (subst next_counter.simps) simp
    then show ?thesis by simp
  qed
qed

lemma mkdir_result:
  "mkdir_parents fails ok p tree = (Inr u, tree') \<Longrightarrow> p \<in> set tree' \<and> set tree \<subseteq> set tree'"
  by (auto simp: mkdir_parents_def split: option.splits if_splits)



end
