(* ===== verification/Recording_Rigs.thy ===== *)
theory Recording_Rigs
  imports Basler_Recorder Event_Recorder Imu_Recorder Device_Driver Csv_Log Recording_Files
begin

text \<open>
  \<open>dataset_collection/rgb_rig.py\<close> and \<open>event_rig.py\<close>: the serial numbers of
  \<open>camera_info.yaml\<close>, the two rigs with their writers, what their callbacks write, and their
  start and stop, which are those of \<open>Device_Driver\<close> on the two recorders.
\<close>

section \<open>Serial numbers\<close>

definition camera_names :: "string list" where
  "camera_names = [''RGB1'', ''RGB2'', ''RGB3'', ''RGB4'']"

definition event_camera_names :: "string list" where
  "event_camera_names = [''Event1'', ''Event2'']"

text \<open>\<open>camera_info.get(section, []) or []\<close>, iterated over.\<close>

definition section_entries :: "pyval \<Rightarrow> string \<Rightarrow> pyval list res" where
  "section_entries camera_info sect =
     res_bind (py_get camera_info sect (PList [])) (\<lambda>es. py_iter (py_or es (PList [])))"

text \<open>\<open>entry.get("serial_number") or ""\<close>.\<close>

definition entry_serial :: "pyval \<Rightarrow> pyval res" where
  "entry_serial entry = res_bind (py_get entry ''serial_number'' PNone) (\<lambda>s. Inr (py_or s (PStr [])))"

fun resolve_entries :: "string list \<Rightarrow> pyval list \<Rightarrow> (string \<rightharpoonup> pyval) \<Rightarrow> (string \<rightharpoonup> pyval) res" where
  "resolve_entries names [] serials = Inr serials"
| "resolve_entries names (entry # entries) serials =
     res_bind (py_get entry ''name'' PNone) (\<lambda>name.
       case find (\<lambda>n. PStr n = name) names of
         None \<Rightarrow> resolve_entries names entries serials
       | Some n \<Rightarrow> res_bind (entry_serial entry) (\<lambda>s. resolve_entries names entries (serials(n \<mapsto> s))))"

definition resolve_camera_serials :: "pyval \<Rightarrow> (string \<rightharpoonup> pyval) res" where
  "resolve_camera_serials camera_info =
     res_bind (section_entries camera_info ''cameras'') (\<lambda>es. resolve_entries camera_names es Map.empty)"

definition resolve_event_camera_serials :: "pyval \<Rightarrow> (string \<rightharpoonup> pyval) res" where
  "resolve_event_camera_serials camera_info =
     res_bind (section_entries camera_info ''event_cameras'') (\<lambda>es. resolve_entries event_camera_names es Map.empty)"

text \<open>\<open>[name for name in NAMES if serials.get(name)]\<close>.\<close>

definition active_names :: "string list \<Rightarrow> (string \<rightharpoonup> pyval) \<Rightarrow> string list" where
  "active_names names serials =
     filter (\<lambda>n. case serials n of None \<Rightarrow> False | Some v \<Rightarrow> truthy v) names"

fun find_in_entries :: "string \<Rightarrow> pyval list \<Rightarrow> pyval option res" where
  "find_in_entries name [] = Inr None"
| "find_in_entries name (entry # entries) =
     res_bind (py_get entry ''name'' PNone) (\<lambda>n.
       if n = PStr name then res_bind (entry_serial entry) (\<lambda>s. Inr (Some (py_or s PNone)))
       else find_in_entries name entries)"

text \<open>The first entry of that name in either section; no serial yet and no entry are both \<open>None\<close>.\<close>

definition find_camera_serial :: "pyval \<Rightarrow> string \<Rightarrow> pyval res" where
  "find_camera_serial camera_info name =
     res_bind (section_entries camera_info ''cameras'') (\<lambda>cs.
     res_bind (find_in_entries name cs) (\<lambda>found.
       case found of Some v \<Rightarrow> Inr v
       | None \<Rightarrow>
         res_bind (section_entries camera_info ''event_cameras'') (\<lambda>es.
         res_bind (find_in_entries name es) (\<lambda>found.
           Inr (case found of Some v \<Rightarrow> v | None \<Rightarrow> PNone)))))"

section \<open>The RGB rig\<close>

definition timestamps_fieldnames :: "string list" where
  "timestamps_fieldnames =
     [''index'', ''filename'', ''camera_timestamp_ticks'', ''exposure_host_ns'', ''arrival_host_ns'',
      ''disk_write_complete_ns'', ''wall_time_iso'']"

text \<open>A rig: its active names, their recorders, and for each name the saved images and the log.\<close>

record 'i rgb_rig =
  rr_names :: "string list"
  rr_recorders :: "string \<Rightarrow> basler"
  rr_images :: "string \<Rightarrow> (string \<times> 'i) list"
  rr_logs :: "string \<Rightarrow> csv_log"

definition serial_text :: "(pyval \<Rightarrow> string) \<Rightarrow> (string \<rightharpoonup> pyval) \<Rightarrow> string \<Rightarrow> string" where
  "serial_text repr serials name = (case serials name of None \<Rightarrow> [] | Some v \<Rightarrow> py_str repr v)"

definition new_rgb_rig ::
    "(string \<Rightarrow> py_error option) \<Rightarrow> (pyval \<Rightarrow> string) \<Rightarrow> string \<Rightarrow> (string \<rightharpoonup> pyval) \<Rightarrow> real \<Rightarrow> real \<Rightarrow> real \<Rightarrow>
     (file_tree, 'i rgb_rig) meth" where
  "new_rgb_rig fails repr output_dir serials fps exposure_us gain =
     (let names = active_names camera_names serials
      in m_seq (m_for names (\<lambda>n. mkdir_parents fails False (path_join (path_join output_dir n) ''images'')))
           (m_return \<lparr>rr_names = names,
              rr_recorders = \<lambda>n. new_basler (serial_text repr serials n) exposure_us gain fps,
              rr_images = \<lambda>_. [], rr_logs = \<lambda>_. new_csv timestamps_fieldnames\<rparr>))"

definition frame_filename :: "int \<Rightarrow> string" where
  "frame_filename index = zpad 6 (int_str index) @ ''.png''"

definition frame_row :: "(int \<Rightarrow> int) \<Rightarrow> (int \<Rightarrow> string) \<Rightarrow> 'i basler_frame \<Rightarrow> (string \<times> string) list" where
  "frame_row disk_ns wall f =
     [(''index'', int_str (bf_index f)), (''filename'', frame_filename (bf_index f)),
      (''camera_timestamp_ticks'', int_str (bf_ticks f)), (''exposure_host_ns'', int_str (bf_exposure_ns f)),
      (''arrival_host_ns'', int_str (bf_arrival_ns f)), (''disk_write_complete_ns'', int_str (disk_ns (bf_index f))),
      (''wall_time_iso'', wall (bf_index f))]"

text \<open>The callback of a camera: the image, then its row. The two clocks are read per frame.\<close>

definition rgb_on_frame ::
    "(int \<Rightarrow> int) \<Rightarrow> (int \<Rightarrow> string) \<Rightarrow> 'i basler_frame \<Rightarrow> ((string \<times> 'i) list \<times> csv_log, unit) meth" where
  "rgb_on_frame disk_ns wall f w =
     (case w of (images, file) \<Rightarrow>
        (case csv_write (frame_row disk_ns wall f) file of
           (res, file') \<Rightarrow> (res, (images @ [(frame_filename (bf_index f), bf_image f)], file'))))"

definition on_rgb_recorders :: "(string \<Rightarrow> basler, 'a) meth \<Rightarrow> ('i rgb_rig, 'a) meth" where
  "on_rgb_recorders m rig =
     (case m (rr_recorders rig) of (res, rs) \<Rightarrow> (res, rig\<lparr>rr_recorders := rs\<rparr>))"

definition rgb_rig_start :: "pylon \<Rightarrow> ('i rgb_rig, unit) meth" where
  "rgb_rig_start py rig =
     on_rgb_recorders (rig_start (basler_start py) basler_stop basler_close (rr_names rig)) rig"

definition rgb_rig_stop :: "('i rgb_rig, unit) meth" where
  "rgb_rig_stop rig =
     m_seq (on_rgb_recorders (stop_each basler_stop basler_close (rr_names rig)))
       (m_modify (\<lambda>g. g\<lparr>rr_logs := \<lambda>n. if n \<in> set (rr_names g) then csv_close (rr_logs g n) else rr_logs g n\<rparr>)) rig"

section \<open>The event rig\<close>

record event_rig =
  er_names :: "string list"
  er_recorders :: "string \<Rightarrow> event_recorder"
  er_writers :: "string \<Rightarrow> event_writer"
  er_bounds :: "string \<Rightarrow> int option \<times> int option"

definition new_event_rig ::
    "(string \<Rightarrow> py_error option) \<Rightarrow> (pyval \<Rightarrow> string) \<Rightarrow> string \<Rightarrow> (string \<rightharpoonup> pyval) \<Rightarrow> string \<Rightarrow> (file_tree, event_rig) meth" where
  "new_event_rig fails repr output_dir serials bias_file =
     (let names = active_names event_camera_names serials
      in m_seq (m_for names (\<lambda>n. mkdir_parents fails False (path_join output_dir n)))
           (m_return \<lparr>er_names = names,
              er_recorders = \<lambda>n. new_event_recorder (serial_text repr serials n) bias_file,
              er_writers = \<lambda>_. new_event_writer, er_bounds = \<lambda>_. (None, None)\<rparr>))"

text \<open>The callback of an event camera: the records, then the bounds of the non-empty batches.\<close>

definition rig_on_events :: "event_batch \<Rightarrow> (event_writer \<times> int option \<times> int option, unit) meth" where
  "rig_on_events batch s =
     (case s of (w, first_ns, last_ns) \<Rightarrow>
        (case write_batch batch w of
           (Inl e, w') \<Rightarrow> (Inl e, (w', first_ns, last_ns))
         | (Inr _, w') \<Rightarrow>
           if eb_host_ns batch = [] then (Inr (), (w', first_ns, last_ns))
           else (Inr (), (w', (case first_ns of None \<Rightarrow> Some (Min (sint ` set (eb_host_ns batch))) | Some v \<Rightarrow> Some v),
                          Some (Max (sint ` set (eb_host_ns batch)))))))"

definition on_event_recorders :: "(string \<Rightarrow> event_recorder, 'a) meth \<Rightarrow> (event_rig, 'a) meth" where
  "on_event_recorders m rig =
     (case m (er_recorders rig) of (res, rs) \<Rightarrow> (res, rig\<lparr>er_recorders := rs\<rparr>))"

definition event_rig_start :: "metavision \<Rightarrow> (event_rig, unit) meth" where
  "event_rig_start mv rig =
     on_event_recorders (rig_start (stream_events mv) event_stop event_close (er_names rig)) rig"

definition event_rig_stop :: "(event_rig, unit) meth" where
  "event_rig_stop rig =
     m_seq (on_event_recorders (stop_each event_stop event_close (er_names rig)))
       (m_modify (\<lambda>g. g\<lparr>er_writers := \<lambda>n. if n \<in> set (er_names g) then close_writer (er_writers g n) else er_writers g n\<rparr>)) rig"

section \<open>The recorders keep the contract\<close>

definition basler_idle :: "basler \<Rightarrow> bool" where
  "basler_idle r \<longleftrightarrow> \<not> ba_thread r \<and> \<not> is_grabbing r"

definition event_idle :: "event_recorder \<Rightarrow> bool" where
  "event_idle r \<longleftrightarrow> \<not> ev_stream_thread r \<and> \<not> ev_running r"

definition imu_idle :: "imu_recorder \<Rightarrow> bool" where
  "imu_idle r \<longleftrightarrow> \<not> iu_thread r"

lemma sdk_keeps: "(\<And>r. P r \<Longrightarrow> P (f r)) \<Longrightarrow> keeps P (sdk_call failure f)"
  unfolding sdk_call_def by (cases failure) (auto intro: keeps_rules keeps_modify)

lemma idle_on_camera:
  "(\<And>c. \<not> ic_grabbing c \<Longrightarrow> \<not> ic_grabbing (f c)) \<Longrightarrow> basler_idle r \<Longrightarrow> basler_idle (on_camera f r)"
  by (auto simp: basler_idle_def is_grabbing_def on_camera_def split: option.splits)

lemma set_feature_idle: "keeps basler_idle (set_feature py d name v)"
  unfolding set_feature_def by (rule sdk_keeps) (rule idle_on_camera, simp_all)

lemma basler_open_idle: "basler_idle r \<Longrightarrow> basler_open py r = (res, r') \<Longrightarrow> basler_idle r'"
proof -
  assume idle: "basler_idle r" and run: "basler_open py r = (res, r')"
  have fresh: "keeps basler_idle (m_modify (\<lambda>r. (let_go r)\<lparr>ba_camera := Some \<lparr>ic_device = d, ic_is_open = False,
      ic_grabbing = False, ic_features = []\<rparr>\<rparr>))" for d
    by (rule keeps_modify) (simp add: basler_idle_def is_grabbing_def let_go_def)
  have features: "keeps basler_idle (m_for fs (\<lambda>(name, v). set_feature py d name v))" for fs d
    by (rule keeps_for) (auto intro: set_feature_idle)
  have opened: "keeps basler_idle (sdk_call failure (on_camera (\<lambda>c. c\<lparr>ic_is_open := True\<rparr>)))" for failure
    by (rule sdk_keeps) (rule idle_on_camera, simp_all)
  have serial: "keeps basler_idle (m_modify (\<lambda>r. r\<lparr>ba_serial := s\<rparr>))" for s
    by (rule keeps_modify) (simp add: basler_idle_def is_grabbing_def)
  have anchor: "keeps basler_idle (m_modify (\<lambda>r. let p = period in r\<lparr>ba_converter := True, ba_ns_per_tick := p,
      ba_anchor := new_clock_anchor (if p \<noteq> 0 then p else 1) 16\<rparr>))" for period
    by (rule keeps_modify) (simp add: basler_idle_def is_grabbing_def Let_def)
  show ?thesis
  proof (cases "py_create_device py (ba_serial r)")
    case (Inl e)
    then show ?thesis using run idle by (simp add: basler_open_def)
  next
    case (Inr d)
    have "keeps basler_idle (case choose_format (py_pixel_formats py d) of
        None \<Rightarrow> m_raise (RuntimeError (''No supported 8-bit Bayer pixel format found for camera '' @
                  py_serial_number py d @ ''; available formats: '' @ list_repr (py_pixel_formats py d)))
      | Some pixel_format \<Rightarrow>
        m_seq (m_for (camera_features r pixel_format) (\<lambda>(name, v). set_feature py d name v))
         (m_modify (\<lambda>r. let period = tick_period (py_tick_frequency py d)
            in r\<lparr>ba_converter := True, ba_ns_per_tick := period,
                 ba_anchor := new_clock_anchor (if period \<noteq> 0 then period else 1) 16\<rparr>)))"
      by (cases "choose_format (py_pixel_formats py d)") (auto intro: keeps_rules features anchor)
    then show ?thesis
      using run idle keepsE [OF keeps_seq [OF fresh keeps_seq [OF opened keeps_seq [OF serial]]]]
      unfolding basler_open_def Inr sum.case by blast
  qed
qed

lemma basler_start_raises: "basler_idle r \<Longrightarrow> basler_start py r = (Inl e, r') \<Longrightarrow> basler_idle r'"
proof -
  assume idle: "basler_idle r" and run: "basler_start py r = (Inl e, r')"
  obtain q r1 where o: "(if ba_camera r = None then basler_open py else m_return ()) r = (q, r1)"
    by (metis prod.collapse)
  have r1: "basler_idle r1" using idle o basler_open_idle by (auto split: if_splits)
  have "basler_idle (r1\<lparr>ba_stop_event := False\<rparr>)" using r1 by (simp add: basler_idle_def is_grabbing_def)
  then show ?thesis
    using run o r1
    by (cases q) (auto simp: basler_start_def m_seq_def m_bind_def sdk_call_def split: option.splits if_splits)
qed

lemma stream_events_raises: "event_idle r \<Longrightarrow> stream_events mv r = (Inl e, r') \<Longrightarrow> event_idle r'"
  by (auto simp: stream_events_def event_idle_def split: if_splits sum.splits prod.splits)

lemma imu_start_raises: "imu_start io r = (Inl e, r') \<Longrightarrow> iu_thread r' = iu_thread r"
  by (auto simp: imu_start_def imu_open_def m_seq_def m_bind_def enable_channels_frame
      split: if_splits option.splits prod.splits sum.splits dest!: enable_channels_frame)

interpretation rgb: recorder_driver "basler_start py" basler_stop basler_close basler_idle for py
proof unfold_locales
  fix r e r' assume "basler_idle r" "basler_start py r = (Inl e, r')"
  then show "basler_idle r'" by (rule basler_start_raises)
next
  fix r
  show "fst (basler_stop r) = Inr ()" "fst (basler_close r) = Inr ()"
    by (simp_all add: basler_stop_def basler_close_def)
  show "basler_idle (snd (basler_stop r))"
    by (simp add: basler_stop_def basler_idle_def is_grabbing_def on_camera_def split: option.splits)
  show "basler_idle (snd (basler_close (snd (basler_stop r))))"
    by (simp add: basler_stop_def basler_close_def basler_idle_def is_grabbing_def on_camera_def let_go_def)
qed

interpretation events: recorder_driver "stream_events mv" event_stop event_close event_idle for mv
proof unfold_locales
  fix r e r' assume "event_idle r" "stream_events mv r = (Inl e, r')"
  then show "event_idle r'" by (rule stream_events_raises)
next
  fix r
  show "fst (event_stop r) = Inr ()" "fst (event_close r) = Inr ()"
    by (simp_all add: event_stop_def event_close_def)
  show "event_idle (snd (event_close (snd (event_stop r))))"
    by (simp add: event_stop_def event_close_def event_idle_def)
  show "event_idle (snd (event_stop r))"
    by (simp add: event_stop_def event_idle_def split: option.splits)
qed

interpretation imu_driver: recorder_driver "imu_start io" imu_stop imu_close imu_idle for io
proof unfold_locales
  fix r e r' assume "imu_idle r" "imu_start io r = (Inl e, r')"
  then show "imu_idle r'" using imu_start_raises by (simp add: imu_idle_def)
next
  fix r
  show "fst (imu_stop r) = Inr ()" "fst (imu_close r) = Inr ()"
    by (simp_all add: imu_stop_def imu_close_def)
  show "imu_idle (snd (imu_close (snd (imu_stop r))))" "imu_idle (snd (imu_stop r))"
    by (simp_all add: imu_stop_def imu_close_def imu_idle_def)
qed

end
