(* ===== verification/Recording_Session.thy ===== *)
theory Recording_Session imports Recording_Rigs begin

text \<open>
  The scripts \<open>record_rgb_event.py\<close> and \<open>record.py\<close>: setting up the rigs from
  \<open>camera_info.yaml\<close>, starting the streams with the unwinding of a failed start, stopping
  them, and the manifest. The wait between start and stop is left to the recorders' loops.
\<close>

section \<open>The state of a recording\<close>

text \<open>The two IMU recorders exist together or not at all, as \<open>accel\<close> and \<open>gyro\<close> in \<open>main\<close>.\<close>

record 'i session =
  se_rgb :: "'i rgb_rig"
  se_events :: event_rig
  se_imus :: "(imu_recorder \<times> imu_recorder) option"

definition on_rgb :: "('i rgb_rig, 'a) meth \<Rightarrow> ('i session, 'a) meth" where
  "on_rgb m s = (case m (se_rgb s) of (res, g) \<Rightarrow> (res, s\<lparr>se_rgb := g\<rparr>))"

definition on_events_rig :: "(event_rig, 'a) meth \<Rightarrow> ('i session, 'a) meth" where
  "on_events_rig m s = (case m (se_events s) of (res, g) \<Rightarrow> (res, s\<lparr>se_events := g\<rparr>))"

definition on_accel :: "(imu_recorder, unit) meth \<Rightarrow> ('i session, unit) meth" where
  "on_accel m s =
     (case se_imus s of
        None \<Rightarrow> (Inr (), s)
      | Some (accel, gyro) \<Rightarrow> (case m accel of (res, a) \<Rightarrow> (res, s\<lparr>se_imus := Some (a, gyro)\<rparr>)))"

definition on_gyro :: "(imu_recorder, unit) meth \<Rightarrow> ('i session, unit) meth" where
  "on_gyro m s =
     (case se_imus s of
        None \<Rightarrow> (Inr (), s)
      | Some (accel, gyro) \<Rightarrow> (case m gyro of (res, g) \<Rightarrow> (res, s\<lparr>se_imus := Some (accel, g)\<rparr>)))"

section \<open>Setting up\<close>

text \<open>\<open>None\<close> is the exit status 1 of a configuration without cameras or without event cameras.\<close>

definition setup_rigs ::
    "(string \<Rightarrow> py_error option) \<Rightarrow> (pyval \<Rightarrow> string) \<Rightarrow> string \<Rightarrow> string \<Rightarrow> real \<Rightarrow> real \<Rightarrow> real \<Rightarrow> pyval \<Rightarrow>
     (file_tree, (string \<times> 'i rgb_rig \<times> event_rig) option) meth" where
  "setup_rigs fails repr output_base bias_file fps exposure_us gain camera_info =
     m_bind (\<lambda>t. (resolve_camera_serials camera_info, t)) (\<lambda>rgb_serials.
     m_bind (\<lambda>t. (resolve_event_camera_serials camera_info, t)) (\<lambda>event_serials.
     m_bind (make_output_dir fails output_base ''dataset'') (\<lambda>output_dir.
     m_bind (new_rgb_rig fails repr output_dir rgb_serials fps exposure_us gain) (\<lambda>rig.
       if rr_names rig = [] then m_return None
       else m_bind (new_event_rig fails repr output_dir event_serials bias_file) (\<lambda>erig.
              if er_names erig = [] then m_return None else m_return (Some (output_dir, rig, erig)))))))"

section \<open>Starting and stopping\<close>

text \<open>\<open>record_rgb_event.py\<close>: only the RGB rig is unwound, the event rig unwinds itself.\<close>

definition rgb_event_start :: "pylon \<Rightarrow> metavision \<Rightarrow> ('i session, unit) meth" where
  "rgb_event_start py mv =
     m_seq (on_rgb (rgb_rig_start py))
       (m_catch (on_events_rig (event_rig_start mv)) (\<lambda>e. m_seq (on_rgb rgb_rig_stop) (m_raise e)))"

text \<open>\<open>record.py\<close>: the exception, if any, with the flags \<open>rig_started\<close>, \<open>event_rig_started\<close>, \<open>imu_started\<close>.\<close>

definition startup ::
    "pylon \<Rightarrow> metavision \<Rightarrow> iio \<Rightarrow> 'i session \<Rightarrow> (py_error option \<times> bool \<times> bool \<times> bool) \<times> 'i session" where
  "startup py mv io s =
     (case on_rgb (rgb_rig_start py) s of
        (Inl e, s1) \<Rightarrow> ((Some e, False, False, False), s1)
      | (Inr _, s1) \<Rightarrow>
        (case on_events_rig (event_rig_start mv) s1 of
           (Inl e, s2) \<Rightarrow> ((Some e, True, False, False), s2)
         | (Inr _, s2) \<Rightarrow>
           if se_imus s2 = None then ((None, True, True, False), s2)
           else
             (case m_seq (on_accel (imu_start io)) (on_gyro (imu_start io)) s2 of
                (Inl e, s3) \<Rightarrow> ((Some e, True, True, False), s3)
              | (Inr _, s3) \<Rightarrow> ((None, True, True, True), s3))))"

definition stop_imus :: "('i session, unit) meth" where
  "stop_imus =
     m_seq (on_accel imu_stop) (m_seq (on_accel imu_close) (m_seq (on_gyro imu_stop) (on_gyro imu_close)))"

definition session_start :: "pylon \<Rightarrow> metavision \<Rightarrow> iio \<Rightarrow> ('i session, unit) meth" where
  "session_start py mv io s =
     (case startup py mv io s of
        ((None, _), s') \<Rightarrow> (Inr (), s')
      | ((Some e, rig_started, event_rig_started, imu_started), s') \<Rightarrow>
        m_seq (if imu_started then stop_imus else m_return ())
        (m_seq (if event_rig_started then on_events_rig event_rig_stop else m_return ())
        (m_seq (if rig_started then on_rgb rgb_rig_stop else m_return ()) (m_raise e))) s')"

definition session_stop :: "('i session, unit) meth" where
  "session_stop = m_seq (on_rgb rgb_rig_stop) (m_seq (on_events_rig event_rig_stop) stop_imus)"

section \<open>The manifest\<close>

definition opt_cell :: "int option \<Rightarrow> string" where
  "opt_cell v = (case v of None \<Rightarrow> [] | Some n \<Rightarrow> int_str n)"

definition manifest_row :: "string \<Rightarrow> int \<Rightarrow> int option \<Rightarrow> int option \<Rightarrow> (string \<times> string) list" where
  "manifest_row stream count first_ns last_ns =
     [(''stream'', stream), (''count'', int_str count), (''first_host_ns'', opt_cell first_ns),
      (''last_host_ns'', opt_cell last_ns)]"

definition rgb_manifest_row :: "'i session \<Rightarrow> string \<Rightarrow> (csv_log, unit) meth" where
  "rgb_manifest_row s name =
     m_bind (\<lambda>f. (first_last_exposure_ns (csv_rows (rr_logs (se_rgb s) name)), f)) (\<lambda>(first_ns, last_ns).
       csv_write (manifest_row name (ba_frame_count (rr_recorders (se_rgb s) name)) first_ns last_ns))"

definition event_manifest_row :: "'i session \<Rightarrow> string \<Rightarrow> (csv_log, unit) meth" where
  "event_manifest_row s name =
     (case er_bounds (se_events s) name of
        (first_ns, last_ns) \<Rightarrow>
          csv_write (manifest_row name (int (ew_count (er_writers (se_events s) name))) first_ns last_ns))"

definition imu_manifest_rows :: "'i session \<Rightarrow> (csv_log, unit) meth" where
  "imu_manifest_rows s =
     (case se_imus s of
        None \<Rightarrow> m_return ()
      | Some (accel, gyro) \<Rightarrow>
        m_seq (csv_write (manifest_row ''IMU_accel'' (iu_sample_count accel) None None))
              (csv_write (manifest_row ''IMU_gyro'' (iu_sample_count gyro) None None)))"

definition write_manifest :: "'i session \<Rightarrow> csv_log res" where
  "write_manifest s =
     (case m_seq (m_for (rr_names (se_rgb s)) (rgb_manifest_row s))
            (m_seq (m_for (er_names (se_events s)) (event_manifest_row s))
            (m_seq (imu_manifest_rows s) (m_modify csv_close)))
            (new_csv [''stream'', ''count'', ''first_host_ns'', ''last_host_ns'']) of
        (Inl e, _) \<Rightarrow> Inl e
      | (Inr _, f) \<Rightarrow> Inr f)"

section \<open>A rig that does not start\<close>

definition rgb_idle :: "'i rgb_rig \<Rightarrow> bool" where
  "rgb_idle g \<longleftrightarrow> (\<forall>n \<in> set (rr_names g). basler_idle (rr_recorders g n))"

definition events_idle :: "event_rig \<Rightarrow> bool" where
  "events_idle g \<longleftrightarrow> (\<forall>n \<in> set (er_names g). event_idle (er_recorders g n))"

lemma rgb_rig_start_cases:
  "rgb_rig_start py g = (res, g') \<Longrightarrow> \<exists>rs. g' = g\<lparr>rr_recorders := rs\<rparr> \<and>
     rig_start (basler_start py) basler_stop basler_close (rr_names g) (rr_recorders g) = (res, rs)"
  by (auto simp: rgb_rig_start_def on_rgb_recorders_def split: prod.splits)

lemma event_rig_start_cases:
  "event_rig_start mv g = (res, g') \<Longrightarrow> \<exists>rs. g' = g\<lparr>er_recorders := rs\<rparr> \<and>
     rig_start (stream_events mv) event_stop event_close (er_names g) (er_recorders g) = (res, rs)"
  by (auto simp: event_rig_start_def on_event_recorders_def split: prod.splits)

lemma rgb_failed_idle:
  "rgb_idle g \<Longrightarrow> distinct (rr_names g) \<Longrightarrow> rgb_rig_start py g = (Inl e, g') \<Longrightarrow>
   rgb_idle g' \<and> (\<exists>n \<in> set (rr_names g). \<exists>r r'. basler_start py r = (Inl e, r'))"
  unfolding rgb_idle_def
  by (frule rgb_rig_start_cases) (auto dest: rgb.rig_start_unwinds)

lemma events_failed_idle:
  "events_idle g \<Longrightarrow> distinct (er_names g) \<Longrightarrow> event_rig_start mv g = (Inl e, g') \<Longrightarrow>
   events_idle g' \<and> (\<exists>n \<in> set (er_names g). \<exists>r r'. stream_events mv r = (Inl e, r'))"
  unfolding events_idle_def
  by (frule event_rig_start_cases) (auto dest: events.rig_start_unwinds)


text \<open>Two cameras, the second of which does not exist; an event rig whose sensor is busy.\<close>

definition demo_pylon :: pylon where
  "demo_pylon =
     \<lparr>py_create_device = \<lambda>s. if s = ''40'' then Inr 0 else Inl (RuntimeError ''no device''),
      py_open_error = \<lambda>_. None, py_serial_number = \<lambda>_. ''40'', py_pixel_formats = \<lambda>_. [''Mono8'', ''BayerGB8''],
      py_feature_error = \<lambda>_ _ _. None, py_tick_frequency = \<lambda>_. Inr 125000000, py_grab_error = \<lambda>_. None\<rparr>"

definition demo_metavision :: metavision where
  "demo_metavision = \<lparr>mv_camera_error = \<lambda>_. None, mv_iterator_size = \<lambda>_. Inl (OSError ''busy'')\<rparr>"

definition demo_rgb_rig :: "unit rgb_rig" where
  "demo_rgb_rig =
     \<lparr>rr_names = [''RGB1'', ''RGB2''],
      rr_recorders = \<lambda>n. new_basler (if n = ''RGB1'' then ''40'' else ''41'') 2000 1 30,
      rr_images = \<lambda>_. [], rr_logs = \<lambda>_. new_csv timestamps_fieldnames\<rparr>"

definition demo_event_rig :: event_rig where
  "demo_event_rig =
     \<lparr>er_names = [''Event1''], er_recorders = \<lambda>_. new_event_recorder ''9'' [],
      er_writers = \<lambda>_. new_event_writer, er_bounds = \<lambda>_. (None, None)\<rparr>"

lemma demo_basler_start:
  "\<exists>r'. basler_start demo_pylon (new_basler ''40'' 2000 1 30) = (Inr (), r')"
  "basler_start demo_pylon (new_basler ''41'' 2000 1 30) = (Inl (RuntimeError ''no device''), new_basler ''41'' 2000 1 30)"
proof -
  have "choose_format [''Mono8'', ''BayerGB8''] = Some ''BayerGB8''" by code_simp
  then show "\<exists>r'. basler_start demo_pylon (new_basler ''40'' 2000 1 30) = (Inr (), r')"
    by (simp add: basler_start_def basler_open_def demo_pylon_def new_basler_def m_seq_def m_bind_def sdk_call_def
        camera_features_def set_feature_def on_camera_def let_go_def Let_def)
  show "basler_start demo_pylon (new_basler ''41'' 2000 1 30) = (Inl (RuntimeError ''no device''), new_basler ''41'' 2000 1 30)"
    by (simp add: basler_start_def basler_open_def demo_pylon_def new_basler_def m_seq_def m_bind_def)
qed

lemma demo_rigs_fail:
  "\<exists>g'. rgb_rig_start demo_pylon demo_rgb_rig = (Inl (RuntimeError ''no device''), g')"
  "\<exists>h'. event_rig_start demo_metavision demo_event_rig = (Inl (OSError ''busy''), h')"
proof -
  obtain r' where r': "basler_start demo_pylon (new_basler ''40'' 2000 1 30) = (Inr (), r')"
    using demo_basler_start(1) by blast
  have "\<exists>rs. start_each (basler_start demo_pylon) [''RGB1'', ''RGB2''] [] (rr_recorders demo_rgb_rig) =
      ((Some (RuntimeError ''no device''), [''RGB1'']), rs)"
    by (simp add: on_recorder_def demo_rgb_rig_def r' demo_basler_start(2))
  then obtain rs where rs: "start_each (basler_start demo_pylon) [''RGB1'', ''RGB2''] [] (rr_recorders demo_rgb_rig) =
      ((Some (RuntimeError ''no device''), [''RGB1'']), rs)" by blast
  obtain rs' where "stop_each basler_stop basler_close [''RGB1''] rs = (Inr (), rs')"
    using rgb.stop_each_run by blast
  moreover have "rr_names demo_rgb_rig = [''RGB1'', ''RGB2'']" by (simp add: demo_rgb_rig_def)
  ultimately show "\<exists>g'. rgb_rig_start demo_pylon demo_rgb_rig = (Inl (RuntimeError ''no device''), g')"
    using rs by (simp add: rgb_rig_start_def on_rgb_recorders_def rig_start_def m_seq_def m_bind_def del: start_each.simps)
  show "\<exists>h'. event_rig_start demo_metavision demo_event_rig = (Inl (OSError ''busy''), h')"
    by (simp add: event_rig_start_def on_event_recorders_def rig_start_def stop_each_def m_seq_def m_bind_def
        on_recorder_def stream_events_def demo_event_rig_def demo_metavision_def new_event_recorder_def)
qed


section \<open>A session that does not start\<close>

lemma rgb_rig_stop_run:
  "\<exists>g'. rgb_rig_stop g = (Inr (), g') \<and> rgb_idle g' \<and> rr_names g' = rr_names g"
proof -
  obtain rs where rs: "stop_each basler_stop basler_close (rr_names g) (rr_recorders g) = (Inr (), rs)"
      "\<forall>n \<in> set (rr_names g). basler_idle (rs n)"
    using rgb.stop_each_run by blast
  then show ?thesis
    by (simp add: rgb_rig_stop_def m_seq_def m_bind_def on_rgb_recorders_def rgb_idle_def)
qed

lemma event_rig_stop_run:
  "\<exists>g'. event_rig_stop g = (Inr (), g') \<and> events_idle g' \<and> er_names g' = er_names g"
proof -
  obtain rs where rs: "stop_each event_stop event_close (er_names g) (er_recorders g) = (Inr (), rs)"
      "\<forall>n \<in> set (er_names g). event_idle (rs n)"
    using events.stop_each_run by blast
  then show ?thesis
    by (simp add: event_rig_stop_def m_seq_def m_bind_def on_event_recorders_def events_idle_def)
qed

lemma stop_imus_run:
  "\<exists>s'. stop_imus s = (Inr (), s') \<and> se_rgb s' = se_rgb s \<and> se_events s' = se_events s \<and>
     (case se_imus s' of None \<Rightarrow> True | Some (a, g) \<Rightarrow> imu_idle a \<and> imu_idle g)"
  by (cases "se_imus s")
    (auto simp: stop_imus_def m_seq_def m_bind_def on_accel_def on_gyro_def imu_stop_def imu_close_def imu_idle_def
      split: prod.split)

definition session_idle :: "'i session \<Rightarrow> bool" where
  "session_idle s \<longleftrightarrow> rgb_idle (se_rgb s) \<and> events_idle (se_events s) \<and>
     (case se_imus s of None \<Rightarrow> True | Some (a, g) \<Rightarrow> imu_idle a \<and> imu_idle g)"

text \<open>The rigs, and the gyroscope, are idle.\<close>

definition rigs_idle :: "'i session \<Rightarrow> bool" where
  "rigs_idle s \<longleftrightarrow> rgb_idle (se_rgb s) \<and> events_idle (se_events s) \<and>
     (case se_imus s of None \<Rightarrow> True | Some (a, g) \<Rightarrow> imu_idle g)"

definition accel_running :: "'i session \<Rightarrow> bool" where
  "accel_running s \<longleftrightarrow> (case se_imus s of None \<Rightarrow> False | Some (a, g) \<Rightarrow> iu_thread a)"

lemma imu_start_runs: "imu_start io r = (Inr u, r') \<Longrightarrow> iu_thread r'"
  by (auto simp: imu_start_def m_seq_def m_bind_Inr_iff)

lemma unwind_rigs:
  "\<exists>s'. m_seq (on_events_rig event_rig_stop) (m_seq (on_rgb rgb_rig_stop) (m_raise e)) s = (Inl e, s') \<and>
     rgb_idle (se_rgb s') \<and> events_idle (se_events s') \<and> se_imus s' = se_imus s"
proof -
  obtain h where h: "event_rig_stop (se_events s) = (Inr (), h)" "events_idle h" using event_rig_stop_run by blast
  obtain g where g: "rgb_rig_stop (se_rgb s) = (Inr (), g)" "rgb_idle g" using rgb_rig_stop_run by blast
  show ?thesis using h g by (simp add: m_seq_def m_bind_def on_events_rig_def on_rgb_def)
qed

lemma unwind_rgb:
  "\<exists>s'. m_seq (on_rgb rgb_rig_stop) (m_raise e) s = (Inl e, s') \<and>
     rgb_idle (se_rgb s') \<and> se_events s' = se_events s \<and> se_imus s' = se_imus s"
proof -
  obtain g where g: "rgb_rig_stop (se_rgb s) = (Inr (), g)" "rgb_idle g" using rgb_rig_stop_run by blast
  then show ?thesis by (simp add: m_seq_def m_bind_def on_rgb_def)
qed

definition gyro_start_fails :: "pylon \<Rightarrow> metavision \<Rightarrow> iio \<Rightarrow> 'i session \<Rightarrow> py_error \<Rightarrow> bool" where
  "gyro_start_fails py mv io s e \<longleftrightarrow>
     fst (rgb_rig_start py (se_rgb s)) = Inr () \<and> fst (event_rig_start mv (se_events s)) = Inr () \<and>
     (\<exists>accel gyro. se_imus s = Some (accel, gyro) \<and> fst (imu_start io accel) = Inr () \<and> fst (imu_start io gyro) = Inl e)"

lemma imu_startup_fails:
  assumes "se_imus s = Some (accel, gyro)" and "imu_idle accel" and "imu_idle gyro"
    and "m_seq (on_accel (imu_start io)) (on_gyro (imu_start io)) s = (Inl e, s')"
  shows "se_rgb s' = se_rgb s \<and> se_events s' = se_events s \<and>
    (\<exists>a g. se_imus s' = Some (a, g) \<and> imu_idle g \<and>
       (iu_thread a \<longleftrightarrow> fst (imu_start io accel) = Inr () \<and> fst (imu_start io gyro) = Inl e))"
proof -
  obtain ra a where a: "imu_start io accel = (ra, a)" by (cases "imu_start io accel")
  obtain rg g where g: "imu_start io gyro = (rg, g)" by (cases "imu_start io gyro")
  show ?thesis
  proof (cases ra)
    case (Inl f)
    have "s' = s\<lparr>se_imus := Some (a, gyro)\<rparr>" "e = f"
      using assms(1,4) a Inl by (auto simp: m_seq_def m_bind_def on_accel_def)
    moreover have "\<not> iu_thread a" using imu_start_raises [OF a [unfolded Inl]] assms(2) by (simp add: imu_idle_def)
    ultimately show ?thesis using assms(3) a Inl by simp
  next
    case (Inr u)
    then have s': "s' = s\<lparr>se_imus := Some (a, g)\<rparr>" "rg = Inl e"
      using assms(1,4) a g by (auto simp: m_seq_def m_bind_def on_accel_def on_gyro_def)
    moreover have "iu_thread a" using imu_start_runs a Inr by simp
    moreover have "imu_idle g" using imu_start_raises [OF g [unfolded s'(2)]] assms(3) by (simp add: imu_idle_def)
    ultimately show ?thesis using a g Inr by simp
  qed
qed

lemma session_stop_run: "\<exists>t. session_stop s = (Inr (), t) \<and> session_idle t"
proof -
  obtain g where g: "rgb_rig_stop (se_rgb s) = (Inr (), g)" "rgb_idle g" using rgb_rig_stop_run by blast
  obtain h where h: "event_rig_stop (se_events s) = (Inr (), h)" "events_idle h" using event_rig_stop_run by blast
  obtain t where "stop_imus (s\<lparr>se_rgb := g, se_events := h\<rparr>) = (Inr (), t)" "se_rgb t = g" "se_events t = h"
      "case se_imus t of None \<Rightarrow> True | Some (a, k) \<Rightarrow> imu_idle a \<and> imu_idle k"
    using stop_imus_run [of "s\<lparr>se_rgb := g, se_events := h\<rparr>"] by auto
  then show ?thesis
    using g h by (simp add: session_stop_def m_seq_def m_bind_def on_rgb_def on_events_rig_def session_idle_def)
qed

text \<open>The ways a session does not start, as equations.\<close>

lemma m_seq_return [simp]: "m_seq (m_return ()) m = m"
  by (simp add: m_seq_def fun_eq_iff)

lemma session_rgb_fails:
  "rgb_rig_start py (se_rgb s) = (Inl f, g) \<Longrightarrow> session_start py mv io s = (Inl f, s\<lparr>se_rgb := g\<rparr>)"
  by (simp add: session_start_def startup_def on_rgb_def)

lemma session_events_fail:
  "rgb_rig_start py (se_rgb s) = (Inr u, g) \<Longrightarrow> event_rig_start mv (se_events s) = (Inl f, h) \<Longrightarrow>
   session_start py mv io s =
     m_seq (on_rgb rgb_rig_stop) (m_raise f) (s\<lparr>se_rgb := g, se_events := h\<rparr>)"
  by (simp add: session_start_def startup_def on_rgb_def on_events_rig_def)

lemma session_imus_fail:
  "rgb_rig_start py (se_rgb s) = (Inr u, g) \<Longrightarrow> event_rig_start mv (se_events s) = (Inr v, h) \<Longrightarrow>
   se_imus s \<noteq> None \<Longrightarrow>
   m_seq (on_accel (imu_start io)) (on_gyro (imu_start io)) (s\<lparr>se_rgb := g, se_events := h\<rparr>) = (Inl f, s3) \<Longrightarrow>
   session_start py mv io s = m_seq (on_events_rig event_rig_stop) (m_seq (on_rgb rgb_rig_stop) (m_raise f)) s3"
  by (auto simp: session_start_def startup_def on_rgb_def on_events_rig_def)

lemma session_starts:
  "rgb_rig_start py (se_rgb s) = (Inr u, g) \<Longrightarrow> event_rig_start mv (se_events s) = (Inr v, h) \<Longrightarrow>
   se_imus s = None \<or>
   m_seq (on_accel (imu_start io)) (on_gyro (imu_start io)) (s\<lparr>se_rgb := g, se_events := h\<rparr>) = (Inr w, s3) \<Longrightarrow>
   fst (session_start py mv io s) = Inr ()"
  by (auto simp: session_start_def startup_def on_rgb_def on_events_rig_def)

lemma rgb_failure_idle:
  assumes "session_idle s" and "distinct (rr_names (se_rgb s))" and "rgb_rig_start py (se_rgb s) = (Inl f, g)"
  shows "rigs_idle (s\<lparr>se_rgb := g\<rparr>) \<and> \<not> accel_running (s\<lparr>se_rgb := g\<rparr>)"
proof -
  have "rgb_idle g"
    using rgb_failed_idle [OF _ assms(2,3)] assms(1) by (simp add: session_idle_def)
  then show ?thesis
    using assms(1) by (auto simp: session_idle_def rigs_idle_def accel_running_def imu_idle_def split: option.splits)
qed

lemma events_failure_idle:
  assumes "session_idle s" and "distinct (er_names (se_events s))" and "event_rig_start mv (se_events s) = (Inl f, h)"
    and "m_seq (on_rgb rgb_rig_stop) (m_raise f) (s\<lparr>se_rgb := g, se_events := h\<rparr>) = (Inl e :: unit res, s')"
  shows "rigs_idle s' \<and> \<not> accel_running s' \<and> e = f"
proof -
  have "events_idle h"
    using events_failed_idle [OF _ assms(2,3)] assms(1) by (simp add: session_idle_def)
  moreover obtain t where t: "m_seq (on_rgb rgb_rig_stop) (m_raise f) (s\<lparr>se_rgb := g, se_events := h\<rparr>) = (Inl f :: unit res, t)"
      "rgb_idle (se_rgb t)" "se_events t = h" "se_imus t = se_imus s"
    using unwind_rgb [of f "s\<lparr>se_rgb := g, se_events := h\<rparr>"] by auto
  moreover have "s' = t \<and> e = f" using assms(4) unfolding t(1) by simp
  ultimately show ?thesis
    using assms(1) by (auto simp: session_idle_def rigs_idle_def accel_running_def imu_idle_def split: option.splits)
qed

lemma imu_failure_idle:
  assumes "session_idle s" and "se_imus s = Some (accel, gyro)"
    and "m_seq (on_accel (imu_start io)) (on_gyro (imu_start io)) (s\<lparr>se_rgb := g, se_events := h\<rparr>) = (Inl f, s3)"
    and "m_seq (on_events_rig event_rig_stop) (m_seq (on_rgb rgb_rig_stop) (m_raise f)) s3 = (Inl e :: unit res, s')"
  shows "rigs_idle s' \<and> e = f \<and>
    (accel_running s' \<longleftrightarrow> fst (imu_start io accel) = Inr () \<and> fst (imu_start io gyro) = Inl e)"
proof -
  have "imu_idle accel" "imu_idle gyro" using assms(1,2) by (simp_all add: session_idle_def)
  from imu_startup_fails [OF _ this assms(3)] assms(2) obtain a k where imus: "se_imus s3 = Some (a, k)" "imu_idle k"
      "iu_thread a \<longleftrightarrow> fst (imu_start io accel) = Inr () \<and> fst (imu_start io gyro) = Inl f" by auto
  obtain t where t: "m_seq (on_events_rig event_rig_stop) (m_seq (on_rgb rgb_rig_stop) (m_raise f)) s3 = (Inl f :: unit res, t)"
      "rgb_idle (se_rgb t)" "events_idle (se_events t)" "se_imus t = se_imus s3"
    using unwind_rigs by blast
  have "s' = t \<and> e = f" using assms(4) unfolding t(1) by simp
  then show ?thesis using imus t by (simp add: rigs_idle_def accel_running_def)
qed

text \<open>
  C25. What a session that does not start leaves behind: the RGB rig, the event rig and the
  gyroscope are always idle again. The accelerometer is not: if the gyroscope's start is what
  failed, its polling thread keeps running, because \<open>imu_started\<close> is set only after both have
  started, and that is the only case. A session that did start is stopped completely.
\<close>

theorem failed_session_leaves_only_accel:
  assumes "session_idle s" and "distinct (rr_names (se_rgb s))" and "distinct (er_names (se_events s))"
    and "session_start py mv io s = (Inl e, s')"
  shows "rigs_idle s' \<and> (accel_running s' \<longleftrightarrow> gyro_start_fails py mv io s e) \<and>
     (\<exists>t. session_stop s = (Inr (), t) \<and> session_idle t)"
proof -
  obtain q g where g: "rgb_rig_start py (se_rgb s) = (q, g)" by (cases "rgb_rig_start py (se_rgb s)")
  obtain p h where h: "event_rig_start mv (se_events s) = (p, h)" by (cases "event_rig_start mv (se_events s)")
  consider f where "q = Inl f" | f where "q = Inr ()" "p = Inl f" | "q = Inr ()" "p = Inr ()"
    by (cases q; cases p) auto
  then have "rigs_idle s' \<and> (accel_running s' \<longleftrightarrow> gyro_start_fails py mv io s e)"
  proof cases
    case 1
    then have "s' = s\<lparr>se_rgb := g\<rparr>" using session_rgb_fails g assms(4) by fastforce
    then show ?thesis using rgb_failure_idle [OF assms(1,2)] g 1 by (auto simp: gyro_start_fails_def)
  next
    case 2
    have run: "rgb_rig_start py (se_rgb s) = (Inr (), g)" "event_rig_start mv (se_events s) = (Inl f, h)"
      using g h 2 by simp_all
    have "m_seq (on_rgb rgb_rig_stop) (m_raise f) (s\<lparr>se_rgb := g, se_events := h\<rparr>) = (Inl e :: unit res, s')"
      using session_events_fail [OF run, of io] assms(4) by metis
    from events_failure_idle [OF assms(1,3) run(2) this] run show ?thesis
      by (simp add: gyro_start_fails_def)
  next
    case 3
    have run: "rgb_rig_start py (se_rgb s) = (Inr (), g)" "event_rig_start mv (se_events s) = (Inr (), h)"
      using g h 3 by simp_all
    obtain w s3 where imu: "m_seq (on_accel (imu_start io)) (on_gyro (imu_start io)) (s\<lparr>se_rgb := g, se_events := h\<rparr>) = (w, s3)"
      by (metis prod.collapse)
    have "\<not> (se_imus s = None \<or> w = Inr ())"
    proof
      assume "se_imus s = None \<or> w = Inr ()"
      then have "fst (session_start py mv io s) = Inr ()" using imu by (intro session_starts [OF run]) auto
      then show False using assms(4) by simp
    qed
    then have not_ok: "se_imus s \<noteq> None" "w \<noteq> Inr ()" by simp_all
    then obtain f accel gyro where f: "w = Inl f" "se_imus s = Some (accel, gyro)" by (cases w) auto
    have "m_seq (on_events_rig event_rig_stop) (m_seq (on_rgb rgb_rig_stop) (m_raise f)) s3 = (Inl e :: unit res, s')"
      using session_imus_fail [OF run not_ok(1) imu [unfolded f(1)]] assms(4) by metis
    from imu_failure_idle [OF assms(1) f(2) imu [unfolded f(1)] this] run f(2) show ?thesis
      by (simp add: gyro_start_fails_def)
  qed
  then show ?thesis using session_stop_run by blast
qed

text \<open>A session whose gyroscope does not exist.\<close>

definition demo_iio :: iio where
  "demo_iio =
     \<lparr>io_context_error = None, io_device = \<lambda>d. d = ''accel'', io_channel = \<lambda>_ _. True, io_enable_error = \<lambda>_ _. None,
      io_has_rate = \<lambda>_ _. False, io_rate_error = \<lambda>_ _. None, io_buffer_error = \<lambda>_. None, io_str = \<lambda>_. ''0.0''\<rparr>"

definition demo_session :: "unit session" where
  "demo_session =
     \<lparr>se_rgb = demo_rgb_rig\<lparr>rr_names := []\<rparr>, se_events = demo_event_rig\<lparr>er_names := []\<rparr>,
      se_imus = Some (new_imu_recorder ''accel'' [''x'', ''y'', ''z''] 1 0, new_imu_recorder ''gyro'' [''x'', ''y'', ''z''] 1 0)\<rparr>"

lemma demo_session_fails:
  "\<exists>s'. session_start demo_pylon demo_metavision demo_iio demo_session =
     (Inl (RuntimeError (''IIO device '' @ quoted ''gyro'' @ '' not found'')), s')"
  "gyro_start_fails demo_pylon demo_metavision demo_iio demo_session
     (RuntimeError (''IIO device '' @ quoted ''gyro'' @ '' not found''))"
proof -
  have rgb: "rgb_rig_start demo_pylon (se_rgb demo_session) = (Inr (), se_rgb demo_session)"
    by (simp add: rgb_rig_start_def on_rgb_recorders_def rig_start_def demo_session_def)
  have ev: "event_rig_start demo_metavision (se_events demo_session) = (Inr (), se_events demo_session)"
    by (simp add: event_rig_start_def on_event_recorders_def rig_start_def demo_session_def)
  have gyro: "imu_start demo_iio (new_imu_recorder ''gyro'' cs 1 0) =
      (Inl (RuntimeError (''IIO device '' @ quoted ''gyro'' @ '' not found'')),
       (new_imu_recorder ''gyro'' cs 1 0)\<lparr>iu_context := True, iu_device := False\<rparr>)" for cs
    by (simp add: imu_start_def imu_open_def demo_iio_def new_imu_recorder_def m_seq_def m_bind_def)
  have accel: "\<exists>a. imu_start demo_iio (new_imu_recorder ''accel'' [''x'', ''y'', ''z''] 1 0) = (Inr (), a)"
    by (simp add: imu_start_def imu_open_def demo_iio_def new_imu_recorder_def m_seq_def m_bind_def set_sampling_frequency_def)
  then obtain a where a: "imu_start demo_iio (new_imu_recorder ''accel'' [''x'', ''y'', ''z''] 1 0) = (Inr (), a)" by blast
  have imus: "se_imus demo_session =
      Some (new_imu_recorder ''accel'' [''x'', ''y'', ''z''] 1 0, new_imu_recorder ''gyro'' [''x'', ''y'', ''z''] 1 0)"
    by (simp add: demo_session_def)
  have "\<exists>s3. m_seq (on_accel (imu_start demo_iio)) (on_gyro (imu_start demo_iio))
      (demo_session\<lparr>se_rgb := se_rgb demo_session, se_events := se_events demo_session\<rparr>) =
      (Inl (RuntimeError (''IIO device '' @ quoted ''gyro'' @ '' not found'')), s3)"
    by (simp add: m_seq_def m_bind_def on_accel_def on_gyro_def imus a gyro)
  then obtain s3 where s3: "m_seq (on_accel (imu_start demo_iio)) (on_gyro (imu_start demo_iio))
      (demo_session\<lparr>se_rgb := se_rgb demo_session, se_events := se_events demo_session\<rparr>) =
      (Inl (RuntimeError (''IIO device '' @ quoted ''gyro'' @ '' not found'')), s3)" by blast
  show "\<exists>s'. session_start demo_pylon demo_metavision demo_iio demo_session =
     (Inl (RuntimeError (''IIO device '' @ quoted ''gyro'' @ '' not found'')), s')"
    using session_imus_fail [OF rgb ev _ s3] imus unwind_rigs by fastforce
  show "gyro_start_fails demo_pylon demo_metavision demo_iio demo_session
     (RuntimeError (''IIO device '' @ quoted ''gyro'' @ '' not found''))"
    using rgb ev imus a gyro by (simp add: gyro_start_fails_def)
qed

theorem failed_session_leaves_only_accel_witness:
  "\<exists>e s'. session_start demo_pylon demo_metavision demo_iio demo_session = (Inl e, s') \<and>
     rigs_idle s' \<and> accel_running s'"
proof -
  obtain e s' where run: "session_start demo_pylon demo_metavision demo_iio demo_session = (Inl e, s')"
      "gyro_start_fails demo_pylon demo_metavision demo_iio demo_session e"
    using demo_session_fails by blast
  have "session_idle demo_session" "distinct (rr_names (se_rgb demo_session))" "distinct (er_names (se_events demo_session))"
    by (simp_all add: session_idle_def demo_session_def rgb_idle_def events_idle_def imu_idle_def new_imu_recorder_def)
  from failed_session_leaves_only_accel [OF this run(1)] run show ?thesis by blast
qed

end
