(* ===== verification/Event_Denoise.thy ===== *)
theory Event_Denoise imports Prelude begin

text \<open>
  \<open>dataset_collection/event_denoise.py\<close>: the spatiotemporal activity filter. The array
  \<open>last_active\<close> is a grid of times indexed by row and column; coordinates are natural numbers,
  as the unsigned columns they come from.
\<close>

section \<open>The filter\<close>

record activity_grid =
  ag_height :: nat
  ag_width :: nat
  ag_time :: "nat \<Rightarrow> nat \<Rightarrow> real"

record pixel_event =
  pe_x :: nat
  pe_y :: nat
  pe_t :: real

definition window_low :: "nat \<Rightarrow> nat \<Rightarrow> nat" where
  "window_low radius v = nat (max 0 (int v - int radius))"

definition window_high :: "nat \<Rightarrow> nat \<Rightarrow> nat \<Rightarrow> nat" where
  "window_high bound radius v = min bound (v + radius + 1)"

text \<open>\<open>(last_active[y0:y1, x0:x1] >= ti - threshold_us).sum()\<close>.\<close>

definition active_count :: "real \<Rightarrow> nat \<Rightarrow> activity_grid \<Rightarrow> pixel_event \<Rightarrow> nat" where
  "active_count threshold radius g e =
     length (filter (\<lambda>(y, x). ag_time g y x \<ge> pe_t e - threshold)
       (List.product [window_low radius (pe_y e)..<window_high (ag_height g) radius (pe_y e)]
                     [window_low radius (pe_x e)..<window_high (ag_width g) radius (pe_x e)]))"

definition mark_active :: "pixel_event \<Rightarrow> activity_grid \<Rightarrow> activity_grid" where
  "mark_active e g =
     g\<lparr>ag_time := (ag_time g)(pe_y e := (ag_time g (pe_y e))(pe_x e := pe_t e))\<rparr>"

text \<open>One event; an assignment outside the array raises.\<close>

definition denoise_event :: "real \<Rightarrow> nat \<Rightarrow> nat \<Rightarrow> pixel_event \<Rightarrow> (activity_grid, bool) meth" where
  "denoise_event threshold radius min_neighbors e g =
     (let keep = (active_count threshold radius g e \<ge> min_neighbors)
      in if pe_y e < ag_height g \<and> pe_x e < ag_width g then (Inr keep, mark_active e g)
         else (Inl IndexError, g))"

fun denoise_keep_mask ::
    "real \<Rightarrow> nat \<Rightarrow> nat \<Rightarrow> pixel_event list \<Rightarrow> (activity_grid, bool list) meth" where
  "denoise_keep_mask threshold radius min_neighbors [] = m_return []"
| "denoise_keep_mask threshold radius min_neighbors (e # es) =
     m_bind (denoise_event threshold radius min_neighbors e) (\<lambda>keep.
     m_bind (denoise_keep_mask threshold radius min_neighbors es) (\<lambda>keeps. m_return (keep # keeps)))"

section \<open>The filter as a property of the recording\<close>

text \<open>When a pixel was last active after some events, and the pixels around an event.\<close>

definition last_seen :: "activity_grid \<Rightarrow> pixel_event list \<Rightarrow> nat \<Rightarrow> nat \<Rightarrow> real" where
  "last_seen g es y x =
     (let hits = filter (\<lambda>e. pe_y e = y \<and> pe_x e = x) es
      in if hits = [] then ag_time g y x else pe_t (last hits))"

definition around :: "activity_grid \<Rightarrow> nat \<Rightarrow> pixel_event \<Rightarrow> (nat \<times> nat) set" where
  "around g radius e =
     {(y, x). y < ag_height g \<and> x < ag_width g \<and>
        \<bar>int y - int (pe_y e)\<bar> \<le> int radius \<and> \<bar>int x - int (pe_x e)\<bar> \<le> int radius}"

definition in_grid :: "activity_grid \<Rightarrow> pixel_event \<Rightarrow> bool" where
  "in_grid g e \<longleftrightarrow> pe_y e < ag_height g \<and> pe_x e < ag_width g"

lemma last_seen_Nil [simp]: "last_seen g [] = ag_time g"
  by (simp add: last_seen_def fun_eq_iff)

lemma last_seen_Cons: "last_seen g (e # es) = last_seen (mark_active e g) es"
  by (simp add: last_seen_def mark_active_def fun_eq_iff Let_def)

lemma mark_active_size [simp]:
  "ag_height (mark_active e g) = ag_height g" "ag_width (mark_active e g) = ag_width g"
  by (simp_all add: mark_active_def)

lemma around_mark [simp]: "around (mark_active e g) = around g" "in_grid (mark_active e g) = in_grid g"
  by (simp_all add: around_def in_grid_def fun_eq_iff)

lemma window_mem:
  "v \<in> set [window_low r c..<window_high n r c] \<longleftrightarrow> v < n \<and> \<bar>int v - int c\<bar> \<le> int r"
  by (auto simp: window_low_def window_high_def)

lemma active_count_card:
  "active_count threshold radius g e = card {(y, x) \<in> around g radius e. ag_time g y x \<ge> pe_t e - threshold}"
proof -
  let ?ps = "List.product [window_low radius (pe_y e)..<window_high (ag_height g) radius (pe_y e)]
                     [window_low radius (pe_x e)..<window_high (ag_width g) radius (pe_x e)]"
  let ?P = "\<lambda>(y, x). ag_time g y x \<ge> pe_t e - threshold"
  have "distinct (filter ?P ?ps)" by (simp add: distinct_product)
  then have "length (filter ?P ?ps) = card (set (filter ?P ?ps))" by (rule distinct_card [symmetric])
  also have "set (filter ?P ?ps) = {(y, x) \<in> around g radius e. ag_time g y x \<ge> pe_t e - threshold}"
    by (auto simp: around_def set_product window_mem simp del: set_upt)
  finally show ?thesis by (simp add: active_count_def)
qed

text \<open>One bit of the mask, in terms of the events before it.\<close>

definition supported :: "real \<Rightarrow> nat \<Rightarrow> nat \<Rightarrow> activity_grid \<Rightarrow> pixel_event list \<Rightarrow> pixel_event \<Rightarrow> bool" where
  "supported threshold radius min_neighbors g before e \<longleftrightarrow>
     min_neighbors \<le> card {(y, x) \<in> around g radius e. last_seen g before y x \<ge> pe_t e - threshold}"

lemma denoise_mask_run:
  assumes "\<forall>e \<in> set es. in_grid g e"
  shows "denoise_keep_mask th rad mn es g =
    (Inr (map (\<lambda>i. supported th rad mn g (take i es) (es ! i)) [0..<length es]),
     g\<lparr>ag_time := last_seen g es\<rparr>)"
  using assms
proof (induction es arbitrary: g)
  case (Cons e es)
  have e: "denoise_event th rad mn e g = (Inr (supported th rad mn g [] e), mark_active e g)"
    using Cons.prems by (simp add: denoise_event_def Let_def supported_def active_count_card in_grid_def)
  have sup: "supported th rad mn (mark_active e g) before = supported th rad mn g (e # before)" for before
    by (simp add: supported_def fun_eq_iff last_seen_Cons)
  have bits: "map (\<lambda>i. supported th rad mn g (take i (e # es)) ((e # es) ! i)) [0..<length (e # es)] =
      supported th rad mn g [] e #
      map (\<lambda>i. supported th rad mn (mark_active e g) (take i es) (es ! i)) [0..<length es]"
    by (simp add: sup upt_conv_Cons map_Suc_upt [symmetric] comp_def del: upt_Suc)
  have grid: "(mark_active e g)\<lparr>ag_time := last_seen (mark_active e g) es\<rparr> = g\<lparr>ag_time := last_seen g (e # es)\<rparr>"
    unfolding last_seen_Cons by (simp add: mark_active_def)
  have "\<forall>e' \<in> set es. in_grid (mark_active e g) e'" using Cons.prems by simp
  from Cons.IH [OF this] show ?case
    unfolding bits by (simp add: m_bind_def e grid)
qed simp



end
