(* ===== verification/Event_Video.thy ===== *)
theory Event_Video imports Event_Records Event_Denoise begin

text \<open>
  The event video of \<open>visualize_dataset.py\<close>: \<open>render_event_video\<close> and \<open>_finalize_video\<close>. The
  records are sorted, cut into chunks of \<open>--event-delta-t-ms\<close>, denoised and painted, one frame
  per chunk. NumPy's sorting and searching, OpenCV's dilation and ffmpeg are parameters.
\<close>

section \<open>The program\<close>

text \<open>\<open>np.sort\<close>, \<open>np.argsort(ts, kind="stable")\<close> and \<open>np.searchsorted(ts, v, side="left")\<close>.\<close>

record numpy =
  np_sort :: "int list \<Rightarrow> int list"
  np_argsort :: "int list \<Rightarrow> nat list"
  np_searchsorted :: "int list \<Rightarrow> int \<Rightarrow> nat"

record video_args =
  va_width :: int
  va_height :: int
  va_delta_t_ms :: real
  va_denoise_us :: real
  va_denoise_radius :: nat
  va_min_neighbors :: nat
  va_dot_radius :: int

text \<open>A BGR frame, by row, column and channel.\<close>

type_synonym video_frame = "nat \<Rightarrow> nat \<Rightarrow> nat \<Rightarrow> 8 word"

definition black_frame :: video_frame where
  "black_frame = (\<lambda>_ _ _. 0)"

definition light_pixel :: "nat \<Rightarrow> event_record \<Rightarrow> video_frame \<Rightarrow> video_frame" where
  "light_pixel channel r f =
     (let y = unat (er_y r); x = unat (er_x r) in f(y := (f y)(x := (f y x)(channel := 255))))"

definition paint_frame :: "event_record list \<Rightarrow> video_frame" where
  "paint_frame rs =
     fold (light_pixel 0) (filter (\<lambda>r. er_polarity r \<noteq> 1) rs)
       (fold (light_pixel 2) (filter (\<lambda>r. er_polarity r = 1) rs) black_frame)"

definition record_time :: "event_record \<Rightarrow> int" where
  "record_time r = sint (er_timestamp_ns r)"

definition record_pixel :: "event_record \<Rightarrow> pixel_event" where
  "record_pixel r = \<lparr>pe_x = unat (er_x r), pe_y = unat (er_y r), pe_t = of_int (record_time r)\<rparr>"

definition valid_records :: "video_args \<Rightarrow> event_record list \<Rightarrow> event_record list" where
  "valid_records args = filter (\<lambda>r. uint (er_x r) < va_width args \<and> uint (er_y r) < va_height args)"

definition sort_records :: "numpy \<Rightarrow> event_record list \<Rightarrow> event_record list" where
  "sort_records np records = map ((!) records) (np_argsort np (map record_time records))"

definition delta_t_ns :: "video_args \<Rightarrow> int" where
  "delta_t_ns args = py_trunc (va_delta_t_ms args * 1000000)"

text \<open>The index ranges of the chunks: \<open>zip(chunk_starts, chunk_ends)\<close>.\<close>

definition chunk_ranges :: "numpy \<Rightarrow> int \<Rightarrow> int list \<Rightarrow> (nat \<times> nat) list" where
  "chunk_ranges np delta ts =
     (let t0 = hd ts; t1 = last ts;
          n_chunks = max ((t1 - t0) div delta + 1) 1;
          boundaries = map (\<lambda>k. t0 + int k * delta) [0..<nat n_chunks + 1]
      in zip (map (np_searchsorted np ts) (butlast boundaries)) (map (np_searchsorted np ts) (tl boundaries)))"

text \<open>Boolean indexing \<open>xs[keep]\<close>.\<close>

definition masked :: "bool list \<Rightarrow> 'a list \<Rightarrow> 'a list" where
  "masked keep xs = map snd (filter fst (zip keep xs))"

definition blank_activity :: "video_args \<Rightarrow> activity_grid" where
  "blank_activity args =
     \<lparr>ag_height = nat (va_height args), ag_width = nat (va_width args), ag_time = \<lambda>_ _. - (10 ^ 15)\<rparr>"

definition chunk_mask :: "video_args \<Rightarrow> event_record list \<Rightarrow> (activity_grid, bool list) meth" where
  "chunk_mask args chunk =
     (if va_denoise_us args > 0 then
        denoise_keep_mask (va_denoise_us args) (va_denoise_radius args) (va_min_neighbors args) (map record_pixel chunk)
      else m_return (replicate (length chunk) True))"

record video_state =
  vs_last_active :: activity_grid
  vs_total_kept :: nat
  vs_total_dropped :: nat
  vs_frames :: "video_frame list"

text \<open>The body of the loop over the chunks; \<open>dilate r\<close> is \<open>cv2.dilate\<close> with a square kernel.\<close>

definition dot_frame :: "(int \<Rightarrow> video_frame \<Rightarrow> video_frame) \<Rightarrow> video_args \<Rightarrow> video_frame \<Rightarrow> video_frame" where
  "dot_frame dilate args f = (if va_dot_radius args > 0 then dilate (va_dot_radius args) f else f)"

definition render_chunk ::
    "(int \<Rightarrow> video_frame \<Rightarrow> video_frame) \<Rightarrow> video_args \<Rightarrow> event_record list \<Rightarrow> (video_state, unit) meth" where
  "render_chunk dilate args chunk s =
     (if chunk = [] then (Inr (), s\<lparr>vs_frames := vs_frames s @ [dot_frame dilate args black_frame]\<rparr>)
      else case chunk_mask args chunk (vs_last_active s) of
             (Inl e, g) \<Rightarrow> (Inl e, s\<lparr>vs_last_active := g\<rparr>)
           | (Inr keep, g) \<Rightarrow>
             (Inr (), s\<lparr>vs_last_active := g,
                vs_total_dropped := vs_total_dropped s + length (filter Not keep),
                vs_total_kept := vs_total_kept s + length (masked keep chunk),
                vs_frames := vs_frames s @ [dot_frame dilate args (paint_frame (masked keep chunk))]\<rparr>))"

record video_info =
  vi_total_events :: nat
  vi_kept_after_denoise :: nat
  vi_dropped_by_denoise :: nat
  vi_frames :: nat

text \<open>Video files, with what \<open>rename\<close> and \<open>unlink\<close> do to them; ffmpeg yields its exit status and what it wrote.\<close>

record 'v transcoder =
  tr_on_path :: bool
  tr_run :: "'v option \<Rightarrow> int \<times> 'v option"

definition rename_file :: "string \<Rightarrow> string \<Rightarrow> (string \<rightharpoonup> 'v, unit) meth" where
  "rename_file p q fs =
     (case fs p of None \<Rightarrow> (Inl (FileNotFoundError p), fs) | Some v \<Rightarrow> (Inr (), (fs(p := None))(q \<mapsto> v)))"

definition unlink_file :: "string \<Rightarrow> (string \<rightharpoonup> 'v, unit) meth" where
  "unlink_file p fs = (if fs p = None then (Inl (FileNotFoundError p), fs) else (Inr (), fs(p := None)))"

definition finalize_video :: "'v transcoder \<Rightarrow> string \<Rightarrow> string \<Rightarrow> bool \<Rightarrow> (string \<rightharpoonup> 'v, unit) meth" where
  "finalize_video tr intermediate_path final_path use_h264 fs =
     (if \<not> use_h264 then rename_file intermediate_path final_path fs
      else if \<not> tr_on_path tr then rename_file intermediate_path final_path fs
      else case tr_run tr (fs intermediate_path) of
             (returncode, written) \<Rightarrow>
               (let fs1 = (case written of None \<Rightarrow> fs | Some v \<Rightarrow> fs(final_path \<mapsto> v))
                in if returncode \<noteq> 0 \<or> fs1 final_path = None
                   then rename_file intermediate_path final_path fs1
                   else unlink_file intermediate_path fs1))"

definition intermediate_name :: "string \<Rightarrow> string" where
  "intermediate_name output_stem = output_stem @ ''.mp4v.tmp.mp4''"

text \<open>\<open>render_event_video\<close>: \<open>None\<close> is the early return; \<open>encode\<close> is the file OpenCV writes.\<close>

definition render_event_video ::
    "numpy \<Rightarrow> (int \<Rightarrow> video_frame \<Rightarrow> video_frame) \<Rightarrow> (real \<Rightarrow> video_frame list \<Rightarrow> 'v) \<Rightarrow> 'v transcoder \<Rightarrow> video_args \<Rightarrow> bool \<Rightarrow>
     string \<Rightarrow> byte list option \<Rightarrow> (string \<rightharpoonup> 'v, video_info option) meth" where
  "render_event_video np dilate encode tr args no_h264 output_stem events_bin fs =
     (case events_bin of
        None \<Rightarrow> (Inr None, fs)
      | Some content \<Rightarrow>
        (let records = valid_records args (records_from content)
         in if records = [] then (Inr None, fs)
            else
              let rs = sort_records np records;
                  delta = delta_t_ns args
              in if delta = 0 then (Inl (OtherException ''ZeroDivisionError''), fs)
                 else
                   let ranges = chunk_ranges np delta (map record_time rs)
                   in case m_for ranges (\<lambda>(i, j). render_chunk dilate args (drop i (take j rs)))
                             \<lparr>vs_last_active = blank_activity args, vs_total_kept = 0, vs_total_dropped = 0, vs_frames = []\<rparr> of
                        (Inl e, _) \<Rightarrow> (Inl e, fs)
                      | (Inr _, s) \<Rightarrow>
                        m_seq (m_modify (\<lambda>fs. fs(intermediate_name output_stem \<mapsto> encode (1000 / va_delta_t_ms args) (vs_frames s))))
                         (m_seq (finalize_video tr (intermediate_name output_stem) (output_stem @ ''.mp4'') (\<not> no_h264))
                           (m_return (Some \<lparr>vi_total_events = length rs,
                              vi_kept_after_denoise = (if va_denoise_us args > 0 then vs_total_kept s else length rs),
                              vi_dropped_by_denoise = vs_total_dropped s, vi_frames = length ranges\<rparr>))) fs))"

section \<open>Sorting and cutting\<close>

text \<open>What NumPy documents of the three functions.\<close>

definition numpy_sorts :: "numpy \<Rightarrow> bool" where
  "numpy_sorts np \<longleftrightarrow>
     (\<forall>ts. np_sort np ts = sort ts) \<and>
     (\<forall>ts. np_argsort np ts = sort_key ((!) ts) [0..<length ts]) \<and>
     (\<forall>ts v. sorted ts \<longrightarrow> np_searchsorted np ts v = length (filter (\<lambda>t. t < v) ts))"

lemma insort_key_map: "map g (insort_key (\<lambda>x. f (g x)) x xs) = insort_key f (g x) (map g xs)"
  by (induction xs) auto

lemma sort_key_map: "map g (sort_key (\<lambda>x. f (g x)) xs) = sort_key f (map g xs)"
  by (induction xs) (simp_all add: insort_key_map)

lemma insort_key_cong:
  "f x = g x \<Longrightarrow> \<forall>y \<in> set xs. f y = g y \<Longrightarrow> insort_key f x xs = insort_key g x xs"
  by (induction xs) auto

lemma sort_key_cong_set: "\<forall>x \<in> set xs. f x = g x \<Longrightarrow> sort_key f xs = sort_key g xs"
proof (induction xs)
  case (Cons x xs)
  then show ?case by (simp add: insort_key_cong [of f x g "sort_key g xs"])
qed simp

lemma sort_records_stable: "numpy_sorts np \<Longrightarrow> sort_records np rs = sort_key record_time rs"
proof -
  assume np: "numpy_sorts np"
  have "sort_key ((!) (map record_time rs)) [0..<length rs] = sort_key (\<lambda>i. record_time (rs ! i)) [0..<length rs]"
    by (rule sort_key_cong_set) simp
  then have "sort_records np rs = map ((!) rs) (sort_key (\<lambda>i. record_time (rs ! i)) [0..<length rs])"
    using np by (simp add: sort_records_def numpy_sorts_def)
  also have "\<dots> = sort_key record_time rs"
    by (simp add: sort_key_map [of "(!) rs" record_time] map_nth)
  finally show ?thesis .
qed

lemma sorted_take_less:
  "sorted (map f xs) \<Longrightarrow> take (length (filter (\<lambda>x. f x < v) xs)) xs = filter (\<lambda>x. f x < (v :: int)) xs"
proof (induction xs)
  case (Cons x xs)
  have "filter (\<lambda>x. f x < v) xs = []" if "\<not> f x < v"
    using Cons.prems that by (fastforce simp: filter_empty_conv)
  then show ?case using Cons by auto
qed simp

lemma sorted_drop_less:
  "sorted (map f xs) \<Longrightarrow> drop (length (filter (\<lambda>x. f x < v) xs)) xs = filter (\<lambda>x. (v :: int) \<le> f x) xs"
proof (induction xs)
  case (Cons x xs)
  have "filter (\<lambda>x. f x < v) xs = []" "filter (\<lambda>x. v \<le> f x) xs = xs" if "\<not> f x < v"
    using Cons.prems that by (fastforce simp: filter_empty_conv filter_id_conv)+
  then show ?case using Cons by auto
qed simp

lemma sorted_slice:
  assumes s: "sorted (map f xs)"
  shows "drop (length (filter (\<lambda>x. f x < a) xs)) (take (length (filter (\<lambda>x. f x < b) xs)) xs) =
    filter (\<lambda>x. a \<le> f x \<and> f x < (b :: int)) xs"
proof -
  let ?ys = "filter (\<lambda>x. f x < b) xs"
  show ?thesis
  proof (cases "a \<le> b")
    case True
    have "filter (\<lambda>x. f x < a) ?ys = filter (\<lambda>x. f x < a) xs" using True by (auto intro: filter_cong)
    moreover have "sorted (map f ?ys)" using s by (simp add: sorted_filter)
    ultimately show ?thesis
      unfolding sorted_take_less [OF s] using sorted_drop_less [of f ?ys a] by (simp add: conj_commute)
  next
    case False
    then have "filter (\<lambda>x. a \<le> f x \<and> f x < b) xs = []" by (auto simp: filter_empty_conv)
    moreover have "length ?ys \<le> length (filter (\<lambda>x. f x < a) xs)"
      using False by (induction xs) auto
    ultimately show ?thesis by simp
  qed
qed

text \<open>The chunks of sorted items: the items of each time window.\<close>

definition window :: "('a \<Rightarrow> int) \<Rightarrow> int \<Rightarrow> int \<Rightarrow> 'a list \<Rightarrow> nat \<Rightarrow> 'a list" where
  "window f t0 delta xs k = filter (\<lambda>x. (f x - t0) div delta = int k) xs"

lemma window_bounds:
  "0 < delta \<Longrightarrow> (t0 + int k * delta \<le> v \<and> v < t0 + int (Suc k) * delta) \<longleftrightarrow> (v - t0) div delta = int k"
proof -
  assume d: "0 < delta"
  have "(v - t0) div delta = int k \<longleftrightarrow> int k * delta \<le> v - t0 \<and> v - t0 < (int k + 1) * delta"
  proof
    assume e: "(v - t0) div delta = int k"
    have "v - t0 = (v - t0) div delta * delta + (v - t0) mod delta" by simp
    moreover have "0 \<le> (v - t0) mod delta" "(v - t0) mod delta < delta" using d by simp_all
    ultimately show "int k * delta \<le> v - t0 \<and> v - t0 < (int k + 1) * delta"
      unfolding e by (simp add: algebra_simps)
  next
    assume b: "int k * delta \<le> v - t0 \<and> v - t0 < (int k + 1) * delta"
    then show "(v - t0) div delta = int k"
      using d by (intro int_div_pos_eq [of _ _ "int k" "v - t0 - int k * delta"]) (simp_all add: algebra_simps)
  qed
  then show ?thesis by (auto simp: algebra_simps)
qed

lemma concat_windows:
  assumes s: "sorted (map f xs)" and d: "0 < delta" and lo: "\<forall>x \<in> set xs. t0 \<le> f x"
  shows "concat (map (window f t0 delta xs) [0..<n]) = filter (\<lambda>x. f x < t0 + int n * delta) xs"
proof (induction n)
  case 0
  show ?case using lo by (simp add: filter_False not_less)
next
  case (Suc n)
  let ?a = "t0 + int n * delta" and ?b = "t0 + int (Suc n) * delta"
  let ?ys = "filter (\<lambda>x. f x < ?b) xs"
  have ab: "?a \<le> ?b" using d by (simp add: algebra_simps)
  have w: "window f t0 delta xs n = filter (\<lambda>x. ?a \<le> f x \<and> f x < ?b) xs"
    unfolding window_def using window_bounds [OF d] by (intro filter_cong) auto
  have "sorted (map f ?ys)" using s by (simp add: sorted_filter)
  then have "?ys = filter (\<lambda>x. f x < ?a) ?ys @ filter (\<lambda>x. ?a \<le> f x) ?ys"
    by (metis append_take_drop_id sorted_take_less sorted_drop_less)
  also have "filter (\<lambda>x. f x < ?a) ?ys = filter (\<lambda>x. f x < ?a) xs" using ab by (auto intro: filter_cong)
  also have "filter (\<lambda>x. ?a \<le> f x) ?ys = filter (\<lambda>x. ?a \<le> f x \<and> f x < ?b) xs" by (simp add: conj_commute)
  finally show ?case using Suc.IH w by simp
qed

section \<open>The frames\<close>

lemma m_for_map: "m_for (map g xs) f = m_for xs (\<lambda>x. f (g x))"
  by (induction xs) simp_all

lemma denoise_append:
  "denoise_keep_mask th rad mn (es @ fs) =
     m_bind (denoise_keep_mask th rad mn es) (\<lambda>ks. m_bind (denoise_keep_mask th rad mn fs) (\<lambda>ls. m_return (ks @ ls)))"
  by (induction es) (simp_all add: m_bind_def fun_eq_iff split: prod.split sum.split)

lemma denoise_length: "denoise_keep_mask th rad mn es g = (Inr ks, g') \<Longrightarrow> length ks = length es"
  by (induction es arbitrary: g ks g') (auto simp: m_bind_Inr_iff)

lemma chunk_mask_length: "chunk_mask args cs g = (Inr ks, g') \<Longrightarrow> length ks = length cs"
  by (auto simp: chunk_mask_def dest: denoise_length split: if_splits)

lemma chunk_mask_append:
  assumes "chunk_mask args (cs @ ds) g = (Inr (ks @ ls), g')" and "length ks = length cs"
  shows "\<exists>g1. chunk_mask args cs g = (Inr ks, g1) \<and> chunk_mask args ds g1 = (Inr ls, g')"
proof (cases "va_denoise_us args > 0")
  case True
  then have "denoise_keep_mask (va_denoise_us args) (va_denoise_radius args) (va_min_neighbors args)
      (map record_pixel cs @ map record_pixel ds) g = (Inr (ks @ ls), g')"
    using assms(1) by (simp add: chunk_mask_def)
  then obtain ks' g1 ls' where run: "denoise_keep_mask (va_denoise_us args) (va_denoise_radius args) (va_min_neighbors args)
        (map record_pixel cs) g = (Inr ks', g1)"
      "denoise_keep_mask (va_denoise_us args) (va_denoise_radius args) (va_min_neighbors args)
        (map record_pixel ds) g1 = (Inr ls', g')" "ks @ ls = ks' @ ls'"
    unfolding denoise_append by (auto simp: m_bind_Inr_iff)
  have "length ks' = length ks" using denoise_length [OF run(1)] assms(2) by simp
  then show ?thesis using run True by (auto simp: chunk_mask_def)
next
  case False
  then show ?thesis using assms by (auto simp: chunk_mask_def replicate_add append_eq_append_conv)
qed

text \<open>In range, the mask of a recording exists.\<close>

lemma chunk_mask_total:
  assumes "set cs \<subseteq> set (valid_records args rs)"
  shows "\<exists>ks g'. chunk_mask args cs (blank_activity args) = (Inr ks, g')"
proof -
  have "in_grid (blank_activity args) (record_pixel r)" if "r \<in> set cs" for r
  proof -
    have "uint (er_x r) < va_width args" "uint (er_y r) < va_height args"
      using that assms by (auto simp: valid_records_def)
    then show ?thesis by (simp add: in_grid_def blank_activity_def record_pixel_def zless_nat_eq_int_zless)
  qed
  then have grid: "\<forall>e \<in> set (map record_pixel cs). in_grid (blank_activity args) e" by simp
  show ?thesis
    using denoise_mask_run [OF grid, of "va_denoise_us args" "va_denoise_radius args" "va_min_neighbors args"]
    by (cases "va_denoise_us args > 0") (simp_all add: chunk_mask_def)
qed

lemma masked_zip: "masked (map fst zs) (map snd zs) = map snd (filter fst zs)"
  by (simp add: masked_def zip_map_fst_snd)

lemma masked_parts: "length (masked keep xs) + length (filter Not keep) = length xs" if "length keep = length xs"
  using that by (induction keep xs rule: list_induct2) (auto simp: masked_def)

text \<open>The loop over chunks whose concatenation has a mask.\<close>

lemma render_chunks:
  assumes "chunk_mask args (map snd (concat zss)) (vs_last_active s) = (Inr (map fst (concat zss)), g')"
  shows "m_for (map (map snd) zss) (render_chunk dilate args) s =
    (Inr (), s\<lparr>vs_last_active := g',
       vs_total_kept := vs_total_kept s + length (filter fst (concat zss)),
       vs_total_dropped := vs_total_dropped s + length (filter (\<lambda>z. \<not> fst z) (concat zss)),
       vs_frames := vs_frames s @ map (\<lambda>zs. dot_frame dilate args (paint_frame (map snd (filter fst zs)))) zss\<rparr>)"
  using assms
proof (induction zss arbitrary: s)
  case Nil
  then show ?case by (auto simp: chunk_mask_def split: if_splits)
next
  case (Cons zs zss)
  obtain g1 where g1: "chunk_mask args (map snd zs) (vs_last_active s) = (Inr (map fst zs), g1)"
      "chunk_mask args (map snd (concat zss)) g1 = (Inr (map fst (concat zss)), g')"
    using chunk_mask_append [of args "map snd zs" "map snd (concat zss)" "vs_last_active s" "map fst zs" "map fst (concat zss)" g']
      Cons.prems by auto
  define s1 where "s1 = s\<lparr>vs_last_active := g1, vs_total_kept := vs_total_kept s + length (filter fst zs),
      vs_total_dropped := vs_total_dropped s + length (filter (\<lambda>z. \<not> fst z) zs),
      vs_frames := vs_frames s @ [dot_frame dilate args (paint_frame (map snd (filter fst zs)))]\<rparr>"
  have "render_chunk dilate args (map snd zs) s = (Inr (), s1)"
  proof (cases "zs = []")
    case True
    then have "g1 = vs_last_active s" using g1(1) by (auto simp: chunk_mask_def split: if_splits)
    then show ?thesis using True by (simp add: render_chunk_def s1_def paint_frame_def)
  next
    case False
    then show ?thesis using g1(1)
      by (simp add: render_chunk_def s1_def masked_zip filter_map comp_def)
  qed
  then have "m_for (map (map snd) (zs # zss)) (render_chunk dilate args) s =
      m_for (map (map snd) zss) (render_chunk dilate args) s1"
    by (simp add: m_bind_def)
  also have "\<dots> = (Inr (), s1\<lparr>vs_last_active := g', vs_total_kept := vs_total_kept s1 + length (filter fst (concat zss)),
       vs_total_dropped := vs_total_dropped s1 + length (filter (\<lambda>z. \<not> fst z) (concat zss)),
       vs_frames := vs_frames s1 @ map (\<lambda>zs. dot_frame dilate args (paint_frame (map snd (filter fst zs)))) zss\<rparr>)"
    using g1(2) by (intro Cons.IH) (simp add: s1_def)
  finally show ?case by (simp add: s1_def)
qed

section \<open>The video of a recording\<close>

text \<open>How many chunks cover the times of sorted records.\<close>

definition chunk_count :: "int \<Rightarrow> event_record list \<Rightarrow> nat" where
  "chunk_count delta rs = nat ((record_time (last rs) - record_time (hd rs)) div delta + 1)"

lemma chunk_ranges_windows:
  assumes np: "numpy_sorts np" and s: "sorted (map record_time rs)" and ne: "rs \<noteq> []" and d: "0 < delta"
  shows "length (chunk_ranges np delta (map record_time rs)) = chunk_count delta rs" (is ?len)
    and "map (\<lambda>(i, j). drop i (take j rs)) (chunk_ranges np delta (map record_time rs)) =
      map (window record_time (record_time (hd rs)) delta rs) [0..<chunk_count delta rs]" (is ?slices)
proof -
  let ?ts = "map record_time rs" and ?t0 = "record_time (hd rs)"
  let ?cut = "\<lambda>v. length (filter (\<lambda>r. record_time r < v) rs)"
  have "?t0 \<le> record_time (last rs)" using s ne by (cases rs rule: rev_cases) (auto simp: sorted_append hd_append)
  then have pos: "0 \<le> (record_time (last rs) - ?t0) div delta" using d by (simp add: pos_imp_zdiv_nonneg_iff)
  have cut: "np_searchsorted np ?ts v = ?cut v" for v
    using np s by (simp add: numpy_sorts_def filter_map comp_def)
  have halves: "butlast (map h [0..<Suc n]) = map h [0..<n]" "tl (map h [0..<Suc n]) = map (\<lambda>k. h (Suc k)) [0..<n]"
    for h :: "nat \<Rightarrow> int" and n
    by (simp, simp add: upt_conv_Cons map_Suc_upt [symmetric] comp_def del: upt_Suc)
  have ranges: "chunk_ranges np delta ?ts =
      map (\<lambda>k. (?cut (?t0 + int k * delta), ?cut (?t0 + int (Suc k) * delta))) [0..<chunk_count delta rs]"
    using pos ne
    by (simp add: chunk_ranges_def Let_def halves hd_map last_map cut chunk_count_def max_def zip_map_map zip_same_conv_map
        comp_def del: upt_Suc of_nat_Suc)
  show ?len unfolding ranges by simp
  show ?slices
    unfolding ranges window_def using window_bounds [OF d, of ?t0]
    by (simp add: sorted_slice [OF s] comp_def del: of_nat_Suc)
qed

lemma map_snd_window: "map snd (window (\<lambda>z. f (snd z)) t0 delta zs k) = window f t0 delta (map snd zs) k"
  by (simp add: window_def filter_map comp_def)

lemma zip_times: "length keep = length xs \<Longrightarrow> map (\<lambda>z. f (snd z)) (zip keep xs) = map f xs"
  by (induction keep xs rule: list_induct2) simp_all

lemma masked_all: "masked (replicate (length xs) True) xs = xs"
  by (induction xs) (simp_all add: masked_def)

lemma set_masked: "set (masked keep xs) \<subseteq> set xs"
  by (auto simp: masked_def dest: set_zip_rightD)

lemma sorted_masked: "length keep = length xs \<Longrightarrow> sorted (map f xs) \<Longrightarrow> sorted (map f (masked keep xs))"
  using sorted_filter [of "\<lambda>z. f (snd z)" "zip keep xs" fst] by (simp add: zip_times masked_def comp_def)

lemma window_masked:
  "map snd (filter fst (window (\<lambda>z. f (snd z)) t0 delta (zip keep xs) k)) = window f t0 delta (masked keep xs) k"
  by (simp add: window_def masked_def filter_map comp_def conj_commute)

lemma before_last_boundary:
  assumes s: "sorted (map record_time rs)" and ne: "rs \<noteq> []" and d: "0 < delta" and r: "r \<in> set rs"
  shows "record_time (hd rs) \<le> record_time r \<and> record_time r < record_time (hd rs) + int (chunk_count delta rs) * delta"
proof -
  let ?t0 = "record_time (hd rs)" and ?t1 = "record_time (last rs)"
  have lo: "?t0 \<le> record_time r" "?t0 \<le> ?t1" using s r ne by (cases rs; auto)+
  have "record_time r \<le> ?t1" using s r ne by (cases rs rule: rev_cases) (auto simp: sorted_append)
  moreover have "?t1 - ?t0 < ((?t1 - ?t0) div delta + 1) * delta"
    using pos_mod_bound [OF d, of "?t1 - ?t0"] div_mult_mod_eq [of "?t1 - ?t0" delta]
    unfolding distrib_right mult_1_left by linarith
  ultimately show ?thesis using d lo by (simp add: chunk_count_def pos_imp_zdiv_nonneg_iff)
qed

lemma render_all_chunks:
  assumes np: "numpy_sorts np" and s: "sorted (map record_time rs)" and ne: "rs \<noteq> []" and d: "0 < delta"
    and keep: "chunk_mask args rs g = (Inr keep, g')"
  shows "m_for (chunk_ranges np delta (map record_time rs)) (\<lambda>(i, j). render_chunk dilate args (drop i (take j rs)))
      \<lparr>vs_last_active = g, vs_total_kept = 0, vs_total_dropped = 0, vs_frames = []\<rparr> =
    (Inr (), \<lparr>vs_last_active = g', vs_total_kept = length (masked keep rs), vs_total_dropped = length rs - length (masked keep rs),
       vs_frames = map (\<lambda>k. dot_frame dilate args (paint_frame (window record_time (record_time (hd rs)) delta (masked keep rs) k)))
         [0..<chunk_count delta rs]\<rparr>)"
proof -
  let ?t0 = "record_time (hd rs)" and ?n = "chunk_count delta rs"
  let ?zs = "zip keep rs"
  let ?zss = "map (window (\<lambda>z. record_time (snd z)) ?t0 delta ?zs) [0..<?n]"
  have len: "length keep = length rs" by (rule chunk_mask_length [OF keep])
  have fs: "map fst ?zs = keep" "map snd ?zs = rs" using len by simp_all
  have times: "map (\<lambda>z. record_time (snd z)) ?zs = map record_time rs" by (rule zip_times [OF len])
  have inside: "?t0 \<le> record_time (snd z) \<and> record_time (snd z) < ?t0 + int ?n * delta" if "z \<in> set ?zs" for z
    using before_last_boundary [OF s ne d] that fs(2) by (metis image_eqI list.set_map)
  have all: "concat ?zss = ?zs"
    using concat_windows [of "\<lambda>z. record_time (snd z)" ?zs delta ?t0 ?n] times s d inside
    by (simp add: filter_id_conv)
  have chunks: "map (\<lambda>(i, j). drop i (take j rs)) (chunk_ranges np delta (map record_time rs)) = map (map snd) ?zss"
    unfolding chunk_ranges_windows(2) [OF np s ne d]
    by (simp add: map_snd_window fs(2) comp_def)
  have "m_for (chunk_ranges np delta (map record_time rs)) (\<lambda>(i, j). render_chunk dilate args (drop i (take j rs))) =
      m_for (map (map snd) ?zss) (render_chunk dilate args)"
    unfolding chunks [symmetric] m_for_map by (simp add: case_prod_unfold)
  moreover have "length (filter (\<lambda>z. \<not> fst z) ?zs) = length (filter Not keep)"
    using fs(1) by (metis (no_types, lifting) filter_map length_map comp_apply filter_cong)
  moreover have "length (filter fst ?zs) = length (masked keep rs)" by (simp add: masked_def)
  ultimately show ?thesis
    using render_chunks [of args ?zss "\<lparr>vs_last_active = g, vs_total_kept = 0, vs_total_dropped = 0, vs_frames = []\<rparr>" g' dilate]
      keep masked_parts [OF len]
    by (simp add: all fs comp_def window_masked)
qed

lemma finalize_leaves_final:
  assumes "fs p = Some v" and "p \<noteq> q"
  shows "fst (finalize_video tr p q use fs) = Inr ()" and "snd (finalize_video tr p q use fs) p = None"
    and "snd (finalize_video tr p q use fs) q \<noteq> None"
  using assms
  by (auto simp: finalize_video_def rename_file_def unlink_file_def Let_def split: prod.split option.split)


text \<open>Three events, out of order in the file: two neighbours in one window, one alone later.\<close>

definition demo_records :: "event_record list" where
  "demo_records =
     [\<lparr>er_timestamp_ns = 2000000, er_x = 3, er_y = 3, er_polarity = 1\<rparr>,
      \<lparr>er_timestamp_ns = 100, er_x = 1, er_y = 1, er_polarity = 1\<rparr>,
      \<lparr>er_timestamp_ns = 105, er_x = 2, er_y = 1, er_polarity = 0\<rparr>]"

definition demo_numpy :: numpy where
  "demo_numpy =
     \<lparr>np_sort = sort, np_argsort = \<lambda>ts. sort_key ((!) ts) [0..<length ts], np_searchsorted = \<lambda>ts v. length (filter (\<lambda>t. t < v) ts)\<rparr>"

definition demo_args :: video_args where
  "demo_args = \<lparr>va_width = 4, va_height = 4, va_delta_t_ms = 1, va_denoise_us = 10, va_denoise_radius = 1,
     va_min_neighbors = 1, va_dot_radius = 0\<rparr>"


end
