(* ===== verification/Recording_Content.thy ===== *)
theory Recording_Content imports Recording_Rigs begin

text \<open>
  What the recording threads leave on disk: the loops of \<open>Basler_Recorder\<close> and
  \<open>Event_Recorder\<close> run with the callbacks of the rigs, and their files read back.
\<close>

section \<open>Images and timestamps\<close>

definition frame_cells :: "(int \<Rightarrow> int) \<Rightarrow> (int \<Rightarrow> string) \<Rightarrow> 'i basler_frame \<Rightarrow> string \<Rightarrow> string" where
  "frame_cells disk_ns wall f k = (case map_of (frame_row disk_ns wall f) k of None \<Rightarrow> [] | Some v \<Rightarrow> v)"

lemma rgb_on_frame_run:
  "rgb_on_frame disk_ns wall f (images, log_of timestamps_fieldnames cells) =
     (Inr (), (images @ [(frame_filename (bf_index f), bf_image f)],
               log_of timestamps_fieldnames (cells @ [frame_cells disk_ns wall f])))"
proof -
  have "set (map fst (frame_row disk_ns wall f)) = set timestamps_fieldnames"
    by (simp add: frame_row_def timestamps_fieldnames_def)
  from log_of_write [OF this, of cells] show ?thesis
    by (simp add: rgb_on_frame_def frame_cells_def [abs_def])
qed

lemma grab_body_calls:
  assumes "grab_body convert on_frame (Grabbed b k x) a (r, l, w) = (Inr (), (r', l', w'))"
  shows "\<exists>f. bf_index f = ba_frame_count r + 1 \<and> bf_ticks f = k \<and> convert x = Inr (bf_image f) \<and>
    on_frame f w = (Inr (), w')"
proof -
  let ?f = "\<lparr>bf_index = ba_frame_count r + 1, bf_image = projr (convert x), bf_ticks = k,
     bf_exposure_ns = (if ba_ns_per_tick r > 0 then projr (fst (to_host_ns k (Some a) 0 (ba_anchor r))) else a),
     bf_arrival_ns = a\<rparr>"
  have "convert x = Inr (projr (convert x)) \<and> on_frame ?f w = (Inr (), w')"
    using assms by (auto simp: grab_body_def Let_def split: sum.splits prod.splits if_splits)
  then show ?thesis by (intro exI [of _ ?f]) simp
qed

text \<open>The frames a loop saves, against the buffers it grabbed.\<close>

definition frames_of :: "('b \<Rightarrow> 'i res) \<Rightarrow> int \<Rightarrow> 'b grab list \<Rightarrow> 'i basler_frame list \<Rightarrow> bool" where
  "frames_of convert n gs fs \<longleftrightarrow>
     list_all2 (\<lambda>g f. convert (grab_buffer g) = Inr (bf_image f) \<and> bf_ticks f = grab_ticks g) gs fs \<and>
     map bf_index fs = map (\<lambda>k. n + 1 + int k) [0..<length fs]"

lemma frames_of_Cons:
  assumes "convert x = Inr (bf_image f)" and "bf_ticks f = k" and "bf_index f = n + 1" and "frames_of convert (n + 1) gs fs"
  shows "frames_of convert n (Grabbed b k x # gs) (f # fs)"
proof -
  have "map (\<lambda>k. n + 1 + int k) [0..<Suc (length fs)] = (n + 1) # map (\<lambda>k. (n + 1) + 1 + int k) [0..<length fs]"
    by (simp add: upt_conv_Cons map_Suc_upt [symmetric] comp_def algebra_simps del: upt_Suc)
  then show ?thesis using assms by (simp add: frames_of_def del: upt_Suc)
qed

lemma grab_turns_save:
  assumes "grab_turns convert (rgb_on_frame disk_ns wall) ts (r, l, (images, log_of timestamps_fieldnames cells)) =
      (Inr (), (r', l', w'))"
  shows "\<exists>fs. frames_of convert (ba_frame_count r) (grabbed ts) fs \<and>
    w' = (images @ map (\<lambda>f. (frame_filename (bf_index f), bf_image f)) fs,
          log_of timestamps_fieldnames (cells @ map (frame_cells disk_ns wall) fs))"
  using assms
proof (induction ts arbitrary: r l images cells)
  case Nil
  then show ?case by (intro exI [of _ "[]"]) (simp add: frames_of_def)
next
  case (Cons t ts)
  show ?case
  proof (cases "gt_stopped t")
    case True
    then show ?thesis using Cons.prems by (intro exI [of _ "[]"]) (simp add: frames_of_def)
  next
    case False
    then obtain r1 l1 w1 where body: "grab_body convert (rgb_on_frame disk_ns wall) (gt_result t) (gt_arrival t)
          (r, l, (images, log_of timestamps_fieldnames cells)) = (Inr (), (r1, l1, w1))"
        "grab_turns convert (rgb_on_frame disk_ns wall) ts (r1, l1, w1) = (Inr (), (r', l', w'))"
      using Cons.prems by (auto simp: m_seq_def m_bind_Inr_iff)
    show ?thesis
    proof (cases "gt_result t")
      case (Grabbed b k x)
      obtain f where f: "bf_index f = ba_frame_count r + 1" "bf_ticks f = k" "convert x = Inr (bf_image f)"
          "rgb_on_frame disk_ns wall f (images, log_of timestamps_fieldnames cells) = (Inr (), w1)"
        using grab_body_calls [OF body(1) [unfolded Grabbed]] by blast
      have w1: "w1 = (images @ [(frame_filename (bf_index f), bf_image f)],
            log_of timestamps_fieldnames (cells @ [frame_cells disk_ns wall f]))"
        using f(4) by (simp add: rgb_on_frame_run)
      have n1: "ba_frame_count r1 = ba_frame_count r + 1" using grab_body_returns [OF body(1) [unfolded Grabbed]] by blast
      obtain fs where fs: "frames_of convert (ba_frame_count r + 1) (grabbed ts) fs"
          "w' = (images @ map (\<lambda>f. (frame_filename (bf_index f), bf_image f)) (f # fs),
            log_of timestamps_fieldnames (cells @ map (frame_cells disk_ns wall) (f # fs)))"
        using Cons.IH [OF body(2) [unfolded w1]] n1 by auto
      have "frames_of convert (ba_frame_count r) (grabbed (t # ts)) (f # fs)"
        using frames_of_Cons [OF f(3,2,1) fs(1)] False Grabbed by simp
      then show ?thesis using fs(2) by blast
    qed (use Cons.IH body False in auto)
  qed
qed

lemma frame_filename_inj: "inj_on frame_filename {0..}"
proof (rule inj_onI)
  fix m n :: int assume mn: "m \<in> {0..}" "n \<in> {0..}" "frame_filename m = frame_filename n"
  then have "zpad 6 (nat_str (nat m)) = zpad 6 (nat_str (nat n))" by (simp add: frame_filename_def int_str_def)
  then have "parse_digits (zpad 6 (nat_str (nat m))) = parse_digits (zpad 6 (nat_str (nat n)))" by (rule arg_cong)
  then show "m = n" using mn by simp
qed

lemma saved_column:
  assumes "k \<in> set timestamps_fieldnames" and "\<And>f. frame_cells disk_ns wall f k = int_str (v f)"
  shows "list_all2 (\<lambda>row x. int_cell k row = Inr x)
    (dict_rows (csv_rows (log_of timestamps_fieldnames (map (frame_cells disk_ns wall) fs)))) (map v fs)"
  by (rule log_of_cells [OF assms(1)]) (simp_all add: assms(2))

lemma frame_cells_ints:
  "frame_cells disk_ns wall f ''index'' = int_str (bf_index f)"
  "frame_cells disk_ns wall f ''exposure_host_ns'' = int_str (bf_exposure_ns f)"
  "frame_cells disk_ns wall f ''arrival_host_ns'' = int_str (bf_arrival_ns f)"
  "frame_cells disk_ns wall f ''disk_write_complete_ns'' = int_str (disk_ns (bf_index f))"
  by (simp_all add: frame_cells_def frame_row_def)

lemma upto_counting: "map (\<lambda>k. 1 + int k) [0..<n] = [1..int n]"
  by (induction n) (simp_all add: upto_rec2)

lemma log_columns:
  fixes fs :: "'i basler_frame list" and disk_ns :: "int \<Rightarrow> int" and wall :: "int \<Rightarrow> string"
  defines "rows \<equiv> csv_rows (log_of timestamps_fieldnames (map (frame_cells disk_ns wall) fs))"
  shows "int_column ''index'' rows = Inr (map bf_index fs)"
    and "int_column ''exposure_host_ns'' rows = Inr (map bf_exposure_ns fs)"
    and "first_last_exposure_ns rows =
      Inr (if fs = [] then (None, None) else (Some (bf_exposure_ns (hd fs)), Some (bf_exposure_ns (last fs))))"
proof -
  have mem: "''index'' \<in> set timestamps_fieldnames" "''exposure_host_ns'' \<in> set timestamps_fieldnames"
    by (simp_all add: timestamps_fieldnames_def)
  show "int_column ''index'' rows = Inr (map bf_index fs)"
    unfolding rows_def by (rule int_column_values, rule saved_column [OF mem(1) frame_cells_ints(1)])
  show "int_column ''exposure_host_ns'' rows = Inr (map bf_exposure_ns fs)"
    unfolding rows_def by (rule int_column_values, rule saved_column [OF mem(2) frame_cells_ints(2)])
  have "list_all2 (\<lambda>row x. int_cell ''exposure_host_ns'' row = Inr x) (dict_rows rows) (map bf_exposure_ns fs)"
    unfolding rows_def by (rule saved_column [OF mem(2) frame_cells_ints(2)])
  from first_last_loop_values [OF this, of None None]
  show "first_last_exposure_ns rows =
      Inr (if fs = [] then (None, None) else (Some (bf_exposure_ns (hd fs)), Some (bf_exposure_ns (last fs))))"
    by (simp add: first_last_exposure_ns_def hd_map last_map)
qed



section \<open>Event files\<close>

text \<open>An anchored clock has its anchor point, so converting a tick never raises.\<close>

definition anchor_sound :: "clock_anchor \<Rightarrow> bool" where
  "anchor_sound ca \<longleftrightarrow> (ca_anchored ca \<longrightarrow> ca_device_start ca \<noteq> None \<and> ca_host_start ca \<noteq> None)"

lemma anchor_sound_step:
  "anchor_sound ca \<Longrightarrow> \<exists>h ca'. to_host_ns t (Some n) 0 ca = (Inr h, ca') \<and> anchor_sound ca'"
  by (auto simp: anchor_sound_def to_host_ns_def Let_def finish_warmup_def split: prod.splits)

text \<open>The chunks that arrive before the loop ends.\<close>

fun delivered :: "stream_turn list \<Rightarrow> raw_event list" where
  "delivered [] = []"
| "delivered (t # ts) =
     (if st_stopped t then []
      else case st_item t of Chunk evs \<Rightarrow> evs @ delivered ts | _ \<Rightarrow> [])"

definition event_key :: "raw_event \<Rightarrow> 16 word \<times> 16 word \<times> 8 word" where
  "event_key e = (re_x e, re_y e, re_p e)"

definition record_key :: "event_record \<Rightarrow> 16 word \<times> 16 word \<times> 8 word" where
  "record_key e = (er_x e, er_y e, er_polarity e)"

lemma make_batch_agrees: "columns_agree (make_batch host evs)"
  by (simp add: columns_agree_def make_batch_def)

lemma make_batch_records: "map record_key (batch_records (make_batch host evs)) = map event_key evs"
  by (induction evs) (simp_all add: make_batch_def batch_records_def record_key_def event_key_def)

lemma rig_on_events_run:
  assumes "file_ok rs w" and "evs \<noteq> []"
  shows "\<exists>w' first_ns last_ns. rig_on_events (make_batch host evs) (w, b) = (Inr (), (w', Some first_ns, Some last_ns)) \<and>
    file_ok (rs @ batch_records (make_batch host evs)) w'"
proof -
  obtain w' where "write_batch (make_batch host evs) w = (Inr (), w')"
      "file_ok (rs @ batch_records (make_batch host evs)) w'"
    using file_ok_write [OF assms(1) batch_to_records_agree [OF make_batch_agrees]] by blast
  then show ?thesis
    using assms(2) by (cases b; cases "fst b") (auto simp: rig_on_events_def make_batch_def)
qed

text \<open>The state of a stream: the records written, against the events in the sensor so far.\<close>

definition stream_ok ::
    "event_recorder \<Rightarrow> raw_event list \<Rightarrow> event_recorder \<times> event_writer \<times> int option \<times> int option \<Rightarrow> bool" where
  "stream_ok r0 evs s \<longleftrightarrow>
     (case s of (r, w, first_ns, last_ns) \<Rightarrow>
        anchor_sound (ev_anchor r) \<and> ev_width r = ev_width r0 \<and> ev_height r = ev_height r0 \<and>
        ev_count r = ev_count r0 + int (length evs) \<and> (first_ns = None \<longleftrightarrow> evs = []) \<and> (last_ns = None \<longleftrightarrow> evs = []) \<and>
        (\<exists>rs. file_ok rs w \<and> map record_key rs = map event_key evs))"

lemma in_sensor_cong: "ev_width r = ev_width r0 \<Longrightarrow> ev_height r = ev_height r0 \<Longrightarrow> in_sensor r = in_sensor r0"
  by (simp add: in_sensor_def fun_eq_iff)

lemma publish_chunk_ok:
  assumes "stream_ok r0 evs s" and "new \<noteq> []"
  shows "\<exists>s'. publish_chunk rig_on_events new now s = (Inr (), s') \<and> stream_ok r0 (evs @ new) s'"
proof -
  obtain r w first_ns last_ns where s: "s = (r, w, first_ns, last_ns)" by (cases s)
  obtain rs where rs: "file_ok rs w" "map record_key rs = map event_key evs"
    using assms(1) s by (auto simp: stream_ok_def)
  obtain h ca where ca: "to_host_ns (re_t (last new)) (Some now) 0 (ev_anchor r) = (Inr h, ca)" "anchor_sound ca"
    using anchor_sound_step assms(1) s by (fastforce simp: stream_ok_def)
  let ?b = "make_batch (event_host_ns h (re_t (last new)) (ca_rate ca)) new"
  obtain w' f l where w': "rig_on_events ?b (w, first_ns, last_ns) = (Inr (), (w', Some f, Some l))"
      "file_ok (rs @ batch_records ?b) w'"
    using rig_on_events_run [OF rs(1) assms(2)] by blast
  have "map record_key (rs @ batch_records ?b) = map event_key (evs @ new)"
    using rs(2) make_batch_records by simp
  then show ?thesis
    using assms s ca w' by (auto simp: publish_chunk_def stream_ok_def Let_def)
qed

lemma stream_chunk_ok:
  assumes "stream_ok r0 evs s"
  shows "\<exists>s'. stream_chunk rig_on_events new now s = (Inr (), s') \<and> stream_ok r0 (evs @ filter (in_sensor r0) new) s'"
proof -
  have sensor: "in_sensor (fst s) = in_sensor r0"
    using assms by (intro in_sensor_cong) (auto simp: stream_ok_def split: prod.splits)
  have kept: "(if list_all (in_sensor (fst s)) new then new else filter (in_sensor (fst s)) new) =
      filter (in_sensor r0) new"
    by (simp add: sensor list_all_iff filter_id_conv)
  show ?thesis
  proof (cases "filter (in_sensor r0) new = []")
    case True
    then show ?thesis using assms kept by (simp add: stream_chunk_def Let_def)
  next
    case False
    then have "new \<noteq> []" by auto
    then show ?thesis using publish_chunk_ok [OF assms False, of now] kept False by (simp add: stream_chunk_def Let_def)
  qed
qed

lemma stream_ok_exit: "stream_ok r0 evs s \<Longrightarrow> stream_ok r0 evs (loop_exit s)"
  by (auto simp: stream_ok_def loop_exit_def split: prod.splits)

lemma stream_loop_ok:
  assumes "stream_ok r0 evs s" and "\<forall>t \<in> set ts. \<forall>e. st_item t \<noteq> StreamError e"
  shows "\<exists>s'. stream_loop rig_on_events ts s = (Inr (), s') \<and> stream_ok r0 (evs @ filter (in_sensor r0) (delivered ts)) s'"
  using assms
proof (induction ts arbitrary: evs s)
  case (Cons t ts)
  show ?case
  proof (cases "st_stopped t")
    case True
    then show ?thesis using stream_ok_exit [OF Cons.prems(1)] by simp
  next
    case False
    show ?thesis
    proof (cases "st_item t")
      case (Chunk new)
      obtain s1 where s1: "stream_chunk rig_on_events new (st_now t) s = (Inr (), s1)"
          "stream_ok r0 (evs @ filter (in_sensor r0) new) s1"
        using stream_chunk_ok [OF Cons.prems(1)] by blast
      from Cons.IH [OF s1(2)] Cons.prems(2) show ?thesis
        using False Chunk s1(1) by (simp add: m_seq_def m_bind_def)
    qed (use False Cons.prems stream_ok_exit [OF Cons.prems(1)] in auto)
  qed
qed simp

text \<open>
  C29. Every event of the stream is in the file: unless the SDK itself raises, the stream loop
  with the rig's callback never fails, and reading the file back gives exactly the delivered
  events that lie on the sensor, in their order, whatever the chunks, until the loop is
  stopped or the decoder ends or reports an inconsistency. The recorder's count, the writer's
  count and the number of records agree, and the bounds are known once there is an event.
\<close>

theorem streamed_events_reach_the_file:
  assumes "\<forall>t \<in> set turns. \<forall>e. st_item t \<noteq> StreamError e" and "anchor_sound (ev_anchor r)"
  shows "\<exists>r' w first_ns last_ns. stream_loop rig_on_events turns (r, new_event_writer, None, None) = (Inr (), (r', w, first_ns, last_ns)) \<and>
     map record_key (records_from (ew_bytes w)) = map event_key (filter (in_sensor r) (delivered turns)) \<and>
     ev_count r' = ev_count r + int (ew_count w) \<and> ew_count w = length (records_from (ew_bytes w)) \<and>
     (first_ns = None \<longleftrightarrow> ew_count w = 0) \<and> (last_ns = None \<longleftrightarrow> ew_count w = 0)"
proof -
  have "stream_ok r [] (r, new_event_writer, None, None)"
    using assms(2) file_ok_new by (auto simp: stream_ok_def)
  from stream_loop_ok [OF this assms(1)] obtain s' where
      run: "stream_loop rig_on_events turns (r, new_event_writer, None, None) = (Inr (), s')"
      and ok: "stream_ok r (filter (in_sensor r) (delivered turns)) s'" by auto
  obtain r' w first_ns last_ns where s': "s' = (r', w, first_ns, last_ns)" by (cases s')
  obtain rs where rs: "file_ok rs w" "map record_key rs = map event_key (filter (in_sensor r) (delivered turns))"
    using ok s' by (auto simp: stream_ok_def)
  have len: "length rs = length (filter (in_sensor r) (delivered turns))" using rs(2) map_eq_imp_length_eq by blast
  have "ew_count w = length rs" using rs(1) by (simp add: file_ok_def)
  then show ?thesis
    using run ok rs len file_ok_read [OF rs(1)] unfolding s' stream_ok_def prod.case by auto
qed

theorem streamed_events_reach_the_file_witness:
  "\<exists>r' w b. stream_loop rig_on_events
      [\<lparr>st_stopped = False, st_item = Chunk [\<lparr>re_x = 5, re_y = 6, re_p = 1, re_t = 10\<rparr>, \<lparr>re_x = 400, re_y = 1, re_p = 0, re_t = 11\<rparr>], st_now = 90\<rparr>,
       \<lparr>st_stopped = False, st_item = StreamEnd, st_now = 0\<rparr>]
      ((new_event_recorder ''9'' [])\<lparr>ev_width := 320, ev_height := 320\<rparr>, new_event_writer, None, None) = (Inr (), (r', w, b)) \<and>
    map record_key (records_from (ew_bytes w)) = [(5, 6, 1)] \<and> ev_count r' = 1"
proof -
  let ?r = "(new_event_recorder ''9'' [])\<lparr>ev_width := 320, ev_height := 320\<rparr>"
  let ?turns = "[\<lparr>st_stopped = False, st_item = Chunk [\<lparr>re_x = 5, re_y = 6, re_p = 1, re_t = 10\<rparr>, \<lparr>re_x = 400, re_y = 1, re_p = 0, re_t = 11\<rparr>], st_now = 90\<rparr>,
       \<lparr>st_stopped = False, st_item = StreamEnd, st_now = 0\<rparr>]"
  have "\<forall>t \<in> set ?turns. \<forall>e. st_item t \<noteq> StreamError e" "anchor_sound (ev_anchor ?r)"
    by (simp_all add: anchor_sound_def new_event_recorder_def new_clock_anchor_def)
  from streamed_events_reach_the_file [OF this] obtain r' w first_ns last_ns where
      run: "stream_loop rig_on_events ?turns (?r, new_event_writer, None, None) = (Inr (), (r', w, first_ns, last_ns))"
      and keys: "map record_key (records_from (ew_bytes w)) = map event_key (filter (in_sensor ?r) (delivered ?turns))"
      and count: "ev_count r' = ev_count ?r + int (ew_count w)" "ew_count w = length (records_from (ew_bytes w))" by blast
  have "map event_key (filter (in_sensor ?r) (delivered ?turns)) = [(5, 6, 1)]"
    by (simp add: in_sensor_def event_key_def new_event_recorder_def)
  then have k: "map record_key (records_from (ew_bytes w)) = [(5, 6, 1)]" using keys by simp
  then have "length (records_from (ew_bytes w)) = 1" by (metis length_map list.size(3,4) One_nat_def add.commute plus_1_eq_Suc)
  then have "ev_count r' = 1" using count by (simp add: new_event_recorder_def)
  then show ?thesis using run k by (intro exI conjI)
qed

end
