(* ===== verification/Dataset_Video.thy ===== *)
theory Dataset_Video imports Event_Video Recording_Content "HOL-Library.List_Lexorder" "HOL-Library.Sublist" "HOL-Library.Multiset" begin

text \<open>
  The camera videos of \<open>visualize_dataset.py\<close>: \<open>_compute_achieved_fps\<close> and \<open>render_rgb_video\<close>,
  from the files the RGB rig has written. Reading an image, its shape and the encoder are
  parameters; \<open>float\<close> division is exact.
\<close>

section \<open>The program\<close>

definition compute_achieved_fps :: "string list list option \<Rightarrow> nat \<Rightarrow> real \<Rightarrow> real res" where
  "compute_achieved_fps timestamps_csv frame_count fallback =
     (case timestamps_csv of
        None \<Rightarrow> Inr fallback
      | Some rows \<Rightarrow>
        if frame_count < 2 then Inr fallback
        else res_bind (first_last_exposure_ns rows) (\<lambda>(first_ns, last_ns).
          case (first_ns, last_ns) of
            (Some a, Some b) \<Rightarrow>
              if b \<le> a then Inr fallback
              else let duration_s = of_int (b - a) / 10 ^ 9 in Inr (of_nat (max (frame_count - 1) 1) / duration_s)
          | _ \<Rightarrow> Inr fallback))"

text \<open>\<open>sorted(images_dir.glob("*.png"))\<close>: by the code points of the names.\<close>

definition name_key :: "string \<Rightarrow> nat list" where
  "name_key s = map of_char s"

definition sorted_frame_files :: "(string \<times> 'i) list \<Rightarrow> (string \<times> 'i) list" where
  "sorted_frame_files entries = sort_key (\<lambda>e. name_key (fst e)) (filter (\<lambda>e. suffix ''.png'' (fst e)) entries)"

record rgb_video_info =
  rv_frames :: nat
  rv_fps :: real
  rv_width :: int
  rv_height :: int

text \<open>
  \<open>images\<close> is the content of the image directory, if there is one, in any order; \<open>None\<close> as an
  answer is the early return. Unreadable frames are skipped.
\<close>

definition render_rgb_video ::
    "('i \<Rightarrow> 'f option) \<Rightarrow> ('f \<Rightarrow> int \<times> int) \<Rightarrow> (real \<Rightarrow> int \<times> int \<Rightarrow> 'f list \<Rightarrow> 'v) \<Rightarrow> 'v transcoder \<Rightarrow> real \<Rightarrow> bool \<Rightarrow> string \<Rightarrow>
     (string \<times> 'i) list option \<Rightarrow> string list list option \<Rightarrow> (string \<rightharpoonup> 'v, rgb_video_info option) meth" where
  "render_rgb_video imread shape encode tr fps_override use_h264 output_stem images timestamps_csv fs =
     (case images of
        None \<Rightarrow> (Inr None, fs)
      | Some entries \<Rightarrow>
        (case sorted_frame_files entries of
           [] \<Rightarrow> (Inr None, fs)
         | first_path # rest_paths \<Rightarrow>
           (case imread (snd first_path) of
              None \<Rightarrow> (Inr None, fs)
            | Some first_frame \<Rightarrow>
              (case shape first_frame of
                 (height, width) \<Rightarrow>
                   (case (if fps_override > 0 then Inr fps_override
                          else compute_achieved_fps timestamps_csv (length (first_path # rest_paths)) 30) of
                      Inl e \<Rightarrow> (Inl e, fs)
                    | Inr fps \<Rightarrow>
                      (let frames = List.map_filter (\<lambda>p. imread (snd p)) (first_path # rest_paths)
                       in m_seq (m_modify (\<lambda>fs. fs(intermediate_name output_stem \<mapsto> encode fps (width, height) frames)))
                           (m_seq (finalize_video tr (intermediate_name output_stem) (output_stem @ ''.mp4'') use_h264)
                             (m_return (Some \<lparr>rv_frames = length frames, rv_fps = fps, rv_width = width, rv_height = height\<rparr>))) fs))))))"

section \<open>Padded names sort by number\<close>

lemma parse_digits_Cons: "parse_digits (c # s) = digit_val c * 10 ^ length s + parse_digits s"
proof (induction s rule: rev_induct)
  case (snoc d s)
  have "parse_digits (c # s @ [d]) = 10 * parse_digits (c # s) + digit_val d"
    using parse_digits_snoc [of "c # s" d] by simp
  then show ?case using snoc.IH by (simp add: algebra_simps)
qed (simp add: parse_digits_def)

lemma parse_digits_less: "list_all is_digit s \<Longrightarrow> parse_digits s < 10 ^ length s"
proof (induction s rule: rev_induct)
  case (snoc c s)
  then have "digit_val c < 10" "parse_digits s < 10 ^ length s" by (auto simp: digit_val_def is_digit_def)
  then have "10 * parse_digits s + digit_val c < 10 * 10 ^ length s" by linarith
  then show ?case by simp
qed simp

lemma name_key_less:
  assumes "length s = length t" and "list_all is_digit s" and "list_all is_digit t" and "parse_digits s < parse_digits t"
  shows "name_key (s @ u) < name_key (t @ u)"
  using assms
proof (induction s t rule: list_induct2)
  case (Cons c s d t)
  have bounds: "parse_digits s < 10 ^ length s" "parse_digits t < 10 ^ length s"
    using Cons.prems parse_digits_less [of s] parse_digits_less [of t] Cons.hyps by simp_all
  have vals: "digit_val c * 10 ^ length s + parse_digits s < digit_val d * 10 ^ length s + parse_digits t"
    using Cons.prems Cons.hyps by (simp add: parse_digits_Cons)
  have "digit_val c \<le> digit_val d"
  proof (rule ccontr)
    assume "\<not> digit_val c \<le> digit_val d"
    then have "Suc (digit_val d) * 10 ^ length s \<le> digit_val c * 10 ^ length s" by (intro mult_le_mono1) simp
    then show False using vals bounds by simp
  qed
  then consider "digit_val c < digit_val d" | "digit_val c = digit_val d" by linarith
  then show ?case
  proof cases
    case 1
    then have "(of_char c :: nat) < of_char d" using Cons.prems by (simp add: digit_val_def is_digit_def)
    then show ?thesis by (simp add: name_key_def)
  next
    case 2
    moreover have "is_digit c" "is_digit d" using Cons.prems by simp_all
    ultimately have "(of_char c :: nat) = of_char d" unfolding digit_val_def is_digit_def by linarith
    then have "c = d" by simp
    then show ?thesis using Cons vals by (simp add: name_key_def)
  qed
qed simp

lemma frame_filename_less:
  assumes "0 \<le> i" and "i < j" and "j < 10 ^ 6"
  shows "name_key (frame_filename i) < name_key (frame_filename j)"
proof -
  have six: "length (zpad 6 (nat_str (nat k))) = 6" if "0 \<le> k" "k < 10 ^ 6" for k
    using length_nat_str_le [of "nat k" 6] that by (simp add: length_zpad nat_less_iff)
  show ?thesis
    unfolding frame_filename_def int_str_def using assms six [of i] six [of j]
    by (simp only: if_False not_less split: if_split)
      (auto intro!: name_key_less simp: zpad_digits nat_str_digits nat_less_eq_zless)
qed

lemma frame_files_sorted:
  "n < 10 ^ 6 \<Longrightarrow> sorted (map (\<lambda>i. name_key (frame_filename i)) [1..int n])"
  by (auto simp: sorted_iff_nth_mono_less intro!: less_imp_le frame_filename_less)

section \<open>From the recording to the video\<close>

text \<open>The sorted listing of a directory that holds the frames \<open>1 .. n\<close>, in whatever order it comes.\<close>

lemma sorted_frame_files_recorded:
  fixes fs :: "'i basler_frame list"
  assumes "mset entries = mset (map (\<lambda>f. (frame_filename (bf_index f), bf_image f)) fs)"
    and "map bf_index fs = [1..int (length fs)]" and "length fs < 10 ^ 6"
  shows "sorted_frame_files entries = map (\<lambda>f. (frame_filename (bf_index f), bf_image f)) fs"
proof -
  let ?files = "map (\<lambda>f. (frame_filename (bf_index f), bf_image f)) fs"
  have png: "suffix ''.png'' (frame_filename i)" for i unfolding frame_filename_def by (rule suffixI) (rule refl)
  have "set entries = set ?files" using assms(1) by (rule mset_eq_setD)
  then have all: "filter (\<lambda>e. suffix ''.png'' (fst e)) entries = entries" using png by (auto simp: filter_id_conv)
  have keys: "map (\<lambda>e. name_key (fst e)) ?files = map (\<lambda>i. name_key (frame_filename i)) [1..int (length fs)]"
    unfolding assms(2) [symmetric] by simp
  have strict: "sorted_wrt (<) (map (\<lambda>e. name_key (fst e)) ?files)"
    unfolding keys sorted_wrt_map
    by (rule sorted_wrt_mono_rel [OF _ sorted_wrt_upto]) (use assms(3) in \<open>auto intro: frame_filename_less\<close>)
  then have "distinct (map (\<lambda>e. name_key (fst e)) ?files)" "sorted (map (\<lambda>e. name_key (fst e)) ?files)"
    unfolding strict_sorted_iff by simp_all
  moreover from this(1) have "inj_on (\<lambda>e. name_key (fst e)) (set ?files)" unfolding distinct_map by (rule conjunct2)
  ultimately have "inj_on (\<lambda>e. name_key (fst e)) (set ?files)" "sorted (map (\<lambda>e. name_key (fst e)) ?files)"
    by blast+
  then show ?thesis
    unfolding sorted_frame_files_def all using assms(1) \<open>set entries = set ?files\<close>
    by (intro sort_key_inj_key_eq) simp_all
qed

text \<open>The rate of a recording: its frames over the time from the first exposure to the last.\<close>

definition recorded_fps :: "'i basler_frame list \<Rightarrow> real" where
  "recorded_fps fs =
     (let span_ns = bf_exposure_ns (last fs) - bf_exposure_ns (hd fs)
      in if length fs < 2 \<or> span_ns \<le> 0 then 30 else of_nat (length fs - 1) * 10 ^ 9 / of_int span_ns)"

lemma achieved_fps_recorded:
  fixes fs :: "'i basler_frame list"
  assumes "fs \<noteq> []" and "first_last_exposure_ns rows = Inr (Some (bf_exposure_ns (hd fs)), Some (bf_exposure_ns (last fs)))"
  shows "compute_achieved_fps (Some rows) (length fs) 30 = Inr (recorded_fps fs)"
proof -
  have "max (length fs - 1) 1 = length fs - 1" if "\<not> length fs < 2" using that by linarith
  then show ?thesis using assms by (simp add: compute_achieved_fps_def recorded_fps_def Let_def)
qed

lemma render_rgb_video_run:
  assumes "sorted_frame_files entries = files" and "files \<noteq> []" and "\<forall>e \<in> set files. imread (snd e) = Some (frame_of (snd e))"
    and "(if fps_override > 0 then Inr fps_override else compute_achieved_fps csv (length files) 30) = Inr fps"
  shows "render_rgb_video imread shape encode tr fps_override use_h264 stem (Some entries) csv fs =
    (Inr (Some \<lparr>rv_frames = length files, rv_fps = fps, rv_width = snd (shape (frame_of (snd (hd files)))),
       rv_height = fst (shape (frame_of (snd (hd files))))\<rparr>),
     snd (finalize_video tr (intermediate_name stem) (stem @ ''.mp4'') use_h264
        (fs(intermediate_name stem \<mapsto> encode fps (snd (shape (frame_of (snd (hd files)))), fst (shape (frame_of (snd (hd files))))) (map (\<lambda>e. frame_of (snd e)) files)))))"
proof -
  obtain p ps where files: "files = p # ps" using assms(2) by (cases files) auto
  have frames: "List.map_filter (\<lambda>e. imread (snd e)) files = map (\<lambda>e. frame_of (snd e)) files"
    using assms(3) by (induction files) (auto simp: List.map_filter_simps)
  obtain height width where hw: "shape (frame_of (snd p)) = (height, width)" by fastforce
  have "fst (finalize_video tr (intermediate_name stem) (stem @ ''.mp4'') use_h264 (fs(intermediate_name stem \<mapsto> v))) = Inr ()" for v
    using finalize_leaves_final(1) [of "fs(intermediate_name stem \<mapsto> v)" "intermediate_name stem" v "stem @ ''.mp4''" tr use_h264]
    by (simp add: intermediate_name_def)
  moreover have "imread (snd p) = Some (frame_of (snd p))" using assms(3) files by simp
  ultimately show ?thesis
    using assms(1,4) frames hw unfolding files
    by (auto simp: render_rgb_video_def Let_def m_seq_def m_bind_def prod_eq_iff split: prod.split sum.split)
qed



end
