(* ===== verification/Camera_Sync.thy ===== *)
theory Camera_Sync imports Event_Video Csv_Log begin

text \<open>
  \<open>analyze_latency.py\<close>: loading \<open>timestamps.csv\<close>, the nearest-neighbour match between two
  cameras, the latency trend and the printed summary. NumPy's sorting, fitting and statistics
  are parameters; the plots are in \<open>Dataset_Graphs\<close>.
\<close>

section \<open>The program\<close>

record camera_timestamps =
  ct_name :: string
  ct_exposure_ns :: "int list"
  ct_arrival_ns :: "int list"
  ct_disk_write_ns :: "int list"

text \<open>\<open>csv_path.parent.name if csv_path.parent.name else csv_path.stem\<close>; a leading dot is no suffix.\<close>

definition path_stem :: "string \<Rightarrow> string" where
  "path_stem name =
     (let ext = takeWhile (\<lambda>c. c \<noteq> CHR ''.'') (rev name)
      in if ext = [] \<or> length name \<le> length ext + 1 then name else take (length name - length ext - 1) name)"

definition camera_label :: "string \<Rightarrow> string" where
  "camera_label path =
     (case rev (path_parts path) of
        [] \<Rightarrow> [] | [name] \<Rightarrow> path_stem name | name # parent # _ \<Rightarrow> parent)"

definition timestamp_row :: "(string \<times> string) list \<Rightarrow> (int \<times> int \<times> int) res" where
  "timestamp_row row =
     res_bind (int_cell ''exposure_host_ns'' row) (\<lambda>e.
     res_bind (int_cell ''arrival_host_ns'' row) (\<lambda>a.
     res_bind (int_cell ''disk_write_complete_ns'' row) (\<lambda>d. Inr (e, a, d))))"

definition load_timestamps :: "string \<Rightarrow> string list list \<Rightarrow> camera_timestamps res" where
  "load_timestamps path rows =
     res_bind (res_map timestamp_row (dict_rows rows)) (\<lambda>ts.
       Inr \<lparr>ct_name = camera_label path, ct_exposure_ns = map fst ts, ct_arrival_ns = map (\<lambda>t. fst (snd t)) ts,
            ct_disk_write_ns = map (\<lambda>t. snd (snd t)) ts\<rparr>)"

definition ns_to_ms :: "int \<Rightarrow> real" where
  "ns_to_ms v = of_int v / 10 ^ 6"

definition exposure_to_arrival_ms :: "camera_timestamps \<Rightarrow> real list" where
  "exposure_to_arrival_ms c = map2 (\<lambda>a e. ns_to_ms (a - e)) (ct_arrival_ns c) (ct_exposure_ns c)"

definition end_to_end_ms :: "camera_timestamps \<Rightarrow> real list" where
  "end_to_end_ms c = map2 (\<lambda>d e. ns_to_ms (d - e)) (ct_disk_write_ns c) (ct_exposure_ns c)"

definition elapsed_min :: "camera_timestamps \<Rightarrow> real list" where
  "elapsed_min c = map (\<lambda>e. of_int (e - hd (ct_exposure_ns c)) / 10 ^ 9 / 60) (ct_exposure_ns c)"

text \<open>\<open>polyfit xs ys\<close> is the slope of \<open>np.polyfit(xs, ys, 1)\<close>.\<close>

definition latency_drift_slope_ms_per_min :: "(real list \<Rightarrow> real list \<Rightarrow> real) \<Rightarrow> camera_timestamps \<Rightarrow> real" where
  "latency_drift_slope_ms_per_min polyfit c =
     (if length (ct_exposure_ns c) < 2 then 0
      else if last (elapsed_min c) \<le> 0 then 0
      else polyfit (elapsed_min c) (exposure_to_arrival_ms c))"

text \<open>\<open>min(candidates, key=...)\<close>: the first of the closest.\<close>

fun closest :: "int \<Rightarrow> int list \<Rightarrow> int option" where
  "closest v [] = None"
| "closest v (c # cs) =
     (case closest v cs of
        None \<Rightarrow> Some c
      | Some d \<Rightarrow> if \<bar>c - v\<bar> \<le> \<bar>d - v\<bar> then Some c else Some d)"

definition match_candidates :: "int list \<Rightarrow> nat \<Rightarrow> int list" where
  "match_candidates sorted_reference pos =
     (if pos > 0 then [sorted_reference ! (pos - 1)] else []) @
     (if pos < length sorted_reference then [sorted_reference ! pos] else [])"

definition match_offset :: "int list \<Rightarrow> int \<Rightarrow> nat \<Rightarrow> int option" where
  "match_offset sorted_reference v pos =
     map_option (\<lambda>nearest. v - nearest) (closest v (match_candidates sorted_reference pos))"

definition nearest_match_offsets_ms :: "numpy \<Rightarrow> int list \<Rightarrow> int list \<Rightarrow> real list" where
  "nearest_match_offsets_ms np reference_ns other_ns =
     (let sorted_reference = np_sort np reference_ns;
          insert_positions = map (np_searchsorted np sorted_reference) other_ns
      in map ns_to_ms (List.map_filter (\<lambda>(v, pos). match_offset sorted_reference v pos) (zip other_ns insert_positions)))"

text \<open>The lines \<open>print_summary\<close> prints, one per camera and one per other camera.\<close>

record latency_summary =
  ls_name :: string
  ls_frames :: nat
  ls_exposure_to_arrival :: real
  ls_end_to_end :: real
  ls_drift_slope :: real
  ls_duration_min :: real

definition camera_summary :: "(real list \<Rightarrow> real) \<Rightarrow> (real list \<Rightarrow> real list \<Rightarrow> real) \<Rightarrow> camera_timestamps \<Rightarrow> latency_summary" where
  "camera_summary median polyfit c =
     \<lparr>ls_name = ct_name c, ls_frames = length (ct_exposure_ns c), ls_exposure_to_arrival = median (exposure_to_arrival_ms c),
      ls_end_to_end = median (end_to_end_ms c), ls_drift_slope = latency_drift_slope_ms_per_min polyfit c,
      ls_duration_min = (if length (ct_exposure_ns c) \<ge> 2
        then of_int (last (ct_exposure_ns c) - hd (ct_exposure_ns c)) / 10 ^ 9 / 60 else 0)\<rparr>"

definition sync_summary :: "(real list \<Rightarrow> real) \<Rightarrow> (real list \<Rightarrow> real) \<Rightarrow> numpy \<Rightarrow> camera_timestamps list \<Rightarrow> (string \<times> real \<times> real) list" where
  "sync_summary median std np cameras =
     (case cameras of
        [] \<Rightarrow> []
      | reference # others \<Rightarrow>
        map (\<lambda>other. let offsets_ms = nearest_match_offsets_ms np (ct_exposure_ns reference) (ct_exposure_ns other)
                     in (ct_name other, median offsets_ms, std offsets_ms)) others)"

section \<open>The nearest reference\<close>

lemma closest_least:
  "cs \<noteq> [] \<Longrightarrow> \<exists>c. closest v cs = Some c \<and> c \<in> set cs \<and> (\<forall>d \<in> set cs. \<bar>c - v\<bar> \<le> \<bar>d - v\<bar>)"
proof (induction cs)
  case (Cons c cs)
  show ?case
  proof (cases "cs = []")
    case False
    then obtain d where "closest v cs = Some d" "d \<in> set cs" "\<forall>e \<in> set cs. \<bar>d - v\<bar> \<le> \<bar>e - v\<bar>"
      using Cons.IH by blast
    then show ?thesis
      by (intro exI [of _ "if \<bar>c - v\<bar> \<le> \<bar>d - v\<bar> then c else d"]) (auto intro: order_trans)
  qed simp
qed simp

text \<open>Of a sorted list only the neighbours of the insertion point matter.\<close>

lemma candidates_suffice:
  assumes "sorted s" and "r \<in> set s" and "pos = length (filter (\<lambda>t. t < v) s)"
  shows "\<exists>c \<in> set (match_candidates s pos). \<bar>c - v\<bar> \<le> \<bar>r - v\<bar>"
proof -
  have parts: "take pos s = filter (\<lambda>t. t < v) s" "drop pos s = filter (\<lambda>t. v \<le> t) s"
    using sorted_take_less [of id s v] sorted_drop_less [of id s v] assms(1,3) by simp_all
  obtain i where i: "i < length s" "s ! i = r" using assms(2) by (auto simp: in_set_conv_nth)
  show ?thesis
  proof (cases "i < pos")
    case True
    then have "s ! (pos - 1) \<in> set (take pos s)" using i(1) assms(3)
      by (auto simp: in_set_conv_nth intro!: exI [of _ "pos - 1"] le_less_trans [OF length_filter_le])
    then have "s ! (pos - 1) < v" unfolding parts by simp
    moreover have "r \<le> s ! (pos - 1)"
    proof -
      have "pos \<le> length s" unfolding assms(3) by (rule length_filter_le)
      then show ?thesis using True i assms(1) by (auto intro!: sorted_nth_mono)
    qed
    ultimately show ?thesis using True
      by (intro bexI [of _ "s ! (pos - 1)"]) (auto simp: match_candidates_def)
  next
    case False
    then have "s ! pos \<in> set (drop pos s)" using i(1) by (auto simp: in_set_conv_nth intro!: exI [of _ 0])
    then have "v \<le> s ! pos" unfolding parts by simp
    moreover have "s ! pos \<le> r" using False i assms(1) by (auto intro!: sorted_nth_mono)
    ultimately show ?thesis using False i(1)
      by (intro bexI [of _ "s ! pos"]) (auto simp: match_candidates_def)
  qed
qed

lemma match_offset_nearest:
  assumes "sorted s" and "s \<noteq> []" and "pos = length (filter (\<lambda>t. t < v) s)"
  shows "\<exists>c \<in> set s. match_offset s v pos = Some (v - c) \<and> (\<forall>r \<in> set s. \<bar>v - c\<bar> \<le> \<bar>v - r\<bar>)"
proof -
  have near: "\<exists>c \<in> set (match_candidates s pos). \<bar>c - v\<bar> \<le> \<bar>r - v\<bar>" if "r \<in> set s" for r
    by (rule candidates_suffice [OF assms(1) that assms(3)])
  moreover obtain r where "r \<in> set s" using assms(2) by (cases s) auto
  ultimately have "match_candidates s pos \<noteq> []" by fastforce
  from closest_least [OF this, of v] obtain c where c: "closest v (match_candidates s pos) = Some c"
      "c \<in> set (match_candidates s pos)" "\<forall>d \<in> set (match_candidates s pos). \<bar>c - v\<bar> \<le> \<bar>d - v\<bar>" by blast
  have "pos \<le> length s" unfolding assms(3) by (rule length_filter_le)
  then have "set (match_candidates s pos) \<subseteq> set s" by (auto simp: match_candidates_def)
  moreover have "\<bar>v - c\<bar> \<le> \<bar>v - r\<bar>" if "r \<in> set s" for r
    using near [OF that] c(3) by (metis abs_minus_commute order_trans)
  ultimately show ?thesis using c by (intro bexI [of _ c]) (auto simp: match_offset_def)
qed

text \<open>
  \<open>nearest_match_offsets_ms\<close> does what its name says: against a reference with at least one
  timestamp, in any order, every timestamp of the other camera contributes exactly one offset,
  in its order, and that offset is the signed distance to a reference timestamp no other
  reference timestamp is closer than. Looking at the two neighbours of the insertion point
  only is enough.
\<close>

theorem offsets_are_to_the_nearest:
  assumes "numpy_sorts np" and "reference \<noteq> []"
  shows "list_all2 (\<lambda>v offset_ms. \<exists>c \<in> set reference. offset_ms = ns_to_ms (v - c) \<and>
      (\<forall>r \<in> set reference. \<bar>v - c\<bar> \<le> \<bar>v - r\<bar>)) other (nearest_match_offsets_ms np reference other)"
proof -
  let ?s = "sort reference"
  have s: "np_sort np reference = ?s" "np_searchsorted np ?s v = length (filter (\<lambda>t. t < v) ?s)" for v
    using assms(1) by (simp_all add: numpy_sorts_def)
  show ?thesis
  proof (induction other)
    case Nil
    then show ?case by (simp add: nearest_match_offsets_ms_def List.map_filter_simps)
  next
    case (Cons v other)
    have "sorted ?s" "?s \<noteq> []" using assms(2) by (simp_all, metis set_empty set_sort)
    from match_offset_nearest [OF this refl, of v] obtain c where "c \<in> set reference"
        "match_offset ?s v (length (filter (\<lambda>t. t < v) ?s)) = Some (v - c)" "\<forall>r \<in> set reference. \<bar>v - c\<bar> \<le> \<bar>v - r\<bar>"
      by auto
    then show ?case
      using Cons.IH by (auto simp: nearest_match_offsets_ms_def s List.map_filter_simps Let_def)
  qed
qed

theorem offsets_are_to_the_nearest_witness:
  "\<exists>c \<in> {10000000, 43000000, 76000000}. nearest_match_offsets_ms demo_numpy [76000000, 10000000, 43000000] [50000000] =
     [ns_to_ms (50000000 - c)] \<and> \<bar>50000000 - c\<bar> \<le> 7000000"
proof -
  have "numpy_sorts demo_numpy" by (simp add: numpy_sorts_def demo_numpy_def)
  from offsets_are_to_the_nearest [OF this, of "[76000000, 10000000, 43000000]" "[50000000]"]
  show ?thesis by (auto simp: list_all2_Cons1)
qed

section \<open>The latency trend\<close>

text \<open>
  What the fit is documented to do with points on a line. A camera clock whose rate is off by
  \<open>rate_error\<close> then shows as a trend of \<open>60000 * rate_error\<close> ms per minute: one part per
  million is 0.06 ms per minute.
\<close>

definition fits_lines :: "(real list \<Rightarrow> real list \<Rightarrow> real) \<Rightarrow> bool" where
  "fits_lines polyfit \<longleftrightarrow>
     (\<forall>xs a b. xs \<noteq> [] \<and> hd xs < last xs \<longrightarrow> polyfit xs (map (\<lambda>x. a + b * x) xs) = b)"

lemma latency_trend_of_rate_error:
  assumes "fits_lines polyfit" and "2 \<le> length (ct_exposure_ns c)" and "hd (ct_exposure_ns c) < last (ct_exposure_ns c)"
    and line: "list_all2 (\<lambda>a e. of_int (a - e) = latency_ns + rate_error * of_int (e - hd (ct_exposure_ns c))) (ct_arrival_ns c) (ct_exposure_ns c)"
  shows "latency_drift_slope_ms_per_min polyfit c = 60000 * rate_error"
proof -
  have "map2 (\<lambda>a e. ns_to_ms (a - e)) as es =
      map (\<lambda>x. latency_ns / 10 ^ 6 + (60000 * rate_error) * x) (map (\<lambda>e. of_int (e - h) / 10 ^ 9 / 60) es)"
    if "list_all2 (\<lambda>a e. of_int (a - e) = latency_ns + rate_error * of_int (e - h)) as es" for as es h
    using that by (induction as es rule: list_all2_induct) (simp_all add: ns_to_ms_def field_simps)
  from this [OF line] have ys: "exposure_to_arrival_ms c = map (\<lambda>x. latency_ns / 10 ^ 6 + (60000 * rate_error) * x) (elapsed_min c)"
    by (simp add: exposure_to_arrival_ms_def elapsed_min_def)
  have "ct_exposure_ns c \<noteq> []" using assms(2) by auto
  then have "elapsed_min c \<noteq> []" "hd (elapsed_min c) = 0" "0 < last (elapsed_min c)"
    using assms(3) by (simp_all add: elapsed_min_def hd_map last_map)
  then show ?thesis
    using assms(1,2) by (simp add: latency_drift_slope_ms_per_min_def fits_lines_def ys not_le)
qed

end
