(* ===== verification/Calibration_Rig.thy ===== *)
theory Calibration_Rig imports Event_Records Py_Strings begin

text \<open>
  The multi-camera calibration: \<open>calibration/camera.py\<close>, \<open>calibration/tags3d.py\<close> (the corners of
  a tag) and \<open>calibration/optimization.py\<close>. SciPy's rotations and solver, NumPy's matrix
  inverse and the tag detector are parameters. Matrices are functions of row and column that
  are zero, or the identity, outside their shape; a projection with depth zero, where NumPy
  returns infinities, is outside the model.
\<close>

section \<open>Matrices\<close>

type_synonym matrix = "nat \<Rightarrow> nat \<Rightarrow> real"

definition eye :: matrix where
  "eye = (\<lambda>i j. if i = j then 1 else 0)"

definition matmul :: "matrix \<Rightarrow> matrix \<Rightarrow> matrix" where
  "matmul A B = (\<lambda>i j. \<Sum>k\<leftarrow>[0..<4]. A i k * B k j)"

text \<open>\<open>T[:3, :3]\<close>, and \<open>T = np.eye(4); T[:3, :3] = R; T[:3, 3] = t\<close>.\<close>

definition rotation_part :: "matrix \<Rightarrow> matrix" where
  "rotation_part T = (\<lambda>i j. if i < 3 \<and> j < 3 then T i j else 0)"

definition rigid_pose :: "matrix \<Rightarrow> real list \<Rightarrow> matrix" where
  "rigid_pose R t = (\<lambda>i j. if i < 3 \<and> j < 3 then R i j else if i < 3 \<and> j = 3 then t ! i else eye i j)"

definition translation_part :: "matrix \<Rightarrow> real list" where
  "translation_part T = [T 0 3, T 1 3, T 2 3]"

text \<open>\<open>K = np.eye(3)\<close> with the focal lengths and the principal point.\<close>

definition camera_matrix :: "real \<Rightarrow> real \<Rightarrow> real \<Rightarrow> real \<Rightarrow> matrix" where
  "camera_matrix fx fy cx cy =
     (\<lambda>i j. if i = 0 \<and> j = 0 then fx else if i = 1 \<and> j = 1 then fy else if i = 0 \<and> j = 2 then cx
            else if i = 1 \<and> j = 2 then cy else eye i j)"

section \<open>Cameras, views and tags\<close>

record tag_observation =
  to_id :: int
  to_corners_2d :: "(real \<times> real) list"
  to_corners_3d :: "matrix option"

record view =
  vw_index :: int
  vw_pose :: matrix
  vw_tags :: "tag_observation list"

record calib_camera =
  cc_K :: matrix
  cc_d :: "real list"
  cc_pose_rig_cam :: matrix
  cc_views :: "view list"

text \<open>The corners of a tag in the world, as the columns of a matrix.\<close>

definition tag_corners :: "real \<Rightarrow> matrix \<Rightarrow> matrix" where
  "tag_corners side T_tw =
     (let h = side / 2; corners = [[- h, h, 0, 1], [h, h, 0, 1], [h, - h, 0, 1], [- h, - h, 0, 1]]
      in (\<lambda>i j. \<Sum>k\<leftarrow>[0..<4]. T_tw i k * (corners ! j ! k)))"

text \<open>The observations of one image; a tag without an entry has no corners in space.\<close>

definition detect_tags :: "(int \<rightharpoonup> matrix) \<Rightarrow> (int \<times> (real \<times> real) list) list \<Rightarrow> tag_observation list" where
  "detect_tags tags_inertial_dict detected =
     map (\<lambda>(tag_id, corners). \<lparr>to_id = tag_id, to_corners_2d = corners, to_corners_3d = tags_inertial_dict tag_id\<rparr>) detected"

definition add_view :: "int \<Rightarrow> matrix \<Rightarrow> (int \<rightharpoonup> matrix) \<Rightarrow> (int \<times> (real \<times> real) list) list \<Rightarrow> calib_camera \<Rightarrow> calib_camera" where
  "add_view index pose_inertial_rig tags_inertial_dict detected cam =
     cam\<lparr>cc_views := cc_views cam @
       [\<lparr>vw_index = index, vw_pose = pose_inertial_rig, vw_tags = detect_tags tags_inertial_dict detected\<rparr>]\<rparr>"

definition fisheye_project :: "matrix \<Rightarrow> real list \<Rightarrow> real \<times> real \<times> real \<Rightarrow> real \<times> real" where
  "fisheye_project K d point =
     (case point of (x, y, z) \<Rightarrow>
        let a = x / z; b = y / z;
            r0 = sqrt (a ^ 2 + b ^ 2);
            r = (if r0 < 1 / 10 ^ 8 then 1 / 10 ^ 8 else r0);
            theta = arctan r;
            theta_d = theta * (1 + d ! 0 * theta ^ 2 + d ! 1 * theta ^ 4 + d ! 2 * theta ^ 6 + d ! 3 * theta ^ 8);
            scale = theta_d / r
        in (K 0 0 * (a * scale) + K 0 2, K 1 1 * (b * scale) + K 1 2))"

definition corner_points :: "matrix \<Rightarrow> (real \<times> real \<times> real) list" where
  "corner_points C = map (\<lambda>j. (C 0 j, C 1 j, C 2 j)) [0..<4]"

text \<open>The corners of one tag; \<open>minv\<close> is \<open>np.linalg.inv\<close>. Multiplying by \<open>None\<close> raises.\<close>

definition project_tag :: "(matrix \<Rightarrow> matrix) \<Rightarrow> matrix \<Rightarrow> real list \<Rightarrow> matrix \<Rightarrow> matrix \<Rightarrow> matrix \<Rightarrow> (real \<times> real) list" where
  "project_tag minv K d pose_rig_cam pose_inertial_rig corners_3d =
     (let pose_rig_inertial = minv pose_inertial_rig;
          pose_cam_inertial = matmul (minv pose_rig_cam) pose_rig_inertial
      in map (fisheye_project K d) (corner_points (matmul pose_cam_inertial corners_3d)))"

definition tag_residual ::
    "(matrix \<Rightarrow> matrix) \<Rightarrow> matrix \<Rightarrow> real list \<Rightarrow> matrix \<Rightarrow> matrix \<Rightarrow> tag_observation \<Rightarrow> (real \<times> real) list res" where
  "tag_residual minv K d pose_rig_cam pose_inertial_rig tag =
     (case to_corners_3d tag of
        None \<Rightarrow> Inl (TypeError ''matmul: NoneType'')
      | Some corners_3d \<Rightarrow>
        Inr (map2 (\<lambda>(u, v) (u', v'). (u - u', v - v'))
          (project_tag minv K d pose_rig_cam pose_inertial_rig corners_3d) (to_corners_2d tag)))"

definition compute_residual :: "(matrix \<Rightarrow> matrix) \<Rightarrow> matrix \<Rightarrow> real list \<Rightarrow> matrix \<Rightarrow> view \<Rightarrow> (real \<times> real) list list res" where
  "compute_residual minv K d pose_rig_cam v =
     res_map (tag_residual minv K d pose_rig_cam (vw_pose v)) (vw_tags v)"

section \<open>The rig\<close>

record rig =
  rg_ref :: string
  rg_names :: "string list"
  rg_cams :: "string \<rightharpoonup> calib_camera"
  rg_timestamps :: "int list option"

text \<open>\<open>sorted(list(set(...)))\<close> of the reference camera's view indices.\<close>

definition get_timestamps :: "(string \<rightharpoonup> calib_camera) \<Rightarrow> string \<Rightarrow> int list option" where
  "get_timestamps cams ref =
     map_option (\<lambda>cam. sorted_list_of_set (set (map vw_index (cc_views cam)))) (cams ref)"

definition new_rig :: "string \<Rightarrow> (string \<times> calib_camera) list \<Rightarrow> rig" where
  "new_rig ref cam_dict =
     \<lparr>rg_ref = ref, rg_names = map fst cam_dict, rg_cams = map_of cam_dict,
      rg_timestamps = get_timestamps (map_of cam_dict) ref\<rparr>"

definition rig_camera :: "rig \<Rightarrow> string \<Rightarrow> calib_camera res" where
  "rig_camera g name = (case rg_cams g name of None \<Rightarrow> Inl (KeyError name) | Some c \<Rightarrow> Inr c)"

text \<open>\<open>Rotation.from_matrix(R).as_rotvec()\<close> and \<open>Rotation.from_rotvec(v).as_matrix()\<close>.\<close>

record rotations =
  as_rotvec :: "matrix \<Rightarrow> real list res"
  from_rotvec :: "real list \<Rightarrow> matrix res"

section \<open>Packing the parameters\<close>

definition pack_intrinsics :: "calib_camera \<Rightarrow> real list" where
  "pack_intrinsics cam = [cc_K cam 0 0, cc_K cam 1 1, cc_K cam 0 2, cc_K cam 1 2]"

definition pack_distortion :: "calib_camera \<Rightarrow> real list res" where
  "pack_distortion cam = (if length (cc_d cam) < 4 then Inl IndexError else Inr (take 4 (cc_d cam)))"

definition pack_pose :: "rotations \<Rightarrow> matrix \<Rightarrow> real list res" where
  "pack_pose rot T = res_bind (as_rotvec rot (rotation_part T)) (\<lambda>rvec. Inr (rvec @ translation_part T))"

text \<open>\<open>{view.index: view.pose_inertial_rig for view in views}\<close>: the last view of an index counts.\<close>

definition ref_pose_map :: "view list \<Rightarrow> int \<rightharpoonup> matrix" where
  "ref_pose_map views = map_of (rev (map (\<lambda>v. (vw_index v, vw_pose v)) views))"

definition pack_parameters :: "rotations \<Rightarrow> rig \<Rightarrow> real list res" where
  "pack_parameters rot g =
     res_bind (res_map (rig_camera g) (rg_names g)) (\<lambda>cams.
     res_bind (res_map pack_distortion cams) (\<lambda>distortions.
     res_bind (res_map (\<lambda>n. res_bind (rig_camera g n) (\<lambda>c. pack_pose rot (cc_pose_rig_cam c)))
                 (filter (\<lambda>n. n \<noteq> rg_ref g) (rg_names g))) (\<lambda>extrinsics.
     res_bind (rig_camera g (rg_ref g)) (\<lambda>ref_cam.
     res_bind (case rg_timestamps g of
                 None \<Rightarrow> Inl (TypeError ''NoneType is not iterable'')
               | Some ts \<Rightarrow> res_map (\<lambda>t. case ref_pose_map (cc_views ref_cam) t of
                   None \<Rightarrow> Inl (KeyError (int_str t)) | Some T \<Rightarrow> pack_pose rot T) ts) (\<lambda>poses.
       Inr (concat (map pack_intrinsics cams) @ concat distortions @ concat extrinsics @ concat poses))))))"

section \<open>Unpacking them\<close>

record calib_parameters =
  cp_intrinsics :: "string \<rightharpoonup> matrix"
  cp_distortion :: "string \<rightharpoonup> real list"
  cp_extrinsics :: "string \<rightharpoonup> matrix"
  cp_poses :: "int \<rightharpoonup> matrix"

definition param :: "real list \<Rightarrow> nat \<Rightarrow> real res" where
  "param params i = (if i < length params then Inr (params ! i) else Inl IndexError)"

text \<open>\<open>params[i:j]\<close>, shorter at the end of the array.\<close>

definition slice :: "'a list \<Rightarrow> nat \<Rightarrow> nat \<Rightarrow> 'a list" where
  "slice params i j = take (j - i) (drop i params)"

fun unpack_intrinsics :: "real list \<Rightarrow> string list \<Rightarrow> nat \<Rightarrow> (string \<rightharpoonup> matrix) \<Rightarrow> ((string \<rightharpoonup> matrix) \<times> nat) res" where
  "unpack_intrinsics params [] idx m = Inr (m, idx)"
| "unpack_intrinsics params (n # ns) idx m =
     res_bind (param params idx) (\<lambda>fx. res_bind (param params (idx + 1)) (\<lambda>fy.
     res_bind (param params (idx + 2)) (\<lambda>cx. res_bind (param params (idx + 3)) (\<lambda>cy.
       unpack_intrinsics params ns (idx + 4) (m(n \<mapsto> camera_matrix fx fy cx cy))))))"

fun unpack_distortion :: "real list \<Rightarrow> string list \<Rightarrow> nat \<Rightarrow> (string \<rightharpoonup> real list) \<Rightarrow> (string \<rightharpoonup> real list) \<times> nat" where
  "unpack_distortion params [] idx m = (m, idx)"
| "unpack_distortion params (n # ns) idx m =
     unpack_distortion params ns (idx + 4) (m(n \<mapsto> slice params idx (idx + 4)))"

definition unpack_pose :: "rotations \<Rightarrow> real list \<Rightarrow> real list \<Rightarrow> matrix res" where
  "unpack_pose rot rvec tvec =
     res_bind (from_rotvec rot rvec) (\<lambda>R. res_bind (np_column 3 tvec) (\<lambda>t. Inr (rigid_pose R t)))"

fun unpack_poses :: "rotations \<Rightarrow> real list \<Rightarrow> 'k list \<Rightarrow> nat \<Rightarrow> ('k \<rightharpoonup> matrix) \<Rightarrow> (('k \<rightharpoonup> matrix) \<times> nat) res" where
  "unpack_poses rot params [] idx m = Inr (m, idx)"
| "unpack_poses rot params (k # ks) idx m =
     res_bind (unpack_pose rot (slice params idx (idx + 3)) (slice params (idx + 3) (idx + 6))) (\<lambda>T.
       unpack_poses rot params ks (idx + 6) (m(k \<mapsto> T)))"

definition unpack_parameters :: "rotations \<Rightarrow> rig \<Rightarrow> real list \<Rightarrow> calib_parameters res" where
  "unpack_parameters rot g params =
     res_bind (unpack_intrinsics params (rg_names g) 0 Map.empty) (\<lambda>(intrinsics, idx).
       case unpack_distortion params (rg_names g) idx Map.empty of (distortion, idx) \<Rightarrow>
     res_bind (unpack_poses rot params (filter (\<lambda>n. n \<noteq> rg_ref g) (rg_names g)) idx Map.empty) (\<lambda>(extrinsics, idx).
     res_bind (case rg_timestamps g of
                 None \<Rightarrow> Inl (TypeError ''NoneType is not iterable'')
               | Some ts \<Rightarrow> unpack_poses rot params ts idx Map.empty) (\<lambda>(poses, _).
       Inr \<lparr>cp_intrinsics = intrinsics, cp_distortion = distortion, cp_extrinsics = extrinsics, cp_poses = poses\<rparr>)))"

section \<open>Residuals\<close>

definition param_of :: "(string \<rightharpoonup> 'a) \<Rightarrow> string \<Rightarrow> 'a res" where
  "param_of m name = (case m name of None \<Rightarrow> Inl (KeyError name) | Some x \<Rightarrow> Inr x)"

text \<open>
  \<open>compute_view_residual\<close>: the view gets the candidate pose for the computation and its own back
  after it, unless that raised.
\<close>

definition compute_view_residual ::
    "(matrix \<Rightarrow> matrix) \<Rightarrow> calib_parameters \<Rightarrow> string \<Rightarrow> (view, real list option) meth" where
  "compute_view_residual minv p cam_name v =
     (case (param_of (cp_intrinsics p) cam_name, param_of (cp_distortion p) cam_name) of
        (Inl e, _) \<Rightarrow> (Inl e, v)
      | (Inr K, Inl e) \<Rightarrow> (Inl e, v)
      | (Inr K, Inr d) \<Rightarrow>
        (let T_cam_rig = (case cp_extrinsics p cam_name of None \<Rightarrow> eye | Some T \<Rightarrow> T)
         in case cp_poses p (vw_index v) of
              None \<Rightarrow> (Inr None, v)
            | Some T_rig_world \<Rightarrow>
              (let v1 = v\<lparr>vw_pose := T_rig_world\<rparr>
               in case compute_residual minv K d T_cam_rig v1 of
                    Inl e \<Rightarrow> (Inl e, v1)
                  | Inr r \<Rightarrow>
                    (let flat = concat (map (\<lambda>(u, v). [u, v]) (concat r))
                     in (Inr (if flat = [] then None else Some flat), v1\<lparr>vw_pose := vw_pose v\<rparr>)))))"

text \<open>The jobs, one per view, in the order of the list; the thread pool returns them in that order.\<close>

fun each_view :: "(view, 'a) meth \<Rightarrow> (view list, 'a list) meth" where
  "each_view f [] = (Inr [], [])"
| "each_view f (v # vs) =
     (case f v of
        (Inl e, v') \<Rightarrow> (Inl e, v' # vs)
      | (Inr x, v') \<Rightarrow> (case each_view f vs of (r, vs') \<Rightarrow> (res_bind r (\<lambda>xs. Inr (x # xs)), v' # vs')))"

fun each_camera :: "(string \<Rightarrow> (view list, 'a list) meth) \<Rightarrow> string list \<Rightarrow> (string \<rightharpoonup> calib_camera, 'a list) meth" where
  "each_camera f [] cams = (Inr [], cams)"
| "each_camera f (n # ns) cams =
     (case cams n of
        None \<Rightarrow> (Inl (KeyError n), cams)
      | Some c \<Rightarrow>
        (case f n (cc_views c) of
           (Inl e, vs) \<Rightarrow> (Inl e, cams(n \<mapsto> c\<lparr>cc_views := vs\<rparr>))
         | (Inr xs, vs) \<Rightarrow>
           (case each_camera f ns (cams(n \<mapsto> c\<lparr>cc_views := vs\<rparr>)) of
              (r, cams') \<Rightarrow> (res_bind r (\<lambda>ys. Inr (xs @ ys)), cams'))))"

definition residuals :: "rotations \<Rightarrow> (matrix \<Rightarrow> matrix) \<Rightarrow> real list \<Rightarrow> (rig, real list) meth" where
  "residuals rot minv params g =
     (case unpack_parameters rot g params of
        Inl e \<Rightarrow> (Inl e, g)
      | Inr p \<Rightarrow>
        (case each_camera (\<lambda>n. each_view (compute_view_residual minv p n)) (rg_names g) (rg_cams g) of
           (r, cams) \<Rightarrow> (res_bind r (\<lambda>rs. Inr (concat (List.map_filter id rs))), g\<lparr>rg_cams := cams\<rparr>)))"

section \<open>Applying and writing the result\<close>

definition apply_camera :: "calib_parameters \<Rightarrow> string \<Rightarrow> string \<Rightarrow> calib_camera \<Rightarrow> calib_camera res" where
  "apply_camera p ref name cam =
     res_bind (param_of (cp_intrinsics p) name) (\<lambda>K. res_bind (param_of (cp_distortion p) name) (\<lambda>d.
       Inr (cam\<lparr>cc_K := K, cc_d := d,
         cc_pose_rig_cam := (if name = ref then eye
           else case cp_extrinsics p name of None \<Rightarrow> cc_pose_rig_cam cam | Some T \<Rightarrow> T)\<rparr>)))"

definition apply_poses :: "calib_parameters \<Rightarrow> calib_camera \<Rightarrow> calib_camera" where
  "apply_poses p cam =
     cam\<lparr>cc_views := map (\<lambda>v. case cp_poses p (vw_index v) of None \<Rightarrow> v | Some T \<Rightarrow> v\<lparr>vw_pose := T\<rparr>) (cc_views cam)\<rparr>"

fun update_rig_cameras :: "(string \<Rightarrow> calib_camera \<Rightarrow> calib_camera res) \<Rightarrow> string list \<Rightarrow> (string \<rightharpoonup> calib_camera, unit) meth" where
  "update_rig_cameras f [] cams = (Inr (), cams)"
| "update_rig_cameras f (n # ns) cams =
     (case cams n of
        None \<Rightarrow> update_rig_cameras f ns cams
      | Some c \<Rightarrow> (case f n c of Inl e \<Rightarrow> (Inl e, cams) | Inr c' \<Rightarrow> update_rig_cameras f ns (cams(n \<mapsto> c'))))"

definition apply_parameters :: "calib_parameters \<Rightarrow> (rig, unit) meth" where
  "apply_parameters p g =
     (case m_seq (update_rig_cameras (apply_camera p (rg_ref g)) (rg_names g))
                 (update_rig_cameras (\<lambda>n c. Inr (apply_poses p c)) (rg_names g)) (rg_cams g) of
        (r, cams) \<Rightarrow> (r, g\<lparr>rg_cams := cams\<rparr>))"

text \<open>
  An entry of \<open>calibration.yaml\<close>. Views keep no image, so the branch that writes a resolution is
  never taken.
\<close>

definition matrix_rows :: "matrix \<Rightarrow> pyval" where
  "matrix_rows T = PList (map (\<lambda>i. PList (map (\<lambda>j. PFloat (T i j)) [0..<4])) [0..<4])"

definition yaml_camera :: "calib_parameters \<Rightarrow> string \<Rightarrow> string \<Rightarrow> calib_camera \<Rightarrow> pyval" where
  "yaml_camera p ref name cam =
     PDict [(''name'', PStr name), (''camera_model'', PStr ''pinhole''), (''distortion_model'', PStr ''equidistant''),
       (''distortion_coeffs'', PList (map PFloat (case cp_distortion p name of None \<Rightarrow> [0, 0, 0, 0] | Some d \<Rightarrow> d))),
       (''intrinsics'', PList (map PFloat (case cp_intrinsics p name of
          None \<Rightarrow> [] | Some K \<Rightarrow> [K 0 0, K 1 1, K 0 2, K 1 2]))),
       (''pose_rig_cam'', matrix_rows (if name = ref then eye
          else case cp_extrinsics p name of None \<Rightarrow> cc_pose_rig_cam cam | Some T \<Rightarrow> T))]"

definition write_camera_yaml :: "calib_parameters \<Rightarrow> rig \<Rightarrow> pyval" where
  "write_camera_yaml p g =
     PDict [(''cameras'', PList (List.map_filter (\<lambda>n. map_option (yaml_camera p (rg_ref g) n) (rg_cams g n)) (rg_names g)))]"

text \<open>
  \<open>RigOptimization.__init__\<close>: \<open>solver\<close> is \<open>least_squares\<close> on the residual function and the packed
  start; it raises, or returns a result, which is \<open>None\<close> without success. Evaluations leave the
  cameras as they are when they return.
\<close>

definition optimize_rig ::
    "rotations \<Rightarrow> (matrix \<Rightarrow> matrix) \<Rightarrow> ((real list \<Rightarrow> real list res) \<Rightarrow> real list \<Rightarrow> real list option res) \<Rightarrow> (rig, pyval option) meth" where
  "optimize_rig rot minv solver g =
     (case res_bind (pack_parameters rot g) (\<lambda>x0. solver (\<lambda>x. fst (residuals rot minv x g)) x0) of
        Inl e \<Rightarrow> (Inl e, g)
      | Inr None \<Rightarrow> (Inr None, g)
      | Inr (Some x) \<Rightarrow>
        (case unpack_parameters rot g x of
           Inl e \<Rightarrow> (Inl e, g)
         | Inr p \<Rightarrow> m_seq (apply_parameters p) (m_gets (\<lambda>g. Some (write_camera_yaml p g))) g))"

end
