(* ===== verification/Calibration_Properties.thy ===== *)
theory Calibration_Properties imports Calibration_Rig begin

text \<open>
  What the calibration relies on: the parameter vector of the solver holds exactly the cameras
  and poses, and the residuals are those of the observations, all of them and nothing else.
\<close>

section \<open>Packing and unpacking\<close>

lemma res_map_all: "\<forall>x \<in> set xs. f x = Inr (g x) \<Longrightarrow> res_map f xs = Inr (map g xs)"
  by (induction xs) simp_all

text \<open>Reading a block of a concatenation.\<close>

lemma slice_block: "length b = k \<Longrightarrow> slice (pre @ b @ post) (length pre) (length pre + k) = b"
  by (simp add: slice_def)

lemma param_block: "length b = k \<Longrightarrow> i < k \<Longrightarrow> param (pre @ b @ post) (length pre + i) = Inr (b ! i)"
  by (simp add: param_def nth_append)

lemma unpack_intrinsics_blocks:
  assumes "distinct ns"
  shows "unpack_intrinsics (pre @ concat (map (\<lambda>n. [fx n, fy n, cx n, cy n]) ns) @ post) ns (length pre) m =
    Inr (\<lambda>n. if n \<in> set ns then Some (camera_matrix (fx n) (fy n) (cx n) (cy n)) else m n, length pre + 4 * length ns)"
  using assms
proof (induction ns arbitrary: pre m)
  case (Cons n ns)
  let ?b = "[fx n, fy n, cx n, cy n]" and ?rest = "concat (map (\<lambda>n. [fx n, fy n, cx n, cy n]) ns) @ post"
  have get: "param (pre @ ?b @ ?rest) (length pre + i) = Inr (?b ! i)" if "i < 4" for i
    using that by (intro param_block) simp_all
  have "unpack_intrinsics (pre @ ?b @ ?rest) (n # ns) (length pre) m =
      unpack_intrinsics ((pre @ ?b) @ ?rest) ns (length (pre @ ?b)) (m(n \<mapsto> camera_matrix (fx n) (fy n) (cx n) (cy n)))"
    using get [of 0] get [of 1] get [of 2] get [of 3] by (simp add: eval_nat_numeral)
  also have "\<dots> = Inr (\<lambda>k. if k \<in> set ns then Some (camera_matrix (fx k) (fy k) (cx k) (cy k))
      else (m(n \<mapsto> camera_matrix (fx n) (fy n) (cx n) (cy n))) k, length (pre @ ?b) + 4 * length ns)"
    using Cons.prems by (intro Cons.IH) simp
  finally show ?case using Cons.prems by (auto simp: fun_eq_iff)
qed (simp add: fun_eq_iff)

lemma unpack_distortion_blocks:
  assumes "distinct ns" and "\<forall>n \<in> set ns. length (d n) = 4"
  shows "unpack_distortion (pre @ concat (map d ns) @ post) ns (length pre) m =
    (\<lambda>n. if n \<in> set ns then Some (d n) else m n, length pre + 4 * length ns)"
  using assms
proof (induction ns arbitrary: pre m)
  case (Cons n ns)
  have "unpack_distortion (pre @ concat (map d (n # ns)) @ post) (n # ns) (length pre) m =
      unpack_distortion ((pre @ d n) @ concat (map d ns) @ post) ns (length (pre @ d n)) (m(n \<mapsto> d n))"
    using Cons.prems(2) slice_block [of "d n" 4 pre "concat (map d ns) @ post"] by simp
  also have "\<dots> = (\<lambda>k. if k \<in> set ns then Some (d k) else (m(n \<mapsto> d n)) k, length (pre @ d n) + 4 * length ns)"
    using Cons.prems by (intro Cons.IH) simp_all
  finally show ?case using Cons.prems by (auto simp: fun_eq_iff)
qed (simp add: fun_eq_iff)

text \<open>A pose the library's rotation vectors can represent.\<close>

definition pose_ok :: "rotations \<Rightarrow> matrix \<Rightarrow> bool" where
  "pose_ok rot T \<longleftrightarrow> T = rigid_pose (rotation_part T) (translation_part T) \<and>
     (\<exists>rvec. as_rotvec rot (rotation_part T) = Inr rvec \<and> length rvec = 3 \<and> from_rotvec rot rvec = Inr (rotation_part T))"

definition pose_block :: "rotations \<Rightarrow> matrix \<Rightarrow> real list" where
  "pose_block rot T = (case as_rotvec rot (rotation_part T) of Inl e \<Rightarrow> [] | Inr rvec \<Rightarrow> rvec) @ translation_part T"

lemma pose_ok_block:
  assumes "pose_ok rot T"
  shows "pack_pose rot T = Inr (pose_block rot T)" and "length (pose_block rot T) = 6"
    and "unpack_pose rot (take 3 (pose_block rot T)) (drop 3 (pose_block rot T)) = Inr T"
  using assms by (auto simp: pose_ok_def pack_pose_def pose_block_def unpack_pose_def translation_part_def np_column_def)

lemma unpack_poses_blocks:
  assumes "distinct ks" and "\<forall>k \<in> set ks. pose_ok rot (T k)"
  shows "unpack_poses rot (pre @ concat (map (\<lambda>k. pose_block rot (T k)) ks) @ post) ks (length pre) m =
    Inr (\<lambda>k. if k \<in> set ks then Some (T k) else m k, length pre + 6 * length ks)"
  using assms
proof (induction ks arbitrary: pre m)
  case (Cons k ks)
  let ?b = "pose_block rot (T k)" and ?rest = "concat (map (\<lambda>k. pose_block rot (T k)) ks) @ post"
  have b: "length ?b = 6" "unpack_pose rot (take 3 ?b) (drop 3 ?b) = Inr (T k)"
    using pose_ok_block [of rot "T k"] Cons.prems(2) by simp_all
  have "slice (pre @ ?b @ ?rest) (length pre) (length pre + 3) = take 3 ?b"
    "slice (pre @ ?b @ ?rest) (length pre + 3) (length pre + 6) = drop 3 ?b"
    using b(1) by (simp_all add: slice_def take_drop)
  then have "unpack_poses rot (pre @ ?b @ ?rest) (k # ks) (length pre) m =
      unpack_poses rot ((pre @ ?b) @ ?rest) ks (length (pre @ ?b)) (m(k \<mapsto> T k))"
    using b by simp
  also have "\<dots> = Inr (\<lambda>j. if j \<in> set ks then Some (T j) else (m(k \<mapsto> T k)) j, length (pre @ ?b) + 6 * length ks)"
    using Cons.prems by (intro Cons.IH) simp_all
  finally show ?case using Cons.prems b(1) by (auto simp: fun_eq_iff)
qed (simp add: fun_eq_iff)

section \<open>The rig survives its parameters\<close>

definition camera_ok :: "rotations \<Rightarrow> string \<Rightarrow> string \<Rightarrow> calib_camera \<Rightarrow> bool" where
  "camera_ok rot ref name cam \<longleftrightarrow>
     cc_K cam = camera_matrix (cc_K cam 0 0) (cc_K cam 1 1) (cc_K cam 0 2) (cc_K cam 1 2) \<and> length (cc_d cam) = 4 \<and>
     (if name = ref then cc_pose_rig_cam cam = eye else pose_ok rot (cc_pose_rig_cam cam))"

text \<open>
  A rig as \<open>main.py\<close> builds it: one camera per name, the reference among them and at the origin
  of the rig, and every view of an index with the pose the rig had there.
\<close>

definition rig_ok :: "rotations \<Rightarrow> (int \<Rightarrow> matrix) \<Rightarrow> rig \<Rightarrow> bool" where
  "rig_ok rot rig_pose g \<longleftrightarrow>
     distinct (rg_names g) \<and> rg_ref g \<in> set (rg_names g) \<and> dom (rg_cams g) = set (rg_names g) \<and>
     rg_timestamps g = get_timestamps (rg_cams g) (rg_ref g) \<and>
     (\<forall>n cam. rg_cams g n = Some cam \<longrightarrow> camera_ok rot (rg_ref g) n cam \<and>
        (\<forall>v \<in> set (cc_views cam). vw_pose v = rig_pose (vw_index v))) \<and>
     (\<forall>cam. rg_cams g (rg_ref g) = Some cam \<longrightarrow> (\<forall>v \<in> set (cc_views cam). pose_ok rot (vw_pose v)))"

definition ref_indices :: "rig \<Rightarrow> int set" where
  "ref_indices g = (case rg_cams g (rg_ref g) of None \<Rightarrow> {} | Some cam \<Rightarrow> vw_index ` set (cc_views cam))"

definition rig_parameters :: "(int \<Rightarrow> matrix) \<Rightarrow> rig \<Rightarrow> calib_parameters" where
  "rig_parameters rig_pose g =
     \<lparr>cp_intrinsics = \<lambda>n. map_option cc_K (rg_cams g n), cp_distortion = \<lambda>n. map_option cc_d (rg_cams g n),
      cp_extrinsics = \<lambda>n. if n = rg_ref g then None else map_option cc_pose_rig_cam (rg_cams g n),
      cp_poses = \<lambda>t. if t \<in> ref_indices g then Some (rig_pose t) else None\<rparr>"

lemma ref_pose_map_known:
  assumes "\<forall>v \<in> set views. vw_pose v = rig_pose (vw_index v)" and "t \<in> vw_index ` set views"
  shows "ref_pose_map views t = Some (rig_pose t)"
proof -
  let ?kvs = "rev (map (\<lambda>v. (vw_index v, vw_pose v)) views)"
  have "map_of ?kvs t \<noteq> None" using assms(2) unfolding map_of_eq_None_iff by (force simp: image_iff)
  then obtain T where T: "map_of ?kvs t = Some T" by blast
  then have "(t, T) \<in> set ?kvs" by (rule map_of_SomeD)
  then show ?thesis using T assms(1) by (auto simp: ref_pose_map_def)
qed

lemma rig_ok_camera:
  assumes "rig_ok rot rig_pose g" and "n \<in> set (rg_names g)"
  shows "rg_cams g n = Some (the (rg_cams g n))" and "camera_ok rot (rg_ref g) n (the (rg_cams g n))"
    and "\<forall>v \<in> set (cc_views (the (rg_cams g n))). vw_pose v = rig_pose (vw_index v)"
proof -
  obtain cam where "rg_cams g n = Some cam" using assms unfolding rig_ok_def by blast
  then show "rg_cams g n = Some (the (rg_cams g n))" "camera_ok rot (rg_ref g) n (the (rg_cams g n))"
    "\<forall>v \<in> set (cc_views (the (rg_cams g n))). vw_pose v = rig_pose (vw_index v)"
    using assms(1) unfolding rig_ok_def by auto
qed

lemma distinct_filter_neq: "distinct xs \<Longrightarrow> a \<in> set xs \<Longrightarrow> length (filter (\<lambda>x. x \<noteq> a) xs) = length xs - 1"
proof (induction xs)
  case (Cons x xs)
  show ?case
  proof (cases "x = a")
    case True
    then have "filter (\<lambda>x. x \<noteq> a) xs = xs" using Cons.prems by (auto simp: filter_id_conv)
    then show ?thesis using True by simp
  next
    case False
    then have "xs \<noteq> []" "a \<in> set xs" using Cons.prems by auto
    then show ?thesis using Cons False by (cases xs) auto
  qed
qed simp

lemma pack_rig:
  assumes ok: "rig_ok rot rig_pose g" and ref: "rg_cams g (rg_ref g) = Some rc" and ts: "rg_timestamps g = Some ts"
  defines "c \<equiv> \<lambda>n. the (rg_cams g n)" and "others \<equiv> filter (\<lambda>n. n \<noteq> rg_ref g) (rg_names g)"
  shows "pack_parameters rot g =
    Inr (concat (map (\<lambda>n. [cc_K (c n) 0 0, cc_K (c n) 1 1, cc_K (c n) 0 2, cc_K (c n) 1 2]) (rg_names g)) @
         concat (map (\<lambda>n. cc_d (c n)) (rg_names g)) @
         concat (map (\<lambda>n. pose_block rot (cc_pose_rig_cam (c n))) others) @
         concat (map (\<lambda>t. pose_block rot (rig_pose t)) ts))"
proof -
  have cam: "rig_camera g n = Inr (c n)" "camera_ok rot (rg_ref g) n (c n)" if "n \<in> set (rg_names g)" for n
    using rig_ok_camera [OF ok that] unfolding rig_camera_def c_def by (auto split: option.split)
  have ts_set: "set ts = vw_index ` set (cc_views rc)"
    using ok ref ts by (simp add: rig_ok_def get_timestamps_def)
  have cams: "res_map (rig_camera g) (rg_names g) = Inr (map c (rg_names g))" by (rule res_map_all) (simp add: cam)
  have dist: "res_map pack_distortion (map c (rg_names g)) = Inr (map cc_d (map c (rg_names g)))"
    by (rule res_map_all) (use cam(2) in \<open>auto simp: pack_distortion_def camera_ok_def\<close>)
  have ext: "res_map (\<lambda>n. res_bind (rig_camera g n) (\<lambda>c. pack_pose rot (cc_pose_rig_cam c))) others =
      Inr (map (\<lambda>n. pose_block rot (cc_pose_rig_cam (c n))) others)"
    by (rule res_map_all) (use cam in \<open>auto simp: others_def camera_ok_def pose_ok_block(1)\<close>)
  have known: "ref_pose_map (cc_views rc) t = Some (rig_pose t) \<and> pose_ok rot (rig_pose t)" if "t \<in> set ts" for t
    using ok ref that unfolding ts_set rig_ok_def by (force intro: ref_pose_map_known)
  have poses: "res_map (\<lambda>t. case ref_pose_map (cc_views rc) t of None \<Rightarrow> Inl (KeyError (int_str t)) | Some T \<Rightarrow> pack_pose rot T) ts =
      Inr (map (\<lambda>t. pose_block rot (rig_pose t)) ts)"
    by (rule res_map_all) (simp add: known pose_ok_block(1))
  have "rig_camera g (rg_ref g) = Inr rc" using ref by (simp add: rig_camera_def)
  then show ?thesis
    by (simp add: pack_parameters_def cams dist ext ts poses pack_intrinsics_def comp_def flip: others_def)
qed

lemma unpack_rig:
  assumes ok: "rig_ok rot rig_pose g" and ref: "rg_cams g (rg_ref g) = Some rc" and ts: "rg_timestamps g = Some ts"
    and pack: "pack_parameters rot g = Inr x"
  shows "unpack_parameters rot g x = Inr (rig_parameters rig_pose g)"
    and "length x = 8 * length (rg_names g) + 6 * (length (rg_names g) - 1) + 6 * card (ref_indices g)"
proof -
  define c where "c = (\<lambda>n. the (rg_cams g n))"
  define others where "others = filter (\<lambda>n. n \<noteq> rg_ref g) (rg_names g)"
  define i where "i = concat (map (\<lambda>n. [cc_K (c n) 0 0, cc_K (c n) 1 1, cc_K (c n) 0 2, cc_K (c n) 1 2]) (rg_names g))"
  define d where "d = concat (map (\<lambda>n. cc_d (c n)) (rg_names g))"
  define e where "e = concat (map (\<lambda>n. pose_block rot (cc_pose_rig_cam (c n))) others)"
  define q where "q = concat (map (\<lambda>t. pose_block rot (rig_pose t)) ts)"
  have x: "x = i @ d @ e @ q"
    using pack pack_rig [OF ok ref ts] by (simp add: i_def d_def e_def q_def c_def others_def)
  have cam: "rg_cams g n = Some (c n)" "camera_ok rot (rg_ref g) n (c n)" if "n \<in> set (rg_names g)" for n
    using rig_ok_camera [OF ok that] unfolding c_def by simp_all
  have none: "rg_cams g n = None" if "n \<notin> set (rg_names g)" for n
    using ok that by (auto simp: rig_ok_def dom_def)
  have dist: "distinct (rg_names g)" "distinct others" "rg_ref g \<in> set (rg_names g)"
    using ok by (simp_all add: rig_ok_def others_def)
  have ts_set: "set ts = ref_indices g" "distinct ts"
    using ok ref ts by (simp_all add: rig_ok_def get_timestamps_def ref_indices_def)
  have poses: "\<forall>t \<in> set ts. pose_ok rot (rig_pose t)"
    using ok ref by (force simp: ts_set rig_ok_def ref_indices_def)
  have ext: "\<forall>n \<in> set others. pose_ok rot (cc_pose_rig_cam (c n))"
    using cam(2) by (auto simp: others_def camera_ok_def)
  have four: "\<forall>n \<in> set (rg_names g). length (cc_d (c n)) = 4" using cam(2) by (simp add: camera_ok_def)
  have len: "length i = 4 * length (rg_names g)" "length d = 4 * length (rg_names g)" "length e = 6 * length others"
      "length q = 6 * length ts"
    using four ext poses pose_ok_block(2)
    by (auto simp: i_def d_def e_def q_def length_concat comp_def sum_list_triv cong: map_cong)
  let ?m1 = "\<lambda>n. if n \<in> set (rg_names g) then Some (cc_K (c n)) else None"
  let ?m2 = "\<lambda>n. if n \<in> set (rg_names g) then Some (cc_d (c n)) else None"
  let ?m3 = "\<lambda>n. if n \<in> set others then Some (cc_pose_rig_cam (c n)) else None"
  let ?m4 = "\<lambda>t. if t \<in> set ts then Some (rig_pose t) else None"
  have Ks: "camera_matrix (cc_K (c n) 0 0) (cc_K (c n) 1 1) (cc_K (c n) 0 2) (cc_K (c n) 1 2) = cc_K (c n)"
    if "n \<in> set (rg_names g)" for n
    using cam(2) [OF that] by (simp add: camera_ok_def)
  have u1: "unpack_intrinsics x (rg_names g) 0 Map.empty = Inr (?m1, length i)"
  proof -
    have "(\<lambda>n. if n \<in> set (rg_names g) then Some (camera_matrix (cc_K (c n) 0 0) (cc_K (c n) 1 1) (cc_K (c n) 0 2) (cc_K (c n) 1 2))
        else None) = ?m1"
      using Ks by (auto simp only: fun_eq_iff split: if_split)
    then show ?thesis
      using unpack_intrinsics_blocks [OF dist(1), of "[]" "\<lambda>n. cc_K (c n) 0 0" "\<lambda>n. cc_K (c n) 1 1" "\<lambda>n. cc_K (c n) 0 2"
          "\<lambda>n. cc_K (c n) 1 2" "d @ e @ q" Map.empty]
      by (simp only: x i_def [symmetric] len(1) append_Nil list.size(3) add_0)
  qed
  have u2: "unpack_distortion x (rg_names g) (length i) Map.empty = (?m2, length (i @ d))"
    using unpack_distortion_blocks [OF dist(1) four, of i "e @ q" Map.empty] len by (simp add: x flip: d_def)
  have u3: "unpack_poses rot x others (length (i @ d)) Map.empty = Inr (?m3, length (i @ d @ e))"
    using unpack_poses_blocks [OF dist(2) ext, of "i @ d" q Map.empty] len by (simp add: x flip: e_def)
  have u4: "unpack_poses rot x ts (length (i @ d @ e)) Map.empty = Inr (?m4, length x)"
    using unpack_poses_blocks [OF ts_set(2) poses, of "i @ d @ e" "[]" Map.empty] len by (simp add: x flip: q_def)
  have "unpack_parameters rot g x =
      Inr \<lparr>cp_intrinsics = ?m1, cp_distortion = ?m2, cp_extrinsics = ?m3, cp_poses = ?m4\<rparr>"
    unfolding unpack_parameters_def u1 ts others_def [symmetric] using u2 u3 u4 by simp
  also have "\<dots> = Inr (rig_parameters rig_pose g)"
    using cam(1) none by (auto simp: rig_parameters_def fun_eq_iff others_def ts_set)
  finally show "unpack_parameters rot g x = Inr (rig_parameters rig_pose g)" .
  have "length others = length (rg_names g) - 1"
    using dist(1,3) by (simp add: others_def distinct_filter_neq)
  moreover have "length ts = card (ref_indices g)" using ts_set distinct_card by fastforce
  ultimately show "length x = 8 * length (rg_names g) + 6 * (length (rg_names g) - 1) + 6 * card (ref_indices g)"
    using len by (simp add: x)
qed

lemma update_cameras_fixed:
  "\<forall>n \<in> set ns. \<forall>c. cams n = Some c \<longrightarrow> f n c = Inr c \<Longrightarrow> update_rig_cameras f ns cams = (Inr (), cams)"
  by (induction ns) (auto split: option.split, metis fun_upd_triv)

lemma apply_rig_parameters:
  assumes ok: "rig_ok rot rig_pose g"
  shows "apply_parameters (rig_parameters rig_pose g) g = (Inr (), g)"
proof -
  let ?p = "rig_parameters rig_pose g"
  have "apply_camera ?p (rg_ref g) n c = Inr c" if "rg_cams g n = Some c" for n c
  proof -
    have "camera_ok rot (rg_ref g) n c" using ok that by (auto simp: rig_ok_def)
    then have "n = rg_ref g \<Longrightarrow> cc_pose_rig_cam c = eye" by (simp add: camera_ok_def)
    then show ?thesis using that by (cases c) (auto simp: apply_camera_def param_of_def rig_parameters_def)
  qed
  moreover have "apply_poses ?p c = c" if "rg_cams g n = Some c" for n c
  proof -
    have "\<forall>v \<in> set (cc_views c). vw_pose v = rig_pose (vw_index v)" using ok that by (auto simp: rig_ok_def)
    then have "map (\<lambda>v. case cp_poses ?p (vw_index v) of None \<Rightarrow> v | Some T \<Rightarrow> v\<lparr>vw_pose := T\<rparr>) (cc_views c) = cc_views c"
      by (intro map_idI) (auto simp: rig_parameters_def)
    then show ?thesis by (cases c) (simp add: apply_poses_def)
  qed
  ultimately show ?thesis
    by (simp add: apply_parameters_def m_seq_def m_bind_def update_cameras_fixed)
qed

text \<open>
  C34. The solver's vector holds the rig: for a rig as \<open>main.py\<close> builds it, packing never raises
  and gives eight numbers per camera, six per camera other than the reference and six per
  timestamp; unpacking gives every camera its own intrinsics, distortion and pose and every
  timestamp its rig pose; and a solver that returns its starting point changes no camera and no
  view when its result is applied.
\<close>

theorem parameter_vector_holds_the_rig:
  assumes "rig_ok rot rig_pose g"
  shows "\<exists>x. pack_parameters rot g = Inr x \<and>
    length x = 8 * length (rg_names g) + 6 * (length (rg_names g) - 1) + 6 * card (ref_indices g) \<and>
    unpack_parameters rot g x = Inr (rig_parameters rig_pose g) \<and>
    apply_parameters (rig_parameters rig_pose g) g = (Inr (), g) \<and>
    optimize_rig rot minv (\<lambda>f x0. Inr (Some x0)) g = (Inr (Some (write_camera_yaml (rig_parameters rig_pose g) g)), g)"
proof -
  have "rg_ref g \<in> dom (rg_cams g)" "rg_timestamps g = get_timestamps (rg_cams g) (rg_ref g)"
    using assms by (simp_all add: rig_ok_def)
  then obtain rc ts where ref: "rg_cams g (rg_ref g) = Some rc" and ts: "rg_timestamps g = Some ts"
    by (auto simp: get_timestamps_def)
  obtain x where x: "pack_parameters rot g = Inr x" using pack_rig [OF assms ref ts] by blast
  note unpack = unpack_rig [OF assms ref ts x] and app = apply_rig_parameters [OF assms]
  have "optimize_rig rot minv (\<lambda>f x0. Inr (Some x0)) g = (Inr (Some (write_camera_yaml (rig_parameters rig_pose g) g)), g)"
    by (simp add: optimize_rig_def x unpack(1) m_seq_def m_bind_def app)
  then show ?thesis using x unpack app by blast
qed

text \<open>Two cameras, one above the other, that saw one tag at one time.\<close>

definition demo_rotations :: rotations where
  "demo_rotations = \<lparr>as_rotvec = \<lambda>R. if R = rotation_part eye then Inr [0, 0, 0] else Inl (ValueError ''not modelled''),
     from_rotvec = \<lambda>v. if v = [0, 0, 0] then Inr (rotation_part eye) else Inl (ValueError ''not modelled'')\<rparr>"

definition demo_tag :: matrix where
  "demo_tag = tag_corners 2 (rigid_pose (rotation_part eye) [0, 0, 4])"

definition demo_camera :: "real \<Rightarrow> (real \<times> real) list \<Rightarrow> calib_camera" where
  "demo_camera height corners =
     add_view 7 (rigid_pose (rotation_part eye) [0, 0, 0]) [3 \<mapsto> demo_tag] [(3, corners)]
       \<lparr>cc_K = camera_matrix 500 500 320 240, cc_d = [0, 0, 0, 0],
        cc_pose_rig_cam = (if height = 0 then eye else rigid_pose (rotation_part eye) [0, 0, height]), cc_views = []\<rparr>"

definition demo_rig :: rig where
  "demo_rig = new_rig ''cam0'' [(''cam0'', demo_camera 0 []), (''cam1'', demo_camera 1 [])]"

lemma rotation_of_rigid [simp]: "rotation_part (rigid_pose (rotation_part R) t) = rotation_part R"
  by (simp add: rotation_part_def rigid_pose_def fun_eq_iff)

lemma translation_of_rigid [simp]: "length t = 3 \<Longrightarrow> translation_part (rigid_pose R t) = t"
  by (auto simp: translation_part_def rigid_pose_def numeral_3_eq_3 length_Suc_conv)

lemma demo_pose_ok: "length t = 3 \<Longrightarrow> pose_ok demo_rotations (rigid_pose (rotation_part eye) t)"
  by (simp add: pose_ok_def demo_rotations_def)

lemma camera_matrix_entries [simp]:
  "camera_matrix (camera_matrix fx fy cx cy 0 0) (camera_matrix fx fy cx cy 1 1) (camera_matrix fx fy cx cy 0 2)
     (camera_matrix fx fy cx cy 1 2) = camera_matrix fx fy cx cy"
  by (simp add: camera_matrix_def)

lemma demo_rig_ok: "rig_ok demo_rotations (\<lambda>_. rigid_pose (rotation_part eye) [0, 0, 0]) demo_rig"
  unfolding rig_ok_def
  by (auto simp: demo_rig_def new_rig_def demo_camera_def add_view_def camera_ok_def demo_pose_ok simp del: One_nat_def
      split: if_splits)

theorem parameter_vector_holds_the_rig_witness:
  "\<exists>x. pack_parameters demo_rotations demo_rig = Inr x \<and> length x = 28 \<and>
     unpack_parameters demo_rotations demo_rig x = Inr (rig_parameters (\<lambda>_. rigid_pose (rotation_part eye) [0, 0, 0]) demo_rig)"
  using parameter_vector_holds_the_rig [OF demo_rig_ok]
  by (auto simp: demo_rig_def new_rig_def ref_indices_def demo_camera_def add_view_def)

section \<open>The residuals\<close>

text \<open>The cameras the solver's vector stands for, and what a tag contributes to the residuals.\<close>

definition candidate_pose :: "calib_parameters \<Rightarrow> string \<Rightarrow> matrix" where
  "candidate_pose p n = (case cp_extrinsics p n of None \<Rightarrow> eye | Some T \<Rightarrow> T)"

definition reprojection :: "(matrix \<Rightarrow> matrix) \<Rightarrow> calib_parameters \<Rightarrow> string \<Rightarrow> matrix \<Rightarrow> tag_observation \<Rightarrow> (real \<times> real) list" where
  "reprojection minv p n T tag =
     project_tag minv (the (cp_intrinsics p n)) (the (cp_distortion p n)) (candidate_pose p n) T (the (to_corners_3d tag))"

definition tag_vector :: "(real \<times> real) list \<Rightarrow> (real \<times> real) list \<Rightarrow> real list" where
  "tag_vector projected observed = concat (map2 (\<lambda>(u, v) (u', v'). [u - u', v - v']) projected observed)"

definition view_vector :: "(matrix \<Rightarrow> matrix) \<Rightarrow> calib_parameters \<Rightarrow> string \<Rightarrow> view \<Rightarrow> real list" where
  "view_vector minv p n v =
     (case cp_poses p (vw_index v) of None \<Rightarrow> []
      | Some T \<Rightarrow> concat (map (\<lambda>tag. tag_vector (reprojection minv p n T tag) (to_corners_2d tag)) (vw_tags v)))"

definition view_known :: "calib_parameters \<Rightarrow> view \<Rightarrow> bool" where
  "view_known p v \<longleftrightarrow> cp_poses p (vw_index v) = None \<or> (\<forall>tag \<in> set (vw_tags v). to_corners_3d tag \<noteq> None)"

definition rig_views :: "rig \<Rightarrow> (string \<times> view) list" where
  "rig_views g = concat (map (\<lambda>n. map (Pair n) (cc_views (the (rg_cams g n)))) (rg_names g))"

lemma res_map_one_error:
  assumes "\<forall>x \<in> set xs. f x = Inl e \<or> (\<exists>y. f x = Inr y)" and "\<exists>x \<in> set xs. f x = Inl e"
  shows "res_map f xs = Inl e"
  using assms
proof (induction xs)
  case (Cons x xs)
  show ?case
  proof (cases "f x = Inl e")
    case False
    then obtain y where "f x = Inr y" using Cons.prems(1) by auto
    moreover have "res_map f xs = Inl e" using Cons False by (intro Cons.IH) auto
    ultimately show ?thesis by simp
  qed simp
qed simp

lemma flatten_pairs:
  "concat (map (\<lambda>(u, v). [u, v]) (map2 (\<lambda>(u, v) (u', v'). (u - u', v - v')) ps qs)) = tag_vector ps qs"
  by (induction ps qs rule: list_induct2') (auto simp: tag_vector_def)

lemma concat_map_concat: "concat (map f (concat xss)) = concat (map (\<lambda>xs. concat (map f xs)) xss)"
  by (induction xss) simp_all

lemma view_residual_run:
  assumes "cp_intrinsics p n = Some K" and "cp_distortion p n = Some d" and "view_known p v"
  shows "compute_view_residual minv p n v = (Inr (if view_vector minv p n v = [] then None else Some (view_vector minv p n v)), v)"
proof (cases "cp_poses p (vw_index v)")
  case None
  then show ?thesis using assms by (simp add: compute_view_residual_def param_of_def view_vector_def Let_def)
next
  case (Some T)
  let ?g = "\<lambda>tag. map2 (\<lambda>(u, v) (u', v'). (u - u', v - v')) (reprojection minv p n T tag) (to_corners_2d tag)"
  have "compute_residual minv K d (candidate_pose p n) (v\<lparr>vw_pose := T\<rparr>) = Inr (map ?g (vw_tags v))"
  proof -
    have "res_map (tag_residual minv K d (candidate_pose p n) T) (vw_tags v) = Inr (map ?g (vw_tags v))"
      using assms Some by (intro res_map_all) (auto simp: tag_residual_def view_known_def reprojection_def)
    then show ?thesis by (simp add: compute_residual_def)
  qed
  moreover have "concat (map (\<lambda>(u, v). [u, v]) (concat (map ?g (vw_tags v)))) = view_vector minv p n v"
  proof -
    define g where "g = ?g"
    have "concat (map (\<lambda>(u, v). [u, v]) (g tag)) = tag_vector (reprojection minv p n T tag) (to_corners_2d tag)" for tag
      unfolding g_def by (rule flatten_pairs)
    then show ?thesis
      unfolding g_def [symmetric] concat_map_concat by (simp add: view_vector_def Some comp_def)
  qed
  ultimately show ?thesis
    using assms Some by (simp add: compute_view_residual_def param_of_def Let_def candidate_pose_def)
qed

lemma view_residual_unknown:
  assumes "cp_intrinsics p n = Some K" and "cp_distortion p n = Some d" and "\<not> view_known p v"
  shows "fst (compute_view_residual minv p n v) = Inl (TypeError ''matmul: NoneType'')"
proof -
  obtain T tag where T: "cp_poses p (vw_index v) = Some T" and tag: "tag \<in> set (vw_tags v)" "to_corners_3d tag = None"
    using assms(3) by (auto simp: view_known_def)
  have "compute_residual minv K d (candidate_pose p n) (v\<lparr>vw_pose := T\<rparr>) = Inl (TypeError ''matmul: NoneType'')"
    unfolding compute_residual_def using tag
    by (intro res_map_one_error) (auto simp: tag_residual_def split: option.split)
  then show ?thesis
    using assms(1,2) T by (simp add: compute_view_residual_def param_of_def Let_def candidate_pose_def)
qed

lemma each_view_run: "\<forall>v \<in> set vs. f v = (Inr (h v), v) \<Longrightarrow> each_view f vs = (Inr (map h vs), vs)"
  by (induction vs) simp_all

lemma each_view_error:
  "\<forall>v \<in> set vs. f v = (Inr (h v), v) \<or> fst (f v) = Inl e \<Longrightarrow> \<exists>v \<in> set vs. fst (f v) = Inl e \<Longrightarrow> fst (each_view f vs) = Inl e"
proof (induction vs)
  case (Cons v vs)
  show ?case
  proof (cases "fst (f v) = Inl e")
    case True
    then show ?thesis by (cases "f v") simp
  next
    case False
    then have "f v = (Inr (h v), v)" "fst (each_view f vs) = Inl e" using Cons by auto
    then show ?thesis by (cases "each_view f vs") simp
  qed
qed simp

lemma each_camera_run:
  "\<forall>n \<in> set ns. \<exists>c. cams n = Some c \<and> f n (cc_views c) = (Inr (h n), cc_views c) \<Longrightarrow>
   each_camera f ns cams = (Inr (concat (map h ns)), cams)"
proof (induction ns)
  case (Cons n ns)
  then obtain c where c: "cams n = Some c" "f n (cc_views c) = (Inr (h n), cc_views c)" by auto
  then have "cams(n \<mapsto> c\<lparr>cc_views := cc_views c\<rparr>) = cams" by (cases c) (simp add: fun_upd_idem)
  then show ?case using Cons c by simp
qed simp

lemma each_camera_error:
  assumes "\<forall>n \<in> set ns. \<exists>c. cams n = Some c \<and> (f n (cc_views c) = (Inr (h n), cc_views c) \<or> fst (f n (cc_views c)) = Inl e)"
    and "\<exists>n \<in> set ns. \<exists>c. cams n = Some c \<and> fst (f n (cc_views c)) = Inl e"
  shows "fst (each_camera f ns cams) = Inl e"
  using assms
proof (induction ns)
  case (Cons n ns)
  obtain c where c: "cams n = Some c" using Cons.prems(1) by auto
  show ?case
  proof (cases "fst (f n (cc_views c)) = Inl e")
    case True
    then show ?thesis using c by (cases "f n (cc_views c)") simp
  next
    case False
    then have run: "f n (cc_views c) = (Inr (h n), cc_views c)" using Cons.prems(1) c by auto
    have same: "cams(n \<mapsto> c\<lparr>cc_views := cc_views c\<rparr>) = cams" using c by (cases c) (simp add: fun_upd_idem)
    have "fst (each_camera f ns cams) = Inl e" using Cons False c by (intro Cons.IH) auto
    then show ?thesis using run same c by (cases "each_camera f ns cams") simp
  qed
qed simp

text \<open>A vector that unpacks has intrinsics and distortion for every name.\<close>

lemma unpack_intrinsics_dom: "unpack_intrinsics x ns idx m = Inr (m', idx') \<Longrightarrow> dom m' = set ns \<union> dom m"
proof (induction ns arbitrary: idx m)
  case (Cons n ns)
  then obtain K where "unpack_intrinsics x ns (idx + 4) (m(n \<mapsto> K)) = Inr (m', idx')" by (auto simp: res_bind_Inr_iff)
  from Cons.IH [OF this] show ?case by (auto simp: dom_def)
qed simp

lemma unpack_distortion_dom: "dom (fst (unpack_distortion x ns idx m)) = set ns \<union> dom m"
  by (induction ns arbitrary: idx m) simp_all

lemma unpack_dom:
  assumes "unpack_parameters rot g x = Inr p" and "n \<in> set (rg_names g)"
  shows "\<exists>K d. cp_intrinsics p n = Some K \<and> cp_distortion p n = Some d"
proof -
  obtain I idx where "unpack_intrinsics x (rg_names g) 0 Map.empty = Inr (I, idx)" "cp_intrinsics p = I"
      "cp_distortion p = fst (unpack_distortion x (rg_names g) idx Map.empty)"
    using assms(1) by (auto simp: unpack_parameters_def res_bind_Inr_iff case_prod_unfold)
  then have "n \<in> dom (cp_intrinsics p)" "n \<in> dom (cp_distortion p)"
    using assms(2) by (auto simp: unpack_distortion_dom dest!: unpack_intrinsics_dom)
  then show ?thesis by blast
qed

lemma concat_somes: "concat (List.map_filter id (map (\<lambda>x. if h x = [] then None else Some (h x)) xs)) = concat (map h xs)"
  by (induction xs) (auto simp: List.map_filter_simps)

lemma residuals_run:
  assumes p: "unpack_parameters rot g x = Inr p" and cams: "set (rg_names g) \<subseteq> dom (rg_cams g)"
    and known: "\<forall>(n, v) \<in> set (rig_views g). view_known p v"
  shows "residuals rot minv x g = (Inr (concat (map (\<lambda>(n, v). view_vector minv p n v) (rig_views g))), g)"
proof -
  let ?opt = "\<lambda>n v. if view_vector minv p n v = [] then None else Some (view_vector minv p n v)"
  let ?h = "\<lambda>n. map (?opt n) (cc_views (the (rg_cams g n)))"
  have "\<exists>c. rg_cams g n = Some c \<and> each_view (compute_view_residual minv p n) (cc_views c) = (Inr (?h n), cc_views c)"
    if n: "n \<in> set (rg_names g)" for n
  proof -
    obtain c where c: "rg_cams g n = Some c" using cams n by auto
    obtain K d where "cp_intrinsics p n = Some K" "cp_distortion p n = Some d" using unpack_dom [OF p n] by blast
    moreover have "\<forall>v \<in> set (cc_views c). view_known p v" using known n c by (auto simp: rig_views_def)
    ultimately show ?thesis
      using c each_view_run [of "cc_views c" "compute_view_residual minv p n" "?opt n"] view_residual_run by simp
  qed
  then have "each_camera (\<lambda>n. each_view (compute_view_residual minv p n)) (rg_names g) (rg_cams g) =
      (Inr (concat (map ?h (rg_names g))), rg_cams g)"
    by (intro each_camera_run) blast
  moreover have "concat (map ?h (rg_names g)) = map (\<lambda>(n, v). ?opt n v) (rig_views g)"
    by (simp add: rig_views_def map_concat comp_def)
  ultimately show ?thesis
    using concat_somes [of "\<lambda>x. view_vector minv p (fst x) (snd x)" "rig_views g"]
    by (simp add: residuals_def p case_prod_unfold)
qed

lemma residuals_unknown:
  assumes p: "unpack_parameters rot g x = Inr p" and cams: "set (rg_names g) \<subseteq> dom (rg_cams g)"
    and unknown: "\<not> (\<forall>(n, v) \<in> set (rig_views g). view_known p v)"
  shows "fst (residuals rot minv x g) = Inl (TypeError ''matmul: NoneType'')"
proof -
  let ?e = "TypeError ''matmul: NoneType''"
  let ?opt = "\<lambda>n v. if view_vector minv p n v = [] then None else Some (view_vector minv p n v)"
  let ?h = "\<lambda>n. map (?opt n) (cc_views (the (rg_cams g n)))"
  have cases: "(if \<forall>v \<in> set (cc_views c). view_known p v
      then each_view (compute_view_residual minv p n) (cc_views c) = (Inr (?h n), cc_views c)
      else fst (each_view (compute_view_residual minv p n) (cc_views c)) = Inl ?e)"
    if n: "n \<in> set (rg_names g)" and c: "rg_cams g n = Some c" for n c
  proof -
    obtain K d where Kd: "cp_intrinsics p n = Some K" "cp_distortion p n = Some d" using unpack_dom [OF p n] by blast
    have one: "compute_view_residual minv p n v = (Inr (?opt n v), v) \<or> fst (compute_view_residual minv p n v) = Inl ?e" for v
      using view_residual_run [OF Kd] view_residual_unknown [OF Kd] by blast
    show ?thesis
    proof (cases "\<forall>v \<in> set (cc_views c). view_known p v")
      case True
      then have "each_view (compute_view_residual minv p n) (cc_views c) = (Inr (map (?opt n) (cc_views c)), cc_views c)"
        by (intro each_view_run) (simp add: view_residual_run [OF Kd])
      then show ?thesis using True c by simp
    next
      case False
      then have "fst (each_view (compute_view_residual minv p n) (cc_views c)) = Inl ?e"
        using one view_residual_unknown [OF Kd] by (intro each_view_error [where h = "?opt n"]) blast+
      then show ?thesis by (simp only: if_not_P [OF False])
    qed
  qed
  have "fst (each_camera (\<lambda>n. each_view (compute_view_residual minv p n)) (rg_names g) (rg_cams g)) = Inl ?e"
  proof (rule each_camera_error [where h = ?h])
    show "\<forall>n \<in> set (rg_names g). \<exists>c. rg_cams g n = Some c \<and>
        (each_view (compute_view_residual minv p n) (cc_views c) = (Inr (?h n), cc_views c) \<or>
         fst (each_view (compute_view_residual minv p n) (cc_views c)) = Inl ?e)"
    proof
      fix n assume n: "n \<in> set (rg_names g)"
      then obtain c where c: "rg_cams g n = Some c" using cams by auto
      have "each_view (compute_view_residual minv p n) (cc_views c) = (Inr (?h n), cc_views c) \<or>
          fst (each_view (compute_view_residual minv p n) (cc_views c)) = Inl ?e"
        using cases [OF n c] by argo
      then show "\<exists>c. rg_cams g n = Some c \<and>
          (each_view (compute_view_residual minv p n) (cc_views c) = (Inr (?h n), cc_views c) \<or>
           fst (each_view (compute_view_residual minv p n) (cc_views c)) = Inl ?e)" using c by blast
    qed
    obtain n v c where "n \<in> set (rg_names g)" "rg_cams g n = Some c" "v \<in> set (cc_views c)" "\<not> view_known p v"
      using unknown cams by (force simp: rig_views_def)
    then show "\<exists>n \<in> set (rg_names g). \<exists>c. rg_cams g n = Some c \<and>
        fst (each_view (compute_view_residual minv p n) (cc_views c)) = Inl ?e"
      using cases [of n c] by (intro bexI [of _ n] exI [of _ c] conjI) (auto split: if_splits)
  qed
  then show ?thesis by (simp add: residuals_def p case_prod_unfold)
qed

lemma tag_vector_simps:
  "tag_vector [] [] = []" "tag_vector (p # ps) (q # qs) = [fst p - fst q, snd p - snd q] @ tag_vector ps qs"
  by (simp_all add: tag_vector_def case_prod_unfold)

lemma map2_diff_zero:
  "length ps = length qs \<Longrightarrow> (\<forall>r \<in> set (tag_vector ps qs). r = 0) \<longleftrightarrow> ps = qs"
  by (induction ps qs rule: list_induct2) (simp_all add: tag_vector_simps prod_eq_iff)

text \<open>
  C35. The residual vector is complete and exact: for a vector that unpacks, the residuals are
  the differences between projected and observed corners of every tag of every view whose time
  has a pose, camera by camera, view by view and tag by tag, the other views contribute nothing,
  and the cameras and views are left as they were. They are all zero exactly when every
  observation is reproduced. One detected tag without corners in space, though \<open>detect_tags\<close>
  keeps it on purpose, makes the evaluation raise, and with it the whole optimisation.
\<close>

theorem residuals_are_of_every_observation:
  assumes "unpack_parameters rot g x = Inr p" and "set (rg_names g) \<subseteq> dom (rg_cams g)"
    and "\<forall>(n, v) \<in> set (rig_views g). \<forall>tag \<in> set (vw_tags v). length (to_corners_2d tag) = 4"
  shows "if \<forall>(n, v) \<in> set (rig_views g). view_known p v
     then residuals rot minv x g = (Inr (concat (map (\<lambda>(n, v). view_vector minv p n v) (rig_views g))), g) \<and>
       ((\<forall>r \<in> set (concat (map (\<lambda>(n, v). view_vector minv p n v) (rig_views g))). r = 0) \<longleftrightarrow>
        (\<forall>(n, v) \<in> set (rig_views g). \<forall>T. cp_poses p (vw_index v) = Some T \<longrightarrow>
           (\<forall>tag \<in> set (vw_tags v). reprojection minv p n T tag = to_corners_2d tag)))
     else fst (residuals rot minv x g) = Inl (TypeError ''matmul: NoneType'')"
proof (cases "\<forall>(n, v) \<in> set (rig_views g). view_known p v")
  case True
  have "length (reprojection minv p n T tag) = 4" for n T tag
    by (simp add: reprojection_def project_tag_def corner_points_def Let_def)
  then have zero: "(\<forall>r \<in> set (view_vector minv p n v). r = 0) \<longleftrightarrow> (\<forall>T. cp_poses p (vw_index v) = Some T \<longrightarrow>
      (\<forall>tag \<in> set (vw_tags v). reprojection minv p n T tag = to_corners_2d tag))" if "(n, v) \<in> set (rig_views g)" for n v
    using assms(3) that map2_diff_zero by (fastforce simp: view_vector_def split: option.splits)
  show ?thesis
    using True residuals_run [OF assms(1,2) True] zero by (simp only: if_True) fastforce
next
  case False
  show ?thesis
    unfolding if_not_P [OF False] by (rule residuals_unknown [OF assms(1,2) False])
qed

text \<open>The tag four metres in front of the first camera, as an ideal lens sees it; then an unknown tag.\<close>

definition seen_rig :: "(int \<rightharpoonup> matrix) \<Rightarrow> rig" where
  "seen_rig tags =
     (let T = rigid_pose (rotation_part eye) [0, 0, 0]
      in new_rig ''cam0'' [(''cam0'', add_view 7 T tags
           [(3, project_tag (\<lambda>M. M) (camera_matrix 500 500 320 240) [0, 0, 0, 0] eye T demo_tag)]
           \<lparr>cc_K = camera_matrix 500 500 320 240, cc_d = [0, 0, 0, 0], cc_pose_rig_cam = eye, cc_views = []\<rparr>)])"

lemma seen_rig_ok: "rig_ok demo_rotations (\<lambda>_. rigid_pose (rotation_part eye) [0, 0, 0]) (seen_rig tags)"
  unfolding rig_ok_def
  by (auto simp: seen_rig_def Let_def new_rig_def add_view_def camera_ok_def demo_pose_ok simp del: One_nat_def split: if_splits)

lemma rig_unpacks:
  assumes "rig_ok rot rig_pose g"
  shows "\<exists>x. unpack_parameters rot g x = Inr (rig_parameters rig_pose g)"
proof -
  have "rg_ref g \<in> dom (rg_cams g)" "rg_timestamps g = get_timestamps (rg_cams g) (rg_ref g)"
    using assms by (simp_all add: rig_ok_def)
  then obtain rc ts where "rg_cams g (rg_ref g) = Some rc" "rg_timestamps g = Some ts"
    by (auto simp: get_timestamps_def)
  then show ?thesis using pack_rig [OF assms] unpack_rig(1) [OF assms] by blast
qed

lemma length_project_tag: "length (project_tag minv K d Tc T C) = 4"
  by (simp add: project_tag_def corner_points_def Let_def)

theorem residuals_are_of_every_observation_witness:
  "(\<exists>x rs. residuals demo_rotations (\<lambda>M. M) x (seen_rig [3 \<mapsto> demo_tag]) = (Inr rs, seen_rig [3 \<mapsto> demo_tag]) \<and>
      list_all (\<lambda>r. r = 0) rs) \<and>
   (\<exists>x. fst (residuals demo_rotations (\<lambda>M. M) x (seen_rig Map.empty)) = Inl (TypeError ''matmul: NoneType''))"
proof -
  let ?T = "rigid_pose (rotation_part eye) [0, 0, 0]"
  let ?p = "\<lambda>tags. rig_parameters (\<lambda>_. ?T) (seen_rig tags)"
  have views: "rig_views (seen_rig tags) = [(''cam0'', \<lparr>vw_index = 7, vw_pose = ?T, vw_tags =
      [\<lparr>to_id = 3, to_corners_2d = project_tag (\<lambda>M. M) (camera_matrix 500 500 320 240) [0, 0, 0, 0] eye ?T demo_tag,
        to_corners_3d = tags 3\<rparr>]\<rparr>)]" for tags
    by (simp add: rig_views_def seen_rig_def Let_def new_rig_def add_view_def detect_tags_def)
  have known: "cp_poses (?p tags) 7 = Some ?T" "cp_intrinsics (?p tags) ''cam0'' = Some (camera_matrix 500 500 320 240)"
    "cp_distortion (?p tags) ''cam0'' = Some [0, 0, 0, 0]" "candidate_pose (?p tags) ''cam0'' = eye" for tags
    by (simp_all add: rig_parameters_def ref_indices_def candidate_pose_def seen_rig_def Let_def new_rig_def add_view_def)
  have names: "set (rg_names (seen_rig tags)) \<subseteq> dom (rg_cams (seen_rig tags))" for tags
    by (simp add: seen_rig_def Let_def new_rig_def)
  have four: "\<forall>(n, v) \<in> set (rig_views (seen_rig tags)). \<forall>tag \<in> set (vw_tags v). length (to_corners_2d tag) = 4" for tags
    by (simp add: views length_project_tag)
  obtain x where x: "unpack_parameters demo_rotations (seen_rig [3 \<mapsto> demo_tag]) x = Inr (?p [3 \<mapsto> demo_tag])"
    using rig_unpacks [OF seen_rig_ok] by blast
  obtain x' where x': "unpack_parameters demo_rotations (seen_rig Map.empty) x' = Inr (?p Map.empty)"
    using rig_unpacks [OF seen_rig_ok] by blast
  have "\<exists>rs. residuals demo_rotations (\<lambda>M. M) x (seen_rig [3 \<mapsto> demo_tag]) = (Inr rs, seen_rig [3 \<mapsto> demo_tag]) \<and>
      list_all (\<lambda>r. r = 0) rs"
    using residuals_are_of_every_observation [OF x names four, of "\<lambda>M. M"]
    by (simp add: views view_known_def known reprojection_def list_all_iff del: split_paired_All)
  moreover have "fst (residuals demo_rotations (\<lambda>M. M) x' (seen_rig Map.empty)) = Inl (TypeError ''matmul: NoneType'')"
    using residuals_are_of_every_observation [OF x' names four, of "\<lambda>M. M"]
    by (simp add: views view_known_def known)
  ultimately show ?thesis by blast
qed

end
