(* ===== verification/Discovery.thy ===== *)
theory Discovery imports Recording_Rigs "HOL-Library.AList" begin

text \<open>
  \<open>discover_cameras.py\<close> and \<open>dataset_collection/discovery.py\<close>: filling the empty slots of
  \<open>camera_info.yaml\<close> with discovered devices, the raw discovery file, and the check of an IMU
  device. The devices found on the bus and libiio are parameters.
\<close>

section \<open>The program\<close>

record discovered_basler =
  db_serial :: string
  db_ip :: string
  db_model :: string
  db_friendly :: string

record discovered_event_camera =
  de_serial :: string
  de_model :: string

type_synonym entry = "(string \<times> pyval) list"

text \<open>An entry of a section; other values have no \<open>get\<close>.\<close>

fun as_entry :: "pyval \<Rightarrow> entry res" where
  "as_entry (PDict kvs) = Inr kvs"
| "as_entry _ = Inl (AttributeError ''get'')"

definition entry_get :: "entry \<Rightarrow> string \<Rightarrow> pyval" where
  "entry_get e k = (case map_of e k of None \<Rightarrow> PNone | Some v \<Rightarrow> v)"

definition has_serial :: "entry \<Rightarrow> bool" where
  "has_serial e \<longleftrightarrow> truthy (entry_get e ''serial_number'')"

fun hashable :: "pyval \<Rightarrow> bool" where
  "hashable (PList _) = False"
| "hashable (PDict _) = False"
| "hashable _ = True"

text \<open>\<open>{entry.get("serial_number") for entry in entries if entry.get("serial_number")}\<close>.\<close>

definition already_assigned :: "entry list \<Rightarrow> pyval set res" where
  "already_assigned entries =
     (let serials = map (\<lambda>e. entry_get e ''serial_number'') (filter has_serial entries)
      in if list_all hashable serials then Inr (set serials) else Inl (TypeError ''unhashable type''))"

text \<open>The loop over \<open>zip(empty_slots, unassigned)\<close>: slots are filled in place and in order.\<close>

fun fill_slots :: "('d \<Rightarrow> entry \<Rightarrow> entry) \<Rightarrow> entry list \<Rightarrow> 'd list \<Rightarrow> entry list" where
  "fill_slots f [] ds = []"
| "fill_slots f (e # es) ds =
     (if has_serial e then e # fill_slots f es ds
      else case ds of [] \<Rightarrow> e # fill_slots f es [] | d # ds' \<Rightarrow> f d e # fill_slots f es ds')"

definition basler_slot :: "discovered_basler \<Rightarrow> entry \<Rightarrow> entry" where
  "basler_slot d e =
     AList.update ''model_name'' (PStr (db_model d))
      (AList.update ''ip_address'' (PStr (db_ip d)) (AList.update ''serial_number'' (PStr (db_serial d)) e))"

definition event_slot :: "discovered_event_camera \<Rightarrow> entry \<Rightarrow> entry" where
  "event_slot d e = AList.update ''serial_number'' (PStr (de_serial d)) e"

definition assign_section :: "('d \<Rightarrow> string) \<Rightarrow> ('d \<Rightarrow> entry \<Rightarrow> entry) \<Rightarrow> 'd list \<Rightarrow> pyval list \<Rightarrow> entry list res" where
  "assign_section serial f devices section_values =
     res_bind (res_map as_entry section_values) (\<lambda>entries.
     res_bind (already_assigned entries) (\<lambda>assigned.
       Inr (fill_slots f entries (filter (\<lambda>d. PStr (serial d) \<notin> assigned) devices))))"

text \<open>A section that is missing or falsy was a fresh list, which is not part of the document.\<close>

definition put_section :: "string \<Rightarrow> entry list \<Rightarrow> pyval \<Rightarrow> pyval" where
  "put_section sect entries camera_info =
     (case camera_info of
        PDict kvs \<Rightarrow>
          (case map_of kvs sect of
             None \<Rightarrow> camera_info
           | Some v \<Rightarrow> if truthy v then PDict (AList.update sect (PList (map PDict entries)) kvs) else camera_info)
      | _ \<Rightarrow> camera_info)"

text \<open>What \<open>auto_assign\<close> writes back to the configuration file.\<close>

definition auto_assign :: "pyval \<Rightarrow> discovered_basler list \<Rightarrow> discovered_event_camera list \<Rightarrow> pyval res" where
  "auto_assign camera_info baslers event_cameras =
     res_bind (section_entries camera_info ''cameras'') (\<lambda>cs.
     res_bind (assign_section db_serial basler_slot baslers cs) (\<lambda>cameras.
     res_bind (section_entries camera_info ''event_cameras'') (\<lambda>es.
     res_bind (assign_section de_serial event_slot event_cameras es) (\<lambda>events.
       Inr (put_section ''event_cameras'' events (put_section ''cameras'' cameras camera_info))))))"

definition write_discovered :: "discovered_basler list \<Rightarrow> discovered_event_camera list \<Rightarrow> pyval" where
  "write_discovered baslers event_cameras =
     PDict [(''cameras'', PList (map (\<lambda>d. PDict [(''serial_number'', PStr (db_serial d)), (''ip_address'', PStr (db_ip d)),
              (''model_name'', PStr (db_model d))]) baslers)),
            (''event_cameras'', PList (map (\<lambda>d. PDict [(''serial_number'', PStr (de_serial d))]) event_cameras))]"

text \<open>The warning of \<open>report_event_cameras\<close>.\<close>

definition identical_serials :: "discovered_event_camera list \<Rightarrow> bool" where
  "identical_serials ds \<longleftrightarrow> length (map de_serial ds) \<noteq> card (set (map de_serial ds))"

text \<open>
  \<open>check_imu_device\<close>: the import may fail, the context and the lookup may raise anything; what
  goes wrong is part of the answer.
\<close>

record imu_check_result =
  ic_device_id :: pyval
  ic_found :: bool
  ic_channels :: "string list"
  ic_error :: "string option"

definition check_imu_device ::
    "string option \<Rightarrow> (pyval \<Rightarrow> string list option res) \<Rightarrow> pyval \<Rightarrow> string list \<Rightarrow> imu_check_result" where
  "check_imu_device import_error find_device device_id channel_names =
     (case import_error of
        Some e \<Rightarrow> \<lparr>ic_device_id = device_id, ic_found = False, ic_channels = [],
                   ic_error = Some (''iio module not importable: '' @ e)\<rparr>
      | None \<Rightarrow>
        (case find_device device_id of
           Inl e \<Rightarrow> \<lparr>ic_device_id = device_id, ic_found = False, ic_channels = [], ic_error = Some (error_text e)\<rparr>
         | Inr None \<Rightarrow> \<lparr>ic_device_id = device_id, ic_found = False, ic_channels = [], ic_error = Some ''device not found''\<rparr>
         | Inr (Some available) \<Rightarrow>
           (let missing = filter (\<lambda>n. n \<notin> set available) channel_names
            in \<lparr>ic_device_id = device_id, ic_found = True, ic_channels = available,
                ic_error = (if missing \<noteq> [] then Some (''missing expected channels: '' @ list_repr missing) else None)\<rparr>)))"

text \<open>The lines of \<open>report_imus\<close> for one entry: role, device and status.\<close>

definition imu_status :: "imu_check_result \<Rightarrow> string" where
  "imu_status r =
     (if ic_found r \<and> ic_error r = None then ''OK''
      else ''PROBLEM: '' @ (case ic_error r of None \<Rightarrow> ''None'' | Some e \<Rightarrow> e))"

definition report_imu :: "(pyval \<Rightarrow> string list \<Rightarrow> imu_check_result) \<Rightarrow> pyval \<Rightarrow> (string \<times> pyval \<times> string) list res" where
  "report_imu check imu =
     res_bind (res_map (\<lambda>(role, key, channels).
       res_bind (py_get imu key PNone) (\<lambda>device_id.
         if \<not> truthy device_id then Inr []
         else Inr [(role, device_id, imu_status (check device_id channels))]))
       [(''accel'', ''accel_device'', [''accel_x'', ''accel_y'', ''accel_z'']),
        (''gyro'', ''gyro_device'', [''anglvel_x'', ''anglvel_y'', ''anglvel_z''])])
     (\<lambda>lines. Inr (concat lines))"

section \<open>Filling slots\<close>

definition entry_serials :: "entry list \<Rightarrow> pyval list" where
  "entry_serials es = map (\<lambda>e. entry_get e ''serial_number'') (filter has_serial es)"

lemma entry_get_update: "entry_get (AList.update k v e) k' = (if k' = k then v else entry_get e k')"
  by (simp add: entry_get_def update_conv)

text \<open>A slot afterwards: kept, or filled with one of the devices if it was empty.\<close>

definition slot_after :: "('d \<Rightarrow> entry \<Rightarrow> entry) \<Rightarrow> 'd set \<Rightarrow> entry \<Rightarrow> entry \<Rightarrow> bool" where
  "slot_after f D e e' \<longleftrightarrow> e' = e \<or> \<not> has_serial e \<and> (\<exists>d \<in> D. e' = f d e)"

lemma fill_slots_slots: "set ds \<subseteq> D \<Longrightarrow> list_all2 (slot_after f D) es (fill_slots f es ds)"
  by (induction es arbitrary: ds) (auto simp: slot_after_def split: list.split)

lemma fill_slots_length [simp]: "length (fill_slots f es ds) = length es"
  by (induction es arbitrary: ds) (auto split: list.split)

text \<open>
  What \<open>auto_assign\<close> needs of the two kinds of devices: describing a device in an entry records
  its serial and keeps the name of the entry.
\<close>

locale slot_device =
  fixes serial :: "'d \<Rightarrow> string" and describe :: "'d \<Rightarrow> entry \<Rightarrow> entry"
  assumes describe_serial: "entry_get (describe d e) ''serial_number'' = PStr (serial d)"
    and describe_name: "entry_get (describe d e) ''name'' = entry_get e ''name''"
begin

lemma fill_slots_distinct:
  assumes "distinct (entry_serials es)" and "distinct (map serial ds)"
    and "\<forall>d \<in> set ds. serial d \<noteq> [] \<and> PStr (serial d) \<notin> set (entry_serials es)"
  shows "distinct (entry_serials (fill_slots describe es ds)) \<and>
    set (entry_serials (fill_slots describe es ds)) \<subseteq> set (entry_serials es) \<union> (\<lambda>d. PStr (serial d)) ` set ds"
  using assms
proof (induction es arbitrary: ds)
  case (Cons e es)
  show ?case
  proof (cases "has_serial e")
    case True
    have "distinct (entry_serials (fill_slots describe es ds)) \<and>
        set (entry_serials (fill_slots describe es ds)) \<subseteq> set (entry_serials es) \<union> (\<lambda>d. PStr (serial d)) ` set ds"
      using Cons.prems True by (intro Cons.IH) (auto simp: entry_serials_def)
    moreover have "entry_get e ''serial_number'' \<notin> set (entry_serials es) \<union> (\<lambda>d. PStr (serial d)) ` set ds"
      using Cons.prems True by (force simp: entry_serials_def)
    ultimately show ?thesis using True by (auto simp: entry_serials_def)
  next
    case False
    show ?thesis
    proof (cases ds)
      case Nil
      then show ?thesis using Cons.IH [of "[]"] Cons.prems False by (auto simp: entry_serials_def)
    next
      case (Cons d ds')
      note ds = Cons
      have same: "entry_serials (e # es) = entry_serials es" using False by (simp add: entry_serials_def)
      have "distinct (entry_serials (fill_slots describe es ds')) \<and>
          set (entry_serials (fill_slots describe es ds')) \<subseteq> set (entry_serials es) \<union> (\<lambda>d. PStr (serial d)) ` set ds'"
        using \<open>distinct (entry_serials (e # es))\<close> Cons.prems(2,3) ds unfolding same by (intro Cons.IH) auto
      moreover have "PStr (serial d) \<notin> set (entry_serials es) \<union> (\<lambda>d. PStr (serial d)) ` set ds'"
        using Cons.prems(2,3) ds unfolding same by auto
      moreover have "has_serial (describe d e)" "entry_get (describe d e) ''serial_number'' = PStr (serial d)"
        using Cons.prems(3) ds by (simp_all add: describe_serial has_serial_def)
      ultimately show ?thesis using False ds by (auto simp: entry_serials_def)
    qed
  qed
qed (simp add: entry_serials_def)

lemma fill_slots_count:
  assumes "\<forall>d \<in> set ds. serial d \<noteq> []"
  shows "length (filter has_serial (fill_slots describe es ds)) = min (length es) (length (filter has_serial es) + length ds)"
  using assms
proof (induction es arbitrary: ds)
  case (Cons e es)
  have "has_serial (describe d e)" if "d \<in> set ds" for d
    using Cons.prems that by (simp add: describe_serial has_serial_def)
  moreover obtain k n where k: "length (filter has_serial es) = k" "length es = n" "k \<le> n"
    using length_filter_le [of has_serial es] by blast
  ultimately show ?case using Cons.IH [of "[]"] Cons.IH [of "tl ds"] Cons.IH [of ds] Cons.prems k(3)
    by (cases ds) (auto simp: k(1,2) min_def)
qed simp

lemma slots_keep_names:
  "list_all2 (slot_after describe D) es es' \<Longrightarrow> map (\<lambda>e. entry_get e ''name'') es' = map (\<lambda>e. entry_get e ''name'') es"
  by (induction rule: list_all2_induct) (auto simp: slot_after_def describe_name)

lemma assign_section_facts:
  assumes run: "assign_section serial describe devices vs = Inr es'"
    and devices: "distinct (map serial devices)" "[] \<notin> serial ` set devices"
    and es: "res_map as_entry vs = Inr es" and distinct: "distinct (entry_serials es)"
  shows "length es' = length vs" and "distinct (entry_serials es')"
    and "list_all2 (slot_after describe {d \<in> set devices. PStr (serial d) \<notin> set (entry_serials es)}) es es'"
    and "length (entry_serials es') =
      min (length es) (length (entry_serials es) + length (filter (\<lambda>d. PStr (serial d) \<notin> set (entry_serials es)) devices))"
proof -
  let ?ds = "filter (\<lambda>d. PStr (serial d) \<notin> set (entry_serials es)) devices"
  have es': "es' = fill_slots describe es ?ds"
    using run es by (auto simp: assign_section_def already_assigned_def Let_def entry_serials_def split: if_splits)
  have ds: "distinct (map serial ?ds)" "\<forall>d \<in> set ?ds. serial d \<noteq> [] \<and> PStr (serial d) \<notin> set (entry_serials es)"
    using devices by (auto simp: distinct_map_filter image_iff)
  show "length es' = length vs"
    using es by (simp add: es' res_map_Inr_iff list_all2_lengthD)
  show "distinct (entry_serials es')"
    unfolding es' using fill_slots_distinct [OF distinct ds] by blast
  show "list_all2 (slot_after describe {d \<in> set devices. PStr (serial d) \<notin> set (entry_serials es)}) es es'"
    unfolding es' by (rule fill_slots_slots) auto
  show "length (entry_serials es') = min (length es) (length (entry_serials es) + length ?ds)"
    using fill_slots_count [of ?ds es] ds(2) by (simp add: es' entry_serials_def)
qed

end

interpretation basler: slot_device db_serial basler_slot
  by unfold_locales (simp_all add: basler_slot_def entry_get_update)

interpretation event: slot_device de_serial event_slot
  by unfold_locales (simp_all add: event_slot_def entry_get_update)

text \<open>The sections of the document after \<open>auto_assign\<close>.\<close>

lemma section_entries_put:
  assumes "section_entries info sect = Inr vs" and "vs \<noteq> []" and "length es = length vs"
  shows "section_entries (put_section sect es info) sect = Inr (map PDict es)"
proof -
  obtain kvs where info: "info = PDict kvs" using assms(1) by (cases info) (auto simp: section_entries_def)
  obtain v where v: "map_of kvs sect = Some v" "truthy v"
    using assms(1,2) by (auto simp: info section_entries_def py_or_def split: option.splits if_splits)
  have "es \<noteq> []" using assms(2,3) by auto
  then show ?thesis by (simp add: info v put_section_def section_entries_def update_conv py_or_def)
qed

lemma section_entries_put_other:
  "sect \<noteq> other \<Longrightarrow> section_entries (put_section sect es info) other = section_entries info other"
  by (cases info) (auto simp: put_section_def section_entries_def update_conv split: option.split)

lemma as_entry_PDict: "res_map as_entry (map PDict es) = Inr es"
  by (induction es) simp_all



end
