(* ===== verification/Py_Numbers.thy ===== *)
theory Py_Numbers imports Csv_Log begin

text \<open>
  Decimal numbers and separated fields in text files: Python's \<open>float(s)\<close> on decimal literals and
  \<open>str.split(sep)\<close>, with the round trips from the printed form. The words for NaN and the
  infinities are outside the model, as those values are.
\<close>

section \<open>Floats\<close>

text \<open>
  The mantissa: digits with single underscores before and after the point, not both missing. Its
  value, and the exponent after the \<open>e\<close>.
\<close>

definition digits_or_none :: "string \<Rightarrow> bool" where
  "digits_or_none s \<longleftrightarrow> s = [] \<or> int_body s"

definition decimal_value :: "string \<Rightarrow> string \<Rightarrow> real" where
  "decimal_value whole part =
     (let a = filter is_digit whole; b = filter is_digit part
      in of_nat (parse_digits (a @ b)) / 10 ^ length b)"

definition scale_ten :: "int \<Rightarrow> real \<Rightarrow> real" where
  "scale_ten e x = (if 0 \<le> e then x * 10 ^ nat e else x / 10 ^ nat (- e))"

definition is_exp :: "char \<Rightarrow> bool" where
  "is_exp c \<longleftrightarrow> c = CHR ''e'' \<or> c = CHR ''E''"

definition signed_body :: "string \<Rightarrow> bool \<times> string" where
  "signed_body t =
     (if prefix ''-'' t then (True, tl t) else if prefix ''+'' t then (False, tl t) else (False, t))"

definition parse_exponent :: "string \<Rightarrow> int option" where
  "parse_exponent s =
     (if s = [] then Some 0
      else case signed_body (tl s) of (neg, body) \<Rightarrow>
        if int_body body
        then let n = int (parse_digits (filter is_digit body)) in Some (if neg then - n else n)
        else None)"

definition parse_mantissa :: "string \<Rightarrow> real option" where
  "parse_mantissa s =
     (let whole = takeWhile (\<lambda>c. c \<noteq> CHR ''.'') s;
          part = tl (dropWhile (\<lambda>c. c \<noteq> CHR ''.'') s)
      in if digits_or_none whole \<and> digits_or_none part \<and> (whole \<noteq> [] \<or> part \<noteq> [])
         then Some (decimal_value whole part) else None)"

definition parse_float :: "string \<Rightarrow> real res" where
  "parse_float s =
     (case signed_body (py_strip s) of (neg, body) \<Rightarrow>
        case (parse_mantissa (takeWhile (\<lambda>c. \<not> is_exp c) body), parse_exponent (dropWhile (\<lambda>c. \<not> is_exp c) body)) of
          (Some m, Some e) \<Rightarrow> Inr (scale_ten e (if neg then - m else m))
        | _ \<Rightarrow> Inl (ValueError ''could not convert string to float''))"

lemma parse_float_examples:
  "parse_float '' -12.50'' = Inr (- 25 / 2)" "parse_float ''1e3'' = Inr 1000" "parse_float ''.5e-1'' = Inr (1 / 20)"
  "parse_float ''1_0.'' = Inr 10" "parse_float ''1__0'' = Inl (ValueError ''could not convert string to float'')"
  "parse_float ''.'' = Inl (ValueError ''could not convert string to float'')"
  by code_simp+

section \<open>Splitting\<close>

text \<open>\<open>s.split(sep)\<close> for a non-empty separator.\<close>

function split_on :: "string \<Rightarrow> string \<Rightarrow> string \<Rightarrow> string list" where
  "split_on sep acc s =
     (if s = [] \<or> sep = [] then [rev acc @ s]
      else if prefix sep s then rev acc # split_on sep [] (drop (length sep) s)
      else split_on sep (hd s # acc) (tl s))"
  by pat_completeness auto
termination
  by (relation "measure (\<lambda>(sep, acc, s). length s)") (auto simp: neq_Nil_conv)

declare split_on.simps [simp del]

definition py_split :: "string \<Rightarrow> string \<Rightarrow> string list" where
  "py_split sep s = split_on sep [] s"

lemma py_split_examples:
  "py_split '', '' ''a, b,c, '' = [''a'', ''b,c'', '''']" "py_split '', '' '''' = ['''']"
  by code_simp+

fun join_with :: "string \<Rightarrow> string list \<Rightarrow> string" where
  "join_with sep [] = []"
| "join_with sep [x] = x"
| "join_with sep (x # xs) = x @ sep @ join_with sep xs"

lemma split_on_field:
  "c \<notin> set x \<Longrightarrow> split_on (c # sep) acc (x @ s) = split_on (c # sep) (rev x @ acc) s"
proof (induction x arbitrary: acc)
  case (Cons d x)
  then show ?case by (simp add: split_on.simps [of _ _ "d # x @ s"])
qed simp

text \<open>Fields without the separator's first character come back.\<close>

lemma py_split_join:
  assumes "xs \<noteq> []" and "\<And>x. x \<in> set xs \<Longrightarrow> c \<notin> set x"
  shows "py_split (c # sep) (join_with (c # sep) xs) = xs"
  unfolding py_split_def using assms
proof (induction xs rule: induct_list012)
  case (2 x)
  then show ?case using split_on_field [of c x sep "[]" "[]"] by (simp add: split_on.simps [of _ _ "[]"])
next
  case (3 x y zs)
  have "split_on (c # sep) [] (x @ (c # sep) @ join_with (c # sep) (y # zs)) =
      split_on (c # sep) (rev x) ((c # sep) @ join_with (c # sep) (y # zs))"
    using split_on_field [of c x sep "[]"] 3(4) by simp
  also have "\<dots> = x # split_on (c # sep) [] (join_with (c # sep) (y # zs))"
    by (simp add: split_on.simps [of _ _ "c # sep @ _"])
  finally show ?case using 3 by simp
qed simp

section \<open>Decimal texts\<close>

text \<open>A sign, a number and how many of its digits follow the point.\<close>

type_synonym decimal = "bool \<times> nat \<times> nat"

definition decimal_real :: "decimal \<Rightarrow> real" where
  "decimal_real d = (case d of (neg, m, k) \<Rightarrow> (if neg then - 1 else 1) * (of_nat m / 10 ^ k))"

definition decimal_body :: "nat \<Rightarrow> nat \<Rightarrow> string" where
  "decimal_body m k =
     nat_str (m div 10 ^ k) @ (if k = 0 then [] else CHR ''.'' # zpad k (nat_str (m mod 10 ^ k)))"

definition decimal_text :: "decimal \<Rightarrow> string" where
  "decimal_text d = (case d of (neg, m, k) \<Rightarrow> (if neg then ''-'' else []) @ decimal_body m k)"

lemma decimal_text_examples: "decimal_text (True, 1205, 2) = ''-12.05''" "decimal_text (False, 7, 3) = ''0.007''"
  by code_simp+

lemma parse_digits_append: "parse_digits (s @ t) = parse_digits s * 10 ^ length t + parse_digits t"
proof (induction t rule: rev_induct)
  case (snoc d t)
  then show ?case
    using parse_digits_snoc [of "s @ t" d] by (simp add: algebra_simps)
qed simp

lemma length_fraction: "0 < k \<Longrightarrow> length (zpad k (nat_str (m mod 10 ^ k))) = k"
  using length_nat_str_le [of "m mod 10 ^ k" k] by (simp add: length_zpad)

lemma decimal_value_body:
  "decimal_value (nat_str (m div 10 ^ k)) (if k = 0 then [] else zpad k (nat_str (m mod 10 ^ k))) = of_nat m / 10 ^ k"
proof (cases "k = 0")
  case True
  then show ?thesis by (simp add: decimal_value_def filter_digits nat_str_digits)
next
  case False
  have "parse_digits (nat_str (m div 10 ^ k) @ zpad k (nat_str (m mod 10 ^ k))) = m"
    using False length_fraction [of k m] div_mult_mod_eq [of m "10 ^ k"] by (simp add: parse_digits_append)
  then show ?thesis
    using False length_fraction [of k m]
    by (simp add: decimal_value_def filter_digits nat_str_digits zpad_digits)
qed

text \<open>Nothing but digits and the point, and a digit at each end.\<close>

definition number_char :: "char \<Rightarrow> bool" where
  "number_char c \<longleftrightarrow> is_digit c \<or> c = CHR ''.''"

lemma digits_numeric: "list_all is_digit s \<Longrightarrow> list_all number_char s"
  by (simp add: list_all_iff number_char_def)

lemma decimal_body_chars: "list_all number_char (decimal_body m k)"
  by (simp add: decimal_body_def digits_numeric nat_str_digits zpad_digits) (simp add: number_char_def)

lemma decimal_body_ends:
  "decimal_body m k \<noteq> []" "is_digit (hd (decimal_body m k))" "is_digit (last (decimal_body m k))"
proof -
  have "is_digit (hd s)" "is_digit (last s)" if "s \<noteq> []" "list_all is_digit s" for s
    using that by (simp_all add: list_all_iff)
  note ends = this [OF nat_str_nonempty nat_str_digits]
  have last: "is_digit (last (zpad k (nat_str n)))" for n
    using ends(2) [of n] by (simp add: zpad_def)
  have "zpad k (nat_str n) \<noteq> []" for n by (simp add: zpad_def)
  then show "decimal_body m k \<noteq> []" "is_digit (hd (decimal_body m k))" "is_digit (last (decimal_body m k))"
    using ends last by (simp_all add: decimal_body_def)
qed

lemma number_char_not:
  "number_char c \<Longrightarrow> \<not> py_space c" "number_char c \<Longrightarrow> \<not> is_exp c" "number_char c \<Longrightarrow> c \<noteq> CHR '',''"
  "number_char c \<Longrightarrow> c \<noteq> CHR ''-''" "number_char c \<Longrightarrow> c \<noteq> CHR ''+''"
  by (auto simp: number_char_def is_digit_def py_space_def is_exp_def Let_def)

lemma strip_by_id:
  assumes "s \<noteq> []" and "\<not> P (hd s)" and "\<not> P (last s)"
  shows "strip_by P s = s"
  using assms by (cases s) (simp_all add: strip_by_def rstrip_by_id)

lemma decimal_text_ends:
  "decimal_text d \<noteq> []" "\<not> py_space (hd (decimal_text d))" "\<not> py_space (last (decimal_text d))"
proof -
  obtain neg m k where d: "d = (neg, m, k)" by (cases d)
  have num: "number_char (hd (decimal_body m k))" "number_char (last (decimal_body m k))"
    using decimal_body_ends [of m k] by (simp_all add: number_char_def)
  show "decimal_text d \<noteq> []" "\<not> py_space (hd (decimal_text d))" "\<not> py_space (last (decimal_text d))"
    using decimal_body_ends(1) [of m k] number_char_not(1) [OF num(1)] number_char_not(1) [OF num(2)]
    by (simp_all add: d decimal_text_def py_space_def)
qed

lemma decimal_text_no_comma: "CHR '','' \<notin> set (decimal_text d)"
  using decimal_body_chars number_char_not(3)
  by (cases d) (auto simp: decimal_text_def list_all_iff)

lemma signed_decimal: "signed_body (decimal_text (neg, m, k)) = (neg, decimal_body m k)"
proof -
  have "number_char (hd (decimal_body m k))"
    using decimal_body_ends(2) by (simp add: number_char_def)
  then show ?thesis
    using number_char_not(4,5) [of "hd (decimal_body m k)"] decimal_body_ends(1) [of m k]
    by (cases "decimal_body m k") (auto simp: signed_body_def decimal_text_def)
qed

lemma parse_mantissa_body: "parse_mantissa (decimal_body m k) = Some (of_nat m / 10 ^ k)"
proof -
  let ?p = "if k = 0 then [] else zpad k (nat_str (m mod 10 ^ k))"
  have digits: "list_all is_digit ?p" "list_all is_digit (nat_str (m div 10 ^ k))"
    by (simp_all add: zpad_digits nat_str_digits)
  have points: "c \<noteq> CHR ''.''" if "c \<in> set (nat_str n)" for c n
    using that nat_str_digits [of n] digit_not_special(1) by (auto simp: list_all_iff)
  have "takeWhile (\<lambda>c. c \<noteq> CHR ''.'') (decimal_body m k) = nat_str (m div 10 ^ k)"
    "tl (dropWhile (\<lambda>c. c \<noteq> CHR ''.'') (decimal_body m k)) = ?p"
    using points by (auto simp: decimal_body_def takeWhile_append2 dropWhile_append2 takeWhile_eq_all_conv dropWhile_eq_Nil_conv)
  moreover have "digits_or_none s" if "list_all is_digit s" for s
    using int_body_digits that by (auto simp: digits_or_none_def)
  note this [OF digits(1)] this [OF digits(2)]
  ultimately show ?thesis using decimal_value_body [of m k] by (simp add: parse_mantissa_def)
qed

text \<open>\<open>float\<close> reads what was printed.\<close>

lemma parse_float_text [simp]: "parse_float (decimal_text d) = Inr (decimal_real d)"
proof -
  obtain neg m k where d: "d = (neg, m, k)" by (cases d)
  have no_exp: "\<forall>c \<in> set (decimal_body m k). \<not> is_exp c"
    using decimal_body_chars [of m k] number_char_not(2) by (auto simp: list_all_iff)
  then have body: "takeWhile (\<lambda>c. \<not> is_exp c) (decimal_body m k) = decimal_body m k"
    "dropWhile (\<lambda>c. \<not> is_exp c) (decimal_body m k) = []"
    by (simp_all add: takeWhile_eq_all_conv dropWhile_eq_Nil_conv)
  have strip: "py_strip (decimal_text d) = decimal_text d"
    unfolding py_strip_def by (rule strip_by_id) (fact decimal_text_ends)+
  show ?thesis
    by (simp add: parse_float_def strip [unfolded d] no_exp body d signed_decimal parse_mantissa_body parse_exponent_def scale_ten_def decimal_real_def)
qed

end
