(* ===== verification/Calibration_Data.thy ===== *)
theory Calibration_Data imports Calibration_Rig Camera_Sync Py_Numbers "HOL-Library.AList" "HOL-Library.List_Lexorder" begin

text \<open>
  The inputs of the calibration: the ground truth of \<open>calibration/gt.py\<close>, the tag table of
  \<open>calibration/tags3d.py\<close>, the images of \<open>calibration/data.py\<close>, and \<open>main.py\<close>, which puts them
  together. A text file is the list of the lines \<open>readlines\<close> returns; \<open>Rotation.from_quat\<close>, the
  directory listing, the reading of images, the tag detector and the pickle file are parameters.
  Python dictionaries are association lists, as their order is used.
\<close>

section \<open>Fields of a line\<close>

text \<open>\<open>parts[i]\<close>, and \<open>a, b, ... = map(float, parts[i:j])\<close>.\<close>

definition field :: "string list \<Rightarrow> nat \<Rightarrow> string res" where
  "field parts i = (if i < length parts then Inr (parts ! i) else Inl IndexError)"

definition float_fields :: "string list \<Rightarrow> nat \<Rightarrow> nat \<Rightarrow> real list res" where
  "float_fields parts i j =
     res_bind (res_map parse_float (slice parts i j)) (\<lambda>xs.
       if length xs = j - i then Inr xs else Inl (ValueError ''not enough values to unpack''))"

definition line_parts :: "string \<Rightarrow> string list" where
  "line_parts line = py_split '', '' (py_strip line)"

section \<open>The ground truth of the cameras\<close>

record gt_camera =
  gc_K :: matrix
  gc_d :: "real list"
  gc_poses :: "(int \<times> matrix) list"
  gc_pose_rig_cam :: "matrix option"

text \<open>The entry of a name seen for the first time.\<close>

definition new_gt_camera :: "string list \<Rightarrow> gt_camera res" where
  "new_gt_camera parts =
     res_bind (float_fields parts 10 14) (\<lambda>f.
       Inr \<lparr>gc_K = camera_matrix (f ! 0) (f ! 1) (f ! 2) (f ! 3), gc_d = [0, 0, 0, 0], gc_poses = [], gc_pose_rig_cam = None\<rparr>)"

definition transpose_matrix :: "matrix \<Rightarrow> matrix" where
  "transpose_matrix A = (\<lambda>i j. A j i)"

definition read_gt_line ::
    "(real list \<Rightarrow> matrix res) \<Rightarrow> string \<Rightarrow> (string \<times> gt_camera) list \<Rightarrow> (string \<times> gt_camera) list res" where
  "read_gt_line from_quat line camera_dict =
     (let parts = line_parts line
      in res_bind (field parts 0) (\<lambda>camera_name.
         res_bind (res_bind (field parts 1) parse_int) (\<lambda>frame.
         res_bind (float_fields parts 3 6) (\<lambda>t.
         res_bind (float_fields parts 6 10) (\<lambda>q.
         res_bind (from_quat q) (\<lambda>R.
         res_bind (case map_of camera_dict camera_name of None \<Rightarrow> new_gt_camera parts | Some c \<Rightarrow> Inr c) (\<lambda>c.
           let T = rigid_pose (transpose_matrix R) t
           in Inr (AList.update camera_name (c\<lparr>gc_poses := AList.update frame T (gc_poses c)\<rparr>) camera_dict))))))))"

fun read_lines :: "(string \<Rightarrow> 'd \<Rightarrow> 'd res) \<Rightarrow> string list \<Rightarrow> 'd \<Rightarrow> 'd res" where
  "read_lines f [] d = Inr d"
| "read_lines f (line # lines) d = res_bind (f line d) (read_lines f lines)"

text \<open>\<open>camera_dict[name]["poses_inertial_rig"][frame]\<close>.\<close>

definition gt_pose :: "(string \<times> gt_camera) list \<Rightarrow> string \<Rightarrow> int \<Rightarrow> matrix res" where
  "gt_pose camera_dict name frame =
     (case map_of camera_dict name of
        None \<Rightarrow> Inl (KeyError name)
      | Some c \<Rightarrow> (case map_of (gc_poses c) frame of None \<Rightarrow> Inl (KeyError (int_str frame)) | Some T \<Rightarrow> Inr T))"

definition relative_poses :: "(matrix \<Rightarrow> matrix) \<Rightarrow> (string \<times> gt_camera) list \<Rightarrow> (string \<times> gt_camera) list res" where
  "relative_poses minv camera_dict =
     res_map (\<lambda>(cam_name, c).
       res_bind (gt_pose camera_dict ''cam0'' 1) (\<lambda>pose_inertial_rig.
       res_bind (gt_pose camera_dict cam_name 1) (\<lambda>pose_inertial_cam.
         Inr (cam_name, c\<lparr>gc_pose_rig_cam := Some (matmul (minv pose_inertial_rig) pose_inertial_cam)\<rparr>)))) camera_dict"

definition read_camera_gt_data ::
    "(real list \<Rightarrow> matrix res) \<Rightarrow> (matrix \<Rightarrow> matrix) \<Rightarrow> string list \<Rightarrow> (string \<times> gt_camera) list res" where
  "read_camera_gt_data from_quat minv lines =
     res_bind (read_lines (read_gt_line from_quat) (drop 1 lines) []) (relative_poses minv)"

section \<open>The tags\<close>

record tag =
  tg_id :: int
  tg_size :: real
  tg_center_pos :: "real list"
  tg_center_q :: "real list"
  tg_T_tw :: matrix
  tg_corners :: matrix

definition new_tag :: "(real list \<Rightarrow> matrix res) \<Rightarrow> int \<Rightarrow> real \<Rightarrow> real list \<Rightarrow> real list \<Rightarrow> tag res" where
  "new_tag from_quat tag_id side center_pos center_q =
     res_bind (from_quat center_q) (\<lambda>R.
       let T_tw = rigid_pose R center_pos
       in Inr \<lparr>tg_id = tag_id, tg_size = side, tg_center_pos = center_pos, tg_center_q = center_q,
            tg_T_tw = T_tw, tg_corners = tag_corners side T_tw\<rparr>)"

definition read_tag_line :: "(real list \<Rightarrow> matrix res) \<Rightarrow> string \<Rightarrow> (int \<times> tag) list \<Rightarrow> (int \<times> tag) list res" where
  "read_tag_line from_quat line tags_dict =
     (let parts = line_parts line
      in res_bind (res_bind (field parts 0) parse_int) (\<lambda>tag_id.
         res_bind (float_fields parts 1 4) (\<lambda>pos.
         res_bind (float_fields parts 4 8) (\<lambda>q.
         res_bind (res_bind (field parts 8) parse_float) (\<lambda>side.
         res_bind (new_tag from_quat tag_id side pos q) (\<lambda>tag.
           Inr (AList.update tag_id tag tags_dict)))))))"

definition read_tag_data :: "(real list \<Rightarrow> matrix res) \<Rightarrow> string list \<Rightarrow> (int \<times> tag) list res" where
  "read_tag_data from_quat lines = read_lines (read_tag_line from_quat) (drop 1 lines) []"

section \<open>The images\<close>

text \<open>
  The generator \<open>Dataloader.__iter__\<close> as the list of what its turns give; a loop over it ends at the
  first exception. \<open>listing\<close> is the directory of a camera.
\<close>

definition image_files :: "(string \<times> 'i) list \<Rightarrow> (string \<times> 'i) list" where
  "image_files entries = sort_key (\<lambda>e. map of_char (fst e) :: nat list) (filter (\<lambda>e. suffix ''.jpg'' (fst e)) entries)"

definition camera_images :: "(string \<Rightarrow> (string \<times> 'i) list) \<Rightarrow> pyval \<Rightarrow> (string \<times> int \<times> 'i) res list" where
  "camera_images listing camera_config =
     (case py_item camera_config ''name'' of
        Inl e \<Rightarrow> [Inl e]
      | Inr (PStr name) \<Rightarrow>
        map (\<lambda>(path, content). res_bind (parse_int (path_stem path)) (\<lambda>timestamp. Inr (name, timestamp, content)))
          (image_files (listing name))
      | Inr _ \<Rightarrow> [Inl (TypeError ''unsupported operand type(s) for /'')])"

definition data_loader :: "(string \<Rightarrow> (string \<times> 'i) list) \<Rightarrow> pyval \<Rightarrow> (string \<times> int \<times> 'i) res list res" where
  "data_loader listing config =
     res_bind (py_item config ''data_root'') (\<lambda>root.
     res_bind (case root of PStr s \<Rightarrow> Inr s | _ \<Rightarrow> Inl (TypeError ''expected str, bytes or os.PathLike object'')) (\<lambda>_.
     res_bind (py_item config ''cameras'') (\<lambda>cameras.
       case py_iter cameras of
         Inl e \<Rightarrow> Inr [Inl e]
       | Inr cs \<Rightarrow> Inr (concat (map (camera_images listing) cs)))))"

section \<open>The script\<close>

text \<open>The body of the loop over the images: the camera is made when its name comes up first.\<close>

definition find_or_make_camera :: "(string \<times> gt_camera) list \<Rightarrow> string \<Rightarrow> (string \<times> calib_camera) list \<Rightarrow> calib_camera res" where
  "find_or_make_camera camera_gt_dict cam_name cam_dict =
     (case map_of cam_dict cam_name of
        Some cam \<Rightarrow> Inr cam
      | None \<Rightarrow>
        (case map_of camera_gt_dict cam_name of
           None \<Rightarrow> Inl (KeyError cam_name)
         | Some g \<Rightarrow>
           (case gc_pose_rig_cam g of
              None \<Rightarrow> Inl (KeyError ''pose_rig_cam'')
            | Some T \<Rightarrow> Inr \<lparr>cc_K = gc_K g, cc_d = gc_d g, cc_pose_rig_cam = T, cc_views = []\<rparr>)))"

definition add_image ::
    "(string \<times> gt_camera) list \<Rightarrow> (int \<times> tag) list \<Rightarrow> ('i \<Rightarrow> (int \<times> (real \<times> real) list) list res) \<Rightarrow>
     string \<times> int \<times> 'i \<Rightarrow> (string \<times> calib_camera) list \<Rightarrow> (string \<times> calib_camera) list res" where
  "add_image camera_gt_dict tags_dict detect item cam_dict =
     (case item of (cam_name, index, img) \<Rightarrow>
        res_bind (find_or_make_camera camera_gt_dict cam_name cam_dict) (\<lambda>cam.
        res_bind (gt_pose camera_gt_dict ''cam0'' index) (\<lambda>pose_inertial_rig.
        res_bind (detect img) (\<lambda>detected.
          Inr (AList.update cam_name
            (add_view index pose_inertial_rig (map_option tg_corners \<circ> map_of tags_dict) detected cam) cam_dict)))))"

fun add_images ::
    "(string \<times> gt_camera) list \<Rightarrow> (int \<times> tag) list \<Rightarrow> ('i \<Rightarrow> (int \<times> (real \<times> real) list) list res) \<Rightarrow>
     (string \<times> int \<times> 'i) res list \<Rightarrow> (string \<times> calib_camera) list \<Rightarrow> (string \<times> calib_camera) list res" where
  "add_images gt tags detect [] cam_dict = Inr cam_dict"
| "add_images gt tags detect (item # items) cam_dict =
     res_bind item (\<lambda>x. res_bind (add_image gt tags detect x cam_dict) (add_images gt tags detect items))"

text \<open>What the script finds outside: two text files, which may be missing, and the images.\<close>

record 'i calib_world =
  cw_gt_lines :: "string list res"
  cw_tag_lines :: "string list res"
  cw_listing :: "string \<Rightarrow> (string \<times> 'i) list"
  cw_detect :: "'i \<Rightarrow> (int \<times> (real \<times> real) list) list res"

text \<open>
  \<open>main\<close> up to the optimisation. The state is the pickle file, which is read when it exists and
  written when not.
\<close>

definition load_cameras ::
    "(real list \<Rightarrow> matrix res) \<Rightarrow> (matrix \<Rightarrow> matrix) \<Rightarrow> pyval \<Rightarrow> 'i calib_world \<Rightarrow>
     ((string \<times> calib_camera) list option, (string \<times> calib_camera) list) meth" where
  "load_cameras from_quat minv config w pickle =
     (case res_bind (data_loader (cw_listing w) config) (\<lambda>loader.
           res_bind (res_bind (cw_gt_lines w) (read_camera_gt_data from_quat minv)) (\<lambda>gt.
           res_bind (res_bind (cw_tag_lines w) (read_tag_data from_quat)) (\<lambda>tags.
             case pickle of
               Some cam_dict \<Rightarrow> Inr cam_dict
             | None \<Rightarrow> add_images gt tags (cw_detect w) loader []))) of
        Inl e \<Rightarrow> (Inl e, pickle)
      | Inr cam_dict \<Rightarrow> (Inr cam_dict, Some cam_dict))"

definition calibrate ::
    "(real list \<Rightarrow> matrix res) \<Rightarrow> rotations \<Rightarrow> (matrix \<Rightarrow> matrix) \<Rightarrow>
     ((real list \<Rightarrow> real list res) \<Rightarrow> real list \<Rightarrow> real list option res) \<Rightarrow> pyval \<Rightarrow> 'i calib_world \<Rightarrow>
     ((string \<times> calib_camera) list option, rig \<times> pyval option) meth" where
  "calibrate from_quat rot minv solver config w =
     m_bind (load_cameras from_quat minv config w) (\<lambda>cam_dict pickle.
       (res_bind (py_item config ''ref_camera'') (\<lambda>ref.
          res_bind (case ref of PStr s \<Rightarrow> Inr s | _ \<Rightarrow> Inl (KeyError ''ref_camera'')) (\<lambda>ref_camera.
            case optimize_rig rot minv solver (new_rig ref_camera cam_dict) of
              (Inl e, _) \<Rightarrow> Inl e
            | (Inr yaml, g) \<Rightarrow> Inr (g, yaml))), pickle))"

end
