(* ===== verification/Calibration_Inputs.thy ===== *)
theory Calibration_Inputs imports Calibration_Data begin

text \<open>
  What the readers of the calibration give back: the tables they read are the tables that were
  written, the tags are squares of their size, and the cameras hold one view per image.
\<close>

section \<open>Printed lines\<close>

definition newline :: char where
  "newline = CHR 0x0A"

lemma strip_line:
  assumes "s \<noteq> []" and "\<not> py_space (hd s)" and "\<not> py_space (last s)"
  shows "py_strip (s @ [newline]) = s"
proof -
  have "py_space newline" by (simp add: py_space_def newline_def)
  moreover obtain c s' where "s = c # s'" using assms(1) by (cases s) auto
  ultimately show ?thesis
    using assms rstrip_by_id [of s py_space] by (simp add: py_strip_def strip_by_def rstrip_by_def)
qed

lemma join_with_nonempty: "xs \<noteq> [] \<Longrightarrow> last xs \<noteq> [] \<Longrightarrow> join_with sep xs \<noteq> []"
  by (induction xs rule: induct_list012) auto

lemma hd_join_with: "xs \<noteq> [] \<Longrightarrow> hd xs \<noteq> [] \<Longrightarrow> hd (join_with sep xs) = hd (hd xs)"
  by (induction xs rule: induct_list012) auto

lemma last_join_with: "xs \<noteq> [] \<Longrightarrow> last xs \<noteq> [] \<Longrightarrow> last (join_with sep xs) = last (last xs)"
proof (induction xs rule: induct_list012)
  case (3 x y zs)
  then have "join_with sep (y # zs) \<noteq> []" by (intro join_with_nonempty) auto
  with 3 show ?case by simp
qed simp_all

lemmas join_with_ends = join_with_nonempty hd_join_with last_join_with

definition text_line :: "string list \<Rightarrow> string" where
  "text_line fs = join_with '', '' fs @ [newline]"

definition good_field :: "string \<Rightarrow> bool" where
  "good_field f \<longleftrightarrow> f \<noteq> [] \<and> CHR '','' \<notin> set f \<and> \<not> py_space (hd f) \<and> \<not> py_space (last f)"

lemma line_parts_text:
  assumes "fs \<noteq> []" and "list_all good_field fs"
  shows "line_parts (text_line fs) = fs"
proof -
  have ends: "good_field (hd fs)" "good_field (last fs)" using assms by (simp_all add: list_all_iff)
  have "py_strip (text_line fs) = join_with '', '' fs"
    unfolding text_line_def
    using ends join_with_ends [OF assms(1)] by (intro strip_line) (auto simp: good_field_def)
  moreover have "py_split '', '' (join_with '', '' fs) = fs"
    using assms by (intro py_split_join) (auto simp: list_all_iff good_field_def)
  ultimately show ?thesis by (simp add: line_parts_def)
qed

lemma good_decimal: "good_field (decimal_text d)"
  using decimal_text_ends decimal_text_no_comma by (simp add: good_field_def)

lemma good_int: "good_field (int_str n)"
proof -
  have digits: "is_digit (hd (nat_str k))" "is_digit (last (nat_str k))" for k
    using nat_str_digits [of k] nat_str_nonempty [of k] by (simp_all add: list_all_iff)
  have space: "is_digit c \<Longrightarrow> \<not> py_space c" for c by (auto simp: is_digit_def py_space_def Let_def)
  have comma: "CHR '','' \<notin> set (nat_str k)" for k
    using nat_str_digits [of k] by (auto simp: list_all_iff is_digit_def)
  have minus: "\<not> py_space CHR ''-''" by code_simp
  show ?thesis
    using digits space comma minus nat_str_nonempty by (simp add: good_field_def int_str_def)
qed

lemma read_decimals: "res_map parse_float (map decimal_text ds) = Inr (map decimal_real ds)"
  by (induction ds) simp_all

lemma float_fields_block:
  assumes "length pre = i" and "i + length ds = j"
  shows "float_fields (pre @ map decimal_text ds @ post) i j = Inr (map decimal_real ds)"
  using assms by (auto simp: float_fields_def slice_def read_decimals)

lemma read_lines_append: "read_lines f (xs @ ys) d = res_bind (read_lines f xs d) (read_lines f ys)"
proof (induction xs arbitrary: d)
  case (Cons x xs)
  then show ?case by (cases "f x d") simp_all
qed simp

text \<open>The keys of a dictionary that was filled in the order of a list.\<close>

definition first_seen :: "'k list \<Rightarrow> 'k list" where
  "first_seen ks = rev (remdups (rev ks))"

lemma first_seen_Nil [simp]: "first_seen [] = []"
  by (simp add: first_seen_def)

lemma set_first_seen [simp]: "set (first_seen ks) = set ks"
  by (simp add: first_seen_def)

lemma first_seen_snoc: "first_seen (ks @ [k]) = (if k \<in> set ks then first_seen ks else first_seen ks @ [k])"
  by (simp add: first_seen_def)

lemma keys_update_first_seen:
  assumes "map fst d = first_seen ks"
  shows "map fst (AList.update k v d) = first_seen (ks @ [k])"
proof -
  have "fst ` set d = set ks" using arg_cong [OF assms, of set] by simp
  then show ?thesis by (simp add: AList.update_keys first_seen_snoc assms)
qed

section \<open>The table of the cameras\<close>

text \<open>A row of the table, its decimals as printed.\<close>

record gt_row =
  gr_name :: string
  gr_frame :: int
  gr_time :: decimal
  gr_pos :: "decimal list"
  gr_quat :: "decimal list"
  gr_intr :: "decimal list"

definition gt_line :: "gt_row \<Rightarrow> string" where
  "gt_line r = text_line ([gr_name r, int_str (gr_frame r), decimal_text (gr_time r)] @
     map decimal_text (gr_pos r) @ map decimal_text (gr_quat r) @ map decimal_text (gr_intr r))"

definition gt_row_ok :: "gt_row \<Rightarrow> bool" where
  "gt_row_ok r \<longleftrightarrow> good_field (gr_name r) \<and> length (gr_pos r) = 3 \<and> length (gr_quat r) = 4 \<and> length (gr_intr r) = 4"

definition row_pose :: "(real list \<Rightarrow> matrix) \<Rightarrow> gt_row \<Rightarrow> matrix" where
  "row_pose R r = rigid_pose (transpose_matrix (R (map decimal_real (gr_quat r)))) (map decimal_real (gr_pos r))"

definition row_intrinsics :: "gt_row \<Rightarrow> matrix" where
  "row_intrinsics r = (let f = map decimal_real (gr_intr r) in camera_matrix (f ! 0) (f ! 1) (f ! 2) (f ! 3))"

definition rows_of :: "string \<Rightarrow> gt_row list \<Rightarrow> gt_row list" where
  "rows_of n rows = filter (\<lambda>r. gr_name r = n) rows"

text \<open>The last row of a frame counts.\<close>

definition table_pose :: "(real list \<Rightarrow> matrix) \<Rightarrow> gt_row list \<Rightarrow> string \<Rightarrow> int \<Rightarrow> matrix option" where
  "table_pose R rows n = map_of (rev (map (\<lambda>r. (gr_frame r, row_pose R r)) (rows_of n rows)))"

lemma gt_line_parts:
  assumes "gt_row_ok r"
  shows "line_parts (gt_line r) = [gr_name r, int_str (gr_frame r), decimal_text (gr_time r)] @
     map decimal_text (gr_pos r) @ map decimal_text (gr_quat r) @ map decimal_text (gr_intr r)"
  unfolding gt_line_def
  using assms by (intro line_parts_text) (auto simp: gt_row_ok_def good_int good_decimal list_all_iff)

text \<open>One line, in terms of its row.\<close>

lemma read_gt_row:
  assumes ok: "gt_row_ok r" and fq: "from_quat (map decimal_real (gr_quat r)) = Inr (R (map decimal_real (gr_quat r)))"
  shows "read_gt_line from_quat (gt_line r) d =
    (let c = (case map_of d (gr_name r) of
                None \<Rightarrow> \<lparr>gc_K = row_intrinsics r, gc_d = [0, 0, 0, 0], gc_poses = [], gc_pose_rig_cam = None\<rparr>
              | Some c \<Rightarrow> c)
     in Inr (AList.update (gr_name r) (c\<lparr>gc_poses := AList.update (gr_frame r) (row_pose R r) (gc_poses c)\<rparr>) d))"
proof -
  let ?head = "[gr_name r, int_str (gr_frame r), decimal_text (gr_time r)]"
  let ?p = "map decimal_text (gr_pos r)" and ?q = "map decimal_text (gr_quat r)" and ?i = "map decimal_text (gr_intr r)"
  let ?parts = "?head @ ?p @ ?q @ ?i"
  have len: "length (gr_pos r) = 3" "length (gr_quat r) = 4" "length (gr_intr r) = 4"
    using ok by (simp_all add: gt_row_ok_def)
  have pos: "float_fields ?parts 3 6 = Inr (map decimal_real (gr_pos r))"
    using float_fields_block [of ?head 3 "gr_pos r" 6 "?q @ ?i"] len by simp
  have quat: "float_fields ?parts 6 10 = Inr (map decimal_real (gr_quat r))"
    using float_fields_block [of "?head @ ?p" 6 "gr_quat r" 10 ?i] len by simp
  have intr: "float_fields ?parts 10 14 = Inr (map decimal_real (gr_intr r))"
    using float_fields_block [of "?head @ ?p @ ?q" 10 "gr_intr r" 14 "[]"] len by simp
  have "field ?parts 0 = Inr (gr_name r)" "field ?parts 1 = Inr (int_str (gr_frame r))"
    by (simp_all add: field_def)
  then show ?thesis
    unfolding read_gt_line_def gt_line_parts [OF ok] Let_def pos quat
    by (simp only: res_bind_simps parse_int_str fq new_gt_camera_def intr row_pose_def row_intrinsics_def Let_def
        split: option.split) simp
qed

text \<open>The dictionary after some rows, before the relative poses are added.\<close>

definition camera_of_rows :: "(real list \<Rightarrow> matrix) \<Rightarrow> gt_row list \<Rightarrow> string \<Rightarrow> gt_camera \<Rightarrow> bool" where
  "camera_of_rows R rows n c \<longleftrightarrow>
     gc_K c = row_intrinsics (hd (rows_of n rows)) \<and> gc_d c = [0, 0, 0, 0] \<and> map_of (gc_poses c) = table_pose R rows n"

definition rows_read :: "(real list \<Rightarrow> matrix) \<Rightarrow> gt_row list \<Rightarrow> (string \<times> gt_camera) list \<Rightarrow> bool" where
  "rows_read R rows d \<longleftrightarrow>
     map fst d = first_seen (map gr_name rows) \<and> (\<forall>n c. map_of d n = Some c \<longrightarrow> camera_of_rows R rows n c)"

lemma rows_read_names: "rows_read R rows d \<Longrightarrow> fst ` set d = gr_name ` set rows"
  unfolding rows_read_def by (metis list.set_map set_first_seen)

lemma rows_read_known: "rows_read R rows d \<Longrightarrow> map_of d n = None \<longleftrightarrow> n \<notin> gr_name ` set rows"
  unfolding rows_read_def map_of_eq_None_iff by (metis list.set_map set_first_seen)

lemma rows_of_snoc: "rows_of n (rows @ [r]) = (if gr_name r = n then rows_of n rows @ [r] else rows_of n rows)"
  by (simp add: rows_of_def)

lemma rows_of_Nil_iff: "rows_of n rows = [] \<longleftrightarrow> n \<notin> gr_name ` set rows"
  by (auto simp: rows_of_def filter_empty_conv)

lemma table_pose_snoc:
  "table_pose R (rows @ [r]) n =
     (if gr_name r = n then (table_pose R rows n)(gr_frame r \<mapsto> row_pose R r) else table_pose R rows n)"
  by (simp add: table_pose_def rows_of_snoc fun_eq_iff)

lemma row_extends:
  assumes read: "rows_read R rows d"
    and c: "c = (case map_of d (gr_name r) of
              None \<Rightarrow> \<lparr>gc_K = row_intrinsics r, gc_d = [0, 0, 0, 0], gc_poses = [], gc_pose_rig_cam = None\<rparr>
            | Some c \<Rightarrow> c)"
  shows "rows_read R (rows @ [r]) (AList.update (gr_name r) (c\<lparr>gc_poses := AList.update (gr_frame r) (row_pose R r) (gc_poses c)\<rparr>) d)"
proof -
  have this_camera: "camera_of_rows R (rows @ [r]) (gr_name r) (c\<lparr>gc_poses := AList.update (gr_frame r) (row_pose R r) (gc_poses c)\<rparr>)"
  proof (cases "map_of d (gr_name r)")
    case None
    then have "rows_of (gr_name r) rows = []" using rows_read_known [OF read] by (simp add: rows_of_Nil_iff)
    then show ?thesis
      using None c by (simp add: camera_of_rows_def rows_of_snoc table_pose_def fun_eq_iff)
  next
    case (Some c')
    then have "rows_of (gr_name r) rows \<noteq> []" using rows_read_known [OF read, of "gr_name r"] by (simp add: rows_of_Nil_iff)
    then show ?thesis
      using Some c read by (auto simp: rows_read_def camera_of_rows_def rows_of_snoc table_pose_snoc update_conv')
  qed
  have other: "camera_of_rows R (rows @ [r]) n c'" if "n \<noteq> gr_name r" "map_of d n = Some c'" for n c'
    using that read by (auto simp: rows_read_def camera_of_rows_def rows_of_snoc table_pose_snoc)
  show ?thesis
    unfolding rows_read_def
  proof (intro conjI allI impI)
    show "map fst (AList.update (gr_name r) (c\<lparr>gc_poses := AList.update (gr_frame r) (row_pose R r) (gc_poses c)\<rparr>) d) =
        first_seen (map gr_name (rows @ [r]))"
      using keys_update_first_seen [of d] read by (simp add: rows_read_def)
    fix n c'
    assume "map_of (AList.update (gr_name r) (c\<lparr>gc_poses := AList.update (gr_frame r) (row_pose R r) (gc_poses c)\<rparr>) d) n = Some c'"
    then show "camera_of_rows R (rows @ [r]) n c'"
      using this_camera other by (auto simp: update_conv' split: if_splits)
  qed
qed

lemma read_gt_rows:
  assumes "list_all gt_row_ok rows" and "\<And>r. r \<in> set rows \<Longrightarrow> from_quat (map decimal_real (gr_quat r)) = Inr (R (map decimal_real (gr_quat r)))"
  shows "\<exists>d. read_lines (read_gt_line from_quat) (map gt_line rows) [] = Inr d \<and> rows_read R rows d"
  using assms
proof (induction rows rule: rev_induct)
  case Nil
  then show ?case by (simp add: rows_read_def)
next
  case (snoc r rows)
  then obtain d where d: "read_lines (read_gt_line from_quat) (map gt_line rows) [] = Inr d" "rows_read R rows d" by auto
  have "gt_row_ok r" using snoc.prems by simp
  note step = read_gt_row [OF this, of from_quat R d]
  show ?case
    using d step snoc.prems(2) row_extends [OF d(2) refl, of r] by (simp add: read_lines_append Let_def)
qed

text \<open>
  C36. Reading the ground truth table gives back the table: the cameras in the order of their first
  rows, each with the intrinsics of its first row, no distortion, in every frame the pose of the
  last row of that frame, and the pose in the rig computed from the first frames.
\<close>

theorem ground_truth_reads_back:
  assumes rows: "list_all gt_row_ok rows"
    and quat: "\<And>r. r \<in> set rows \<Longrightarrow> from_quat (map decimal_real (gr_quat r)) = Inr (R (map decimal_real (gr_quat r)))"
    and rig: "table_pose R rows ''cam0'' 1 = Some P"
    and first: "\<And>r. r \<in> set rows \<Longrightarrow> table_pose R rows (gr_name r) 1 \<noteq> None"
  shows "\<exists>d. read_camera_gt_data from_quat minv (header # map gt_line rows) = Inr d \<and>
    map fst d = first_seen (map gr_name rows) \<and>
    (\<forall>n c. map_of d n = Some c \<longrightarrow>
       camera_of_rows R rows n c \<and> gc_pose_rig_cam c = Some (matmul (minv P) (the (table_pose R rows n 1))))"
proof -
  obtain d where d: "read_lines (read_gt_line from_quat) (map gt_line rows) [] = Inr d" "rows_read R rows d"
    using read_gt_rows [of rows from_quat R, OF rows quat] by blast
  have pose: "gt_pose d n 1 = Inr (the (table_pose R rows n 1))" if known: "n \<in> fst ` set d" for n
  proof -
    have n: "n \<in> gr_name ` set rows" using known rows_read_names [OF d(2)] by simp
    then obtain T where "table_pose R rows n 1 = Some T" using first by fastforce
    moreover obtain c where "map_of d n = Some c" using known by (cases "map_of d n") (auto simp: map_of_eq_None_iff)
    ultimately show ?thesis using d(2) by (auto simp: gt_pose_def rows_read_def camera_of_rows_def)
  qed
  have entry_pose: "gt_pose d n 1 = Inr (the (table_pose R rows n 1))" if "(n, c) \<in> set d" for n c
    using pose imageI [OF that, of fst] by simp
  have "''cam0'' \<in> gr_name ` set rows"
    using rig rows_of_Nil_iff [of "''cam0''" rows] by (cases "rows_of ''cam0'' rows") (simp_all add: table_pose_def)
  then have "''cam0'' \<in> fst ` set d" using rows_read_names [OF d(2)] by simp
  then have cam0: "gt_pose d ''cam0'' 1 = Inr P" using pose rig by simp
  let ?f = "\<lambda>(n, c). (n, c\<lparr>gc_pose_rig_cam := Some (matmul (minv P) (the (table_pose R rows n 1)))\<rparr>)"
  have "relative_poses minv d = res_map (\<lambda>x. Inr (?f x)) d"
    unfolding relative_poses_def
    by (rule res_map_cong) (auto simp: cam0 entry_pose split: prod.split)
  then have relative: "relative_poses minv d = Inr (map ?f d)" by (simp add: res_map_map)
  have names: "map fst (map ?f d) = first_seen (map gr_name rows)"
    using d(2) by (simp add: rows_read_def case_prod_beta comp_def)
  have lookup: "map_of (map ?f d) n = map_option (\<lambda>c. snd (?f (n, c))) (map_of d n)" for n
    by (induction d) auto
  have entry: "\<forall>n c. map_of (map ?f d) n = Some c \<longrightarrow>
      camera_of_rows R rows n c \<and> gc_pose_rig_cam c = Some (matmul (minv P) (the (table_pose R rows n 1)))"
    unfolding lookup using d(2) by (auto simp: rows_read_def camera_of_rows_def)
  show ?thesis
    by (intro exI [of _ "map ?f d"] conjI names entry) (simp add: read_camera_gt_data_def d(1) relative)
qed

definition demo_gt_row :: "string \<Rightarrow> int \<Rightarrow> gt_row" where
  "demo_gt_row n f =
     \<lparr>gr_name = n, gr_frame = f, gr_time = (False, 5, 1), gr_pos = [(False, 1, 0), (True, 25, 1), (False, 0, 0)],
      gr_quat = [(False, 0, 0), (False, 0, 0), (False, 0, 0), (False, 1, 0)],
      gr_intr = [(False, 500, 0), (False, 500, 0), (False, 320, 0), (False, 240, 0)]\<rparr>"

theorem ground_truth_reads_back_witness:
  "gt_line (demo_gt_row ''cam0'' 1) = ''cam0, 1, 0.5, 1, -2.5, 0, 0, 0, 0, 1, 500, 500, 320, 240'' @ [newline] \<and>
   (\<exists>d. read_camera_gt_data (\<lambda>_. Inr eye) (\<lambda>A. A)
      (''header'' # map gt_line [demo_gt_row ''cam1'' 1, demo_gt_row ''cam0'' 1, demo_gt_row ''cam1'' 2]) = Inr d \<and>
    map fst d = [''cam1'', ''cam0''])"
proof -
  let ?rows = "[demo_gt_row ''cam1'' 1, demo_gt_row ''cam0'' 1, demo_gt_row ''cam1'' 2]"
  have "list_all gt_row_ok ?rows" by code_simp
  moreover have "table_pose (\<lambda>_. eye) ?rows ''cam0'' 1 = Some (row_pose (\<lambda>_. eye) (demo_gt_row ''cam0'' 1))"
    by (simp add: table_pose_def rows_of_def demo_gt_row_def)
  moreover have "table_pose (\<lambda>_. eye) ?rows (gr_name r) 1 \<noteq> None" if "r \<in> set ?rows" for r
    using that by (auto simp: table_pose_def rows_of_def demo_gt_row_def)
  ultimately have "\<exists>d. read_camera_gt_data (\<lambda>_. Inr eye) (\<lambda>A. A) (''header'' # map gt_line ?rows) = Inr d \<and>
      map fst d = first_seen (map gr_name ?rows)"
    using ground_truth_reads_back [of ?rows "\<lambda>_. Inr eye" "\<lambda>_. eye" _ "\<lambda>A. A" "''header''"] by blast
  moreover have "gt_line (demo_gt_row ''cam0'' 1) = ''cam0, 1, 0.5, 1, -2.5, 0, 0, 0, 0, 1, 500, 500, 320, 240'' @ [newline]"
    by code_simp
  ultimately show ?thesis by (simp add: demo_gt_row_def first_seen_def)
qed

section \<open>The table of the tags\<close>

record tag_row =
  tr_id :: int
  tr_pos :: "decimal list"
  tr_quat :: "decimal list"
  tr_size :: decimal

definition tag_line :: "tag_row \<Rightarrow> string" where
  "tag_line r = text_line ([int_str (tr_id r)] @ map decimal_text (tr_pos r) @ map decimal_text (tr_quat r) @ [decimal_text (tr_size r)])"

definition tag_row_ok :: "tag_row \<Rightarrow> bool" where
  "tag_row_ok r \<longleftrightarrow> length (tr_pos r) = 3 \<and> length (tr_quat r) = 4"

definition tag_of_row :: "(real list \<Rightarrow> matrix) \<Rightarrow> tag_row \<Rightarrow> tag" where
  "tag_of_row R r =
     (let pos = map decimal_real (tr_pos r); q = map decimal_real (tr_quat r); T = rigid_pose (R q) pos
      in \<lparr>tg_id = tr_id r, tg_size = decimal_real (tr_size r), tg_center_pos = pos, tg_center_q = q, tg_T_tw = T,
          tg_corners = tag_corners (decimal_real (tr_size r)) T\<rparr>)"

lemma read_tag_row:
  assumes ok: "tag_row_ok r" and fq: "from_quat (map decimal_real (tr_quat r)) = Inr (R (map decimal_real (tr_quat r)))"
  shows "read_tag_line from_quat (tag_line r) d = Inr (AList.update (tr_id r) (tag_of_row R r) d)"
proof -
  let ?p = "map decimal_text (tr_pos r)" and ?q = "map decimal_text (tr_quat r)" and ?s = "[decimal_text (tr_size r)]"
  let ?parts = "[int_str (tr_id r)] @ ?p @ ?q @ ?s"
  have len: "length (tr_pos r) = 3" "length (tr_quat r) = 4" using ok by (simp_all add: tag_row_ok_def)
  have parts: "line_parts (tag_line r) = ?parts"
    unfolding tag_line_def by (intro line_parts_text) (auto simp: good_int good_decimal list_all_iff)
  have pos: "float_fields ?parts 1 4 = Inr (map decimal_real (tr_pos r))"
    using float_fields_block [of "[int_str (tr_id r)]" 1 "tr_pos r" 4 "?q @ ?s"] len by simp
  have quat: "float_fields ?parts 4 8 = Inr (map decimal_real (tr_quat r))"
    using float_fields_block [of "[int_str (tr_id r)] @ ?p" 4 "tr_quat r" 8 ?s] len by simp
  have "field ?parts 0 = Inr (int_str (tr_id r))" "field ?parts 8 = Inr (decimal_text (tr_size r))"
    using len by (simp_all add: field_def nth_append)
  then show ?thesis
    unfolding read_tag_line_def parts Let_def pos quat
    by (simp add: new_tag_def fq tag_of_row_def Let_def)
qed

lemma read_tag_rows:
  assumes "list_all tag_row_ok rows" and "\<And>r. r \<in> set rows \<Longrightarrow> from_quat (map decimal_real (tr_quat r)) = Inr (R (map decimal_real (tr_quat r)))"
  shows "\<exists>d. read_lines (read_tag_line from_quat) (map tag_line rows) [] = Inr d \<and>
    map fst d = first_seen (map tr_id rows) \<and> map_of d = map_of (rev (map (\<lambda>r. (tr_id r, tag_of_row R r)) rows))"
  using assms
proof (induction rows rule: rev_induct)
  case (snoc r rows)
  then obtain d where d: "read_lines (read_tag_line from_quat) (map tag_line rows) [] = Inr d"
      "map fst d = first_seen (map tr_id rows)" "map_of d = map_of (rev (map (\<lambda>r. (tr_id r, tag_of_row R r)) rows))" by auto
  have "tag_row_ok r" using snoc.prems by simp
  note step = read_tag_row [OF this, of from_quat R d]
  show ?case
    using d step snoc.prems(2) keys_update_first_seen [OF d(2), of "tr_id r" "tag_of_row R r"]
    by (simp add: read_lines_append update_conv' fun_upd_def)
qed simp

section \<open>The corners of a tag\<close>

definition orthonormal :: "matrix \<Rightarrow> bool" where
  "orthonormal R \<longleftrightarrow> (\<forall>j < 3. \<forall>k < 3. (\<Sum>i\<leftarrow>[0..<3]. R i j * R i k) = (if j = k then 1 else 0))"

definition corner_sqdist :: "matrix \<Rightarrow> nat \<Rightarrow> nat \<Rightarrow> real" where
  "corner_sqdist C j k = (\<Sum>i\<leftarrow>[0..<3]. (C i j - C i k)\<^sup>2)"

text \<open>A square with the given centre: sides, diagonals and the middle of both diagonals.\<close>

definition square_at :: "real list \<Rightarrow> real \<Rightarrow> matrix \<Rightarrow> bool" where
  "square_at pos side C \<longleftrightarrow>
     list_all (\<lambda>j. corner_sqdist C j ((j + 1) mod 4) = side\<^sup>2) [0..<4] \<and>
     corner_sqdist C 0 2 = 2 * side\<^sup>2 \<and> corner_sqdist C 1 3 = 2 * side\<^sup>2 \<and>
     list_all (\<lambda>i. (C i 0 + C i 2) / 2 = pos ! i \<and> (C i 1 + C i 3) / 2 = pos ! i) [0..<3]"

lemma upt_numerals: "[0..<3] = [0, 1, 2::nat]" "[0..<4] = [0, 1, 2, 3::nat]"
  by code_simp+

lemma tag_corners_entries:
  assumes "i < 3" and "T = rigid_pose R pos"
  shows "tag_corners s T i 0 = pos ! i - s / 2 * R i 0 + s / 2 * R i 1"
    "tag_corners s T i (Suc 0) = pos ! i + s / 2 * R i 0 + s / 2 * R i 1"
    "tag_corners s T i 2 = pos ! i + s / 2 * R i 0 - s / 2 * R i 1"
    "tag_corners s T i 3 = pos ! i - s / 2 * R i 0 - s / 2 * R i 1"
  using assms by (simp_all add: tag_corners_def upt_numerals rigid_pose_def eye_def Let_def mult.commute)

lemma tag_is_square:
  assumes R: "orthonormal R"
  shows "square_at pos s (tag_corners s (rigid_pose R pos))"
proof -
  have e: "R 0 0 * R 0 0 + R 1 0 * R 1 0 + R 2 0 * R 2 0 = 1" "R 0 1 * R 0 1 + R 1 1 * R 1 1 + R 2 1 * R 2 1 = 1"
    "R 0 0 * R 0 1 + R 1 0 * R 1 1 + R 2 0 * R 2 1 = 0"
    using R [unfolded orthonormal_def, rule_format, of 0 0] R [unfolded orthonormal_def, rule_format, of 1 1]
      R [unfolded orthonormal_def, rule_format, of 0 1] by (simp_all add: upt_numerals algebra_simps)
  have scale: "(s * x)\<^sup>2 + (s * y)\<^sup>2 + (s * z)\<^sup>2 = s\<^sup>2 * (x * x + y * y + z * z)" for x y z :: real
    by (simp add: power2_eq_square algebra_simps)
  have diagonal: "(s * x - s * u)\<^sup>2 + ((s * y - s * v)\<^sup>2 + (s * z - s * w)\<^sup>2) =
        s\<^sup>2 * ((x * x + y * y + z * z) + (u * u + v * v + w * w) - 2 * (x * u + y * v + z * w))"
      "(s * x + s * u)\<^sup>2 + ((s * y + s * v)\<^sup>2 + (s * z + s * w)\<^sup>2) =
        s\<^sup>2 * ((x * x + y * y + z * z) + (u * u + v * v + w * w) + 2 * (x * u + y * v + z * w))" for x y z u v w :: real
    by (simp_all add: power2_eq_square algebra_simps)
  let ?C = "tag_corners s (rigid_pose R pos)"
  note entries = tag_corners_entries [OF _ refl, of _ s R pos]
  have sides: "corner_sqdist ?C 0 1 = s\<^sup>2" "corner_sqdist ?C 1 2 = s\<^sup>2" "corner_sqdist ?C 2 3 = s\<^sup>2" "corner_sqdist ?C 3 0 = s\<^sup>2"
    using e scale [of "R 0 0" "R 1 0" "R 2 0"] scale [of "R 0 1" "R 1 1" "R 2 1"]
    by (simp_all add: corner_sqdist_def upt_numerals entries add.assoc)
  have "corner_sqdist ?C 0 2 = 2 * s\<^sup>2" "corner_sqdist ?C 1 3 = 2 * s\<^sup>2"
    using diagonal [of "R 0 1" "R 0 0" "R 1 1" "R 1 0" "R 2 1" "R 2 0"] diagonal [of "R 0 0" "R 0 1" "R 1 0" "R 1 1" "R 2 0" "R 2 1"] e
    by (simp_all add: corner_sqdist_def upt_numerals entries mult.commute)
  moreover have "corner_sqdist ?C (Suc 0) (Suc (Suc 0)) = s\<^sup>2" using sides(2) by (metis One_nat_def Suc_1)
  ultimately show ?thesis
    using sides by (simp add: square_at_def upt_numerals entries)
qed

text \<open>
  Reading the table of the tags gives back the table: the identifiers in the order of their first
  rows, each with its last row, and its corners are those of a square of the tag's size around
  its position (its sides, its diagonals and the middle of both diagonals), given that the
  rotations of the quaternions are orthonormal.
\<close>

theorem tags_read_back:
  assumes rows: "list_all tag_row_ok rows"
    and quat: "\<And>r. r \<in> set rows \<Longrightarrow> from_quat (map decimal_real (tr_quat r)) = Inr (R (map decimal_real (tr_quat r)))"
    and rotation: "\<And>r. r \<in> set rows \<Longrightarrow> orthonormal (R (map decimal_real (tr_quat r)))"
  shows "\<exists>d. read_tag_data from_quat (header # map tag_line rows) = Inr d \<and>
    map fst d = first_seen (map tr_id rows) \<and>
    map_of d = map_of (rev (map (\<lambda>r. (tr_id r, tag_of_row R r)) rows)) \<and>
    (\<forall>n t. map_of d n = Some t \<longrightarrow> tg_id t = n \<and> square_at (tg_center_pos t) (tg_size t) (tg_corners t))"
proof -
  obtain d where d: "read_lines (read_tag_line from_quat) (map tag_line rows) [] = Inr d"
      "map fst d = first_seen (map tr_id rows)" "map_of d = map_of (rev (map (\<lambda>r. (tr_id r, tag_of_row R r)) rows))"
    using read_tag_rows [of rows from_quat R, OF rows quat] by blast
  have "tg_id t = n \<and> square_at (tg_center_pos t) (tg_size t) (tg_corners t)" if "map_of d n = Some t" for n t
  proof -
    have "(n, t) \<in> set (rev (map (\<lambda>r. (tr_id r, tag_of_row R r)) rows))"
      using that unfolding d(3) by (rule map_of_SomeD)
    then obtain r where "r \<in> set rows" "n = tr_id r" "t = tag_of_row R r" by auto
    then show ?thesis using tag_is_square [OF rotation] by (simp add: tag_of_row_def Let_def)
  qed
  then show ?thesis using d by (simp add: read_tag_data_def)
qed

definition demo_tag_row :: "int \<Rightarrow> nat \<Rightarrow> tag_row" where
  "demo_tag_row n x =
     \<lparr>tr_id = n, tr_pos = [(False, x, 0), (False, 0, 0), (True, 15, 1)],
      tr_quat = [(False, 0, 0), (False, 0, 0), (False, 0, 0), (False, 1, 0)], tr_size = (False, 9, 2)\<rparr>"

theorem tags_read_back_witness:
  "tag_line (demo_tag_row 7 2) = ''7, 2, 0, -1.5, 0, 0, 0, 1, 0.09'' @ [newline] \<and>
   (\<exists>d. read_tag_data (\<lambda>_. Inr eye) (''header'' # map tag_line [demo_tag_row 7 1, demo_tag_row 3 0, demo_tag_row 7 2]) = Inr d \<and>
    map fst d = [7, 3] \<and> map_option tg_center_pos (map_of d 7) = Some [2, 0, - 3 / 2])"
proof -
  let ?rows = "[demo_tag_row 7 1, demo_tag_row 3 0, demo_tag_row 7 2]"
  have "list_all tag_row_ok ?rows" by code_simp
  moreover have "orthonormal eye"
    by (auto simp: orthonormal_def eye_def upt_numerals less_Suc_eq numeral_3_eq_3)
  ultimately obtain d where "read_tag_data (\<lambda>_. Inr eye) (''header'' # map tag_line ?rows) = Inr d"
      "map fst d = first_seen (map tr_id ?rows)" "map_of d = map_of (rev (map (\<lambda>r. (tr_id r, tag_of_row (\<lambda>_. eye) r)) ?rows))"
    using tags_read_back [of ?rows "\<lambda>_. Inr eye" "\<lambda>_. eye" "''header''"] by blast
  moreover have "tag_line (demo_tag_row 7 2) = ''7, 2, 0, -1.5, 0, 0, 0, 1, 0.09'' @ [newline]"
    by code_simp
  ultimately show ?thesis
    by (simp add: demo_tag_row_def first_seen_def tag_of_row_def decimal_real_def Let_def)
qed

section \<open>One view per image\<close>

definition image_view :: "(int \<Rightarrow> matrix) \<Rightarrow> ('i \<Rightarrow> (int \<times> (real \<times> real) list) list) \<Rightarrow> (int \<times> tag) list \<Rightarrow> int \<Rightarrow> 'i \<Rightarrow> view" where
  "image_view P D tags index img =
     \<lparr>vw_index = index, vw_pose = P index,
      vw_tags = map (\<lambda>(k, corners). \<lparr>to_id = k, to_corners_2d = corners, to_corners_3d = map_option tg_corners (map_of tags k)\<rparr>) (D img)\<rparr>"

definition images_held ::
    "(string \<times> gt_camera) list \<Rightarrow> (int \<Rightarrow> matrix) \<Rightarrow> ('i \<Rightarrow> (int \<times> (real \<times> real) list) list) \<Rightarrow> (int \<times> tag) list \<Rightarrow>
     (string \<times> int \<times> 'i) list \<Rightarrow> (string \<times> calib_camera) list \<Rightarrow> bool" where
  "images_held gt P D tags xs cams \<longleftrightarrow>
     map fst cams = first_seen (map fst xs) \<and>
     (\<forall>n c. map_of cams n = Some c \<longrightarrow>
        cc_views c = map (\<lambda>(_, index, img). image_view P D tags index img) (filter (\<lambda>x. fst x = n) xs) \<and>
        map_option (\<lambda>g. (gc_K g, gc_d g, gc_pose_rig_cam g)) (map_of gt n) = Some (cc_K c, cc_d c, Some (cc_pose_rig_cam c)))"

definition image_ok ::
    "(string \<times> gt_camera) list \<Rightarrow> (int \<Rightarrow> matrix) \<Rightarrow> ('i \<Rightarrow> (int \<times> (real \<times> real) list) list) \<Rightarrow>
     ('i \<Rightarrow> (int \<times> (real \<times> real) list) list res) \<Rightarrow> string \<times> int \<times> 'i \<Rightarrow> bool" where
  "image_ok gt P D detect x \<longleftrightarrow>
     (case x of (n, index, img) \<Rightarrow>
        (case map_of gt n of None \<Rightarrow> False | Some g \<Rightarrow> gc_pose_rig_cam g \<noteq> None) \<and>
        gt_pose gt ''cam0'' index = Inr (P index) \<and> detect img = Inr (D img))"

lemma images_held_known: "images_held gt P D tags xs cams \<Longrightarrow> map_of cams n = None \<longleftrightarrow> n \<notin> fst ` set xs"
  unfolding images_held_def map_of_eq_None_iff by (metis list.set_map set_first_seen)

lemma add_image_holds:
  assumes held: "images_held gt P D tags xs cams" and ok: "image_ok gt P D detect x"
  shows "\<exists>cams'. add_image gt tags detect x cams = Inr cams' \<and> images_held gt P D tags (xs @ [x]) cams'"
proof -
  obtain n index img where x: "x = (n, index, img)" by (cases x)
  obtain g T where g: "map_of gt n = Some g" "gc_pose_rig_cam g = Some T"
    using ok by (auto simp: image_ok_def x split: option.splits)
  obtain c where c: "find_or_make_camera gt n cams = Inr c"
    and views: "cc_views c = map (\<lambda>(_, index, img). image_view P D tags index img) (filter (\<lambda>x. fst x = n) xs)"
    and same: "cc_K c = gc_K g" "cc_d c = gc_d g" "cc_pose_rig_cam c = T"
  proof (cases "map_of cams n")
    case None
    then have "filter (\<lambda>x. fst x = n) xs = []"
      using images_held_known [OF held, of n] by (force simp: filter_empty_conv)
    with None g show thesis
      by (intro that [of "\<lparr>cc_K = gc_K g, cc_d = gc_d g, cc_pose_rig_cam = T, cc_views = []\<rparr>"]) (simp_all add: find_or_make_camera_def)
  next
    case (Some c)
    have "map_option (\<lambda>g. (gc_K g, gc_d g, gc_pose_rig_cam g)) (map_of gt n) = Some (cc_K c, cc_d c, Some (cc_pose_rig_cam c))"
      using held Some unfolding images_held_def by blast
    then have "cc_K c = gc_K g" "cc_d c = gc_d g" "cc_pose_rig_cam c = T" using g by auto
    moreover have "cc_views c = map (\<lambda>(_, index, img). image_view P D tags index img) (filter (\<lambda>x. fst x = n) xs)"
      using held Some unfolding images_held_def by blast
    ultimately show thesis using Some by (intro that [of c]) (simp_all add: find_or_make_camera_def)
  qed
  let ?c = "add_view index (P index) (map_option tg_corners \<circ> map_of tags) (D img) c"
  have "add_image gt tags detect x cams = Inr (AList.update n ?c cams)"
    using ok c by (simp add: image_ok_def x add_image_def)
  moreover have "images_held gt P D tags (xs @ [x]) (AList.update n ?c cams)"
    using keys_update_first_seen [of cams "map fst xs" n ?c] held views same g
    by (auto simp: images_held_def x update_conv' add_view_def image_view_def detect_tags_def split: if_splits)
  ultimately show ?thesis by blast
qed

lemma add_images_append:
  "add_images gt tags detect (xs @ ys) cams = res_bind (add_images gt tags detect xs cams) (add_images gt tags detect ys)"
proof (induction xs arbitrary: cams)
  case (Cons x xs)
  show ?case
  proof (cases x)
    case (Inr y)
    then show ?thesis using Cons by (cases "add_image gt tags detect y cams") simp_all
  qed simp
qed simp

lemma add_images_hold:
  assumes "list_all (image_ok gt P D detect) xs"
  shows "\<exists>cams. add_images gt tags detect (map Inr xs) [] = Inr cams \<and> images_held gt P D tags xs cams"
  using assms
proof (induction xs rule: rev_induct)
  case Nil
  then show ?case by (simp add: images_held_def)
next
  case (snoc x xs)
  then obtain cams where cams: "add_images gt tags detect (map Inr xs) [] = Inr cams" "images_held gt P D tags xs cams" by auto
  then show ?case using add_image_holds [OF cams(2), of detect x] snoc.prems by (auto simp: add_images_append)
qed

text \<open>The images of a data set: per camera a number and a picture, in files named by the number.\<close>

definition image_name :: "int \<Rightarrow> string" where
  "image_name k = int_str k @ ''.jpg''"

definition in_name_order :: "(int \<times> 'i) list \<Rightarrow> (int \<times> 'i) list" where
  "in_name_order frames = sort_key (\<lambda>f. map of_char (image_name (fst f)) :: nat list) frames"

lemma stem_of_image_name: "path_stem (image_name k) = int_str k"
proof -
  have "int_str k \<noteq> []" by (simp add: int_str_def)
  moreover have "takeWhile (\<lambda>c. c \<noteq> CHR ''.'') (''gpj'' @ CHR ''.'' # rev (int_str k)) = ''gpj''" by simp
  ultimately show ?thesis by (simp add: image_name_def path_stem_def Let_def)
qed

lemma image_files_of_frames:
  "image_files (map (\<lambda>(k, img). (image_name k, img)) frames) = map (\<lambda>(k, img). (image_name k, img)) (in_name_order frames)"
proof -
  have "filter (\<lambda>e. suffix ''.jpg'' (fst e)) (map (\<lambda>(k, img). (image_name k, img)) frames) = map (\<lambda>(k, img). (image_name k, img)) frames"
    by (auto simp: filter_id_conv image_name_def suffix_def)
  then show ?thesis
    by (simp add: image_files_def in_name_order_def sort_key_map [symmetric] case_prod_beta)
qed

definition calib_config :: "string list \<Rightarrow> string \<Rightarrow> string \<Rightarrow> pyval" where
  "calib_config names ref dir =
     PDict [(''cameras'', PList (map (\<lambda>n. PDict [(''name'', PStr n)]) names)), (''ref_camera'', PStr ref), (''data_root'', PStr dir)]"

definition all_images :: "string list \<Rightarrow> (string \<Rightarrow> (int \<times> 'i) list) \<Rightarrow> (string \<times> int \<times> 'i) list" where
  "all_images names frames = concat (map (\<lambda>n. map (\<lambda>(k, img). (n, k, img)) (in_name_order (frames n))) names)"

lemma loader_images:
  assumes "\<And>n. listing n = map (\<lambda>(k, img). (image_name k, img)) (frames n)"
  shows "data_loader listing (calib_config names ref dir) = Inr (map Inr (all_images names frames))"
proof -
  have "camera_images listing (PDict [(''name'', PStr n)]) = map Inr (map (\<lambda>(k, img). (n, k, img)) (in_name_order (frames n)))" for n
    by (simp add: camera_images_def assms image_files_of_frames stem_of_image_name comp_def case_prod_beta)
  then show ?thesis
    by (simp add: data_loader_def calib_config_def all_images_def comp_def map_concat)
qed

lemma images_of_camera:
  assumes "distinct names" and "n \<in> set names"
  shows "filter (\<lambda>x. fst x = n) (all_images names frames) = map (\<lambda>(k, img). (n, k, img)) (in_name_order (frames n))"
  using assms
proof (induction names)
  case (Cons m names)
  have "filter (\<lambda>x. fst x = n) (map (\<lambda>(k, img). (m, k, img)) ys) = (if m = n then map (\<lambda>(k, img). (m, k, img)) ys else [])" for ys :: "(int \<times> 'a) list"
    by (induction ys) auto
  moreover have "filter (\<lambda>x. fst x = n) (all_images names frames) = []" if "n \<notin> set names"
    using that by (auto simp: filter_empty_conv all_images_def)
  ultimately show ?case using Cons by (auto simp: all_images_def)
qed simp

lemma first_seen_repeat: "first_seen (ks @ replicate m n) = (if m = 0 \<or> n \<in> set ks then first_seen ks else first_seen ks @ [n])"
proof (induction m)
  case (Suc m)
  have "replicate (Suc m) n = replicate m n @ [n]" by (simp add: replicate_append_same)
  then have "first_seen (ks @ replicate (Suc m) n) = first_seen ((ks @ replicate m n) @ [n])" by simp
  then show ?case using Suc by (cases m) (auto simp: first_seen_snoc simp del: append_assoc)
qed simp

lemma first_seen_images:
  assumes "distinct names"
  shows "first_seen (map fst (all_images names frames)) = filter (\<lambda>n. frames n \<noteq> []) names"
  using assms
proof (induction names rule: rev_induct)
  case (snoc n names)
  have "map fst (all_images (names @ [n]) frames) = map fst (all_images names frames) @ replicate (length (frames n)) n"
    by (auto simp: all_images_def in_name_order_def map_concat comp_def case_prod_beta map_replicate_const)
  moreover have "n \<notin> fst ` set (all_images names frames)" using snoc.prems by (auto simp: all_images_def)
  ultimately show ?case using snoc by (simp add: first_seen_repeat)
qed (simp add: all_images_def)

text \<open>
  The cameras the calibration starts from hold the data set: the first run builds, for every
  camera of the configuration with at least one image and in that order, one view per image in the
  order of the file names, with its number, the pose of the reference camera in that frame and
  the tags detected in it with their corners in space, and the intrinsics and the pose in the rig
  of the ground truth. It leaves them in the pickle file, and every later run whose text files
  can be read starts from the same cameras, whatever the images are then.
\<close>

theorem cameras_hold_the_images:
  assumes listing: "\<And>n. cw_listing w n = map (\<lambda>(k, img). (image_name k, img)) (frames n)"
    and names: "distinct names"
    and gt: "res_bind (cw_gt_lines w) (read_camera_gt_data from_quat minv) = Inr gt"
    and tags: "res_bind (cw_tag_lines w) (read_tag_data from_quat) = Inr tags"
    and images: "\<And>n k img. n \<in> set names \<Longrightarrow> (k, img) \<in> set (frames n) \<Longrightarrow> image_ok gt P D (cw_detect w) (n, k, img)"
  shows "\<exists>cams. load_cameras from_quat minv (calib_config names ref dir) w None = (Inr cams, Some cams) \<and>
    map fst cams = filter (\<lambda>n. frames n \<noteq> []) names \<and>
    (\<forall>n c. map_of cams n = Some c \<longrightarrow>
       cc_views c = map (\<lambda>(k, img). image_view P D tags k img) (in_name_order (frames n)) \<and>
       map_option (\<lambda>g. (gc_K g, gc_d g, gc_pose_rig_cam g)) (map_of gt n) = Some (cc_K c, cc_d c, Some (cc_pose_rig_cam c))) \<and>
    (\<forall>config' w' loader' gt' tags'.
       data_loader (cw_listing w') config' = Inr loader' \<longrightarrow>
       res_bind (cw_gt_lines w') (read_camera_gt_data from_quat minv) = Inr gt' \<longrightarrow>
       res_bind (cw_tag_lines w') (read_tag_data from_quat) = Inr tags' \<longrightarrow>
       load_cameras from_quat minv config' w' (Some cams) = (Inr cams, Some cams))"
proof -
  let ?xs = "all_images names frames"
  have "list_all (image_ok gt P D (cw_detect w)) ?xs"
    unfolding list_all_iff
  proof
    fix x assume "x \<in> set ?xs"
    then obtain n k img where "n \<in> set names" "(k, img) \<in> set (frames n)" "x = (n, k, img)"
      by (auto simp: all_images_def in_name_order_def)
    then show "image_ok gt P D (cw_detect w) x" using images by blast
  qed
  then obtain cams where cams: "add_images gt tags (cw_detect w) (map Inr ?xs) [] = Inr cams" "images_held gt P D tags ?xs cams"
    using add_images_hold [of gt P D "cw_detect w" ?xs tags] by blast
  have run: "load_cameras from_quat minv (calib_config names ref dir) w None = (Inr cams, Some cams)"
    unfolding load_cameras_def loader_images [of "cw_listing w", OF listing] by (simp only: res_bind_simps gt tags cams(1) option.case sum.case prod.case)
  have order: "first_seen (map fst ?xs) = filter (\<lambda>n. frames n \<noteq> []) names"
    using first_seen_images [OF names] .
  have order': "map fst cams = filter (\<lambda>n. frames n \<noteq> []) names"
    using cams(2) unfolding images_held_def order by (rule conjunct1)
  have known: "n \<in> set names" if "map_of cams n = Some c" for n c
  proof -
    have "n \<in> fst ` set cams" using map_of_SomeD [OF that] by force
    then have "n \<in> set (map fst cams)" by simp
    then show ?thesis unfolding order' by simp
  qed
  have held: "\<forall>n c. map_of cams n = Some c \<longrightarrow>
       cc_views c = map (\<lambda>(k, img). image_view P D tags k img) (in_name_order (frames n)) \<and>
       map_option (\<lambda>g. (gc_K g, gc_d g, gc_pose_rig_cam g)) (map_of gt n) = Some (cc_K c, cc_d c, Some (cc_pose_rig_cam c))"
  proof (intro allI impI conjI)
    fix n c assume c: "map_of cams n = Some c"
    have "cc_views c = map (\<lambda>(_, k, img). image_view P D tags k img) (filter (\<lambda>x. fst x = n) ?xs)"
      using cams(2) c by (simp add: images_held_def)
    also have "\<dots> = map (\<lambda>(k, img). image_view P D tags k img) (in_name_order (frames n))"
      by (simp add: images_of_camera [OF names known [OF c]] comp_def case_prod_beta)
    finally show "cc_views c = map (\<lambda>(k, img). image_view P D tags k img) (in_name_order (frames n))" .
    show "map_option (\<lambda>g. (gc_K g, gc_d g, gc_pose_rig_cam g)) (map_of gt n) = Some (cc_K c, cc_d c, Some (cc_pose_rig_cam c))"
      using cams(2) c by (simp add: images_held_def)
  qed
  have later: "load_cameras from_quat minv config' w' (Some cams) = (Inr cams, Some cams)"
    if "data_loader (cw_listing w') config' = Inr loader'"
      "res_bind (cw_gt_lines w') (read_camera_gt_data from_quat minv) = Inr gt'"
      "res_bind (cw_tag_lines w') (read_tag_data from_quat) = Inr tags'"
    for config' and w' :: "'i calib_world" and loader' gt' tags'
    using that by (simp add: load_cameras_def)
  show ?thesis
    by (intro exI [of _ cams] conjI run order' held allI impI) (rule later)
qed

definition demo_world :: "unit calib_world" where
  "demo_world =
     \<lparr>cw_gt_lines = Inr [''header'', gt_line (demo_gt_row ''cam0'' 1)], cw_tag_lines = Inr [''header''],
      cw_listing = (\<lambda>n. if n = ''cam0'' then [(''1.jpg'', ())] else []), cw_detect = (\<lambda>_. Inr [(5, [(0, 0), (1, 0), (1, 1), (0, 1)])])\<rparr>"

lemma demo_gt:
  "read_camera_gt_data (\<lambda>_. Inr eye) (\<lambda>A. A) [''header'', gt_line (demo_gt_row ''cam0'' 1)] =
   (let T = row_pose (\<lambda>_. eye) (demo_gt_row ''cam0'' 1)
    in Inr [(''cam0'', \<lparr>gc_K = row_intrinsics (demo_gt_row ''cam0'' 1), gc_d = [0, 0, 0, 0], gc_poses = [(1, T)],
              gc_pose_rig_cam = Some (matmul T T)\<rparr>)])"
proof -
  have ok: "gt_row_ok (demo_gt_row ''cam0'' 1)" by code_simp
  show ?thesis
    using read_gt_row [OF ok, of "\<lambda>_. Inr eye" "\<lambda>_. eye" "[]"]
    by (simp add: read_camera_gt_data_def relative_poses_def gt_pose_def Let_def) (simp add: demo_gt_row_def)
qed

theorem cameras_hold_the_images_witness:
  "\<exists>cams. load_cameras (\<lambda>_. Inr eye) (\<lambda>A. A) (calib_config [''cam1'', ''cam0''] ''cam0'' ''/data'') demo_world None = (Inr cams, Some cams) \<and>
    map fst cams = [''cam0''] \<and> map_option (map vw_index \<circ> cc_views) (map_of cams ''cam0'') = Some [1]"
proof -
  let ?frames = "\<lambda>n. if n = ''cam0'' then [(1::int, ())] else []"
  let ?T = "row_pose (\<lambda>_. eye) (demo_gt_row ''cam0'' 1)"
  let ?gt = "[(''cam0'', \<lparr>gc_K = row_intrinsics (demo_gt_row ''cam0'' 1), gc_d = [0, 0, 0, 0], gc_poses = [(1, ?T)],
      gc_pose_rig_cam = Some (matmul ?T ?T)\<rparr>)]"
  let ?D = "\<lambda>_::unit. [(5::int, [(0::real, 0::real), (1, 0), (1, 1), (0, 1)])]"
  have name: "image_name 1 = ''1.jpg''" by code_simp
  have "cw_listing demo_world n = map (\<lambda>(k, img). (image_name k, img)) (?frames n)" for n
    by (simp add: demo_world_def name)
  moreover have "res_bind (cw_gt_lines demo_world) (read_camera_gt_data (\<lambda>_. Inr eye) (\<lambda>A. A)) = Inr ?gt"
    by (simp add: demo_world_def demo_gt Let_def)
  moreover have "res_bind (cw_tag_lines demo_world) (read_tag_data (\<lambda>_. Inr eye)) = Inr []"
    by (simp add: demo_world_def read_tag_data_def)
  moreover have "image_ok ?gt (\<lambda>_. ?T) ?D (cw_detect demo_world) (n, k, img)" if "(k, img) \<in> set (?frames n)" for n k img
    using that by (auto simp: image_ok_def gt_pose_def demo_world_def split: if_splits)
  ultimately obtain cams where
    cams: "load_cameras (\<lambda>_. Inr eye) (\<lambda>A. A) (calib_config [''cam1'', ''cam0''] ''cam0'' ''/data'') demo_world None = (Inr cams, Some cams)"
      "map fst cams = filter (\<lambda>n. ?frames n \<noteq> []) [''cam1'', ''cam0'']"
    and views: "\<And>n c. map_of cams n = Some c \<Longrightarrow> cc_views c = map (\<lambda>(k, img). image_view (\<lambda>_. ?T) ?D [] k img) (in_name_order (?frames n))"
    using cameras_hold_the_images [of demo_world ?frames "[''cam1'', ''cam0'']" "\<lambda>_. Inr eye" "\<lambda>A. A" ?gt "[]" "\<lambda>_. ?T" ?D "''cam0''" "''/data''"]
    by fastforce
  obtain c where "cams = [(''cam0'', c)]" using cams(2) by (cases cams) auto
  then show ?thesis
    using cams views [of "''cam0''" c] by (simp add: in_name_order_def image_view_def)
qed

end
