(* ===== verification/Raw_Events.thy ===== *)
theory Raw_Events imports Event_Video Event_Recorder begin

text \<open>
  \<open>visualize_events.py\<close>: decoding a RAW recording chunk by chunk, dropping events outside the
  sensor and isolated ones, and accumulating the heat maps, the rate and the frames of the GIF.
  The iterator of the Metavision SDK is the list of what its turns yield; the drawing of the
  figure and the encoding of the GIF are left out, what they are given is the result.
\<close>

section \<open>The program\<close>

record raw_args =
  ra_delta_t_ms :: real
  ra_gif :: bool
  ra_denoise_us :: real
  ra_denoise_radius :: nat
  ra_min_neighbors :: nat

type_synonym heat_map = "nat \<Rightarrow> nat \<Rightarrow> int"

record raw_state =
  rs_heat_pos :: heat_map
  rs_heat_neg :: heat_map
  rs_chunk_counts :: "nat list"
  rs_gif_frames :: "video_frame list"
  rs_last_active :: activity_grid
  rs_before :: nat
  rs_invalid :: nat
  rs_total :: nat
  rs_pos :: nat
  rs_neg :: nat
  rs_stopped :: string

definition new_raw_state :: "nat \<Rightarrow> nat \<Rightarrow> raw_state" where
  "new_raw_state height width =
     \<lparr>rs_heat_pos = \<lambda>_ _. 0, rs_heat_neg = \<lambda>_ _. 0, rs_chunk_counts = [], rs_gif_frames = [],
      rs_last_active = \<lparr>ag_height = height, ag_width = width, ag_time = \<lambda>_ _. - (10 ^ 15)\<rparr>,
      rs_before = 0, rs_invalid = 0, rs_total = 0, rs_pos = 0, rs_neg = 0, rs_stopped = []\<rparr>"

definition on_sensor :: "nat \<Rightarrow> nat \<Rightarrow> raw_event \<Rightarrow> bool" where
  "on_sensor height width e \<longleftrightarrow> unat (re_x e) < width \<and> unat (re_y e) < height"

definition raw_pixel :: "raw_event \<Rightarrow> pixel_event" where
  "raw_pixel e = \<lparr>pe_x = unat (re_x e), pe_y = unat (re_y e), pe_t = of_int (re_t e)\<rparr>"

text \<open>\<open>np.add.at(heat, (y, x), 1)\<close> and the assignment of one channel of a frame.\<close>

definition add_at :: "raw_event \<Rightarrow> heat_map \<Rightarrow> heat_map" where
  "add_at e heat =
     (let y = unat (re_y e); x = unat (re_x e) in heat(y := (heat y)(x := heat y x + 1)))"

definition light_raw :: "nat \<Rightarrow> raw_event \<Rightarrow> video_frame \<Rightarrow> video_frame" where
  "light_raw channel e f =
     (let y = unat (re_y e); x = unat (re_x e) in f(y := (f y)(x := (f y x)(channel := 255))))"

definition raw_frame :: "raw_event list \<Rightarrow> video_frame" where
  "raw_frame evs =
     fold (light_raw 2) (filter (\<lambda>e. re_p e \<noteq> 1) evs) (fold (light_raw 0) (filter (\<lambda>e. re_p e = 1) evs) black_frame)"

definition raw_mask :: "raw_args \<Rightarrow> raw_event list \<Rightarrow> (activity_grid, bool list) meth" where
  "raw_mask args evs =
     (if ra_denoise_us args > 0 \<and> evs \<noteq> []
      then denoise_keep_mask (ra_denoise_us args) (ra_denoise_radius args) (ra_min_neighbors args) (map raw_pixel evs)
      else m_return (replicate (length evs) True))"

text \<open>The accumulation of the events that are left of a chunk.\<close>

definition accumulate :: "raw_args \<Rightarrow> raw_event list \<Rightarrow> raw_state \<Rightarrow> raw_state" where
  "accumulate args evs s =
     (let pos = filter (\<lambda>e. re_p e = 1) evs; neg = filter (\<lambda>e. re_p e \<noteq> 1) evs
      in s\<lparr>rs_chunk_counts := rs_chunk_counts s @ [length evs],
           rs_heat_pos := fold add_at pos (rs_heat_pos s), rs_heat_neg := fold add_at neg (rs_heat_neg s),
           rs_gif_frames := (if ra_gif args then rs_gif_frames s @ [raw_frame evs] else rs_gif_frames s),
           rs_total := rs_total s + length evs, rs_pos := rs_pos s + length pos, rs_neg := rs_neg s + length neg\<rparr>)"

text \<open>An empty rest of a chunk counts zero and gives a black frame, as \<open>accumulate\<close> does.\<close>

definition decode_chunk :: "raw_args \<Rightarrow> nat \<Rightarrow> nat \<Rightarrow> raw_event list \<Rightarrow> (raw_state, unit) meth" where
  "decode_chunk args height width evs s =
     (let valid = filter (on_sensor height width) evs;
          s1 = s\<lparr>rs_invalid := rs_invalid s + length (filter (Not \<circ> on_sensor height width) evs),
                 rs_before := rs_before s + length valid\<rparr>
      in case raw_mask args valid (rs_last_active s) of
           (Inl e, g) \<Rightarrow> (Inl e, s1\<lparr>rs_last_active := g\<rparr>)
         | (Inr keep, g) \<Rightarrow> (Inr (), accumulate args (masked keep valid) (s1\<lparr>rs_last_active := g\<rparr>)))"

text \<open>Corrupted data ends the loop with what was decoded before; another exception leaves the script.\<close>

fun decode_loop :: "raw_args \<Rightarrow> nat \<Rightarrow> nat \<Rightarrow> stream_item list \<Rightarrow> (raw_state, unit) meth" where
  "decode_loop args height width [] = m_return ()"
| "decode_loop args height width (item # items) =
     (case item of
        StreamEnd \<Rightarrow> m_return ()
      | Inconsistent reason \<Rightarrow> m_modify (\<lambda>s. s\<lparr>rs_stopped := reason\<rparr>)
      | StreamError e \<Rightarrow> m_raise e
      | Chunk evs \<Rightarrow> m_seq (decode_chunk args height width evs) (decode_loop args height width items))"

text \<open>The colours of the heat map, logarithmic and relative to the hottest pixel.\<close>

definition heat_max :: "nat \<Rightarrow> nat \<Rightarrow> heat_map \<Rightarrow> int" where
  "heat_max height width heat =
     foldr max (map (\<lambda>(y, x). heat y x) (List.product [0..<height] [0..<width])) 0"

definition heat_colour :: "nat \<Rightarrow> nat \<Rightarrow> heat_map \<Rightarrow> nat \<Rightarrow> nat \<Rightarrow> real" where
  "heat_colour height width heat y x =
     (let m = heat_max height width heat
      in if m > 0 then ln (1 + of_int (heat y x)) / ln (1 + of_int m) else 0)"

record raw_report =
  rr_total :: nat
  rr_pos :: nat
  rr_neg :: nat
  rr_duration_s :: real
  rr_rate :: real
  rr_dropped :: "(nat \<times> nat \<times> real) option"
  rr_invalid :: nat
  rr_stopped :: string
  rr_red :: "nat \<Rightarrow> nat \<Rightarrow> real"
  rr_blue :: "nat \<Rightarrow> nat \<Rightarrow> real"
  rr_rate_plot :: "(real \<times> nat) list"

definition raw_summary :: "raw_args \<Rightarrow> nat \<Rightarrow> nat \<Rightarrow> raw_state \<Rightarrow> raw_report" where
  "raw_summary args height width s =
     (let duration_s = of_nat (length (rs_chunk_counts s)) * ra_delta_t_ms args / 1000;
          dropped = rs_before s - rs_total s
      in \<lparr>rr_total = rs_total s, rr_pos = rs_pos s, rr_neg = rs_neg s, rr_duration_s = duration_s,
          rr_rate = (if duration_s > 0 then of_nat (rs_total s) / duration_s else 0),
          rr_dropped = (if ra_denoise_us args > 0
            then Some (dropped, rs_before s, if rs_before s > 0 then of_nat dropped / of_nat (rs_before s) * 100 else 0)
            else None),
          rr_invalid = rs_invalid s, rr_stopped = rs_stopped s,
          rr_red = heat_colour height width (rs_heat_pos s), rr_blue = heat_colour height width (rs_heat_neg s),
          rr_rate_plot = zip (map (\<lambda>k. of_nat k * ra_delta_t_ms args) [0..<length (rs_chunk_counts s)]) (rs_chunk_counts s)\<rparr>)"

text \<open>
  The script, from the opened iterator to the files it saves: the figure, then the GIF, whose first
  frame is \<open>pil_frames[0]\<close>. The largest element of an empty array raises.
\<close>

datatype raw_output = Figure raw_report | Gif real "video_frame list"

definition visualize_raw :: "raw_args \<Rightarrow> nat \<times> nat \<Rightarrow> stream_item list \<Rightarrow> (raw_output list, unit) meth" where
  "visualize_raw args shape items out =
     (case shape of (height, width) \<Rightarrow>
        case decode_loop args height width items (new_raw_state height width) of
          (Inl e, _) \<Rightarrow> (Inl e, out)
        | (Inr _, s) \<Rightarrow>
          if height = 0 \<or> width = 0 then
            (Inl (ValueError ''zero-size array to reduction operation maximum which has no identity''), out)
          else
            let out1 = out @ [Figure (raw_summary args height width s)]
            in if \<not> ra_gif args then (Inr (), out1)
               else if rs_gif_frames s = [] then (Inl IndexError, out1)
               else (Inr (), out1 @ [Gif (ra_delta_t_ms args) (rs_gif_frames s)]))"

section \<open>What is drawn\<close>

lemma fold_add_at:
  "fold add_at evs heat y x = heat y x + int (length (filter (\<lambda>e. unat (re_y e) = y \<and> unat (re_x e) = x) evs))"
  by (induction evs arbitrary: heat) (auto simp: add_at_def Let_def)

lemma fold_light_raw:
  "fold (light_raw c) evs f y x d =
     (if d = c \<and> (\<exists>e \<in> set evs. unat (re_y e) = y \<and> unat (re_x e) = x) then 255 else f y x d)"
  by (induction evs arbitrary: f) (auto simp: light_raw_def Let_def)

lemma raw_frame_pixel:
  "raw_frame evs y x d = 255 \<longleftrightarrow>
     (\<exists>e \<in> set evs. unat (re_y e) = y \<and> unat (re_x e) = x \<and> d = (if re_p e = 1 then 0 else 2))"
  by (auto simp: raw_frame_def fold_light_raw black_frame_def)

lemma length_filter_split: "length (filter P xs) + length (filter (Not \<circ> P) xs) = length xs"
  using sum_length_filter_compl [of P xs] by (simp add: comp_def)

text \<open>The events on the sensor of the whole recording, and those of them the filter keeps.\<close>

definition sensed :: "nat \<Rightarrow> nat \<Rightarrow> raw_event list list \<Rightarrow> raw_event list" where
  "sensed height width cs = filter (on_sensor height width) (concat cs)"

definition raw_supported :: "raw_args \<Rightarrow> activity_grid \<Rightarrow> raw_event list \<Rightarrow> nat \<Rightarrow> bool" where
  "raw_supported args g evs i \<longleftrightarrow>
     (ra_denoise_us args > 0 \<longrightarrow>
        supported (ra_denoise_us args) (ra_denoise_radius args) (ra_min_neighbors args) g
          (map raw_pixel (take i evs)) (raw_pixel (evs ! i)))"

definition kept_events :: "raw_args \<Rightarrow> activity_grid \<Rightarrow> raw_event list \<Rightarrow> raw_event list" where
  "kept_events args g evs = masked (map (raw_supported args g evs) [0..<length evs]) evs"

definition seen_grid :: "raw_args \<Rightarrow> activity_grid \<Rightarrow> raw_event list \<Rightarrow> activity_grid" where
  "seen_grid args g evs = (if ra_denoise_us args > 0 then g\<lparr>ag_time := last_seen g (map raw_pixel evs)\<rparr> else g)"

lemma masked_append:
  "length ks = length xs \<Longrightarrow> masked (ks @ ls) (xs @ ys) = masked ks xs @ masked ls ys"
  by (simp add: masked_def)

lemma masked_subseq: "length ks = length xs \<Longrightarrow> set (masked ks xs) \<subseteq> set xs"
  by (auto simp: masked_def dest: set_zip_rightD)

lemma masked_length: "length (masked ks xs) \<le> length xs"
  unfolding masked_def by (metis length_filter_le length_map length_zip min.bounded_iff)

lemma kept_events_append:
  "kept_events args g (xs @ ys) = kept_events args g xs @ kept_events args (seen_grid args g xs) ys"
proof -
  let ?g = "seen_grid args g xs"
  have seen: "last_seen ?g ms = last_seen g (map raw_pixel xs @ ms)" if "ra_denoise_us args > 0" for ms
    using that by (simp add: seen_grid_def last_seen_def fun_eq_iff Let_def)
  have "around ?g = around g" by (simp add: seen_grid_def around_def fun_eq_iff)
  then have later: "raw_supported args g (xs @ ys) (length xs + i) = raw_supported args ?g ys i" if "i < length ys" for i
    using seen by (auto simp: raw_supported_def supported_def)
  have first: "raw_supported args g (xs @ ys) i = raw_supported args g xs i" if "i < length xs" for i
    using that by (simp add: raw_supported_def nth_append)
  have "[0..<length (xs @ ys)] = [0..<length xs] @ map (\<lambda>i. length xs + i) [0..<length ys]"
    using map_add_upt [of "length xs" "length ys"] upt_add_eq_append [of 0 "length xs" "length ys"] by (simp add: add.commute)
  then have "map (raw_supported args g (xs @ ys)) [0..<length (xs @ ys)] =
      map (raw_supported args g xs) [0..<length xs] @ map (raw_supported args ?g ys) [0..<length ys]"
    using first later by simp
  then show ?thesis by (simp add: kept_events_def masked_append)
qed

lemma raw_mask_run:
  assumes "\<forall>e \<in> set evs. in_grid g (raw_pixel e)"
  shows "raw_mask args evs g = (Inr (map (raw_supported args g evs) [0..<length evs]), seen_grid args g evs)"
proof (cases "ra_denoise_us args > 0 \<and> evs \<noteq> []")
  case True
  have "denoise_keep_mask (ra_denoise_us args) (ra_denoise_radius args) (ra_min_neighbors args) (map raw_pixel evs) g =
      (Inr (map (\<lambda>i. supported (ra_denoise_us args) (ra_denoise_radius args) (ra_min_neighbors args) g
          (take i (map raw_pixel evs)) (map raw_pixel evs ! i)) [0..<length (map raw_pixel evs)]),
       g\<lparr>ag_time := last_seen g (map raw_pixel evs)\<rparr>)"
    using assms by (intro denoise_mask_run) simp
  then show ?thesis using True by (auto simp: raw_mask_def raw_supported_def seen_grid_def take_map)
next
  case False
  have "map (raw_supported args g evs) [0..<length evs] = replicate (length evs) True"
    using False by (auto simp: raw_supported_def intro!: nth_equalityI)
  moreover have "seen_grid args g evs = g" using False by (auto simp: seen_grid_def)
  ultimately show ?thesis using False by (simp add: raw_mask_def)
qed

text \<open>The chunks after the filter; together they are the kept events of the recording.\<close>

fun kept_chunks :: "raw_args \<Rightarrow> nat \<Rightarrow> nat \<Rightarrow> activity_grid \<Rightarrow> raw_event list list \<Rightarrow> raw_event list list" where
  "kept_chunks args height width g [] = []"
| "kept_chunks args height width g (c # cs) =
     (let valid = filter (on_sensor height width) c
      in kept_events args g valid # kept_chunks args height width (seen_grid args g valid) cs)"

lemma kept_events_Nil [simp]: "kept_events args g [] = []"
  by (simp add: kept_events_def masked_def)

lemma concat_kept_chunks: "concat (kept_chunks args height width g cs) = kept_events args g (sensed height width cs)"
  by (induction cs arbitrary: g) (simp_all add: sensed_def kept_events_append Let_def)

lemma length_kept_chunks [simp]: "length (kept_chunks args height width g cs) = length cs"
  by (induction cs arbitrary: g) (simp_all add: Let_def)

lemma kept_chunks_within: "list_all2 (\<lambda>k c. set k \<subseteq> set c) (kept_chunks args height width g cs) cs"
proof (induction cs arbitrary: g)
  case (Cons c cs)
  have "set (kept_events args g (filter (on_sensor height width) c)) \<subseteq> set c"
    unfolding kept_events_def
    using masked_subseq [of "map (raw_supported args g (filter (on_sensor height width) c)) [0..<length (filter (on_sensor height width) c)]"
        "filter (on_sensor height width) c"] by auto
  then show ?case using Cons by (simp add: Let_def)
qed simp

text \<open>What the loop has accumulated after chunks whose rests are \<open>ks\<close>.\<close>

definition accumulated :: "raw_args \<Rightarrow> nat \<Rightarrow> nat \<Rightarrow> raw_event list list \<Rightarrow> raw_event list list \<Rightarrow> raw_state \<Rightarrow> raw_state" where
  "accumulated args height width cs ks s =
     (let pos = filter (\<lambda>e. re_p e = 1) (concat ks); neg = filter (\<lambda>e. re_p e \<noteq> 1) (concat ks)
      in s\<lparr>rs_heat_pos := fold add_at pos (rs_heat_pos s), rs_heat_neg := fold add_at neg (rs_heat_neg s),
           rs_chunk_counts := rs_chunk_counts s @ map length ks,
           rs_gif_frames := rs_gif_frames s @ (if ra_gif args then map raw_frame ks else []),
           rs_last_active := seen_grid args (rs_last_active s) (sensed height width cs),
           rs_before := rs_before s + length (sensed height width cs),
           rs_invalid := rs_invalid s + length (filter (Not \<circ> on_sensor height width) (concat cs)),
           rs_total := rs_total s + length (concat ks), rs_pos := rs_pos s + length pos, rs_neg := rs_neg s + length neg\<rparr>)"

lemma seen_grid_append: "seen_grid args (seen_grid args g xs) ys = seen_grid args g (xs @ ys)"
  by (simp add: seen_grid_def last_seen_def fun_eq_iff Let_def)

lemma in_grid_seen: "in_grid (seen_grid args g xs) = in_grid g"
  by (simp add: seen_grid_def in_grid_def fun_eq_iff)

lemma decode_chunk_run:
  assumes "\<And>e. on_sensor height width e \<Longrightarrow> in_grid (rs_last_active s) (raw_pixel e)"
  shows "decode_chunk args height width c s =
    (Inr (), accumulated args height width [c] (kept_chunks args height width (rs_last_active s) [c]) s)"
proof -
  have "\<forall>e \<in> set (filter (on_sensor height width) c). in_grid (rs_last_active s) (raw_pixel e)"
    using assms by simp
  then show ?thesis
    by (simp add: decode_chunk_def raw_mask_run accumulate_def accumulated_def sensed_def kept_events_def Let_def)
qed

lemma accumulated_append:
  "accumulated args height width cs' ks' (accumulated args height width cs ks s) = accumulated args height width (cs @ cs') (ks @ ks') s"
  by (simp add: accumulated_def sensed_def seen_grid_append Let_def add.assoc)

lemma accumulated_grid [simp]:
  "rs_last_active (accumulated args height width cs ks s) = seen_grid args (rs_last_active s) (sensed height width cs)"
  by (simp add: accumulated_def Let_def)

definition ending_reason :: "stream_item \<Rightarrow> string option" where
  "ending_reason item = (case item of StreamEnd \<Rightarrow> Some [] | Inconsistent reason \<Rightarrow> Some reason | _ \<Rightarrow> None)"

lemma decode_loop_run:
  assumes "\<And>e. on_sensor height width e \<Longrightarrow> in_grid (rs_last_active s) (raw_pixel e)"
    and "ending_reason item = Some reason" and "rs_stopped s = []"
  shows "decode_loop args height width (map Chunk cs @ item # rest) s =
    (Inr (), (accumulated args height width cs (kept_chunks args height width (rs_last_active s) cs) s)\<lparr>rs_stopped := reason\<rparr>)"
  using assms
proof (induction cs arbitrary: s)
  case Nil
  then show ?case
    by (cases item) (auto simp: ending_reason_def accumulated_def sensed_def seen_grid_def last_seen_def)
next
  case (Cons c cs)
  let ?s = "accumulated args height width [c] (kept_chunks args height width (rs_last_active s) [c]) s"
  have "decode_loop args height width (map Chunk cs @ item # rest) ?s =
      (Inr (), (accumulated args height width cs (kept_chunks args height width (rs_last_active ?s) cs) ?s)\<lparr>rs_stopped := reason\<rparr>)"
    using Cons.prems by (intro Cons.IH) (simp_all add: in_grid_seen, simp add: accumulated_def Let_def)
  then show ?case
    using decode_chunk_run [OF Cons.prems(1)]
    by (simp add: m_seq_def m_bind_def accumulated_append Let_def sensed_def)
qed



section \<open>The colours\<close>

lemma heat_max_ge:
  assumes "y < height" and "x < width"
  shows "heat y x \<le> heat_max height width heat"
proof -
  have above: "v \<in> set vs \<Longrightarrow> v \<le> foldr max vs (0::int)" for v vs by (induction vs) auto
  have "(y, x) \<in> set (List.product [0..<height] [0..<width])" using assms by simp
  then have "heat y x \<in> set (map (\<lambda>(y, x). heat y x) (List.product [0..<height] [0..<width]))"
    unfolding set_map by (rule rev_image_eqI) simp
  then show ?thesis unfolding heat_max_def by (rule above)
qed

lemma heat_max_attained:
  "0 < heat_max height width heat \<Longrightarrow> \<exists>y < height. \<exists>x < width. heat y x = heat_max height width heat"
proof -
  have "0 < foldr max vs (0::int) \<Longrightarrow> foldr max vs 0 \<in> set vs" for vs by (induction vs) (auto simp: max_def split: if_splits)
  then show "0 < heat_max height width heat \<Longrightarrow> \<exists>y < height. \<exists>x < width. heat y x = heat_max height width heat"
    unfolding heat_max_def by (force simp: set_product)
qed

text \<open>
  The heat map is a picture of the counts: for counts that are not negative every colour is between
  zero and one, a pixel is black exactly if it saw nothing, of two pixels the one that saw more
  is brighter, and if anything was seen the hottest pixel has full brightness.
\<close>

theorem heat_colours_rank_activity:
  assumes nonneg: "\<And>y x. 0 \<le> heat y x" and p: "y < height" "x < width" and q: "y' < height" "x' < width"
  shows "0 \<le> heat_colour height width heat y x \<and> heat_colour height width heat y x \<le> 1 \<and>
    (heat_colour height width heat y x = 0 \<longleftrightarrow> heat y x = 0) \<and>
    (heat_colour height width heat y x < heat_colour height width heat y' x' \<longleftrightarrow> heat y x < heat y' x') \<and>
    (heat y x > 0 \<longrightarrow> (\<exists>y < height. \<exists>x < width. heat_colour height width heat y x = 1))"
proof -
  let ?m = "heat_max height width heat"
  note le = heat_max_ge [OF p, of heat] heat_max_ge [OF q, of heat]
  show ?thesis
  proof (cases "?m > 0")
    case False
    then have "heat y x = 0" "heat y' x' = 0" using le nonneg [of y x] nonneg [of y' x'] by simp_all
    then show ?thesis using False by (simp add: heat_colour_def)
  next
    case True
    have m: "0 < ln (1 + real_of_int ?m)" using True by simp
    have bounds: "0 \<le> ln (1 + real_of_int (heat y x))" "ln (1 + real_of_int (heat y x)) \<le> ln (1 + real_of_int ?m)"
      using le nonneg [of y x] by simp_all
    obtain v u where "v < height" "u < width" "heat v u = ?m" using heat_max_attained [OF True] by blast
    then have "heat_colour height width heat v u = 1" using m True by (simp add: heat_colour_def)
    moreover have "ln (1 + real_of_int (heat y x)) < ln (1 + real_of_int (heat y' x')) \<longleftrightarrow> heat y x < heat y' x'"
      using nonneg [of y x] nonneg [of y' x'] by simp
    moreover have "ln (1 + real_of_int (heat y x)) = 0 \<longleftrightarrow> heat y x = 0"
      using nonneg [of y x] by (subst ln_eq_zero_iff) simp_all
    ultimately show ?thesis
      using True m bounds \<open>v < height\<close> \<open>u < width\<close>
      by (auto simp: heat_colour_def divide_less_cancel)
  qed
qed

definition demo_heat :: heat_map where
  "demo_heat = (\<lambda>y x. if y = 0 \<and> x = 2 then 7 else 0)"

theorem heat_colours_rank_activity_witness:
  "heat_colour 2 3 demo_heat 1 1 < heat_colour 2 3 demo_heat 0 2 \<and> heat_colour 2 3 demo_heat 0 2 \<le> 1"
proof -
  have "0 \<le> demo_heat y x" for y x by (simp add: demo_heat_def)
  moreover have "demo_heat 1 1 < demo_heat 0 2" by (simp add: demo_heat_def)
  ultimately show ?thesis
    using heat_colours_rank_activity [of demo_heat 1 2 1 3 0 2] heat_colours_rank_activity [of demo_heat 0 2 2 3 0 2] by simp
qed

end
