(* ===== verification/Imu_Spectrum.thy ===== *)
theory Imu_Spectrum imports Running_Stats Py_Strings Byte_Codec "HOL-Library.List_Lexorder" begin

text \<open>
  The log plots: \<open>plot_imu_fft.py\<close> (sample rate, windowed Fourier spectrum, choice of the topics)
  and \<open>plot_log.py\<close> (which series and which frame are shown). The log file, read by the C++
  module \<open>core\<close>, is a parameter, and so is OpenCV's decoding; drawing is left out.
\<close>

section \<open>NumPy\<close>

definition np_diff :: "real list \<Rightarrow> real list" where
  "np_diff ts = map (\<lambda>(a, b). b - a) (zip ts (tl ts))"

text \<open>\<open>np.median\<close> of a non-empty array.\<close>

definition np_median :: "real list \<Rightarrow> real" where
  "np_median xs =
     (let ys = sort xs; n = length xs
      in if odd n then ys ! (n div 2) else (ys ! (n div 2 - 1) + ys ! (n div 2)) / 2)"

text \<open>\<open>np.hanning(m)\<close> for at least two points, \<open>np.fft.rfftfreq\<close> and \<open>np.fft.rfft\<close>.\<close>

definition np_hanning :: "nat \<Rightarrow> real list" where
  "np_hanning m = map (\<lambda>j. 1/2 + 1/2 * cos (pi * (of_int (1 - int m + 2 * int j)) / (of_nat m - 1))) [0..<m]"

definition rfftfreq :: "nat \<Rightarrow> real \<Rightarrow> real list" where
  "rfftfreq n d = map (\<lambda>k. of_nat k / (of_nat n * d)) [0..<n div 2 + 1]"

definition rfft_bin :: "real list \<Rightarrow> nat \<Rightarrow> complex" where
  "rfft_bin xs k = (\<Sum>j\<leftarrow>[0..<length xs]. of_real (xs ! j) * cis (- 2 * pi * of_nat j * of_nat k / of_nat (length xs)))"

definition rfft :: "real list \<Rightarrow> complex list" where
  "rfft xs = map (rfft_bin xs) [0..<length xs div 2 + 1]"

section \<open>The spectrum\<close>

definition estimate_sample_rate_hz :: "int list \<Rightarrow> real res" where
  "estimate_sample_rate_hz timestamp_ns =
     (let timestamps = map real_of_int timestamp_ns
      in if length timestamps < 2 then Inl (ValueError ''Need at least two timestamps to estimate a sample rate'')
         else
           let positive_deltas_ns = filter (\<lambda>d. d > 0) (np_diff timestamps)
           in if positive_deltas_ns = [] then Inl (ValueError ''Timestamps do not advance monotonically'')
              else
                let median_period_s = np_median positive_deltas_ns / 1000000000
                in if median_period_s \<le> 0 then Inl (ValueError ''Estimated sample period must be positive'')
                   else Inr (1 / median_period_s))"

record fft_spectrum =
  fs_frequency_hz :: "real list"
  fs_magnitude_db :: "real list"
  fs_sample_rate_hz :: real

definition imu_fft_min_mag_db :: real where
  "imu_fft_min_mag_db = - 120"

text \<open>\<open>centered * window\<close>, and the window, which is replaced where it vanishes.\<close>

definition fft_window :: "nat \<Rightarrow> real list" where
  "fft_window n = (let w = np_hanning n in if list_ex (\<lambda>x. x \<noteq> 0) w then w else replicate n 1)"

definition windowed_samples :: "real list \<Rightarrow> real list" where
  "windowed_samples samples = map2 (\<lambda>x w. (x - np_mean samples) * w) samples (fft_window (length samples))"

definition normalization :: "nat \<Rightarrow> real" where
  "normalization n = (let s = sum_list (fft_window n) / 2 in if s \<le> 0 then of_nat n / 2 else s)"

definition magnitude_db :: "real \<Rightarrow> real" where
  "magnitude_db m = 20 * log 10 (max m (10 powr (imu_fft_min_mag_db / 20)))"

definition compute_fft_spectrum :: "real list \<Rightarrow> real \<Rightarrow> fft_spectrum res" where
  "compute_fft_spectrum samples sample_rate_hz =
     (if length samples < 2 then Inl (ValueError ''Need at least two samples to compute an FFT'')
      else if sample_rate_hz \<le> 0 then Inl (ValueError ''Sample rate must be positive'')
      else Inr \<lparr>fs_frequency_hz = rfftfreq (length samples) (1 / sample_rate_hz),
                fs_magnitude_db = map (\<lambda>z. magnitude_db (cmod z / normalization (length samples))) (rfft (windowed_samples samples)),
                fs_sample_rate_hz = sample_rate_hz\<rparr>)"

record imu_series =
  is_timestamp_ns :: "int list"
  is_x :: "real list"
  is_y :: "real list"
  is_z :: "real list"

definition imu_topic_fft :: "imu_series \<Rightarrow> (string \<times> fft_spectrum) list res" where
  "imu_topic_fft series =
     res_bind (estimate_sample_rate_hz (is_timestamp_ns series)) (\<lambda>rate.
       res_map (\<lambda>(axis, xs). res_bind (compute_fft_spectrum xs rate) (\<lambda>s. Inr (axis, s)))
         [(''x'', is_x series), (''y'', is_y series), (''z'', is_z series)])"

section \<open>The log\<close>

record log_file =
  lf_imu_topics :: "string list"
  lf_camera_topics :: "string list"
  lf_imu_data :: "string \<Rightarrow> imu_series option"
  lf_jpeg_data :: "string \<Rightarrow> byte list list option"

definition select_imu_topics :: "log_file \<Rightarrow> string list res" where
  "select_imu_topics log_data =
     (let topics = sort_key (\<lambda>s. map of_char s :: nat list) (lf_imu_topics log_data)
      in if length topics < 2 then Inl (ValueError (''Expected at least two IMU topics, found '' @ nat_str (length topics)))
         else Inr (take 2 topics))"

text \<open>The rows of the figure of \<open>plot_fft\<close>: a topic and the spectra of its axes.\<close>

definition plot_fft :: "log_file \<Rightarrow> (string \<times> (string \<times> fft_spectrum) list) list res" where
  "plot_fft log_data =
     res_bind (select_imu_topics log_data) (\<lambda>topics.
       res_map (\<lambda>topic. case lf_imu_data log_data topic of
           None \<Rightarrow> Inl (ValueError (''IMU topic '' @ quoted topic @ '' not found in log''))
         | Some series \<Rightarrow> res_bind (imu_topic_fft series) (\<lambda>s. Inr (topic, s))) topics)"

text \<open>\<open>plot_imu\<close>: the times in seconds of every topic that has data; no topics, no figure.\<close>

definition imu_plot_times :: "imu_series \<Rightarrow> real list res" where
  "imu_plot_times series =
     (case is_timestamp_ns series of
        [] \<Rightarrow> Inl IndexError
      | first # _ \<Rightarrow> Inr (map (\<lambda>t. of_int (t - first) / 1000000000) (is_timestamp_ns series)))"

definition plot_imu :: "log_file \<Rightarrow> (string \<times> real list) list res" where
  "plot_imu log_data =
     res_bind (res_map (\<lambda>topic. case lf_imu_data log_data topic of
         None \<Rightarrow> Inr None
       | Some series \<Rightarrow> res_bind (imu_plot_times series) (\<lambda>ts. Inr (Some (topic, ts)))) (lf_imu_topics log_data))
       (\<lambda>rows. Inr (List.map_filter id rows))"

text \<open>\<open>show_first_camera_frame\<close>; \<open>imdecode\<close> is \<open>None\<close> on data it cannot read.\<close>

definition show_first_camera_frame :: "bool \<Rightarrow> (byte list \<Rightarrow> 'i option) \<Rightarrow> log_file \<Rightarrow> (string \<times> 'i) option" where
  "show_first_camera_frame has_cv2 imdecode log_data =
     (case lf_camera_topics log_data of
        [] \<Rightarrow> None
      | topic # _ \<Rightarrow>
        if \<not> has_cv2 then None
        else case lf_jpeg_data log_data topic of
               None \<Rightarrow> None
             | Some [] \<Rightarrow> None
             | Some (jpeg # _) \<Rightarrow> map_option (\<lambda>image_data. (topic, image_data)) (imdecode jpeg))"

section \<open>The sample rate\<close>

lemma median_majority:
  assumes major: "length xs < 2 * length (filter (\<lambda>x. x = p) xs)"
  shows "np_median xs = (p :: real)"
proof -
  let ?ys = "sort xs" and ?n = "length xs"
  have count: "length (filter (\<lambda>x. x = p) ?ys) = length (filter (\<lambda>x. x = p) xs)"
    by (simp add: filter_sort)
  have few: "length (filter (\<lambda>x. x = p) ?ys) \<le> card {j. j < ?n \<and> ?ys ! j = p}"
    by (simp add: length_filter_conv_card)
  have mid: "?ys ! i = p" if i: "i < ?n" "?n \<le> 2 * i + 2" "2 * i \<le> ?n" for i
  proof (rule ccontr)
    assume "?ys ! i \<noteq> p"
    then consider "?ys ! i < p" | "p < ?ys ! i" by linarith
    then have "card {j. j < ?n \<and> ?ys ! j = p} * 2 \<le> ?n"
    proof cases
      case 1
      have "{j. j < ?n \<and> ?ys ! j = p} \<subseteq> {i<..<?n}"
      proof (clarsimp)
        fix j assume "j < ?n" "p = ?ys ! j"
        then show "i < j" using 1 sorted_nth_mono [of ?ys j i] i(1) by (metis length_sort linorder_not_less sorted_sort)
      qed
      then have "card {j. j < ?n \<and> ?ys ! j = p} \<le> card {i<..<?n}" by (intro card_mono) auto
      then show ?thesis using i by simp
    next
      case 2
      have "{j. j < ?n \<and> ?ys ! j = p} \<subseteq> {..<i}"
      proof (clarsimp)
        fix j assume "j < ?n" "p = ?ys ! j"
        then show "j < i" using 2 sorted_nth_mono [of ?ys i j] by (metis length_sort linorder_not_less sorted_sort)
      qed
      then have "card {j. j < ?n \<and> ?ys ! j = p} \<le> card {..<i}" by (intro card_mono) auto
      then show ?thesis using i by simp
    qed
    then show False using major few count by linarith
  qed
  have "0 < ?n" using major by (cases xs) auto
  show ?thesis
  proof (cases "odd ?n")
    case True
    then have "?ys ! (?n div 2) = p" using \<open>0 < ?n\<close> by (intro mid) (auto elim!: oddE)
    then show ?thesis using True by (simp add: np_median_def Let_def)
  next
    case False
    then obtain b where b: "?n = 2 * b" by (auto elim: evenE)
    then have "?ys ! (?n div 2) = p" "?ys ! (?n div 2 - 1) = p" using \<open>0 < ?n\<close> by (intro mid; simp)+
    then show ?thesis using False by (simp add: np_median_def Let_def)
  qed
qed

lemma median_bounds:
  assumes "xs \<noteq> []" and "\<And>x. x \<in> set xs \<Longrightarrow> a \<le> x \<and> x \<le> b"
  shows "a \<le> np_median xs \<and> np_median xs \<le> b"
proof -
  have n: "length xs div 2 < length xs" "length xs div 2 - 1 < length xs" using assms(1) by (simp_all add: less_imp_diff_less)
  have "a \<le> sort xs ! i \<and> sort xs ! i \<le> b" if "i < length xs" for i
    using assms(2) that by (metis length_sort nth_mem set_sort)
  from this [OF n(1)] this [OF n(2)] show ?thesis by (auto simp: np_median_def Let_def)
qed

text \<open>The steps of the clock that go forward, in nanoseconds.\<close>

definition forward_steps :: "int list \<Rightarrow> real list" where
  "forward_steps ts = filter (\<lambda>d. d > 0) (np_diff (map real_of_int ts))"

text \<open>
  The sample rate of an IMU log: it is found exactly if there are two timestamps and one step forward,
  it lies between the rates of the longest and of the shortest step, and as long as more than half
  of the steps have the nominal period it is exactly the nominal rate, whatever samples are missing
  and however the clock jumps.
\<close>

theorem sample_rate_survives_dropouts:
  assumes bounds: "\<And>d. d \<in> set (forward_steps ts) \<Longrightarrow> a \<le> d \<and> d \<le> b" and a: "0 < a"
  shows "((\<exists>r. estimate_sample_rate_hz ts = Inr r) \<longleftrightarrow> 2 \<le> length ts \<and> forward_steps ts \<noteq> []) \<and>
    (\<forall>r. estimate_sample_rate_hz ts = Inr r \<longrightarrow> 1000000000 / b \<le> r \<and> r \<le> 1000000000 / a) \<and>
    (2 \<le> length ts \<longrightarrow> length (forward_steps ts) < 2 * length (filter (\<lambda>d. d = p) (forward_steps ts)) \<longrightarrow>
       estimate_sample_rate_hz ts = Inr (1000000000 / p))"
proof -
  let ?ds = "forward_steps ts"
  have rate: "estimate_sample_rate_hz ts =
      (if length ts < 2 then Inl (ValueError ''Need at least two timestamps to estimate a sample rate'')
       else if ?ds = [] then Inl (ValueError ''Timestamps do not advance monotonically'')
       else Inr (1000000000 / np_median ?ds))"
    using median_bounds [of ?ds a b] bounds a by (auto simp: estimate_sample_rate_hz_def forward_steps_def Let_def)
  have "1000000000 / b \<le> 1000000000 / np_median ?ds \<and> 1000000000 / np_median ?ds \<le> 1000000000 / a" if "?ds \<noteq> []"
    using median_bounds [of ?ds a b] bounds a that by (auto intro!: divide_left_mono mult_pos_pos)
  moreover have "np_median ?ds = p" if "length ?ds < 2 * length (filter (\<lambda>d. d = p) ?ds)"
    using that by (rule median_majority)
  moreover have "?ds \<noteq> []" if "length ?ds < 2 * length (filter (\<lambda>d. d = p) ?ds)"
    using that by auto
  ultimately show ?thesis unfolding rate by auto
qed

theorem sample_rate_survives_dropouts_witness:
  "estimate_sample_rate_hz [0, 1250000, 2500000, 6250000, 7500000] = Inr 800"
proof -
  have steps: "forward_steps [0, 1250000, 2500000, 6250000, 7500000] = [1250000, 1250000, 3750000, 1250000]"
    by (simp add: forward_steps_def np_diff_def)
  have "1250000 \<le> d \<and> d \<le> 3750000" if "d \<in> set (forward_steps [0, 1250000, 2500000, 6250000, 7500000])" for d
    using that unfolding steps by auto
  from sample_rate_survives_dropouts [of "[0, 1250000, 2500000, 6250000, 7500000]" 1250000 3750000 1250000, OF this] steps show ?thesis by simp
qed

section \<open>The magnitudes\<close>

lemma hanning_nonneg: "x \<in> set (np_hanning n) \<Longrightarrow> 0 \<le> x"
proof -
  have "0 \<le> 1/2 + 1/2 * cos t" for t :: real using cos_ge_minus_one [of t] by linarith
  then show "x \<in> set (np_hanning n) \<Longrightarrow> 0 \<le> x" by (auto simp: np_hanning_def)
qed

lemma length_fft_window [simp]: "length (fft_window n) = n"
  by (simp add: fft_window_def np_hanning_def Let_def)

lemma fft_window_nonneg: "x \<in> set (fft_window n) \<Longrightarrow> 0 \<le> x"
  using hanning_nonneg by (auto simp: fft_window_def Let_def split: if_splits)

lemma fft_window_sum: "0 < n \<Longrightarrow> 0 < sum_list (fft_window n)"
proof (cases "list_ex (\<lambda>x. x \<noteq> 0) (np_hanning n)")
  case True
  then obtain w where "w \<in> set (np_hanning n)" "w \<noteq> 0" by (auto simp: list_ex_iff)
  moreover have "0 \<le> sum_list (np_hanning n)" using hanning_nonneg by (rule sum_list_nonneg)
  moreover have "sum_list (np_hanning n) \<noteq> 0"
    using calculation hanning_nonneg by (metis sum_list_nonneg_eq_0_iff)
  ultimately show ?thesis using True by (simp add: fft_window_def Let_def)
next
  case False
  assume "0 < n"
  then show ?thesis using False by (simp add: fft_window_def Let_def sum_list_replicate)
qed

lemma cmod_sum_list: "cmod (\<Sum>j\<leftarrow>js. f j) \<le> (\<Sum>j\<leftarrow>js. cmod (f j))"
  by (induction js) (simp_all add: norm_triangle_le)

lemma rfft_bin_le: "cmod (rfft_bin xs k) \<le> sum_list (map abs xs)"
proof -
  have "cmod (rfft_bin xs k) \<le> (\<Sum>j\<leftarrow>[0..<length xs]. cmod (of_real (xs ! j) * cis (- 2 * pi * of_nat j * of_nat k / of_nat (length xs))))"
    unfolding rfft_bin_def by (rule cmod_sum_list)
  also have "\<dots> = (\<Sum>j\<leftarrow>[0..<length xs]. \<bar>xs ! j\<bar>)" by (simp add: norm_mult)
  also have "\<dots> = sum_list (map abs xs)"
    by (metis (no_types, lifting) list.map_comp map_nth map_eq_conv comp_apply)
  finally show ?thesis .
qed

lemma magnitude_db_mono: "m \<le> n \<Longrightarrow> magnitude_db m \<le> magnitude_db n"
proof -
  let ?p = "10 powr (imu_fft_min_mag_db / 20)"
  assume "m \<le> n"
  then have "max m ?p \<le> max n ?p" "0 < max m ?p" by (auto simp: less_max_iff_disj)
  then show ?thesis
    unfolding magnitude_db_def using log_le_cancel_iff [of 10 "max m ?p" "max n ?p"] by simp
qed

lemma magnitude_db_floor: "- 120 \<le> magnitude_db m" "magnitude_db 0 = - 120"
proof -
  have zero: "magnitude_db 0 = - 120" by (simp add: magnitude_db_def imu_fft_min_mag_db_def)
  have low: "- 120 = magnitude_db (10 powr (imu_fft_min_mag_db / 20))"
    by (simp add: magnitude_db_def imu_fft_min_mag_db_def)
  have "magnitude_db (10 powr (imu_fft_min_mag_db / 20)) \<le> magnitude_db (max m (10 powr (imu_fft_min_mag_db / 20)))"
    by (rule magnitude_db_mono) simp
  also have "\<dots> = magnitude_db m" by (simp add: magnitude_db_def)
  finally show "- 120 \<le> magnitude_db m" using low by simp
  show "magnitude_db 0 = - 120" by (rule zero)
qed

lemma windowed_bound:
  assumes "\<And>x. x \<in> set xs \<Longrightarrow> \<bar>x - np_mean xs\<bar> \<le> A"
  shows "sum_list (map abs (windowed_samples xs)) \<le> A * sum_list (fft_window (length xs))"
proof -
  have "sum_list (map abs (map2 (\<lambda>x w. (x - m) * w) ys ws)) \<le> A * sum_list ws"
    if "length ys = length ws" "\<forall>w \<in> set ws. 0 \<le> w" "\<forall>y \<in> set ys. \<bar>y - m\<bar> \<le> A" for m ys ws
    using that
  proof (induction ys ws rule: list_induct2)
    case (Cons y ys w ws)
    then have "\<bar>(y - m) * w\<bar> \<le> A * w" by (simp add: abs_mult mult_right_mono)
    then show ?case using Cons by (simp add: distrib_left)
  qed simp
  then show ?thesis
    unfolding windowed_samples_def using assms fft_window_nonneg [of _ "length xs"] by simp
qed

lemma np_mean_shift: "xs \<noteq> [] \<Longrightarrow> np_mean (map (\<lambda>x. x + c) xs) = np_mean xs + c"
  by (simp add: np_mean_def sum_list_addf sum_list_triv divide_simps comp_def)

lemma windowed_shift: "windowed_samples (map (\<lambda>x. x + c) xs) = windowed_samples xs"
proof (cases "xs = []")
  case False
  then show ?thesis
    unfolding windowed_samples_def np_mean_shift [OF False] length_map zip_map1 map_map
    by (intro map_cong) auto
qed (simp add: windowed_samples_def)



end
