(* ===== verification/Recording_Scripts.thy ===== *)
theory Recording_Scripts imports Recording_Session "HOL-Library.AList" begin

text \<open>
  The recording scripts around the recorders and rigs: \<open>resource_monitor.py\<close>, the single-device
  scripts \<open>record_basler.py\<close>, \<open>record_event.py\<close> and \<open>record_imu.py\<close>, the summary of
  \<open>record_multi_rgb.py\<close> and the metadata of \<open>record.py\<close>. The wait between start and stop is what
  the recorders' threads do meanwhile; clocks, psutil and the sizes of files are parameters.
\<close>

section \<open>The resource monitor\<close>

record resource_sample =
  rm_wall_time_s :: real
  rm_cpu_percent :: real
  rm_ram_percent :: real
  rm_ram_used_mb :: real

record resource_monitor =
  rm_samples :: "resource_sample list"
  rm_thread :: bool
  rm_stop_event :: bool

definition new_monitor :: resource_monitor where
  "new_monitor = \<lparr>rm_samples = [], rm_thread = False, rm_stop_event = False\<rparr>"

definition monitor_start :: "bool \<Rightarrow> resource_monitor \<Rightarrow> resource_monitor" where
  "monitor_start has_psutil m = (if \<not> has_psutil then m else m\<lparr>rm_stop_event := False, rm_thread := True\<rparr>)"

definition monitor_stop :: "resource_monitor \<Rightarrow> resource_monitor" where
  "monitor_stop m = m\<lparr>rm_stop_event := True, rm_thread := False\<rparr>"

text \<open>A turn of the loop: whether the wait ended with the stop event, and what psutil and the clock say.\<close>

record monitor_turn =
  mt_stopped :: bool
  mt_monotonic :: real
  mt_cpu :: real
  mt_ram :: real
  mt_used :: int

fun monitor_loop :: "real \<Rightarrow> monitor_turn list \<Rightarrow> resource_monitor \<Rightarrow> resource_monitor" where
  "monitor_loop start [] m = m"
| "monitor_loop start (t # ts) m =
     (if mt_stopped t then m
      else monitor_loop start ts (m\<lparr>rm_samples := rm_samples m @
        [\<lparr>rm_wall_time_s = mt_monotonic t - start, rm_cpu_percent = mt_cpu t, rm_ram_percent = mt_ram t,
          rm_ram_used_mb = of_int (mt_used t) / (1024 * 1024)\<rparr>]\<rparr>))"

definition list_mean :: "real list \<Rightarrow> real" where
  "list_mean xs = sum_list xs / of_nat (length xs)"

definition list_max :: "real list \<Rightarrow> real" where
  "list_max xs = foldr max (tl xs) (hd xs)"

definition monitor_summary :: "resource_monitor \<Rightarrow> pyval" where
  "monitor_summary m =
     (if rm_samples m = [] then PDict [(''samples'', PInt 0)]
      else
        let cpu = map rm_cpu_percent (rm_samples m); ram_pct = map rm_ram_percent (rm_samples m);
            ram_mb = map rm_ram_used_mb (rm_samples m)
        in PDict [(''samples'', PInt (int (length (rm_samples m)))), (''cpu_percent_mean'', PFloat (list_mean cpu)),
             (''cpu_percent_max'', PFloat (list_max cpu)), (''ram_percent_mean'', PFloat (list_mean ram_pct)),
             (''ram_used_mb_max'', PFloat (list_max ram_mb))])"

section \<open>Files\<close>

text \<open>\<open>load_yaml\<close>, and the text of a metadata file before \<open>json.dumps\<close>.\<close>

definition load_yaml :: "(string \<Rightarrow> pyval res) \<Rightarrow> string \<Rightarrow> pyval res" where
  "load_yaml safe_load path = res_bind (safe_load path) (\<lambda>v. Inr (py_or v (PDict [])))"

definition metadata_payload :: "string \<Rightarrow> (string \<times> pyval) list \<Rightarrow> pyval" where
  "metadata_payload written_at metadata = PDict (AList.update ''written_at'' (PStr written_at) metadata)"

text \<open>A dictionary filled key by key, in order: a key that comes again keeps its place with the new value.\<close>

definition dict_of :: "(string \<times> pyval) list \<Rightarrow> (string \<times> pyval) list" where
  "dict_of kvs = fold (\<lambda>(k, v). AList.update k v) kvs []"

lemma dict_of_distinct:
  assumes "distinct (map fst kvs)"
  shows "map_of (dict_of kvs) = map_of kvs"
proof -
  have "map_of (fold (\<lambda>(k, v). AList.update k v) kvs d) = map_of d ++ map_of (rev kvs)" for d
    by (induction kvs arbitrary: d) (auto simp: update_conv' fun_eq_iff map_add_def split: option.splits)
  moreover have "map_of (rev kvs) = map_of kvs" by (subst map_of_inject_set) (use assms in \<open>simp_all flip: rev_map\<close>)
  ultimately show ?thesis by (simp add: dict_of_def)
qed

section \<open>The IMU of a configuration\<close>

definition imu_entries :: "pyval \<Rightarrow> pyval res" where
  "imu_entries camera_info = res_bind (py_get camera_info ''imus'' (PList [])) (\<lambda>v. Inr (py_or v (PList [])))"

text \<open>\<open>imus[0]\<close> of a value that is not empty.\<close>

fun first_entry :: "pyval \<Rightarrow> pyval res" where
  "first_entry (PList (x # _)) = Inr x"
| "first_entry (PStr (c # _)) = Inr (PStr [c])"
| "first_entry (PDict _) = Inl (KeyError ''0'')"
| "first_entry _ = Inl (TypeError ''object is not subscriptable'')"

text \<open>
  The arguments of \<open>ImuRecorder\<close>. Python keeps them as they are and fails where they are used; here a
  value of another type than the code expects fails at once.
\<close>

fun as_string :: "pyval \<Rightarrow> string res" where
  "as_string (PStr s) = Inr s"
| "as_string _ = Inl (TypeError ''expected str'')"

fun as_number :: "pyval \<Rightarrow> real res" where
  "as_number (PFloat x) = Inr x"
| "as_number (PInt n) = Inr (of_int n)"
| "as_number (PBool b) = Inr (if b then 1 else 0)"
| "as_number _ = Inl (TypeError ''expected a number'')"

definition imu_from_config :: "pyval \<Rightarrow> string \<Rightarrow> imu_recorder res" where
  "imu_from_config imu_config sensor =
     res_bind (py_item imu_config (sensor @ ''_device'')) (\<lambda>device.
     res_bind (py_item imu_config (sensor @ ''_channels'')) (\<lambda>channels.
     res_bind (py_item imu_config (sensor @ ''_scale'')) (\<lambda>scale.
     res_bind (py_get imu_config (sensor @ ''_sampling_frequency'') (PFloat 0)) (\<lambda>rate.
     res_bind (as_string device) (\<lambda>device.
     res_bind (res_bind (py_iter channels) (res_map as_string)) (\<lambda>channels.
     res_bind (as_number scale) (\<lambda>scale.
     res_bind (as_number rate) (\<lambda>rate.
       Inr (new_imu_recorder device channels scale rate)))))))))"

definition imu_fieldnames :: "string list" where
  "imu_fieldnames = [''sensor'', ''index'', ''x'', ''y'', ''z'', ''host_timestamp_ns'', ''timestamp_source'', ''wall_time_iso'']"

definition imu_row :: "(real \<Rightarrow> string) \<Rightarrow> string \<Rightarrow> string \<Rightarrow> imu_sample \<Rightarrow> (string \<times> string) list" where
  "imu_row repr wall sensor s =
     [(''sensor'', sensor), (''index'', int_str (is_index s)), (''x'', repr (is_x s)), (''y'', repr (is_y s)),
      (''z'', repr (is_z s)), (''host_timestamp_ns'', int_str (is_host_ns s)), (''timestamp_source'', is_source s),
      (''wall_time_iso'', wall)]"

text \<open>The callback of one of the two IMUs; the lock makes each call a step.\<close>

definition imu_on_sample :: "(real \<Rightarrow> string) \<Rightarrow> string \<Rightarrow> string \<Rightarrow> imu_sample \<Rightarrow> (csv_log, unit) meth" where
  "imu_on_sample repr wall sensor s = csv_write (imu_row repr wall sensor s)"

section \<open>record_imu.py\<close>

record imu_run =
  ir_accel :: imu_recorder
  ir_gyro :: imu_recorder
  ir_log :: csv_log

definition on_run_accel :: "(imu_recorder, unit) meth \<Rightarrow> (imu_run, unit) meth" where
  "on_run_accel m s = (case m (ir_accel s) of (res, a) \<Rightarrow> (res, s\<lparr>ir_accel := a\<rparr>))"

definition on_run_gyro :: "(imu_recorder, unit) meth \<Rightarrow> (imu_run, unit) meth" where
  "on_run_gyro m s = (case m (ir_gyro s) of (res, g) \<Rightarrow> (res, s\<lparr>ir_gyro := g\<rparr>))"

text \<open>\<open>None\<close> is the exit status 1 of a configuration without IMUs.\<close>

definition record_imu_setup :: "(string \<Rightarrow> py_error option) \<Rightarrow> string \<Rightarrow> pyval \<Rightarrow> (file_tree, imu_run option) meth" where
  "record_imu_setup fails output_base camera_info =
     m_bind (\<lambda>t. (imu_entries camera_info, t)) (\<lambda>imus.
       if \<not> truthy imus then m_return None
       else m_bind (\<lambda>t. (first_entry imus, t)) (\<lambda>imu_config.
            m_bind (make_output_dir fails output_base ''run'') (\<lambda>_.
            m_bind (\<lambda>t. (imu_from_config imu_config ''accel'', t)) (\<lambda>accel.
            m_bind (\<lambda>t. (imu_from_config imu_config ''gyro'', t)) (\<lambda>gyro.
              m_return (Some \<lparr>ir_accel = accel, ir_gyro = gyro, ir_log = new_csv imu_fieldnames\<rparr>))))))"

text \<open>The two starts stand before the \<open>try\<close> block.\<close>

definition record_imu_start :: "iio \<Rightarrow> (imu_run, unit) meth" where
  "record_imu_start io = m_seq (on_run_accel (imu_start io)) (on_run_gyro (imu_start io))"

definition record_imu_stop :: "(imu_run, unit) meth" where
  "record_imu_stop =
     m_seq (on_run_accel imu_stop) (m_seq (on_run_gyro imu_stop) (m_seq (on_run_accel imu_close)
       (m_seq (on_run_gyro imu_close) (m_modify (\<lambda>s. s\<lparr>ir_log := csv_close (ir_log s)\<rparr>)))))"

text \<open>The script after the set-up; \<open>work\<close> is what the two threads do until the wait ends.\<close>

definition record_imu :: "iio \<Rightarrow> (imu_run \<Rightarrow> imu_run) \<Rightarrow> (imu_run, int \<times> int) meth" where
  "record_imu io work =
     m_seq (record_imu_start io) (m_seq (m_modify work) (m_seq record_imu_stop
       (m_gets (\<lambda>s. (iu_sample_count (ir_accel s), iu_sample_count (ir_gyro s))))))"

section \<open>record_basler.py\<close>

definition resolve_serial :: "(pyval \<Rightarrow> string) \<Rightarrow> string \<Rightarrow> pyval \<Rightarrow> string \<Rightarrow> string res" where
  "resolve_serial repr explicit camera_info camera =
     (if explicit \<noteq> [] then Inr explicit
      else res_bind (find_camera_serial camera_info camera) (\<lambda>v. Inr (py_str repr (py_or v (PStr [])))))"

record 'i basler_run =
  br_recorder :: basler
  br_images :: "(string \<times> 'i) list"
  br_log :: csv_log
  br_stop :: bool

text \<open>The callback: the frame as the rig saves it, and the stop event after \<open>--num-frames\<close> frames.\<close>

definition basler_on_frame ::
    "int \<Rightarrow> (int \<Rightarrow> int) \<Rightarrow> (int \<Rightarrow> string) \<Rightarrow> 'i basler_frame \<Rightarrow> (((string \<times> 'i) list \<times> csv_log) \<times> bool, unit) meth" where
  "basler_on_frame num_frames disk_ns wall f w =
     (case rgb_on_frame disk_ns wall f (fst w) of
        (Inl e, w') \<Rightarrow> (Inl e, (w', snd w))
      | (Inr _, w') \<Rightarrow> (Inr (), (w', snd w \<or> num_frames \<noteq> 0 \<and> bf_index f \<ge> num_frames)))"

definition record_basler_setup ::
    "(string \<Rightarrow> py_error option) \<Rightarrow> string \<Rightarrow> string \<Rightarrow> real \<Rightarrow> real \<Rightarrow> real \<Rightarrow> (file_tree, 'i basler_run) meth" where
  "record_basler_setup fails output_base serial fps exposure_us gain =
     m_bind (make_output_dir fails output_base ''run'') (\<lambda>output_dir.
     m_seq (mkdir_parents fails False (path_join output_dir ''images''))
       (m_return \<lparr>br_recorder = new_basler serial exposure_us gain fps, br_images = [],
          br_log = new_csv timestamps_fieldnames, br_stop = False\<rparr>))"

definition on_run_basler :: "(basler, unit) meth \<Rightarrow> ('i basler_run, unit) meth" where
  "on_run_basler m s = (case m (br_recorder s) of (res, r) \<Rightarrow> (res, s\<lparr>br_recorder := r\<rparr>))"

definition record_basler :: "pylon \<Rightarrow> ('i basler_run \<Rightarrow> 'i basler_run) \<Rightarrow> ('i basler_run, int \<times> int) meth" where
  "record_basler py work =
     m_seq (on_run_basler (basler_start py)) (m_seq (m_modify work)
     (m_seq (on_run_basler basler_stop) (m_seq (on_run_basler basler_close)
     (m_seq (m_modify (\<lambda>s. s\<lparr>br_log := csv_close (br_log s)\<rparr>))
       (m_gets (\<lambda>s. (ba_frame_count (br_recorder s), ba_dropped_count (br_recorder s))))))))"

text \<open>What the grabbing thread does to the run: its loop with the script's callback.\<close>

definition basler_work ::
    "('b \<Rightarrow> 'i res) \<Rightarrow> int \<Rightarrow> (int \<Rightarrow> int) \<Rightarrow> (int \<Rightarrow> string) \<Rightarrow> 'b grab_turn list \<Rightarrow> 'i basler_run \<Rightarrow> 'i basler_run" where
  "basler_work convert num_frames disk_ns wall turns s =
     (case grab_loop convert (basler_on_frame num_frames disk_ns wall) turns
             (br_recorder s, ((br_images s, br_log s), br_stop s)) of
        (_, (r, ((images, file), stop))) \<Rightarrow>
          s\<lparr>br_recorder := r, br_images := images, br_log := file, br_stop := stop\<rparr>)"

section \<open>record_event.py\<close>

record event_run =
  vr_recorder :: event_recorder
  vr_log :: csv_log

definition on_run_event :: "(event_recorder, unit) meth \<Rightarrow> (event_run, unit) meth" where
  "on_run_event m s = (case m (vr_recorder s) of (res, r) \<Rightarrow> (res, s\<lparr>vr_recorder := r\<rparr>))"

definition on_run_log :: "(csv_log, unit) meth \<Rightarrow> (event_run, unit) meth" where
  "on_run_log m s = (case m (vr_log s) of (res, f) \<Rightarrow> (res, s\<lparr>vr_log := f\<rparr>))"

definition record_event_setup ::
    "(string \<Rightarrow> py_error option) \<Rightarrow> string \<Rightarrow> string \<Rightarrow> string \<Rightarrow> (file_tree, string \<times> event_run) meth" where
  "record_event_setup fails output_base serial bias_file =
     m_bind (make_output_dir fails output_base ''run'') (\<lambda>output_dir.
       m_return (path_join output_dir ''events.raw'',
         \<lparr>vr_recorder = new_event_recorder serial bias_file, vr_log = new_csv [''event'', ''wall_time_iso'']\<rparr>))"

definition record_event ::
    "metavision \<Rightarrow> string \<Rightarrow> string \<Rightarrow> string \<Rightarrow> (event_run \<Rightarrow> event_run) \<Rightarrow> (event_run, unit) meth" where
  "record_event mv raw_path start_wall stop_wall work =
     m_seq (on_run_event (start_raw_recording mv raw_path))
     (m_seq (on_run_log (csv_write [(''event'', ''start''), (''wall_time_iso'', start_wall)]))
     (m_seq (m_modify work)
     (m_seq (on_run_event stop_raw_recording) (m_seq (on_run_event event_close)
     (m_seq (on_run_log (csv_write [(''event'', ''stop''), (''wall_time_iso'', stop_wall)]))
       (m_modify (\<lambda>s. s\<lparr>vr_log := csv_close (vr_log s)\<rparr>)))))))"

text \<open>\<open>_poll_raw_data_loop\<close>: how often the SDK's buffer is read, by whether the stop event is set at each turn.\<close>

fun poll_raw_data_loop :: "bool list \<Rightarrow> nat" where
  "poll_raw_data_loop [] = 0"
| "poll_raw_data_loop (stopped # turns) = (if stopped then 0 else Suc (poll_raw_data_loop turns))"

section \<open>record_multi_rgb.py\<close>

text \<open>What a camera's summary is made of: its times, counters and the bytes in its directory.\<close>

record rig_clock =
  rc_start_time :: "string \<Rightarrow> real"
  rc_session_start :: real
  rc_stop_time :: real
  rc_dir_size :: "string \<Rightarrow> int"

definition at_least_1us :: "real \<Rightarrow> real" where
  "at_least_1us d = max d (1 / 1000000)"

definition camera_duration_s :: "rig_clock \<Rightarrow> string \<Rightarrow> real" where
  "camera_duration_s k name = at_least_1us (rc_stop_time k - rc_start_time k name)"

definition rig_camera_summary :: "(string \<rightharpoonup> pyval) \<Rightarrow> rig_clock \<Rightarrow> 'i rgb_rig \<Rightarrow> string \<Rightarrow> pyval res" where
  "rig_camera_summary serials k rig name =
     (case serials name of
        None \<Rightarrow> Inl (KeyError name)
      | Some serial \<Rightarrow>
        let r = rr_recorders rig name; duration_s = camera_duration_s k name
        in Inr (PDict [(''serial_number'', serial), (''frame_count'', PInt (ba_frame_count r)),
             (''dropped_count'', PInt (ba_dropped_count r)), (''duration_s'', PFloat duration_s),
             (''fps_achieved'', PFloat (of_int (ba_frame_count r) / duration_s)), (''bytes_written'', PInt (rc_dir_size k name)),
             (''clock_drift_ppm'', PFloat (drift_from_nominal_ppm (ba_anchor r)))]))"

definition multi_rgb_summary :: "(string \<rightharpoonup> pyval) \<Rightarrow> rig_clock \<Rightarrow> resource_monitor \<Rightarrow> 'i rgb_rig \<Rightarrow> (string \<times> pyval) list res" where
  "multi_rgb_summary serials k monitor rig =
     res_bind (res_map (\<lambda>n. res_bind (rig_camera_summary serials k rig n) (\<lambda>v. Inr (n, v))) (rr_names rig)) (\<lambda>per_camera.
       let duration_s = at_least_1us (rc_stop_time k - rc_session_start k);
           total_bytes = sum_list (map (rc_dir_size k) (rr_names rig))
       in Inr [(''duration_s'', PFloat duration_s), (''cameras'', PDict (dict_of per_camera)),
            (''ssd_write_mb_per_s'', PFloat (of_int total_bytes / (1024 * 1024) / duration_s)),
            (''resource_usage'', monitor_summary monitor)])"

text \<open>The script after its set-up; \<open>None\<close> is the exit status 1 of a configuration without cameras.\<close>

record 'i multi_rgb =
  mr_rig :: "'i rgb_rig"
  mr_monitor :: resource_monitor

definition multi_rgb_setup ::
    "(string \<Rightarrow> py_error option) \<Rightarrow> (pyval \<Rightarrow> string) \<Rightarrow> string \<Rightarrow> real \<Rightarrow> real \<Rightarrow> real \<Rightarrow> pyval \<Rightarrow>
     (file_tree, ((string \<rightharpoonup> pyval) \<times> 'i multi_rgb) option) meth" where
  "multi_rgb_setup fails repr output_base fps exposure_us gain camera_info =
     m_bind (\<lambda>t. (resolve_camera_serials camera_info, t)) (\<lambda>serials.
     m_bind (make_output_dir fails output_base ''run'') (\<lambda>output_dir.
     m_bind (new_rgb_rig fails repr output_dir serials fps exposure_us gain) (\<lambda>rig.
       m_return (if rr_names rig = [] then None else Some (serials, \<lparr>mr_rig = rig, mr_monitor = new_monitor\<rparr>)))))"

definition on_multi_rig :: "('i rgb_rig, unit) meth \<Rightarrow> ('i multi_rgb, unit) meth" where
  "on_multi_rig m s = (case m (mr_rig s) of (res, g) \<Rightarrow> (res, s\<lparr>mr_rig := g\<rparr>))"

definition record_multi_rgb ::
    "pylon \<Rightarrow> bool \<Rightarrow> (string \<rightharpoonup> pyval) \<Rightarrow> rig_clock \<Rightarrow> ('i multi_rgb \<Rightarrow> 'i multi_rgb) \<Rightarrow> ('i multi_rgb, (string \<times> pyval) list) meth" where
  "record_multi_rgb py has_psutil serials k work =
     m_seq (m_modify (\<lambda>s. s\<lparr>mr_monitor := monitor_start has_psutil (mr_monitor s)\<rparr>))
     (m_seq (on_multi_rig (rgb_rig_start py))
     (m_seq (m_modify work)
     (m_seq (on_multi_rig rgb_rig_stop)
     (m_seq (m_modify (\<lambda>s. s\<lparr>mr_monitor := monitor_stop (mr_monitor s)\<rparr>))
       (\<lambda>s. (multi_rgb_summary serials k (mr_monitor s) (mr_rig s), s))))))"

section \<open>record.py and record_rgb_event.py as a whole\<close>

text \<open>The two IMU recorders of the session, unless they are skipped or not configured.\<close>

definition session_imus :: "bool \<Rightarrow> pyval \<Rightarrow> (imu_recorder \<times> imu_recorder) option res" where
  "session_imus skip_imu imus =
     (if skip_imu \<or> \<not> truthy imus then Inr None
      else res_bind (first_entry imus) (\<lambda>imu_config.
           res_bind (imu_from_config imu_config ''accel'') (\<lambda>accel.
           res_bind (imu_from_config imu_config ''gyro'') (\<lambda>gyro. Inr (Some (accel, gyro))))))"

definition session_setup ::
    "(string \<Rightarrow> py_error option) \<Rightarrow> (pyval \<Rightarrow> string) \<Rightarrow> string \<Rightarrow> string \<Rightarrow> real \<Rightarrow> real \<Rightarrow> real \<Rightarrow> bool \<Rightarrow> pyval \<Rightarrow>
     (file_tree, 'i session option) meth" where
  "session_setup fails repr output_base bias_file fps exposure_us gain skip_imu camera_info =
     m_bind (\<lambda>t. (res_bind (resolve_camera_serials camera_info) (\<lambda>_. res_bind (resolve_event_camera_serials camera_info) (\<lambda>_.
                    imu_entries camera_info)), t)) (\<lambda>imus.
     m_bind (setup_rigs fails repr output_base bias_file fps exposure_us gain camera_info) (\<lambda>rigs.
       case rigs of
         None \<Rightarrow> m_return None
       | Some (_, rig, erig) \<Rightarrow>
         m_bind (\<lambda>t. (session_imus skip_imu imus, t)) (\<lambda>imu_pair.
           m_return (Some \<lparr>se_rgb = rig, se_events = erig, se_imus = imu_pair\<rparr>))))"

definition stream_metadata :: "'i session \<Rightarrow> (string \<times> pyval) list" where
  "stream_metadata s = dict_of
     (map (\<lambda>n. let r = rr_recorders (se_rgb s) n
              in (n, PDict [(''frame_count'', PInt (ba_frame_count r)), (''dropped_count'', PInt (ba_dropped_count r)),
                   (''clock_drift_ppm'', PFloat (drift_from_nominal_ppm (ba_anchor r)))])) (rr_names (se_rgb s)) @
     map (\<lambda>n. (n, PDict [(''event_count'', PInt (int (ew_count (er_writers (se_events s) n))))])) (er_names (se_events s)) @
     (case se_imus s of
        None \<Rightarrow> []
      | Some (accel, gyro) \<Rightarrow>
        [(''IMU'', PDict [(''accel_sample_count'', PInt (iu_sample_count accel)), (''gyro_sample_count'', PInt (iu_sample_count gyro))])]))"

record record_args =
  ra_config_path :: string
  ra_fps :: real
  ra_exposure_us :: real
  ra_gain :: real

definition session_metadata :: "record_args \<Rightarrow> real \<Rightarrow> 'i session \<Rightarrow> (string \<times> pyval) list" where
  "session_metadata args elapsed_s s =
     [(''config_path'', PStr (ra_config_path args)), (''duration_s'', PFloat (at_least_1us elapsed_s)),
      (''fps_requested'', PFloat (ra_fps args)), (''exposure_us'', PFloat (ra_exposure_us args)),
      (''gain'', PFloat (ra_gain args)), (''streams'', PDict (stream_metadata s))]"

text \<open>\<open>main\<close> of \<open>record.py\<close> after the set-up: the manifest and the metadata of what was recorded.\<close>

definition record_session ::
    "pylon \<Rightarrow> metavision \<Rightarrow> iio \<Rightarrow> record_args \<Rightarrow> string \<Rightarrow> real \<Rightarrow> ('i session \<Rightarrow> 'i session) \<Rightarrow> ('i session, csv_log \<times> pyval) meth" where
  "record_session py mv io args written_at elapsed_s work =
     m_seq (session_start py mv io) (m_seq (m_modify work) (m_seq session_stop
       (\<lambda>s. (res_bind (write_manifest s) (\<lambda>manifest.
               Inr (manifest, metadata_payload written_at (session_metadata args elapsed_s s))), s))))"

definition record_rgb_event ::
    "pylon \<Rightarrow> metavision \<Rightarrow> ('i session \<Rightarrow> 'i session) \<Rightarrow> ('i session, csv_log) meth" where
  "record_rgb_event py mv work =
     m_seq (rgb_event_start py mv) (m_seq (m_modify work) (m_seq session_stop (\<lambda>s. (write_manifest s, s))))"

end
