(* ===== verification/Script_Properties.thy ===== *)
theory Script_Properties imports Recording_Scripts Recording_Content begin

text \<open>
  What the recording scripts guarantee: the frame limit of \<open>record_basler.py\<close>, the shared IMU log,
  the numbers of the resource monitor and of the summaries, and what runs after a recording.
\<close>

section \<open>The frame limit\<close>

text \<open>The script's callback is the rig's callback with the stop flag beside it.\<close>

lemma basler_on_frame_rgb:
  "basler_on_frame n disk_ns wall f (w, stop) = (res, (w', stop')) \<Longrightarrow>
     rgb_on_frame disk_ns wall f w = (res, w') \<and>
     (res = Inr () \<longrightarrow> stop' = (stop \<or> n \<noteq> 0 \<and> bf_index f \<ge> n))"
  by (auto simp: basler_on_frame_def split: prod.splits sum.splits)

lemma grab_body_limit:
  assumes "grab_body convert (basler_on_frame n disk_ns wall) g a (r, l, (w, stop)) = (Inr (), (r', l', (w', stop')))"
  shows "grab_body convert (rgb_on_frame disk_ns wall) g a (r, l, w) = (Inr (), (r', l', w'))"
    and "stop' = (stop \<or> n \<noteq> 0 \<and> ba_frame_count r < ba_frame_count r' \<and> n \<le> ba_frame_count r')"
    and "ba_frame_count r \<le> ba_frame_count r'"
  using assms
  by (auto simp: grab_body_def Let_def split: grab.splits sum.splits prod.splits if_splits dest!: basler_on_frame_rgb)

lemma grab_turns_limit:
  assumes "grab_turns convert (basler_on_frame n disk_ns wall) ts (r, l, (w, stop)) = (Inr (), (r', l', (w', stop')))"
  shows "grab_turns convert (rgb_on_frame disk_ns wall) ts (r, l, w) = (Inr (), (r', l', w')) \<and>
    stop' = (stop \<or> n \<noteq> 0 \<and> ba_frame_count r < ba_frame_count r' \<and> n \<le> ba_frame_count r') \<and>
    ba_frame_count r \<le> ba_frame_count r'"
  using assms
proof (induction ts arbitrary: r l w stop)
  case (Cons t ts)
  show ?case
  proof (cases "gt_stopped t")
    case False
    then obtain r1 l1 w1 stop1 where body:
        "grab_body convert (basler_on_frame n disk_ns wall) (gt_result t) (gt_arrival t) (r, l, (w, stop)) = (Inr (), (r1, l1, (w1, stop1)))"
        "grab_turns convert (basler_on_frame n disk_ns wall) ts (r1, l1, (w1, stop1)) = (Inr (), (r', l', (w', stop')))"
      using Cons.prems by (auto simp: m_seq_def m_bind_Inr_iff)
    note first = grab_body_limit [OF body(1)] and rest = Cons.IH [OF body(2)]
    have run: "grab_turns convert (rgb_on_frame disk_ns wall) (t # ts) (r, l, w) = (Inr (), (r', l', w'))"
      using False first(1) rest by (simp add: m_seq_def m_bind_def)
    have count: "ba_frame_count r \<le> ba_frame_count r'" using first(3) rest by linarith
    have "stop' = (stop \<or> n \<noteq> 0 \<and> ba_frame_count r < ba_frame_count r' \<and> n \<le> ba_frame_count r')"
      using first(2,3) rest by auto
    then show ?thesis using run count by blast
  qed (use Cons.prems in simp)
qed simp

text \<open>
  The frame limit of \<open>record_basler.py\<close>: when the grab loop has run with the script's callback, the
  stop event is set exactly if a limit was given and at least that many frames are saved; the
  saved files are the frames from the first on, in order, each holding its converted buffer, and
  there are as many as the recorder reports. A frame grabbed before the main thread reacts is kept.
\<close>

theorem frame_limit_is_kept:
  fixes convert :: "'b \<Rightarrow> 'i res"
  assumes run: "grab_loop convert (basler_on_frame n disk_ns wall) turns (r, (([], new_csv timestamps_fieldnames), False)) =
      (Inr (), (r', ((images, file), stop)))" and fresh: "ba_frame_count r = 0"
  shows "(stop \<longleftrightarrow> n \<noteq> 0 \<and> 0 < ba_frame_count r' \<and> n \<le> ba_frame_count r') \<and>
    ba_frame_count r' = int (length images) \<and>
    map fst images = map frame_filename [1..int (length images)] \<and>
    list_all2 (\<lambda>g (_, img). convert (grab_buffer g) = Inr img) (grabbed turns) images"
proof -
  obtain l where turns: "grab_turns convert (basler_on_frame n disk_ns wall) turns (r, None, (([], new_csv timestamps_fieldnames), False)) =
      (Inr (), (r', l, ((images, file), stop)))"
    using run by (auto simp: grab_loop_def split: prod.splits)
  note limit = grab_turns_limit [OF turns]
  have save: "grab_turns convert (rgb_on_frame disk_ns wall) turns (r, None, ([], log_of timestamps_fieldnames [])) =
      (Inr (), (r', l, (images, file)))" using limit by (simp add: log_of_new)
  obtain fs where fs: "frames_of convert 0 (grabbed turns) fs" "images = map (\<lambda>f. (frame_filename (bf_index f), bf_image f)) fs"
    using grab_turns_save [OF save] fresh by auto
  have idx: "map bf_index fs = [1..int (length fs)]"
    using fs(1) upto_counting [of "length fs"] by (simp add: frames_of_def)
  have "map fst images = map frame_filename (map bf_index fs)" by (simp add: fs(2) comp_def)
  then have names: "map fst images = map frame_filename [1..int (length images)]" unfolding idx by (simp add: fs(2))
  have pairs: "list_all2 (\<lambda>g f. convert (grab_buffer g) = Inr (bf_image f) \<and> bf_ticks f = grab_ticks g) (grabbed turns) fs"
    using fs(1) unfolding frames_of_def by (rule conjunct1)
  then have "list_all2 (\<lambda>g (_, img). convert (grab_buffer g) = Inr img) (grabbed turns) images"
    unfolding fs(2) list_all2_map2 by (rule list_all2_mono) simp
  moreover have "length images = length (grabbed turns)" using list_all2_lengthD [OF pairs] by (simp add: fs(2))
  then have "ba_frame_count r' = int (length images)" using grab_turns_count [OF save] fresh by simp
  ultimately show ?thesis using limit names fresh by auto
qed

theorem frame_limit_is_kept_witness:
  "\<exists>r' images file. grab_loop Inr (basler_on_frame 2 (\<lambda>_. 9) (\<lambda>_. ''now''))
      [\<lparr>gt_stopped = False, gt_result = Grabbed 4 0 True, gt_arrival = 5\<rparr>, \<lparr>gt_stopped = False, gt_result = Grabbed 5 1 False, gt_arrival = 6\<rparr>,
       \<lparr>gt_stopped = False, gt_result = Grabbed 6 2 False, gt_arrival = 7\<rparr>, \<lparr>gt_stopped = True, gt_result = NoResult, gt_arrival = 8\<rparr>]
      (new_basler ''40'' 2000 1 30, (([], new_csv timestamps_fieldnames), False)) = (Inr (), (r', ((images, file), True))) \<and>
    length images = 3"
proof -
  let ?turns = "[\<lparr>gt_stopped = False, gt_result = Grabbed 4 0 True, gt_arrival = 5\<rparr>, \<lparr>gt_stopped = False, gt_result = Grabbed 5 1 False, gt_arrival = 6\<rparr>,
       \<lparr>gt_stopped = False, gt_result = Grabbed 6 2 False, gt_arrival = 7\<rparr>, \<lparr>gt_stopped = True, gt_result = NoResult, gt_arrival = 8\<rparr>]"
  obtain r' images log_file stop where run: "grab_loop Inr (basler_on_frame 2 (\<lambda>_. 9) (\<lambda>_. ''now'')) ?turns
      (new_basler ''40'' 2000 1 30, (([], new_csv timestamps_fieldnames), False)) = (Inr (), (r', ((images, log_file), stop)))"
    by (simp add: grab_loop_def m_seq_def m_bind_def grab_body_def Let_def new_basler_def log_of_new basler_on_frame_def rgb_on_frame_run)
  have "ba_frame_count (new_basler ''40'' 2000 1 30) = 0" by (simp add: new_basler_def)
  note kept = frame_limit_is_kept [OF run this]
  have "length images = length (grabbed ?turns)" using kept list_all2_lengthD by metis
  then have "length images = 3" by (simp add: grabbed_def)
  then show ?thesis using kept run by auto
qed

section \<open>The IMU log\<close>

definition imu_cells :: "(real \<Rightarrow> string) \<Rightarrow> string \<times> string \<times> imu_sample \<Rightarrow> string \<Rightarrow> string" where
  "imu_cells repr e k = (case e of (wall, sensor, s) \<Rightarrow> case map_of (imu_row repr wall sensor s) k of None \<Rightarrow> [] | Some v \<Rightarrow> v)"

lemma imu_on_sample_run:
  "imu_on_sample repr wall sensor s (log_of imu_fieldnames cells) = (Inr (), log_of imu_fieldnames (cells @ [imu_cells repr (wall, sensor, s)]))"
proof -
  have "set (map fst (imu_row repr wall sensor s)) = set imu_fieldnames" by (simp add: imu_row_def imu_fieldnames_def)
  from log_of_write [OF this, of cells] show ?thesis by (simp add: imu_on_sample_def imu_cells_def [abs_def])
qed

lemma imu_samples_run:
  "m_for es (\<lambda>(wall, sensor, s). imu_on_sample repr wall sensor s) (log_of imu_fieldnames cells) =
     (Inr (), log_of imu_fieldnames (cells @ map (imu_cells repr) es))"
  by (induction es arbitrary: cells) (auto simp: m_bind_def imu_on_sample_run)

text \<open>The rows of one sensor, as a reader selects them.\<close>

definition sensor_rows :: "string \<Rightarrow> csv_log \<Rightarrow> (string \<times> string) list list" where
  "sensor_rows sensor file = filter (\<lambda>row. map_of row ''sensor'' = Some sensor) (dict_rows (csv_rows file))"

text \<open>
  The shared IMU log: in whatever order the two threads' samples come through the lock, writing them
  never fails and adds one row each; selecting the rows of a sensor gives back exactly the samples of
  that sensor in their order, with their indices and host times.
\<close>

theorem imu_log_keeps_both_streams:
  "\<exists>file. m_for es (\<lambda>(wall, sensor, s). imu_on_sample repr wall sensor s) (new_csv imu_fieldnames) = (Inr (), file) \<and>
    length (csv_rows file) = 1 + length es \<and>
    res_map (int_cell ''index'') (sensor_rows k file) = Inr (map (\<lambda>(_, _, s). is_index s) (filter (\<lambda>(_, sensor, _). sensor = k) es)) \<and>
    res_map (int_cell ''host_timestamp_ns'') (sensor_rows k file) =
      Inr (map (\<lambda>(_, _, s). is_host_ns s) (filter (\<lambda>(_, sensor, _). sensor = k) es)) \<and>
    map (\<lambda>row. map_of row ''x'') (sensor_rows k file) =
      map (\<lambda>(_, _, s). Some (repr (is_x s))) (filter (\<lambda>(_, sensor, _). sensor = k) es)"
proof -
  let ?file = "log_of imu_fieldnames (map (imu_cells repr) es)"
  let ?row = "\<lambda>e. zip imu_fieldnames (map (imu_cells repr e) imu_fieldnames)"
  have rows: "dict_rows (csv_rows ?file) = map ?row es" by (simp add: dict_rows_def log_of_def)
  have cell: "map_of (?row e) ''sensor'' = Some (fst (snd e))" "map_of (?row e) ''index'' = Some (int_str (is_index (snd (snd e))))"
    "map_of (?row e) ''host_timestamp_ns'' = Some (int_str (is_host_ns (snd (snd e))))" "map_of (?row e) ''x'' = Some (repr (is_x (snd (snd e))))" for e
    by (simp_all add: imu_fieldnames_def imu_cells_def imu_row_def case_prod_beta)
  have "filter (\<lambda>e. fst (snd e) = k) es = filter (\<lambda>(_, sensor, _). sensor = k) es"
    by (rule filter_cong) (auto split: prod.splits)
  then have kept: "sensor_rows k ?file = map ?row (filter (\<lambda>(_, sensor, _). sensor = k) es)"
    by (simp add: sensor_rows_def rows filter_map comp_def cell)
  have ints: "res_map (int_cell c) (map ?row xs) = Inr (map v xs)" if "\<And>e. map_of (?row e) c = Some (int_str (v e))" for c v xs
    by (induction xs) (simp_all add: int_cell_def that)
  have "m_for es (\<lambda>(wall, sensor, s). imu_on_sample repr wall sensor s) (new_csv imu_fieldnames) = (Inr (), ?file)"
    using imu_samples_run [of es repr "[]"] by (simp add: log_of_new)
  moreover have "length (csv_rows ?file) = 1 + length es" by (simp add: log_of_def)
  ultimately show ?thesis
    using ints [of "''index''" "\<lambda>e. is_index (snd (snd e))"] ints [of "''host_timestamp_ns''" "\<lambda>e. is_host_ns (snd (snd e))"]
    by (intro exI [of _ ?file]) (auto simp: kept cell comp_def case_prod_beta)
qed

section \<open>The report of a recording\<close>

text \<open>What a reader of \<open>metadata.json\<close> finds under a stream.\<close>

definition reported :: "pyval \<Rightarrow> string \<Rightarrow> string \<Rightarrow> pyval res" where
  "reported metadata stream key =
     res_bind (py_item metadata ''streams'') (\<lambda>streams. res_bind (py_item streams stream) (\<lambda>entry. py_item entry key))"

definition manifest_cells :: "string \<times> int \<times> int option \<times> int option \<Rightarrow> string \<Rightarrow> string" where
  "manifest_cells e k = (case e of (stream, count, first_ns, last_ns) \<Rightarrow>
     case map_of (manifest_row stream count first_ns last_ns) k of None \<Rightarrow> [] | Some v \<Rightarrow> v)"

abbreviation manifest_header :: "string list" where
  "manifest_header \<equiv> [''stream'', ''count'', ''first_host_ns'', ''last_host_ns'']"

lemma manifest_write:
  "csv_write (manifest_row stream count a b) (log_of manifest_header cells) =
     (Inr (), log_of manifest_header (cells @ [manifest_cells (stream, count, a, b)]))"
proof -
  have "set (map fst (manifest_row stream count a b)) = set manifest_header" by (simp add: manifest_row_def)
  from log_of_write [OF this, of cells] show ?thesis by (simp add: manifest_cells_def [abs_def])
qed

text \<open>The rows of the manifest, stream by stream.\<close>

lemma rgb_rows_run:
  "m_for ns (rgb_manifest_row s) (log_of manifest_header cells) = (Inr (), f) \<Longrightarrow>
     \<exists>es. f = log_of manifest_header (cells @ map manifest_cells es) \<and>
       map (\<lambda>e. (fst e, fst (snd e))) es = map (\<lambda>n. (n, ba_frame_count (rr_recorders (se_rgb s) n))) ns"
proof (induction ns arbitrary: cells)
  case (Cons n ns)
  obtain a b where "rgb_manifest_row s n (log_of manifest_header cells) =
      (Inr (), log_of manifest_header (cells @ [manifest_cells (n, ba_frame_count (rr_recorders (se_rgb s) n), a, b)]))"
    using Cons.prems by (cases "first_last_exposure_ns (csv_rows (rr_logs (se_rgb s) n))")
      (auto simp: rgb_manifest_row_def m_bind_def manifest_write split: prod.splits)
  then have "m_for ns (rgb_manifest_row s)
      (log_of manifest_header (cells @ [manifest_cells (n, ba_frame_count (rr_recorders (se_rgb s) n), a, b)])) = (Inr (), f)"
    using Cons.prems by (simp add: m_bind_def)
  from Cons.IH [OF this] obtain es where es: "f = log_of manifest_header
      ((cells @ [manifest_cells (n, ba_frame_count (rr_recorders (se_rgb s) n), a, b)]) @ map manifest_cells es)"
      "map (\<lambda>e. (fst e, fst (snd e))) es = map (\<lambda>n. (n, ba_frame_count (rr_recorders (se_rgb s) n))) ns" by blast
  show ?case using es by (intro exI [of _ "(n, ba_frame_count (rr_recorders (se_rgb s) n), a, b) # es"]) simp
qed simp

lemma event_rows_run:
  "\<exists>es. m_for ns (event_manifest_row s) (log_of manifest_header cells) =
         (Inr (), log_of manifest_header (cells @ map manifest_cells es)) \<and>
       map (\<lambda>e. (fst e, fst (snd e))) es = map (\<lambda>n. (n, int (ew_count (er_writers (se_events s) n)))) ns"
proof (induction ns arbitrary: cells)
  case (Cons n ns)
  obtain a b where bounds: "er_bounds (se_events s) n = (a, b)" by (cases "er_bounds (se_events s) n")
  let ?e = "(n, int (ew_count (er_writers (se_events s) n)), a, b)"
  obtain es where "m_for ns (event_manifest_row s) (log_of manifest_header (cells @ [manifest_cells ?e])) =
        (Inr (), log_of manifest_header ((cells @ [manifest_cells ?e]) @ map manifest_cells es))"
      "map (\<lambda>e. (fst e, fst (snd e))) es = map (\<lambda>n. (n, int (ew_count (er_writers (se_events s) n)))) ns"
    using Cons.IH by blast
  moreover have "event_manifest_row s n (log_of manifest_header cells) = (Inr (), log_of manifest_header (cells @ [manifest_cells ?e]))"
    by (simp add: event_manifest_row_def bounds manifest_write)
  ultimately show ?case by (intro exI [of _ "?e # es"]) (simp add: m_bind_def)
qed simp

lemma imu_rows_run:
  "\<exists>es. imu_manifest_rows s (log_of manifest_header cells) = (Inr (), log_of manifest_header (cells @ map manifest_cells es)) \<and>
     map (\<lambda>e. (fst e, fst (snd e))) es =
       (case se_imus s of None \<Rightarrow> []
        | Some (a, g) \<Rightarrow> [(''IMU_accel'', iu_sample_count a), (''IMU_gyro'', iu_sample_count g)])"
proof (cases "se_imus s")
  case (Some p)
  obtain a g where "p = (a, g)" by (cases p)
  then show ?thesis
    by (intro exI [of _ "[(''IMU_accel'', iu_sample_count a, None, None), (''IMU_gyro'', iu_sample_count g, None, None)]"])
      (simp add: imu_manifest_rows_def Some m_seq_def m_bind_def manifest_write)
qed (simp add: imu_manifest_rows_def)

text \<open>The streams of a recording with their counts, as both reports must show them.\<close>

definition stream_counts :: "'i session \<Rightarrow> (string \<times> int) list" where
  "stream_counts s =
     map (\<lambda>n. (n, ba_frame_count (rr_recorders (se_rgb s) n))) (rr_names (se_rgb s)) @
     map (\<lambda>n. (n, int (ew_count (er_writers (se_events s) n)))) (er_names (se_events s)) @
     (case se_imus s of None \<Rightarrow> []
      | Some (a, g) \<Rightarrow> [(''IMU_accel'', iu_sample_count a), (''IMU_gyro'', iu_sample_count g)])"

lemma write_manifest_counts:
  assumes "write_manifest s = Inr f"
  shows "map (\<lambda>row. map_of row ''stream'') (dict_rows (csv_rows f)) = map (\<lambda>p. Some (fst p)) (stream_counts s)"
    and "res_map (int_cell ''count'') (dict_rows (csv_rows f)) = Inr (map snd (stream_counts s))"
proof -
  obtain f1 es1 where rgb: "m_for (rr_names (se_rgb s)) (rgb_manifest_row s) (log_of manifest_header []) = (Inr (), f1)"
      "f1 = log_of manifest_header (map manifest_cells es1)"
      "map (\<lambda>e. (fst e, fst (snd e))) es1 = map (\<lambda>n. (n, ba_frame_count (rr_recorders (se_rgb s) n))) (rr_names (se_rgb s))"
    using assms rgb_rows_run [of "rr_names (se_rgb s)" s "[]"]
    by (auto simp: write_manifest_def m_seq_def m_bind_def log_of_new split: prod.splits sum.splits)
  obtain es2 where ev: "m_for (er_names (se_events s)) (event_manifest_row s) f1 =
        (Inr (), log_of manifest_header (map manifest_cells es1 @ map manifest_cells es2))"
      "map (\<lambda>e. (fst e, fst (snd e))) es2 = map (\<lambda>n. (n, int (ew_count (er_writers (se_events s) n)))) (er_names (se_events s))"
    unfolding rgb(2) using event_rows_run by blast
  obtain es3 where imu: "imu_manifest_rows s (log_of manifest_header (map manifest_cells es1 @ map manifest_cells es2)) =
        (Inr (), log_of manifest_header ((map manifest_cells es1 @ map manifest_cells es2) @ map manifest_cells es3))"
      "map (\<lambda>e. (fst e, fst (snd e))) es3 = (case se_imus s of None \<Rightarrow> []
        | Some (a, g) \<Rightarrow> [(''IMU_accel'', iu_sample_count a), (''IMU_gyro'', iu_sample_count g)])"
    using imu_rows_run by blast
  define es where "es = es1 @ es2 @ es3"
  have counts: "map (\<lambda>e. (fst e, fst (snd e))) es = stream_counts s"
    by (simp add: es_def stream_counts_def rgb(3) ev(2) imu(2))
  have f: "f = csv_close (log_of manifest_header (map manifest_cells es))"
    using assms by (simp add: write_manifest_def m_seq_def m_bind_def log_of_new rgb(1) ev(1) imu(1) es_def)
  let ?row = "\<lambda>e. zip manifest_header (map (manifest_cells e) manifest_header)"
  have rows: "dict_rows (csv_rows f) = map ?row es" by (simp add: f dict_rows_def log_of_def csv_close_def)
  have cell: "manifest_cells e ''stream'' = fst e" "manifest_cells e ''count'' = int_str (fst (snd e))" for e
    by (simp_all add: manifest_cells_def manifest_row_def case_prod_beta)
  show "map (\<lambda>row. map_of row ''stream'') (dict_rows (csv_rows f)) = map (\<lambda>p. Some (fst p)) (stream_counts s)"
    by (simp add: rows comp_def cell flip: counts)
  have "res_map (int_cell ''count'') (map ?row es) = Inr (map (\<lambda>e. fst (snd e)) es)"
    by (induction es) (simp_all add: int_cell_def cell)
  then show "res_map (int_cell ''count'') (dict_rows (csv_rows f)) = Inr (map snd (stream_counts s))"
    by (simp add: rows comp_def flip: counts)
qed


text \<open>
  C27. What \<open>record.py\<close> reports when it returns: every recorder is idle; the manifest has one row per
  stream, in the order of the rigs, with the counters of the recorders; and \<open>metadata.json\<close>, which is
  filled separately, reports the same counters under the same names (the two IMUs under one name), as
  long as no camera has the name of another stream, along with the duration, which is never zero.
\<close>

theorem recording_reports_agree:
  assumes run: "record_session py mv io args wall elapsed work s = (Inr (manifest, metadata), s')"
    and names: "distinct (rr_names (se_rgb s') @ er_names (se_events s') @ [''IMU''])"
  shows "session_idle s' \<and>
    map (\<lambda>row. map_of row ''stream'') (dict_rows (csv_rows manifest)) = map (\<lambda>p. Some (fst p)) (stream_counts s') \<and>
    res_map (int_cell ''count'') (dict_rows (csv_rows manifest)) = Inr (map snd (stream_counts s')) \<and>
    (\<forall>n \<in> set (rr_names (se_rgb s')). reported metadata n ''frame_count'' = Inr (PInt (ba_frame_count (rr_recorders (se_rgb s') n))) \<and>
       reported metadata n ''dropped_count'' = Inr (PInt (ba_dropped_count (rr_recorders (se_rgb s') n)))) \<and>
    (\<forall>n \<in> set (er_names (se_events s')). reported metadata n ''event_count'' = Inr (PInt (int (ew_count (er_writers (se_events s') n))))) \<and>
    (\<forall>a g. se_imus s' = Some (a, g) \<longrightarrow>
       reported metadata ''IMU'' ''accel_sample_count'' = Inr (PInt (iu_sample_count a)) \<and>
       reported metadata ''IMU'' ''gyro_sample_count'' = Inr (PInt (iu_sample_count g))) \<and>
    (\<exists>d > 0. py_item metadata ''duration_s'' = Inr (PFloat d))"
proof -
  obtain s1 where s1: "session_start py mv io s = (Inr (), s1)"
    using run by (auto simp: record_session_def m_seq_def m_bind_def split: prod.splits sum.splits)
  obtain t where t: "session_stop (work s1) = (Inr (), t)" "session_idle t" using session_stop_run by blast
  have end_state: "s' = t" "write_manifest t = Inr manifest"
      "metadata = metadata_payload wall (session_metadata args elapsed t)"
    using run s1 t(1)
    by (cases "write_manifest t"; auto simp: record_session_def m_seq_def m_bind_def)+
  have streams: "py_item metadata ''streams'' = Inr (PDict (stream_metadata t))"
    "py_item metadata ''duration_s'' = Inr (PFloat (at_least_1us elapsed))"
    by (simp_all add: end_state(3) metadata_payload_def session_metadata_def)
  let ?rgb = "\<lambda>n. let r = rr_recorders (se_rgb t) n in PDict [(''frame_count'', PInt (ba_frame_count r)),
      (''dropped_count'', PInt (ba_dropped_count r)), (''clock_drift_ppm'', PFloat (drift_from_nominal_ppm (ba_anchor r)))]"
  let ?event = "\<lambda>n. PDict [(''event_count'', PInt (int (ew_count (er_writers (se_events t) n))))]"
  let ?imus = "case se_imus t of None \<Rightarrow> [] | Some (accel, gyro) \<Rightarrow>
      [(''IMU'', PDict [(''accel_sample_count'', PInt (iu_sample_count accel)), (''gyro_sample_count'', PInt (iu_sample_count gyro))])]"
  let ?all = "map (\<lambda>n. (n, ?rgb n)) (rr_names (se_rgb t)) @ map (\<lambda>n. (n, ?event n)) (er_names (se_events t)) @ ?imus"
  have keys: "distinct (map fst ?all)"
    using names end_state(1) by (auto simp: comp_def split: option.splits)
  have meta: "stream_metadata t = dict_of ?all"
    by (simp add: stream_metadata_def Let_def)
  have found: "reported metadata n k = py_item v k" if "(n, v) \<in> set ?all" for n v k
    using map_of_is_SomeI [OF keys that] dict_of_distinct [OF keys] by (simp add: reported_def streams meta)
  have "reported metadata n ''frame_count'' = Inr (PInt (ba_frame_count (rr_recorders (se_rgb t) n))) \<and>
       reported metadata n ''dropped_count'' = Inr (PInt (ba_dropped_count (rr_recorders (se_rgb t) n)))"
    if "n \<in> set (rr_names (se_rgb t))" for n
    using found [of n "?rgb n"] that by (auto simp: Let_def)
  moreover have "reported metadata n ''event_count'' = Inr (PInt (int (ew_count (er_writers (se_events t) n))))"
    if "n \<in> set (er_names (se_events t))" for n
    using found [of n "?event n"] that by auto
  moreover have "reported metadata ''IMU'' ''accel_sample_count'' = Inr (PInt (iu_sample_count a)) \<and>
       reported metadata ''IMU'' ''gyro_sample_count'' = Inr (PInt (iu_sample_count g))" if "se_imus t = Some (a, g)" for a g
    using found [of "''IMU''" "PDict [(''accel_sample_count'', PInt (iu_sample_count a)), (''gyro_sample_count'', PInt (iu_sample_count g))]"]
    by (auto simp: that)
  moreover have "\<exists>d > 0. py_item metadata ''duration_s'' = Inr (PFloat d)" by (simp add: streams(2) at_least_1us_def)
  ultimately show ?thesis
    using write_manifest_counts [OF end_state(2)] t(2) unfolding end_state(1) by blast
qed


text \<open>One camera that records nothing.\<close>

theorem recording_reports_agree_witness:
  "\<exists>manifest metadata s'. record_session demo_pylon demo_metavision demo_iio
      \<lparr>ra_config_path = ''c.yaml'', ra_fps = 30, ra_exposure_us = 2000, ra_gain = 1\<rparr> ''now'' 0 id
      \<lparr>se_rgb = demo_rgb_rig\<lparr>rr_names := [''RGB1'']\<rparr>, se_events = demo_event_rig\<lparr>er_names := []\<rparr>, se_imus = None\<rparr> =
      (Inr (manifest, metadata), s') \<and>
    session_idle s' \<and> reported metadata ''RGB1'' ''frame_count'' = Inr (PInt (ba_frame_count (rr_recorders (se_rgb s') ''RGB1'')))"
proof -
  let ?args = "\<lparr>ra_config_path = ''c.yaml'', ra_fps = 30, ra_exposure_us = 2000, ra_gain = 1\<rparr>"
  let ?rig = "demo_rgb_rig\<lparr>rr_names := [''RGB1'']\<rparr>"
  let ?s = "\<lparr>se_rgb = ?rig, se_events = demo_event_rig\<lparr>er_names := []\<rparr>, se_imus = None\<rparr>"
  obtain r' where r': "basler_start demo_pylon (new_basler ''40'' 2000 1 30) = (Inr (), r')"
    using demo_basler_start(1) by blast
  obtain g :: "unit rgb_rig" where rgb: "rgb_rig_start demo_pylon ?rig = (Inr (), g)" "rr_names g = [''RGB1'']" "rr_logs g = rr_logs ?rig"
    by (simp add: rgb_rig_start_def on_rgb_recorders_def rig_start_def on_recorder_def demo_rgb_rig_def r')
  have ev: "event_rig_start demo_metavision (se_events ?s) = (Inr (), se_events ?s)"
    by (simp add: event_rig_start_def on_event_recorders_def rig_start_def)
  have start: "session_start demo_pylon demo_metavision demo_iio ?s = (Inr (), ?s\<lparr>se_rgb := g\<rparr>)"
    using rgb(1) ev by (simp add: session_start_def startup_def on_rgb_def on_events_rig_def)
  obtain rs where "stop_each basler_stop basler_close (rr_names g) (rr_recorders g) = (Inr (), rs)"
    using rgb.stop_each_run by blast
  then obtain g' where g': "rgb_rig_stop g = (Inr (), g')" "rr_names g' = [''RGB1'']"
      "rr_logs g' ''RGB1'' = csv_close (new_csv timestamps_fieldnames)"
    by (simp add: rgb_rig_stop_def m_seq_def m_bind_def on_rgb_recorders_def rgb(2,3) demo_rgb_rig_def)
  obtain h where h: "event_rig_stop (demo_event_rig\<lparr>er_names := []\<rparr>) = (Inr (), h)" "er_names h = []"
    using event_rig_stop_run [of "demo_event_rig\<lparr>er_names := []\<rparr>"] by auto
  define t where "t = \<lparr>se_rgb = g', se_events = h, se_imus = None\<rparr>"
  have stop: "session_stop (?s\<lparr>se_rgb := g\<rparr>) = (Inr (), t)"
    using g'(1) h(1)
    by (simp add: session_stop_def m_seq_def m_bind_def on_rgb_def on_events_rig_def stop_imus_def on_accel_def on_gyro_def t_def)
  have "first_last_exposure_ns (csv_rows (rr_logs g' ''RGB1'')) = Inr (None, None)"
    by (simp add: g'(3) first_last_exposure_ns_def csv_close_def new_csv_def dict_rows_def)
  then have "\<exists>f. write_manifest t = Inr f"
    using manifest_write [of "''RGB1''" "ba_frame_count (rr_recorders g' ''RGB1'')" None None "[]"]
    by (simp add: write_manifest_def t_def g'(2) h(2) m_seq_def m_bind_def rgb_manifest_row_def imu_manifest_rows_def log_of_new)
  then obtain f where f: "write_manifest t = Inr f" by blast
  have run: "record_session demo_pylon demo_metavision demo_iio ?args ''now'' 0 id ?s =
      (Inr (f, metadata_payload ''now'' (session_metadata ?args 0 t)), t)"
    by (simp add: record_session_def m_seq_def m_bind_def start stop [simplified] f)
  have "distinct (rr_names (se_rgb t) @ er_names (se_events t) @ [''IMU''])" by (simp add: t_def g'(2) h(2))
  note reports = recording_reports_agree [OF run this]
  moreover have "''RGB1'' \<in> set (rr_names (se_rgb t))" by (simp add: t_def g'(2))
  ultimately show ?thesis using run by blast
qed


section \<open>The scripts without unwinding\<close>

lemma record_imu_stop_run:
  "record_imu_stop s = (Inr (), s\<lparr>ir_accel := snd (imu_close (snd (imu_stop (ir_accel s)))),
     ir_gyro := snd (imu_close (snd (imu_stop (ir_gyro s)))), ir_log := csv_close (ir_log s)\<rparr>)"
  by (simp add: record_imu_stop_def m_seq_def m_bind_def on_run_accel_def on_run_gyro_def imu_stop_def imu_close_def)

text \<open>
  How \<open>record_imu.py\<close> ends. If it returns, both polling threads are stopped, the log is closed and the
  counts it reports are the recorders'. If it raises, the gyroscope is not running, but the
  accelerometer is, exactly if its own start succeeded: the starts stand before the \<open>try\<close>. In
  \<open>record_multi_rgb.py\<close> likewise, the monitor's thread goes on when the rig does not start.
\<close>

theorem scripts_end_stopped_or_leave_a_thread:
  assumes "imu_idle (ir_accel s)" and "imu_idle (ir_gyro s)" and run: "record_imu io work s = (res, s')"
    and rig: "rgb_rig_start py (mr_rig m) = (Inl f, g)"
  shows "(case res of
      Inr counts \<Rightarrow> imu_idle (ir_accel s') \<and> imu_idle (ir_gyro s') \<and> \<not> csv_open (ir_log s') \<and>
        counts = (iu_sample_count (ir_accel s'), iu_sample_count (ir_gyro s'))
    | Inl e \<Rightarrow> imu_idle (ir_gyro s') \<and> (iu_thread (ir_accel s') \<longleftrightarrow> fst (imu_start io (ir_accel s)) = Inr ())) \<and>
    (\<exists>m'. record_multi_rgb py has_psutil serials k w m = (Inl f, m') \<and>
      (rm_thread (mr_monitor m') \<longleftrightarrow> has_psutil \<or> rm_thread (mr_monitor m)))"
proof
  obtain ra a where a: "imu_start io (ir_accel s) = (ra, a)" by (cases "imu_start io (ir_accel s)")
  obtain rg b where b: "imu_start io (ir_gyro s) = (rg, b)" by (cases "imu_start io (ir_gyro s)")
  consider e where "ra = Inl e" | e where "ra = Inr ()" "rg = Inl e" | "ra = Inr ()" "rg = Inr ()"
    by (cases ra; cases rg) auto
  then show "case res of
      Inr counts \<Rightarrow> imu_idle (ir_accel s') \<and> imu_idle (ir_gyro s') \<and> \<not> csv_open (ir_log s') \<and>
        counts = (iu_sample_count (ir_accel s'), iu_sample_count (ir_gyro s'))
    | Inl e \<Rightarrow> imu_idle (ir_gyro s') \<and> (iu_thread (ir_accel s') \<longleftrightarrow> fst (imu_start io (ir_accel s)) = Inr ())"
  proof cases
    case 1
    then have "res = Inl e" "s' = s\<lparr>ir_accel := a\<rparr>"
      using run a by (simp_all add: record_imu_def record_imu_start_def m_seq_def m_bind_def on_run_accel_def)
    then show ?thesis using imu_start_raises [OF a [unfolded 1]] assms(1,2) a 1 by (simp add: imu_idle_def)
  next
    case 2
    then have "res = Inl e" "s' = s\<lparr>ir_accel := a, ir_gyro := b\<rparr>"
      using run a b by (simp_all add: record_imu_def record_imu_start_def m_seq_def m_bind_def on_run_accel_def on_run_gyro_def)
    moreover have "iu_thread a" using imu_start_runs a 2 by simp
    moreover have "imu_idle b" using imu_start_raises [OF b [unfolded 2(2)]] assms(2) by (simp add: imu_idle_def)
    ultimately show ?thesis using a 2 by simp
  next
    case 3
    define t where "t = work (s\<lparr>ir_accel := a, ir_gyro := b\<rparr>)"
    have "(res, s') = m_seq record_imu_stop (m_gets (\<lambda>s. (iu_sample_count (ir_accel s), iu_sample_count (ir_gyro s)))) t"
      using run a b 3 by (simp add: record_imu_def record_imu_start_def m_seq_def m_bind_def on_run_accel_def on_run_gyro_def t_def)
    then show ?thesis
      by (simp add: record_imu_stop_run m_seq_def m_bind_def imu_idle_def imu_stop_def imu_close_def csv_close_def)
  qed
  show "\<exists>m'. record_multi_rgb py has_psutil serials k w m = (Inl f, m') \<and>
      (rm_thread (mr_monitor m') \<longleftrightarrow> has_psutil \<or> rm_thread (mr_monitor m))"
    using rig by (auto simp: record_multi_rgb_def m_seq_def m_bind_def on_multi_rig_def monitor_start_def)
qed

theorem scripts_end_stopped_or_leave_a_thread_witness:
  "\<exists>e s' m'. record_imu demo_iio id \<lparr>ir_accel = new_imu_recorder ''accel'' [''x'', ''y'', ''z''] 1 0,
      ir_gyro = new_imu_recorder ''gyro'' [''x'', ''y'', ''z''] 1 0, ir_log = new_csv imu_fieldnames\<rparr> = (Inl e, s') \<and>
    iu_thread (ir_accel s') \<and> record_multi_rgb demo_pylon True (\<lambda>_. None)
      \<lparr>rc_start_time = \<lambda>_. 0, rc_session_start = 0, rc_stop_time = 0, rc_dir_size = \<lambda>_. 0\<rparr> id \<lparr>mr_rig = demo_rgb_rig, mr_monitor = new_monitor\<rparr> =
      (Inl (RuntimeError ''no device''), m') \<and> rm_thread (mr_monitor m')"
proof -
  let ?s = "\<lparr>ir_accel = new_imu_recorder ''accel'' [''x'', ''y'', ''z''] 1 0,
      ir_gyro = new_imu_recorder ''gyro'' [''x'', ''y'', ''z''] 1 0, ir_log = new_csv imu_fieldnames\<rparr>"
  let ?k = "\<lparr>rc_start_time = \<lambda>_. 0, rc_session_start = 0, rc_stop_time = 0, rc_dir_size = \<lambda>_. 0\<rparr>"
  let ?m = "\<lparr>mr_rig = demo_rgb_rig, mr_monitor = new_monitor\<rparr>"
  obtain a where a: "imu_start demo_iio (new_imu_recorder ''accel'' [''x'', ''y'', ''z''] 1 0) = (Inr (), a)"
    by (simp add: imu_start_def imu_open_def demo_iio_def new_imu_recorder_def m_seq_def m_bind_def set_sampling_frequency_def)
  obtain e b where "imu_start demo_iio (new_imu_recorder ''gyro'' [''x'', ''y'', ''z''] 1 0) = (Inl e, b)"
    by (simp add: imu_start_def imu_open_def demo_iio_def new_imu_recorder_def m_seq_def m_bind_def)
  then obtain s' where run: "record_imu demo_iio id ?s = (Inl e, s')"
    using a by (simp add: record_imu_def record_imu_start_def m_seq_def m_bind_def on_run_accel_def on_run_gyro_def)
  obtain g where "rgb_rig_start demo_pylon demo_rgb_rig = (Inl (RuntimeError ''no device''), g)"
    using demo_rigs_fail(1) by blast
  then have rig: "rgb_rig_start demo_pylon (mr_rig ?m) = (Inl (RuntimeError ''no device''), g)" by simp
  have idle: "imu_idle (ir_accel ?s)" "imu_idle (ir_gyro ?s)" by (simp_all add: imu_idle_def new_imu_recorder_def)
  from scripts_end_stopped_or_leave_a_thread [OF idle run rig, of True "\<lambda>_. None" ?k id]
  show ?thesis using run a by auto
qed

end
