(* ===== verification/Dataset_Graphs.thy ===== *)
theory Dataset_Graphs imports Dataset_Video Camera_Sync Script_Properties Py_Numbers begin

text \<open>
  What the rendering scripts draw besides videos, and their \<open>main\<close>s: \<open>render_imu_graphs\<close> and \<open>main\<close> of
  \<open>visualize_dataset.py\<close>, the plots and \<open>main\<close> of \<open>analyze_latency.py\<close>. A figure is the data it shows
  with the labels that depend on the data; NumPy's median and fit are parameters.
\<close>

section \<open>The graphs of the IMU\<close>

record imu_axes =
  ia_t :: "int list"
  ia_x :: "real list"
  ia_y :: "real list"
  ia_z :: "real list"

definition no_axes :: imu_axes where
  "no_axes = \<lparr>ia_t = [], ia_x = [], ia_y = [], ia_z = []\<rparr>"

definition cell :: "string \<Rightarrow> (string \<times> string) list \<Rightarrow> string res" where
  "cell k row = (case map_of row k of None \<Rightarrow> Inl (KeyError k) | Some v \<Rightarrow> Inr v)"

definition float_cell :: "string \<Rightarrow> (string \<times> string) list \<Rightarrow> real res" where
  "float_cell k row = res_bind (cell k row) parse_float"

definition append_axes :: "(string \<times> string) list \<Rightarrow> imu_axes \<Rightarrow> imu_axes res" where
  "append_axes row a =
     res_bind (int_cell ''host_timestamp_ns'' row) (\<lambda>t.
     res_bind (float_cell ''x'' row) (\<lambda>x. res_bind (float_cell ''y'' row) (\<lambda>y. res_bind (float_cell ''z'' row) (\<lambda>z.
       Inr \<lparr>ia_t = ia_t a @ [t], ia_x = ia_x a @ [x], ia_y = ia_y a @ [y], ia_z = ia_z a @ [z]\<rparr>))))"

text \<open>The two series; rows of other sensors are passed over.\<close>

fun read_imu_rows :: "(string \<times> string) list list \<Rightarrow> imu_axes \<times> imu_axes \<Rightarrow> (imu_axes \<times> imu_axes) res" where
  "read_imu_rows [] s = Inr s"
| "read_imu_rows (row # rows) (accel, gyro) =
     res_bind (cell ''sensor'' row) (\<lambda>sensor.
       if sensor = ''accel'' then res_bind (append_axes row accel) (\<lambda>a. read_imu_rows rows (a, gyro))
       else if sensor = ''gyro'' then res_bind (append_axes row gyro) (\<lambda>g. read_imu_rows rows (accel, g))
       else read_imu_rows rows (accel, gyro))"

record imu_panel =
  ip_title :: string
  ip_ylabel :: string
  ip_elapsed_s :: "real list"
  ip_lines :: "(string \<times> real list) list"

definition imu_panel_of :: "string \<Rightarrow> string \<Rightarrow> imu_axes \<Rightarrow> imu_panel" where
  "imu_panel_of title ylabel a =
     (case ia_t a of
        [] \<Rightarrow> \<lparr>ip_title = title @ '' (no samples)'', ip_ylabel = [], ip_elapsed_s = [], ip_lines = []\<rparr>
      | t0 # _ \<Rightarrow>
        \<lparr>ip_title = title @ '' ('' @ nat_str (length (ia_t a)) @ '' samples)'', ip_ylabel = ylabel,
         ip_elapsed_s = map (\<lambda>t. of_int (t - t0) / 10 ^ 9) (ia_t a),
         ip_lines = [(''x'', ia_x a), (''y'', ia_y a), (''z'', ia_z a)]\<rparr>)"

record imu_info =
  ii_accel_samples :: nat
  ii_gyro_samples :: nat

definition render_imu_graphs :: "string list list option \<Rightarrow> (imu_panel list \<times> imu_info) option res" where
  "render_imu_graphs imu_csv =
     (case imu_csv of
        None \<Rightarrow> Inr None
      | Some rows \<Rightarrow>
        res_bind (read_imu_rows (dict_rows rows) (no_axes, no_axes)) (\<lambda>(accel, gyro).
          if ia_t accel = [] \<and> ia_t gyro = [] then Inr None
          else Inr (Some ([imu_panel_of ''Accelerometer'' ''m/s^2'' accel, imu_panel_of ''Gyroscope'' ''rad/s'' gyro],
                 \<lparr>ii_accel_samples = length (ia_t accel), ii_gyro_samples = length (ia_t gyro)\<rparr>))))"

section \<open>visualize\_dataset.py as a whole\<close>

text \<open>A recording: its camera and event directories, if they are there, and the IMU log.\<close>

record 'i dataset =
  dd_camera :: "string \<Rightarrow> ((string \<times> 'i) list option \<times> string list list option) option"
  dd_event :: "string \<Rightarrow> byte list option option"
  dd_imu_csv :: "string list list option"

record 'v gallery =
  ga_videos :: "string \<rightharpoonup> 'v"
  ga_figure :: "imu_panel list option"
  ga_found :: bool

definition on_videos :: "(string \<rightharpoonup> 'v, 'a) meth \<Rightarrow> ('v gallery, 'a) meth" where
  "on_videos m g = (case m (ga_videos g) of (res, vs) \<Rightarrow> (res, g\<lparr>ga_videos := vs\<rparr>))"

definition note_found :: "'a option \<Rightarrow> ('v gallery, unit) meth" where
  "note_found info = (case info of None \<Rightarrow> m_return () | Some _ \<Rightarrow> m_modify (\<lambda>g. g\<lparr>ga_found := True\<rparr>))"

definition visualize_camera_names :: "string list" where
  "visualize_camera_names = [''RGB1'', ''RGB2'', ''RGB3'', ''RGB4'']"

definition visualize_event_names :: "string list" where
  "visualize_event_names = [''Event1'', ''Event2'']"

text \<open>The renderers are given with what they take from the command line and from OpenCV.\<close>

definition visualize_dataset ::
    "(string \<Rightarrow> (string \<times> 'i) list option \<Rightarrow> string list list option \<Rightarrow> (string \<rightharpoonup> 'v, rgb_video_info option) meth) \<Rightarrow>
     (string \<Rightarrow> byte list option \<Rightarrow> (string \<rightharpoonup> 'v, video_info option) meth) \<Rightarrow> string \<Rightarrow> 'i dataset option \<Rightarrow> ('v gallery, int) meth" where
  "visualize_dataset rgb_video event_video output_dir input_dir =
     (case input_dir of
        None \<Rightarrow> m_return 1
      | Some d \<Rightarrow>
        m_seq (m_for visualize_camera_names (\<lambda>name. case dd_camera d name of
            None \<Rightarrow> m_return ()
          | Some (images, timestamps) \<Rightarrow> m_bind (on_videos (rgb_video (path_join output_dir name) images timestamps)) note_found))
        (m_seq (m_for visualize_event_names (\<lambda>name. case dd_event d name of
            None \<Rightarrow> m_return ()
          | Some events_bin \<Rightarrow> m_bind (on_videos (event_video (path_join output_dir name) events_bin)) note_found))
        (m_bind (\<lambda>g. (render_imu_graphs (dd_imu_csv d), g)) (\<lambda>imu.
          m_seq (case imu of
              None \<Rightarrow> m_return ()
            | Some (panels, _) \<Rightarrow> m_modify (\<lambda>g. g\<lparr>ga_figure := Some panels, ga_found := True\<rparr>))
            (m_gets (\<lambda>g. if ga_found g then 0 else 1))))))"

section \<open>The plots of analyze\_latency.py\<close>

definition arrival_to_disk_ms :: "camera_timestamps \<Rightarrow> real list" where
  "arrival_to_disk_ms c = map2 (\<lambda>d a. ns_to_ms (d - a)) (ct_disk_write_ns c) (ct_arrival_ns c)"

text \<open>The histograms of \<open>plot_pipeline_latency\<close>: title, data and the line at the median.\<close>

definition plot_pipeline_latency :: "(real list \<Rightarrow> real) \<Rightarrow> camera_timestamps \<Rightarrow> (string \<times> real list \<times> real) list" where
  "plot_pipeline_latency median c =
     map (\<lambda>(data, title). (ct_name c @ '': '' @ title, data, median data))
       [(exposure_to_arrival_ms c, ''exposure -> arrival''), (arrival_to_disk_ms c, ''arrival -> disk write''),
        (end_to_end_ms c, ''exposure -> disk write (end-to-end)'')]"

text \<open>The points and the two ends of the line of \<open>plot_latency_drift_trend\<close>; \<open>fit\<close> is \<open>np.polyfit(xs, ys, 1)\<close>.\<close>

definition plot_latency_drift_trend ::
    "(real list \<Rightarrow> real list \<Rightarrow> real \<times> real) \<Rightarrow> camera_timestamps \<Rightarrow> ((real \<times> real) list \<times> (real \<times> real) list) option" where
  "plot_latency_drift_trend fit c =
     (if length (ct_exposure_ns c) < 2 then None
      else case fit (elapsed_min c) (exposure_to_arrival_ms c) of
        (slope, intercept) \<Rightarrow>
          Some (zip (elapsed_min c) (exposure_to_arrival_ms c),
            map (\<lambda>x. (x, slope * x + intercept)) [hd (elapsed_min c), last (elapsed_min c)]))"

text \<open>\<open>plot_frame_interval_jitter\<close>: intervals, their mean, and the frame rate, unless it is not a number.\<close>

definition frame_intervals_ms :: "camera_timestamps \<Rightarrow> real list" where
  "frame_intervals_ms c = map2 (\<lambda>b a. ns_to_ms (b - a)) (tl (ct_exposure_ns c)) (ct_exposure_ns c)"

definition plot_frame_interval_jitter :: "camera_timestamps \<Rightarrow> (real list \<times> real \<times> real option) option" where
  "plot_frame_interval_jitter c =
     (if length (ct_exposure_ns c) < 2 then None
      else let intervals_ms = frame_intervals_ms c; mean_interval = list_mean intervals_ms
           in Some (intervals_ms, mean_interval, if mean_interval > 0 then Some (1000 / mean_interval) else None))"

definition plot_cross_camera_sync ::
    "(real list \<Rightarrow> real) \<Rightarrow> numpy \<Rightarrow> camera_timestamps list \<Rightarrow> (string \<times> real list \<times> real) list" where
  "plot_cross_camera_sync median np cameras =
     (case cameras of
        [] \<Rightarrow> []
      | reference # others \<Rightarrow>
        map (\<lambda>other. let offsets_ms = nearest_match_offsets_ms np (ct_exposure_ns reference) (ct_exposure_ns other)
                     in (ct_name other @ '' vs '' @ ct_name reference @ '' (nearest-match)'', offsets_ms, median offsets_ms)) others)"

definition path_parent :: "string \<Rightarrow> string" where
  "path_parent p = path_str (path_root p) (butlast (path_parts p))"

text \<open>Where the report goes: next to the file of one camera, one level up for several.\<close>

definition latency_output_path :: "string \<Rightarrow> string list \<Rightarrow> string" where
  "latency_output_path output timestamps_csv =
     (if output \<noteq> [] then output
      else if length timestamps_csv > 1 then path_join (path_parent (path_parent (hd timestamps_csv))) ''latency_analysis.pdf''
      else path_join (path_parent (hd timestamps_csv)) ''latency_analysis.pdf'')"

record latency_report =
  lr_path :: string
  lr_pages :: "((string \<times> real list \<times> real) list \<times> (real list \<times> real \<times> real option) option \<times>
    ((real \<times> real) list \<times> (real \<times> real) list) option) list"
  lr_sync :: "(string \<times> real list \<times> real) list"
  lr_summary :: "latency_summary list \<times> (string \<times> real \<times> real) list"

definition analyze_latency ::
    "(real list \<Rightarrow> real) \<Rightarrow> (real list \<Rightarrow> real) \<Rightarrow> (real list \<Rightarrow> real list \<Rightarrow> real \<times> real) \<Rightarrow> numpy \<Rightarrow> string \<Rightarrow>
     (string \<Rightarrow> string list list res) \<Rightarrow> string list \<Rightarrow> latency_report res" where
  "analyze_latency median std fit np output read_csv timestamps_csv =
     res_bind (res_map (\<lambda>p. res_bind (read_csv p) (load_timestamps p)) timestamps_csv) (\<lambda>cameras.
       Inr \<lparr>lr_path = latency_output_path output timestamps_csv,
         lr_pages = map (\<lambda>c. (plot_pipeline_latency median c, plot_frame_interval_jitter c, plot_latency_drift_trend fit c)) cameras,
         lr_sync = plot_cross_camera_sync median np cameras,
         lr_summary = (map (camera_summary median (\<lambda>xs ys. fst (fit xs ys))) cameras,
           if length cameras \<ge> 2 then sync_summary median std np cameras else [])\<rparr>)"

section \<open>The graphs show what was logged\<close>

text \<open>The samples of one sensor, in order.\<close>

definition samples_of :: "string \<Rightarrow> (string \<times> string \<times> imu_sample) list \<Rightarrow> imu_sample list" where
  "samples_of k es = map (\<lambda>(_, _, s). s) (filter (\<lambda>(_, sensor, _). sensor = k) es)"

definition axes_of :: "imu_sample list \<Rightarrow> imu_axes" where
  "axes_of ss = \<lparr>ia_t = map is_host_ns ss, ia_x = map is_x ss, ia_y = map is_y ss, ia_z = map is_z ss\<rparr>"

definition join_axes :: "imu_axes \<Rightarrow> imu_axes \<Rightarrow> imu_axes" where
  "join_axes a b = \<lparr>ia_t = ia_t a @ ia_t b, ia_x = ia_x a @ ia_x b, ia_y = ia_y a @ ia_y b, ia_z = ia_z a @ ia_z b\<rparr>"

lemma samples_of_simps [simp]:
  "samples_of k [] = []"
  "samples_of k ((wall, sensor, s) # es) = (if sensor = k then s # samples_of k es else samples_of k es)"
  by (simp_all add: samples_of_def)

lemma join_axes_simps [simp]:
  "join_axes a (axes_of []) = a" "join_axes no_axes a = a"
  "join_axes (join_axes a (axes_of [s])) (axes_of ss) = join_axes a (axes_of (s # ss))"
  by (simp_all add: join_axes_def axes_of_def no_axes_def)

text \<open>A value that a float's text gives back, as Python's \<open>repr\<close> promises.\<close>

definition reads_back :: "(real \<Rightarrow> string) \<Rightarrow> imu_sample \<Rightarrow> bool" where
  "reads_back repr s \<longleftrightarrow> (\<forall>v \<in> {is_x s, is_y s, is_z s}. parse_float (repr v) = Inr v)"

abbreviation imu_csv_row :: "(real \<Rightarrow> string) \<Rightarrow> string \<times> string \<times> imu_sample \<Rightarrow> (string \<times> string) list" where
  "imu_csv_row repr e \<equiv> zip imu_fieldnames (map (imu_cells repr e) imu_fieldnames)"

lemma imu_csv_cells:
  "map_of (imu_csv_row repr (wall, sensor, s)) ''sensor'' = Some sensor"
  "map_of (imu_csv_row repr (wall, sensor, s)) ''host_timestamp_ns'' = Some (int_str (is_host_ns s))"
  "map_of (imu_csv_row repr (wall, sensor, s)) ''x'' = Some (repr (is_x s))"
  "map_of (imu_csv_row repr (wall, sensor, s)) ''y'' = Some (repr (is_y s))"
  "map_of (imu_csv_row repr (wall, sensor, s)) ''z'' = Some (repr (is_z s))"
  by (simp_all add: imu_fieldnames_def imu_cells_def imu_row_def)

lemma append_imu_row:
  "reads_back repr s \<Longrightarrow> append_axes (imu_csv_row repr (wall, sensor, s)) a = Inr (join_axes a (axes_of [s]))"
  unfolding append_axes_def int_cell_def float_cell_def cell_def imu_csv_cells
  by (simp add: reads_back_def join_axes_def axes_of_def)

lemma imu_row_sensor: "cell ''sensor'' (imu_csv_row repr (wall, sensor, s)) = Inr sensor"
  unfolding cell_def imu_csv_cells by simp

lemma read_imu_log:
  assumes "\<forall>(_, _, s) \<in> set es. reads_back repr s"
  shows "read_imu_rows (map (imu_csv_row repr) es) (a, g) =
    Inr (join_axes a (axes_of (samples_of ''accel'' es)), join_axes g (axes_of (samples_of ''gyro'' es)))"
  using assms
proof (induction es arbitrary: a g)
  case (Cons e es)
  obtain wall sensor s where e: "e = (wall, sensor, s)" by (cases e) auto
  have "reads_back repr s" using Cons.prems e by simp
  note row = append_imu_row [OF this, of wall sensor] imu_row_sensor [of repr wall sensor s]
  have rest: "\<forall>(_, _, s) \<in> set es. reads_back repr s" using Cons.prems by simp
  show ?case unfolding e list.map read_imu_rows.simps row res_bind_simps
    using Cons.IH [OF rest] by simp
qed simp

lemma imu_log_rows:
  "m_for es (\<lambda>(wall, sensor, s). imu_on_sample repr wall sensor s) (new_csv imu_fieldnames) =
     (Inr (), log_of imu_fieldnames (map (imu_cells repr) es))"
  "dict_rows (csv_rows (log_of imu_fieldnames (map (imu_cells repr) es))) = map (imu_csv_row repr) es"
  using imu_samples_run [of es repr "[]"] by (simp_all add: log_of_new dict_rows_def log_of_def)

text \<open>
  C33. From the two IMU threads to the graph: whatever the order in which their samples come through the
  lock, \<open>visualize_dataset.py\<close> draws from the log exactly the accelerometer samples in one panel and the
  gyroscope samples in the other, each in its order with its three axes, over the seconds since the
  sensor's first sample; a sensor without samples gets an empty panel and a log with neither no figure.
\<close>

theorem imu_graphs_show_the_samples:
  assumes "\<forall>(_, _, s) \<in> set es. reads_back repr s"
  shows "\<exists>file. m_for es (\<lambda>(wall, sensor, s). imu_on_sample repr wall sensor s) (new_csv imu_fieldnames) = (Inr (), file) \<and>
    render_imu_graphs (Some (csv_rows file)) = Inr (
      if samples_of ''accel'' es = [] \<and> samples_of ''gyro'' es = [] then None
      else Some ([imu_panel_of ''Accelerometer'' ''m/s^2'' (axes_of (samples_of ''accel'' es)),
                  imu_panel_of ''Gyroscope'' ''rad/s'' (axes_of (samples_of ''gyro'' es))],
             \<lparr>ii_accel_samples = length (samples_of ''accel'' es), ii_gyro_samples = length (samples_of ''gyro'' es)\<rparr>)) \<and>
    (\<forall>title label s ss. imu_panel_of title label (axes_of (s # ss)) =
      \<lparr>ip_title = title @ '' ('' @ nat_str (Suc (length ss)) @ '' samples)'', ip_ylabel = label,
       ip_elapsed_s = map (\<lambda>u. of_int (is_host_ns u - is_host_ns s) / 10 ^ 9) (s # ss),
       ip_lines = [(''x'', map is_x (s # ss)), (''y'', map is_y (s # ss)), (''z'', map is_z (s # ss))]\<rparr>)"
proof -
  let ?log = "log_of imu_fieldnames (map (imu_cells repr) es)"
  have axes: "ia_t (axes_of ss) = map is_host_ns ss" for ss by (simp add: axes_of_def)
  have "render_imu_graphs (Some (csv_rows ?log)) = Inr (
      if samples_of ''accel'' es = [] \<and> samples_of ''gyro'' es = [] then None
      else Some ([imu_panel_of ''Accelerometer'' ''m/s^2'' (axes_of (samples_of ''accel'' es)),
                  imu_panel_of ''Gyroscope'' ''rad/s'' (axes_of (samples_of ''gyro'' es))],
             \<lparr>ii_accel_samples = length (samples_of ''accel'' es), ii_gyro_samples = length (samples_of ''gyro'' es)\<rparr>))"
    by (simp add: render_imu_graphs_def imu_log_rows(2) read_imu_log [OF assms] axes)
  moreover have "imu_panel_of title label (axes_of (s # ss)) =
      \<lparr>ip_title = title @ '' ('' @ nat_str (Suc (length ss)) @ '' samples)'', ip_ylabel = label,
       ip_elapsed_s = map (\<lambda>u. of_int (is_host_ns u - is_host_ns s) / 10 ^ 9) (s # ss),
       ip_lines = [(''x'', map is_x (s # ss)), (''y'', map is_y (s # ss)), (''z'', map is_z (s # ss))]\<rparr>" for title label s ss
    by (simp add: imu_panel_of_def axes_of_def comp_def)
  ultimately show ?thesis using imu_log_rows(1) [of es repr] by blast
qed


theorem imu_graphs_show_the_samples_witness:
  "\<exists>file info. m_for [(''w'', ''gyro'', \<lparr>is_index = 1, is_x = 1, is_y = 1, is_z = 1, is_host_ns = 4, is_source = ''host''\<rparr>),
        (''w'', ''accel'', \<lparr>is_index = 1, is_x = - 5 / 2, is_y = 1, is_z = 1, is_host_ns = 7, is_source = ''host''\<rparr>)]
      (\<lambda>(wall, sensor, s). imu_on_sample (\<lambda>x. if x = 1 then ''1.0'' else ''-2.5'') wall sensor s) (new_csv imu_fieldnames) = (Inr (), file) \<and>
    render_imu_graphs (Some (csv_rows file)) = Inr (Some (
      [\<lparr>ip_title = ''Accelerometer (1 samples)'', ip_ylabel = ''m/s^2'', ip_elapsed_s = [0],
        ip_lines = [(''x'', [- 5 / 2]), (''y'', [1]), (''z'', [1])]\<rparr>,
       \<lparr>ip_title = ''Gyroscope (1 samples)'', ip_ylabel = ''rad/s'', ip_elapsed_s = [0],
        ip_lines = [(''x'', [1]), (''y'', [1]), (''z'', [1])]\<rparr>], info))"
proof -
  let ?repr = "\<lambda>x :: real. if x = 1 then ''1.0'' else ''-2.5''"
  let ?es = "[(''w'', ''gyro'', \<lparr>is_index = 1, is_x = 1, is_y = 1, is_z = 1, is_host_ns = 4, is_source = ''host''\<rparr>),
        (''w'', ''accel'', \<lparr>is_index = 1, is_x = - 5 / 2, is_y = 1, is_z = 1, is_host_ns = 7, is_source = ''host''\<rparr>)]"
  have "parse_float ''1.0'' = Inr 1" "parse_float ''-2.5'' = Inr (- 5 / 2)" by code_simp+
  then have "\<forall>(_, _, s) \<in> set ?es. reads_back ?repr s" by (simp add: reads_back_def)
  note shown = imu_graphs_show_the_samples [OF this]
  have "nat_str (Suc 0) = ''1''" by code_simp
  then show ?thesis using shown by (auto simp: imu_panel_of_def axes_of_def)
qed

section \<open>Two views of the frame rate\<close>

lemma sum_intervals:
  "xs \<noteq> [] \<Longrightarrow> sum_list (map2 (\<lambda>b a. ns_to_ms (b - a)) (tl xs) xs) = ns_to_ms (last xs - hd xs)"
proof (induction xs)
  case (Cons x xs)
  show ?case
  proof (cases xs)
    case (Cons y ys)
    then have "sum_list (map2 (\<lambda>b a. ns_to_ms (b - a)) (tl xs) xs) = ns_to_ms (last xs - hd xs)" using Cons.IH by simp
    then show ?thesis using Cons by (simp add: ns_to_ms_def diff_divide_distrib)
  qed (simp add: ns_to_ms_def)
qed simp

lemma loaded_first_last:
  assumes "load_timestamps path rows = Inr c"
  shows "first_last_exposure_ns rows =
    Inr (if ct_exposure_ns c = [] then (None, None) else (Some (hd (ct_exposure_ns c)), Some (last (ct_exposure_ns c))))"
proof -
  obtain ts where ts: "res_map timestamp_row (dict_rows rows) = Inr ts" "ct_exposure_ns c = map fst ts"
    using assms by (auto simp: load_timestamps_def res_bind_Inr_iff)
  have "list_all2 (\<lambda>row t. timestamp_row row = Inr t) (dict_rows rows) ts" using ts(1) by (simp add: res_map_Inr_iff)
  then have "list_all2 (\<lambda>row v. int_cell ''exposure_host_ns'' row = Inr v) (dict_rows rows) (map fst ts)"
    unfolding list_all2_map2 by (rule list_all2_mono) (auto simp: timestamp_row_def res_bind_Inr_iff)
  from first_last_loop_values [OF this, of None None] show ?thesis
    by (simp add: first_last_exposure_ns_def ts(2))
qed

text \<open>
  The two frame rates agree: the rate that \<open>analyze_latency.py\<close> prints beside the frame intervals of
  a camera, 1000 over their mean, is the rate at which \<open>visualize_dataset.py\<close> plays its video, computed
  from the first and the last row of the same file and the number of frames; and where the first has
  no rate, because the exposure times do not advance, the second falls back to the given one.
\<close>

theorem interval_rate_is_playback_rate:
  assumes load: "load_timestamps path rows = Inr c" and two: "2 \<le> length (ct_exposure_ns c)"
  shows "\<exists>intervals mean_interval rate. plot_frame_interval_jitter c = Some (intervals, mean_interval, rate) \<and>
    length intervals = length (ct_exposure_ns c) - 1 \<and>
    (rate = None \<longleftrightarrow> last (ct_exposure_ns c) \<le> hd (ct_exposure_ns c)) \<and>
    compute_achieved_fps (Some rows) (length (ct_exposure_ns c)) fallback = Inr (case rate of None \<Rightarrow> fallback | Some fps \<Rightarrow> fps)"
proof -
  let ?es = "ct_exposure_ns c" and ?mean = "list_mean (frame_intervals_ms c)"
  have ne: "?es \<noteq> []" using two by auto
  have len: "length (frame_intervals_ms c) = length ?es - 1" by (simp add: frame_intervals_ms_def)
  have mean: "?mean = ns_to_ms (last ?es - hd ?es) / of_nat (length ?es - 1)"
    using sum_intervals [OF ne] len by (simp add: list_mean_def frame_intervals_ms_def)
  have pos: "0 < (of_nat (length ?es - 1) :: real)" using two by simp
  have positive: "0 < ?mean \<longleftrightarrow> hd ?es < last ?es"
    unfolding mean using pos ne by (simp add: ns_to_ms_def zero_less_divide_iff)
  have fps: "1000 / ?mean = of_nat (max (length ?es - 1) 1) / (of_int (last ?es - hd ?es) / 10 ^ 9)" if "hd ?es < last ?es"
  proof -
    have "max (length ?es - 1) 1 = length ?es - 1" using two by simp
    then show ?thesis unfolding mean ns_to_ms_def by simp
  qed
  have "plot_frame_interval_jitter c = Some (frame_intervals_ms c, ?mean, if 0 < ?mean then Some (1000 / ?mean) else None)"
    using two by (simp add: plot_frame_interval_jitter_def Let_def)
  moreover have "compute_achieved_fps (Some rows) (length ?es) fallback =
      Inr (case if 0 < ?mean then Some (1000 / ?mean) else None of None \<Rightarrow> fallback | Some fps \<Rightarrow> fps)"
    using two ne fps positive by (auto simp: compute_achieved_fps_def loaded_first_last [OF load] Let_def)
  ultimately show ?thesis using len positive by auto
qed

theorem interval_rate_is_playback_rate_witness:
  "\<exists>c rate. load_timestamps ''RGB1/timestamps.csv''
      [[''exposure_host_ns'', ''arrival_host_ns'', ''disk_write_complete_ns''], [int_str 0, int_str 5, int_str 9], [int_str 20000000, int_str 20000005, int_str 20000009]] = Inr c \<and>
    compute_achieved_fps (Some [[''exposure_host_ns'', ''arrival_host_ns'', ''disk_write_complete_ns''], [int_str 0, int_str 5, int_str 9],
      [int_str 20000000, int_str 20000005, int_str 20000009]]) 2 30 = Inr rate \<and> (\<exists>ivs mean. plot_frame_interval_jitter c = Some (ivs, mean, Some rate))"
proof -
  let ?rows = "[[''exposure_host_ns'', ''arrival_host_ns'', ''disk_write_complete_ns''], [int_str 0, int_str 5, int_str 9],
      [int_str 20000000, int_str 20000005, int_str 20000009]]"
  have "res_map timestamp_row (dict_rows ?rows) = Inr [(0, 5, 9), (20000000, 20000005, 20000009)]"
    by (simp add: dict_rows_def timestamp_row_def int_cell_def)
  then obtain c where c: "load_timestamps ''RGB1/timestamps.csv'' ?rows = Inr c" "ct_exposure_ns c = [0, 20000000]"
    by (simp add: load_timestamps_def)
  have "2 \<le> length (ct_exposure_ns c)" by (simp add: c(2))
  from interval_rate_is_playback_rate [OF c(1) this, of 30] obtain ivs mean rate where
      "plot_frame_interval_jitter c = Some (ivs, mean, rate)" "rate = None \<longleftrightarrow> last (ct_exposure_ns c) \<le> hd (ct_exposure_ns c)"
      "compute_achieved_fps (Some ?rows) (length (ct_exposure_ns c)) 30 = Inr (case rate of None \<Rightarrow> 30 | Some fps \<Rightarrow> fps)" by blast
  moreover have "length (ct_exposure_ns c) = 2" "rate \<noteq> None" using calculation(2) by (simp_all add: c(2))
  ultimately show ?thesis using c(1) by auto
qed

end
