(* ===== verification/Environment_Check.thy ===== *)
theory Environment_Check imports Discovery Recording_Scripts Py_Numbers begin

text \<open>
  \<open>check_environment.py\<close>, which reports which SDKs a host has, and the rest of device discovery: the
  enumeration of \<open>discovery.py\<close> and \<open>main\<close> of \<open>discover_cameras.py\<close>. What an import or an SDK call
  does on the host is a parameter; an import that fails is kept apart from other exceptions.
\<close>

section \<open>Imports\<close>

datatype failure = ImportFails string | Raises py_error

type_synonym 'a attempt = "failure + 'a"

definition failure_text :: "failure \<Rightarrow> string" where
  "failure_text f = (case f of ImportFails s \<Rightarrow> s | Raises e \<Rightarrow> error_text e)"

text \<open>\<open>except ImportError\<close>: the handler, and any other exception passes.\<close>

definition on_import_error :: "'a attempt \<Rightarrow> (string \<Rightarrow> ('s, 'b) meth) \<Rightarrow> ('a \<Rightarrow> ('s, 'b) meth) \<Rightarrow> ('s, 'b) meth" where
  "on_import_error a handler k =
     (case a of Inl (ImportFails s) \<Rightarrow> handler s | Inl (Raises e) \<Rightarrow> m_raise e | Inr x \<Rightarrow> k x)"

section \<open>The results\<close>

datatype status = PASS | WARN | FAIL

record check_result =
  ck_name :: string
  ck_status :: status
  ck_detail :: string

type_synonym checks = "(check_result list, unit) meth"

definition record_check :: "string \<Rightarrow> status \<Rightarrow> string \<Rightarrow> checks" where
  "record_check name st detail = m_modify (\<lambda>rs. rs @ [\<lparr>ck_name = name, ck_status = st, ck_detail = detail\<rparr>])"

text \<open>The host: package versions, what dpkg prints, and what each import and SDK call gives.\<close>

record host =
  ho_python :: string
  ho_pip :: "string \<Rightarrow> string option"
  ho_dpkg :: "string res"
  ho_import :: "string \<Rightarrow> string option attempt"
  ho_pylon_devices :: "nat attempt"
  ho_hal_devices :: "nat attempt"
  ho_iio_version :: "string option"
  ho_iio_devices :: "string list res"

text \<open>\<open>pip_version\<close> gives \<open>None\<close> on any exception.\<close>

definition pip_version :: "host \<Rightarrow> string \<Rightarrow> string option" where
  "pip_version h package = ho_pip h package"

definition lower_char :: "char \<Rightarrow> char" where
  "lower_char c = (let n = of_char c :: nat
     in if 65 \<le> n \<and> n \<le> 90 \<or> 192 \<le> n \<and> n \<le> 222 \<and> n \<noteq> 215 then char_of (n + 32) else c)"

definition line_break :: "char \<Rightarrow> bool" where
  "line_break c \<longleftrightarrow> (of_char c :: nat) \<in> {10, 11, 12, 13, 28, 29, 30, 133}"

fun split_lines :: "string \<Rightarrow> string \<Rightarrow> string list" where
  "split_lines [] line = (if line = [] then [] else [line])"
| "split_lines (c # cs) line = (if line_break c then line # split_lines cs [] else split_lines cs (line @ [c]))"

fun contains :: "string \<Rightarrow> string \<Rightarrow> bool" where
  "contains p [] = (p = [])"
| "contains p (c # cs) = (take (length p) (c # cs) = p \<or> contains p cs)"

definition dpkg_versions :: "host \<Rightarrow> string \<Rightarrow> string list" where
  "dpkg_versions h pattern =
     (case ho_dpkg h of
        Inl _ \<Rightarrow> []
      | Inr output \<Rightarrow> filter (\<lambda>line. contains (map lower_char pattern) (map lower_char line)) (split_lines output []))"

section \<open>The checks\<close>

definition check_python :: "host \<Rightarrow> checks" where
  "check_python h = record_check ''python'' PASS (takeWhile (\<lambda>c. \<not> py_space c) (dropWhile py_space (ho_python h)))"

definition check_pypylon :: "host \<Rightarrow> checks" where
  "check_pypylon h =
     (case pip_version h ''pypylon'' of
        None \<Rightarrow> record_check ''pypylon (pip)'' FAIL ''not installed -- `pip install pypylon` inside the venv''
      | Some version \<Rightarrow>
        let st = (if take 3 version = ''26.'' then PASS else WARN);
            note = (if st = PASS then []
                    else '' (hardware notes recorded 26.04.1, you have '' @ version @ '' -- probably fine, just noting the difference)'')
        in m_seq (record_check ''pypylon (pip)'' st (''version '' @ version @ note))
             (case ho_pylon_devices h of
                Inr n \<Rightarrow> record_check ''pypylon runtime'' PASS (''TlFactory usable, '' @ nat_str n @ '' device(s) visible right now'')
              | Inl (ImportFails e) \<Rightarrow> record_check ''pypylon runtime'' FAIL (''import failed: '' @ e)
              | Inl f \<Rightarrow> record_check ''pypylon runtime'' WARN (''imported, but TlFactory call failed: '' @ failure_text f)))"

text \<open>The loop over the module names: the first that can be imported, and the last error before.\<close>

fun first_importable :: "host \<Rightarrow> string list \<Rightarrow> string \<Rightarrow> (string option \<times> string) res" where
  "first_importable h [] err = Inr (None, err)"
| "first_importable h (m # ms) err =
     (case ho_import h m of
        Inr _ \<Rightarrow> Inr (Some m, err)
      | Inl (ImportFails e) \<Rightarrow> first_importable h ms e
      | Inl (Raises e) \<Rightarrow> Inl e)"

definition metavision_modules :: "string list" where
  "metavision_modules = [''metavision_sdk_stream'', ''metavision_sdk_driver'']"

definition no_metavision :: "string \<Rightarrow> string" where
  "no_metavision err = ''neither metavision_sdk_stream nor metavision_sdk_driver importable ('' @ err @
     '') -- install the Metavision SDK system-wide (not pip); if it'' @ [CHR 0x27] @ ''s installed but this still '' @
     ''fails, the venv may need --system-site-packages (setup_venv.sh already sets this, '' @
     ''but a pre-existing venv from before that change won'' @ [CHR 0x27] @ ''t have it -- delete and re-run setup_venv.sh)''"

definition check_metavision :: "host \<Rightarrow> checks" where
  "check_metavision h =
     m_bind (\<lambda>rs. (first_importable h metavision_modules ''None'', rs)) (\<lambda>(module_name, err).
       case module_name of
         None \<Rightarrow> record_check ''Metavision SDK'' FAIL (no_metavision err)
       | Some m \<Rightarrow>
         let debs = dpkg_versions h ''metavision''
         in m_seq (record_check ''Metavision SDK'' PASS (m @ '' importable''))
           (m_seq (if debs \<noteq> [] then record_check ''Metavision SDK (apt)'' PASS
                     (join_with ''; '' (take 5 debs) @ (if length debs > 5 then '' ...'' else []))
                   else record_check ''Metavision SDK (apt)'' WARN ''no metavision packages found via dpkg -- installed a non-apt way?'')
             (case ho_hal_devices h of
                Inr n \<Rightarrow> record_check ''metavision_hal'' PASS (''DeviceDiscovery usable, '' @ nat_str n @ '' device(s) visible right now'')
              | Inl (ImportFails e) \<Rightarrow> record_check ''metavision_hal'' WARN
                  (''metavision_hal not importable ('' @ e @ '') -- discover_cameras.py needs this'')
              | Inl f \<Rightarrow> record_check ''metavision_hal'' WARN
                  (''imported, but DeviceDiscovery.list() failed: '' @ failure_text f))))"

definition no_iio :: "string \<Rightarrow> string" where
  "no_iio e = ''not importable ('' @ e @ '') -- either `sudo apt install python3-libiio`, or build '' @
     ''third-party/libiio with Python bindings enabled (-DPYTHON_BINDINGS=ON or similar, '' @
     ''check that submodule'' @ [CHR 0x27] @ ''s own docs/CMakeLists.txt)''"

definition check_iio :: "host \<Rightarrow> checks" where
  "check_iio h =
     on_import_error (ho_import h ''iio'')
       (\<lambda>e. record_check ''iio (libiio Python bindings)'' FAIL (no_iio e))
       (\<lambda>_. m_seq (record_check ''iio module'' PASS (''importable'' @
                (case ho_iio_version h of None \<Rightarrow> [] | Some v \<Rightarrow> '', version '' @ v)))
          (case ho_iio_devices h of
             Inr ids \<Rightarrow> record_check ''iio.Context()'' PASS (nat_str (length ids) @ '' device(s) visible: '' @ list_repr ids)
           | Inl e \<Rightarrow> record_check ''iio.Context()'' WARN (''module imports, but creating a Context failed: '' @ error_text e)))"

definition toolkit_packages :: "string list" where
  "toolkit_packages = [''numpy'', ''cv2'', ''yaml'', ''matplotlib'', ''psutil'']"

definition toolkit_version :: "host \<Rightarrow> string \<Rightarrow> string option \<Rightarrow> string" where
  "toolkit_version h package attribute =
     (case attribute of
        Some v \<Rightarrow> v
      | None \<Rightarrow> (case pip_version h package of None \<Rightarrow> ''unknown'' | Some v \<Rightarrow> if v = [] then ''unknown'' else v))"

definition check_toolkit_deps :: "host \<Rightarrow> checks" where
  "check_toolkit_deps h =
     m_for toolkit_packages (\<lambda>package.
       on_import_error (ho_import h package)
         (\<lambda>e. record_check package FAIL (''not importable ('' @ e @ '') -- re-run setup_venv.sh''))
         (\<lambda>attribute. record_check package PASS (''version '' @ toolkit_version h package attribute)))"

section \<open>The report\<close>

definition left_justify :: "nat \<Rightarrow> string \<Rightarrow> string" where
  "left_justify w s = s @ replicate (w - length s) (CHR '' '')"

definition status_text :: "status \<Rightarrow> string" where
  "status_text st = (case st of PASS \<Rightarrow> ''PASS'' | WARN \<Rightarrow> ''WARN'' | FAIL \<Rightarrow> ''FAIL'')"

definition fail_count :: "check_result list \<Rightarrow> nat" where
  "fail_count rs = length (filter (\<lambda>r. ck_status r = FAIL) rs)"

text \<open>The lines it prints and the exit status; \<open>max\<close> of no names raises.\<close>

definition print_report :: "check_result list \<Rightarrow> (string list \<times> int) res" where
  "print_report rs =
     (if rs = [] then Inl (ValueError ''max() arg is an empty sequence'')
      else
        let name_width = Max (set (map (\<lambda>r. length (ck_name r)) rs)) + 2; ruler = replicate 100 (CHR ''-'')
        in Inr ([[CHR 0x0A] @ left_justify name_width ''CHECK'' @ ''STATUS  DETAIL'', ruler] @
             map (\<lambda>r. left_justify name_width (ck_name r) @ left_justify 8 (status_text (ck_status r)) @ ck_detail r) rs @
             [ruler, if fail_count rs = 0 then ''All checks passed (or only WARN). Move on to discover_cameras.py.''
                     else nat_str (fail_count rs) @ '' FAIL(s) above -- fix those before discover_cameras.py will work for that sensor.''],
             if fail_count rs \<noteq> 0 then 1 else 0))"

definition check_environment :: "host \<Rightarrow> (check_result list, string list \<times> int) meth" where
  "check_environment h =
     m_seq (check_python h) (m_seq (check_toolkit_deps h) (m_seq (check_pypylon h) (m_seq (check_metavision h) (m_seq (check_iio h)
       (\<lambda>rs. (print_report rs, rs))))))"

section \<open>Enumerating devices\<close>

text \<open>A device on the bus, as the SDK describes it; the address may not be available.\<close>

record bus_device =
  bd_serial :: string
  bd_ip :: "string option"
  bd_model :: string
  bd_friendly :: string

definition discover_baslers :: "bus_device list attempt \<Rightarrow> discovered_basler list attempt" where
  "discover_baslers devices =
     map_sum id (map (\<lambda>d. \<lparr>db_serial = bd_serial d, db_ip = (case bd_ip d of None \<Rightarrow> [] | Some ip \<Rightarrow> ip),
       db_model = bd_model d, db_friendly = bd_friendly d\<rparr>)) devices"

text \<open>The import, and then what listing the devices gives.\<close>

definition discover_event_cameras :: "string list attempt attempt \<Rightarrow> discovered_event_camera list attempt" where
  "discover_event_cameras hal =
     (case hal of
        Inl (ImportFails _) \<Rightarrow> Inl (ImportFails (''metavision_hal is required for event camera discovery (part of the '' @
          ''Metavision SDK'' @ [CHR 0x27] @ ''s system-wide install, not pip).''))
      | Inl f \<Rightarrow> Inl f
      | Inr listing \<Rightarrow> map_sum id (map (\<lambda>serial. \<lparr>de_serial = serial, de_model = []\<rparr>)) listing)"

text \<open>An SDK that cannot be imported counts as no devices.\<close>

definition report_baslers :: "bus_device list attempt \<Rightarrow> discovered_basler list res" where
  "report_baslers devices =
     (case discover_baslers devices of
        Inl (ImportFails _) \<Rightarrow> Inr []
      | Inl (Raises e) \<Rightarrow> Inl e
      | Inr baslers \<Rightarrow> Inr baslers)"

definition report_event_cameras :: "string list attempt attempt \<Rightarrow> (discovered_event_camera list \<times> bool) res" where
  "report_event_cameras hal =
     (case discover_event_cameras hal of
        Inl (ImportFails _) \<Rightarrow> Inr ([], False)
      | Inl (Raises e) \<Rightarrow> Inl e
      | Inr event_cameras \<Rightarrow> Inr (event_cameras, identical_serials event_cameras))"

definition report_imus ::
    "(pyval \<Rightarrow> string list \<Rightarrow> imu_check_result) \<Rightarrow> pyval \<Rightarrow> (string \<times> pyval \<times> string) list res" where
  "report_imus check camera_info =
     res_bind (res_bind (imu_entries camera_info) py_iter) (\<lambda>imus.
     res_bind (res_map (report_imu check) imus) (\<lambda>lines. Inr (concat lines)))"

text \<open>The two files: the configuration, and the raw discovery results beside it.\<close>

record discovery_files =
  df_config :: pyval
  df_discovered :: "pyval option"

definition discover_main ::
    "bool \<Rightarrow> bool \<Rightarrow> bus_device list attempt \<Rightarrow> string list attempt attempt \<Rightarrow>
     (pyval \<Rightarrow> string list \<Rightarrow> imu_check_result) \<Rightarrow> (discovery_files, int) meth" where
  "discover_main config_exists assign devices hal check =
     (if \<not> config_exists then m_return 1
      else
        m_bind (m_gets (\<lambda>s. py_or (df_config s) (PDict []))) (\<lambda>camera_info.
        m_bind (\<lambda>s. (report_baslers devices, s)) (\<lambda>baslers.
        m_bind (\<lambda>s. (report_event_cameras hal, s)) (\<lambda>(event_cameras, _).
        m_bind (\<lambda>s. (report_imus check camera_info, s)) (\<lambda>_.
        m_seq (m_modify (\<lambda>s. s\<lparr>df_discovered := Some (write_discovered baslers event_cameras)\<rparr>))
        (m_seq (if assign then
                  m_bind (\<lambda>s. (auto_assign camera_info baslers event_cameras, s)) (\<lambda>info.
                    m_modify (\<lambda>s. s\<lparr>df_config := info\<rparr>))
                else m_return ())
          (m_return 0)))))))"

section \<open>The verdict\<close>

text \<open>What the toolkit needs of a host.\<close>

definition usable :: "host \<Rightarrow> bool" where
  "usable h \<longleftrightarrow> (\<forall>p \<in> set toolkit_packages. \<not> isl (ho_import h p)) \<and> pip_version h ''pypylon'' \<noteq> None \<and>
     (\<forall>e. ho_pylon_devices h \<noteq> Inl (ImportFails e)) \<and> (\<exists>m \<in> set metavision_modules. \<not> isl (ho_import h m)) \<and>
     \<not> isl (ho_import h ''iio'')"

definition broken_import :: "host \<Rightarrow> bool" where
  "broken_import h \<longleftrightarrow>
     (\<exists>m \<in> set (toolkit_packages @ metavision_modules @ [''iio'']). \<exists>e. ho_import h m = Inl (Raises e))"

text \<open>A check appends results; it raises only on a broken import and adds a failure unless its part of the host is there.\<close>

definition appends :: "bool \<Rightarrow> bool \<Rightarrow> checks \<Rightarrow> bool" where
  "appends ok broken c \<longleftrightarrow> (\<forall>rs. \<exists>new. snd (c rs) = rs @ new \<and>
     (isl (fst (c rs)) \<longrightarrow> broken) \<and> (\<not> isl (fst (c rs)) \<longrightarrow> (fail_count new = 0 \<longleftrightarrow> ok)))"

lemma fail_count_append [simp]: "fail_count (rs @ rs') = fail_count rs + fail_count rs'"
  by (simp add: fail_count_def)

lemma fail_count_single [simp]: "fail_count [r] = (if ck_status r = FAIL then 1 else 0)" "fail_count [] = 0"
  by (simp_all add: fail_count_def)

lemma appends_record: "appends (st \<noteq> FAIL) broken (record_check name st detail)"
  by (simp add: appends_def record_check_def m_modify_def)

lemma appends_return: "appends True broken (m_return ())"
  by (simp add: appends_def)

lemma appends_seq:
  assumes "appends ok broken c" and "appends ok' broken c'"
  shows "appends (ok \<and> ok') broken (m_seq c c')"
  unfolding appends_def
proof
  fix rs
  obtain new where new: "snd (c rs) = rs @ new" "isl (fst (c rs)) \<longrightarrow> broken" "\<not> isl (fst (c rs)) \<longrightarrow> (fail_count new = 0 \<longleftrightarrow> ok)"
    using assms(1) unfolding appends_def by blast
  obtain more where more: "snd (c' (rs @ new)) = (rs @ new) @ more" "isl (fst (c' (rs @ new))) \<longrightarrow> broken"
      "\<not> isl (fst (c' (rs @ new))) \<longrightarrow> (fail_count more = 0 \<longleftrightarrow> ok')"
    using assms(2) unfolding appends_def by blast
  obtain r s where run: "c rs = (r, s)" by (cases "c rs")
  show "\<exists>new. snd (m_seq c c' rs) = rs @ new \<and> (isl (fst (m_seq c c' rs)) \<longrightarrow> broken) \<and>
      (\<not> isl (fst (m_seq c c' rs)) \<longrightarrow> (fail_count new = 0 \<longleftrightarrow> ok \<and> ok'))"
  proof (cases r)
    case (Inl e)
    then show ?thesis using new run by (intro exI [of _ new]) (simp add: m_seq_def m_bind_def)
  next
    case (Inr u)
    then have "m_seq c c' rs = c' (rs @ new)" using new(1) run by (simp add: m_seq_def m_bind_def)
    then show ?thesis using new more run Inr by (intro exI [of _ "new @ more"]) auto
  qed
qed

lemma appends_weaken: "appends ok broken c \<Longrightarrow> (broken \<Longrightarrow> broken') \<Longrightarrow> ok = ok' \<Longrightarrow> appends ok' broken' c"
  unfolding appends_def by blast

lemma appends_import:
  assumes "\<And>e. appends False broken (handler e)" and "\<And>x. appends ok broken (k x)" and "\<And>e. a = Inl (Raises e) \<Longrightarrow> broken"
  shows "appends (\<not> isl a \<and> ok) broken (on_import_error a handler k)"
proof (cases a)
  case (Inl f)
  show ?thesis
  proof (cases f)
    case (Raises e)
    then show ?thesis using assms(3) Inl by (simp add: on_import_error_def appends_def m_raise_def)
  qed (use assms(1) Inl in \<open>simp add: on_import_error_def\<close>)
qed (use assms(2) in \<open>simp add: on_import_error_def\<close>)

text \<open>The five checks.\<close>

lemma python_appends: "appends True (broken_import h) (check_python h)"
  using appends_record [of PASS] by (simp add: check_python_def)

lemma toolkit_appends: "appends (\<forall>p \<in> set toolkit_packages. \<not> isl (ho_import h p)) (broken_import h) (check_toolkit_deps h)"
proof -
  have "appends (\<forall>p \<in> set ps. \<not> isl (ho_import h p)) (broken_import h) (m_for ps (\<lambda>package.
       on_import_error (ho_import h package)
         (\<lambda>e. record_check package FAIL (''not importable ('' @ e @ '') -- re-run setup_venv.sh''))
         (\<lambda>attribute. record_check package PASS (''version '' @ toolkit_version h package attribute))))"
    if "set ps \<subseteq> set toolkit_packages" for ps
    using that
  proof (induction ps)
    case (Cons p ps)
    have "appends (\<not> isl (ho_import h p) \<and> True) (broken_import h) (on_import_error (ho_import h p)
         (\<lambda>e. record_check p FAIL (''not importable ('' @ e @ '') -- re-run setup_venv.sh''))
         (\<lambda>attribute. record_check p PASS (''version '' @ toolkit_version h p attribute)))"
      by (rule appends_import) (use Cons.prems appends_record [of FAIL] appends_record [of PASS] in \<open>auto simp: broken_import_def\<close>)
    from appends_seq [OF this Cons.IH] Cons.prems show ?case by (simp add: m_seq_def)
  qed (simp add: appends_return)
  from this [OF subset_refl] show ?thesis by (simp only: check_toolkit_deps_def)
qed

lemma pypylon_appends:
  "appends (pip_version h ''pypylon'' \<noteq> None \<and> (\<forall>e. ho_pylon_devices h \<noteq> Inl (ImportFails e))) (broken_import h) (check_pypylon h)"
proof (cases "pip_version h ''pypylon''")
  case (Some version)
  have first: "appends True (broken_import h) (record_check name (if b then PASS else WARN) detail)" for name b detail
    using appends_record [of PASS] appends_record [of WARN] by simp
  show ?thesis
  proof (cases "ho_pylon_devices h")
    case (Inl f)
    then show ?thesis
      using appends_seq [OF first appends_record [of FAIL]] appends_seq [OF first appends_record [of WARN]] Some
      by (cases f) (simp_all add: check_pypylon_def Let_def)
  next
    case (Inr n)
    then show ?thesis using appends_seq [OF first appends_record [of PASS]] Some by (simp add: check_pypylon_def Let_def)
  qed
qed (use appends_record [of FAIL] in \<open>simp add: check_pypylon_def\<close>)


lemma metavision_modules_found:
  "first_importable h ms err = Inr (found, err') \<Longrightarrow> (found = None) = (\<forall>m \<in> set ms. isl (ho_import h m))"
  by (induction ms arbitrary: err) (auto split: sum.splits failure.splits)

lemma metavision_modules_broken:
  "first_importable h ms err = Inl e \<Longrightarrow> \<exists>m \<in> set ms. ho_import h m = Inl (Raises e)"
  by (induction ms arbitrary: err) (auto split: sum.splits failure.splits)

lemma metavision_appends:
  "appends (\<exists>m \<in> set metavision_modules. \<not> isl (ho_import h m)) (broken_import h) (check_metavision h)"
proof (cases "first_importable h metavision_modules ''None''")
  case (Inl e)
  then have "broken_import h" using metavision_modules_broken [OF Inl] by (auto simp: broken_import_def)
  then show ?thesis by (simp add: check_metavision_def appends_def m_bind_def Inl)
next
  case (Inr p)
  obtain found err where p: "p = (found, err)" by (cases p)
  note none = metavision_modules_found [OF Inr [unfolded p]]
  show ?thesis
  proof (cases found)
    case None
    then have "check_metavision h = record_check ''Metavision SDK'' FAIL (no_metavision err)"
      by (simp add: check_metavision_def m_bind_def Inr p fun_eq_iff)
    then show ?thesis using appends_record [of FAIL] none None by simp
  next
    case (Some m)
    have ok: "appends True (broken_import h) (record_check name PASS detail)"
        "appends True (broken_import h) (record_check name WARN detail)" for name detail
      using appends_record [of PASS] appends_record [of WARN] by simp_all
    have last: "appends True (broken_import h) (case ho_hal_devices h of
          Inr n \<Rightarrow> record_check ''metavision_hal'' PASS (a n)
        | Inl (ImportFails e) \<Rightarrow> record_check ''metavision_hal'' WARN (b e)
        | Inl f \<Rightarrow> record_check ''metavision_hal'' WARN (c f))" for a b c
      using ok by (auto split: sum.split failure.split)
    have mid: "appends True (broken_import h) (if P then record_check name PASS d else record_check name WARN d')" for P name d d'
      using ok by simp
    have "appends True (broken_import h) (check_metavision h)"
      unfolding check_metavision_def m_bind_def Inr p Some prod.case sum.case option.case Let_def
      by (rule appends_weaken [OF appends_seq [OF ok(1) appends_seq [OF mid last]]]) simp_all
    then show ?thesis using none Some by simp
  qed
qed

lemma iio_appends: "appends (\<not> isl (ho_import h ''iio'')) (broken_import h) (check_iio h)"
proof -
  have ok: "appends True (broken_import h) (record_check name PASS detail)"
      "appends True (broken_import h) (record_check name WARN detail)" for name detail
    using appends_record [of PASS] appends_record [of WARN] by simp_all
  have "appends True (broken_import h) (case ho_iio_devices h of
        Inr ids \<Rightarrow> record_check ''iio.Context()'' PASS (a ids) | Inl e \<Rightarrow> record_check ''iio.Context()'' WARN (b e))" for a b
    using ok by (auto split: sum.split)
  note there = appends_seq [OF ok(1) this]
  have "appends (\<not> isl (ho_import h ''iio'') \<and> (True \<and> True)) (broken_import h) (check_iio h)"
    unfolding check_iio_def
    by (rule appends_import [OF _ there]) (use appends_record [of FAIL] in \<open>auto simp: broken_import_def\<close>)
  then show ?thesis by simp
qed

text \<open>
  The verdict of \<open>check_environment.py\<close>: it exits with 0 exactly on a host where every toolkit
  package, pypylon with its runtime, one of the two Metavision modules and libiio can be imported,
  and with 1 otherwise; it prints one line per result; and it ends with an exception only when an
  import raises something else than \<open>ImportError\<close>. A runtime that can be imported but not used is a
  warning, which does not count.
\<close>

theorem environment_verdict:
  "case check_environment h [] of
     (Inr (lines, code), rs) \<Rightarrow> code = (if usable h then 0 else 1) \<and> length lines = length rs + 4 \<and>
       (usable h \<longleftrightarrow> FAIL \<notin> ck_status ` set rs)
   | (Inl e, rs) \<Rightarrow> broken_import h"
proof -
  let ?checks = "m_seq (check_python h) (m_seq (check_toolkit_deps h) (m_seq (check_pypylon h) (m_seq (check_metavision h) (check_iio h))))"
  have all: "appends (usable h) (broken_import h) ?checks"
    by (rule appends_weaken [OF appends_seq [OF python_appends appends_seq [OF toolkit_appends appends_seq
          [OF pypylon_appends appends_seq [OF metavision_appends iio_appends]]]]]) (auto simp: usable_def)
  obtain r rs where run: "?checks [] = (r, rs)" by (cases "?checks []")
  have env: "check_environment h [] = (case r of Inl e \<Rightarrow> (Inl e, rs) | Inr _ \<Rightarrow> (print_report rs, rs))"
    using run by (auto simp: check_environment_def m_seq_def m_bind_def split: prod.splits sum.splits)
  show ?thesis
  proof (cases r)
    case (Inl e)
    then show ?thesis using all run by (auto simp: appends_def env dest: spec [of _ "[]"])
  next
    case (Inr u)
    obtain x where first: "check_python h [] = (Inr (), [x])" by (simp add: check_python_def record_check_def m_modify_def)
    note rest = appends_seq [OF toolkit_appends appends_seq [OF pypylon_appends appends_seq [OF metavision_appends iio_appends]]]
    have "\<exists>new. rs = [x] @ new"
      using rest [of h] run first unfolding appends_def m_seq_def [of "check_python h"] m_bind_def [of "check_python h"]
      by (auto dest: spec [of _ "[x]"])
    then have "rs \<noteq> []" by auto
    moreover have "fail_count rs = 0 \<longleftrightarrow> usable h" using all run Inr by (auto simp: appends_def dest: spec [of _ "[]"])
    moreover have "fail_count rs = 0 \<longleftrightarrow> FAIL \<notin> ck_status ` set rs" by (auto simp: fail_count_def filter_empty_conv image_iff)
    ultimately show ?thesis by (simp add: env Inr print_report_def Let_def)
  qed
qed


section \<open>What a discovery writes\<close>

text \<open>
  The files \<open>discover_cameras.py\<close> leaves: without a configuration it writes nothing and exits with
  1; the configuration changes only with \<open>--auto-assign\<close>, only when the script returns 0, and then to
  what \<open>auto_assign\<close> computes from the devices found; the raw results are those same devices, are
  written even when the assignment then fails, and an SDK that is not installed counts as no device.
\<close>

theorem discovery_writes:
  assumes run: "discover_main config_exists assign devices hal check s = (res, s')"
  shows "(\<not> config_exists \<longrightarrow> res = Inr 1 \<and> s' = s) \<and>
    (df_config s' = df_config s \<or> assign \<and> res = Inr 0) \<and>
    (config_exists \<and> res = Inr 0 \<longrightarrow> (\<exists>baslers cams warned.
       report_baslers devices = Inr baslers \<and> report_event_cameras hal = Inr (cams, warned) \<and>
       df_discovered s' = Some (write_discovered baslers cams) \<and>
       (assign \<longrightarrow> auto_assign (py_or (df_config s) (PDict [])) baslers cams = Inr (df_config s')))) \<and>
    (\<forall>e. devices = Inl (ImportFails e) \<longrightarrow> report_baslers devices = Inr []) \<and>
    (\<forall>e. hal = Inl (ImportFails e) \<longrightarrow> report_event_cameras hal = Inr ([], False))"
proof -
  have skipped: "(\<forall>e. devices = Inl (ImportFails e) \<longrightarrow> report_baslers devices = Inr [])"
      "(\<forall>e. hal = Inl (ImportFails e) \<longrightarrow> report_event_cameras hal = Inr ([], False))"
    by (simp_all add: report_baslers_def discover_baslers_def report_event_cameras_def discover_event_cameras_def)
  show ?thesis
  proof (cases config_exists)
    case True
    have steps: "(df_config s' = df_config s \<or> assign \<and> res = Inr 0) \<and> (res = Inr 0 \<longrightarrow> (\<exists>baslers cams warned.
       report_baslers devices = Inr baslers \<and> report_event_cameras hal = Inr (cams, warned) \<and>
       df_discovered s' = Some (write_discovered baslers cams) \<and>
       (assign \<longrightarrow> auto_assign (py_or (df_config s) (PDict [])) baslers cams = Inr (df_config s'))))"
      using run True
      by (auto simp: discover_main_def m_bind_def m_seq_def m_gets_def m_modify_def split: sum.splits if_splits)
    then show ?thesis using True skipped by blast
  qed (use run skipped in \<open>simp add: discover_main_def\<close>)
qed

theorem discovery_writes_witness:
  "\<exists>s'. discover_main True True (Inr [\<lparr>bd_serial = ''41'', bd_ip = None, bd_model = ''dmA'', bd_friendly = ''b''\<rparr>])
      (Inl (ImportFails ''no module'')) (\<lambda>d cs. \<lparr>ic_device_id = d, ic_found = False, ic_channels = [], ic_error = None\<rparr>)
      \<lparr>df_config = PDict [(''cameras'', PList [PDict [(''serial_number'', PStr [])]])], df_discovered = None\<rparr> = (Inr 0, s') \<and>
    auto_assign (PDict [(''cameras'', PList [PDict [(''serial_number'', PStr [])]])])
      [\<lparr>db_serial = ''41'', db_ip = [], db_model = ''dmA'', db_friendly = ''b''\<rparr>] [] = Inr (df_config s')"
proof -
  let ?devices = "Inr [\<lparr>bd_serial = ''41'', bd_ip = None, bd_model = ''dmA'', bd_friendly = ''b''\<rparr>] :: bus_device list attempt"
  let ?hal = "Inl (ImportFails ''no module'') :: string list attempt attempt"
  let ?check = "\<lambda>d cs. \<lparr>ic_device_id = d, ic_found = False, ic_channels = [], ic_error = None\<rparr> :: imu_check_result"
  let ?info = "PDict [(''cameras'', PList [PDict [(''serial_number'', PStr [])]])]"
  let ?s = "\<lparr>df_config = ?info, df_discovered = None\<rparr>"
  have found: "report_baslers ?devices = Inr [\<lparr>db_serial = ''41'', db_ip = [], db_model = ''dmA'', db_friendly = ''b''\<rparr>]"
      "report_event_cameras ?hal = Inr ([], False)"
    by (simp_all add: report_baslers_def discover_baslers_def report_event_cameras_def discover_event_cameras_def)
  obtain info where info: "auto_assign ?info [\<lparr>db_serial = ''41'', db_ip = [], db_model = ''dmA'', db_friendly = ''b''\<rparr>] [] = Inr info"
    by (simp add: auto_assign_def section_entries_def py_or_def assign_section_def already_assigned_def has_serial_def entry_get_def)
  have imus: "report_imus ?check ?info = Inr []" by (simp add: report_imus_def imu_entries_def py_or_def)
  obtain s' where run: "discover_main True True ?devices ?hal ?check ?s = (Inr 0, s')"
    by (simp add: discover_main_def m_bind_def m_seq_def m_gets_def m_modify_def found py_or_def imus info)
  from discovery_writes [OF run] have "\<exists>baslers cams warned. report_baslers ?devices = Inr baslers \<and>
       report_event_cameras ?hal = Inr (cams, warned) \<and> auto_assign (py_or ?info (PDict [])) baslers cams = Inr (df_config s')"
    by auto
  then have "auto_assign ?info [\<lparr>db_serial = ''41'', db_ip = [], db_model = ''dmA'', db_friendly = ''b''\<rparr>] [] = Inr (df_config s')"
    by (auto simp: found py_or_def)
  then show ?thesis using run by blast
qed

end
