(* ===== verification/Single_View.thy ===== *)
theory Single_View imports Calibration_Data begin

text \<open>
  \<open>single.py\<close>: \<open>SingleViewCalib\<close>, which estimates intrinsics and a pose from the tags of one image. The
  singular values, \<open>cv2.fisheye.calibrate\<close> and \<open>cv2.Rodrigues\<close> are parameters. No other module uses it.
\<close>

section \<open>The program\<close>

record single_observation =
  so_id :: int
  so_width :: int
  so_height :: int
  so_corners :: "(real \<times> real) list"

type_synonym points = "real list list"

record fisheye_result =
  fr_ret :: real
  fr_K :: matrix
  fr_D :: "real list"
  fr_rvec :: "real list"
  fr_tvec :: "real list"

text \<open>\<open>np.mean(points, axis=0)\<close> and the centred points.\<close>

definition centred :: "points \<Rightarrow> points" where
  "centred ps =
     (let mean = map (\<lambda>k. sum_list (map (\<lambda>p. p ! k) ps) / of_nat (length ps)) [0..<3]
      in map (\<lambda>p. map (\<lambda>k. p ! k - mean ! k) [0..<3]) ps)"

text \<open>Comparing the quotient with a zero first singular value is false: it is not a number or infinite.\<close>

definition is_degenerate :: "(points \<Rightarrow> real list res) \<Rightarrow> points list \<Rightarrow> bool res" where
  "is_degenerate svd object_points =
     (if length object_points < 2 then Inr True
      else res_bind (svd (centred (concat object_points))) (\<lambda>s.
             if length s < 3 then Inl IndexError
             else Inr (s ! 0 \<noteq> 0 \<and> s ! 2 / s ! 0 < 1 / 100)))"

text \<open>\<open>tag.corners[:, 0:3]\<close>: the first three columns of the four rows.\<close>

definition object_corners :: "matrix \<Rightarrow> points" where
  "object_corners corners = map (\<lambda>i. map (corners i) [0..<3]) [0..<4]"

definition known_observations :: "(int \<rightharpoonup> tag) \<Rightarrow> single_observation list \<Rightarrow> (points \<times> (real \<times> real) list) list" where
  "known_observations tags_dict observations =
     List.map_filter (\<lambda>obs. map_option (\<lambda>t. (object_corners (tg_corners t), so_corners obs)) (tags_dict (so_id obs))) observations"

text \<open>
  \<open>_calibrate\<close>; \<open>None\<close> stands for the tuple of \<open>None\<close>s. \<open>shape\<close> is that of the last observation; with no
  observation it is unbound, but then the points are degenerate.
\<close>

definition single_calibrate ::
    "(points \<Rightarrow> real list res) \<Rightarrow> (points \<Rightarrow> (real \<times> real) list \<Rightarrow> int \<times> int \<Rightarrow> fisheye_result res) \<Rightarrow> (real list \<Rightarrow> matrix res) \<Rightarrow>
     (int \<rightharpoonup> tag) \<Rightarrow> single_observation list \<Rightarrow> (real \<times> matrix \<times> real list \<times> matrix \<times> real list) option res" where
  "single_calibrate svd fisheye rodrigues tags_dict observations =
     (let known = known_observations tags_dict observations; object_points = map fst known
      in res_bind (is_degenerate svd object_points) (\<lambda>degenerate.
           if degenerate then Inr None
           else case res_bind (fisheye (concat object_points) (concat (map snd known))
                        (so_width (last observations), so_height (last observations))) (\<lambda>r.
                      res_bind (rodrigues (fr_rvec r)) (\<lambda>R. Inr (fr_ret r, fr_K r, fr_D r, R, fr_tvec r))) of
                  Inl _ \<Rightarrow> Inr None
                | Inr result \<Rightarrow> Inr (Some result)))"

record single_view_calib =
  sc_reprojection_error :: "real option"
  sc_K :: "matrix option"
  sc_dist_coeffs :: "real list option"
  sc_T_camera_world :: matrix

definition new_single_view ::
    "(points \<Rightarrow> real list res) \<Rightarrow> (points \<Rightarrow> (real \<times> real) list \<Rightarrow> int \<times> int \<Rightarrow> fisheye_result res) \<Rightarrow> (real list \<Rightarrow> matrix res) \<Rightarrow>
     (int \<rightharpoonup> tag) \<Rightarrow> single_observation list \<Rightarrow> single_view_calib res" where
  "new_single_view svd fisheye rodrigues tags_dict observations =
     res_bind (single_calibrate svd fisheye rodrigues tags_dict observations) (\<lambda>result.
       Inr (case result of
              None \<Rightarrow> \<lparr>sc_reprojection_error = None, sc_K = None, sc_dist_coeffs = None, sc_T_camera_world = eye\<rparr>
            | Some (ret, K, D, R, t) \<Rightarrow>
              \<lparr>sc_reprojection_error = Some ret, sc_K = Some K, sc_dist_coeffs = Some D, sc_T_camera_world = rigid_pose R t\<rparr>))"

section \<open>What it calibrates with\<close>

lemma tag_corners_homogeneous:
  "j < 4 \<Longrightarrow> tag_corners side (rigid_pose R t) 3 j = 1"
  by (auto simp: tag_corners_def rigid_pose_def eye_def upt_conv_Cons less_Suc_eq numeral_eq_Suc Let_def)

lemma nths3: "[0..<3] = [0, 1, 2 :: nat]"
  by (simp add: upt_rec)

text \<open>
  The points \<open>SingleViewCalib\<close> takes as the corners of a tag: it slices columns of a matrix whose
  columns are the corners, so it gets four points, of which point \<open>i\<close> holds the \<open>i\<close>-th coordinate of
  the first three corners, and the fourth is (1, 1, 1) for every tag in every pose; the fourth corner
  is never used. An image with fewer than two known tags gives the identity pose and no intrinsics,
  whatever OpenCV would say.
\<close>

theorem single_view_takes_coordinates_for_points:
  assumes "new_tag from_quat k side pos q = Inr t"
  shows "length (object_corners (tg_corners t)) = 4 \<and>
    (\<forall>i j. i < 4 \<and> j < 3 \<longrightarrow> object_corners (tg_corners t) ! i ! j = tg_corners t i j) \<and>
    object_corners (tg_corners t) ! 3 = [1, 1, 1] \<and>
    (length (known_observations tags obs) < 2 \<longrightarrow>
       new_single_view svd fisheye rodrigues tags obs =
         Inr \<lparr>sc_reprojection_error = None, sc_K = None, sc_dist_coeffs = None, sc_T_camera_world = eye\<rparr>)"
proof -
  obtain R where t: "tg_corners t = tag_corners side (rigid_pose R pos)"
    using assms by (auto simp: new_tag_def res_bind_Inr_iff Let_def)
  have "object_corners (tg_corners t) ! 3 = [1, 1, 1]"
    using tag_corners_homogeneous [of 0] tag_corners_homogeneous [of 1] tag_corners_homogeneous [of 2]
    by (simp add: object_corners_def t nths3)
  moreover have "\<forall>i j. i < 4 \<and> j < 3 \<longrightarrow> object_corners (tg_corners t) ! i ! j = tg_corners t i j"
    by (simp add: object_corners_def)
  ultimately show ?thesis
    by (simp add: new_single_view_def single_calibrate_def is_degenerate_def Let_def object_corners_def)
qed

theorem single_view_takes_coordinates_for_points_witness:
  "\<exists>t. new_tag (\<lambda>_. Inr eye) 7 2 [5, 6, 7] [0, 0, 0, 1] = Inr t \<and> object_corners (tg_corners t) ! 3 = [1, 1, 1]"
proof -
  obtain t where "new_tag (\<lambda>_. Inr eye) 7 2 [5, 6, 7] [0, 0, 0, 1] = Inr t" by (simp add: new_tag_def Let_def)
  then show ?thesis using single_view_takes_coordinates_for_points by blast
qed

end
