(* ===== verification/Tidy_Diff.thy ===== *)
theory Tidy_Diff imports Environment_Check Ros_Convert begin

text \<open>
  The first half of \<open>ci/clang-tidy-diff.py\<close>: its options, the compilation database, the changed lines
  of a unified diff, and the command lines that are run for them. The regular expressions of the
  script are recognisers on strings; the pattern a user gives with \<open>-regex\<close> or \<open>-iregex\<close> is a
  predicate on file names.
\<close>

section \<open>Options\<close>

record tidy_args =
  ta_clang_tidy_binary :: string
  ta_p :: nat
  ta_regex :: "(string \<Rightarrow> bool) option"
  ta_iregex :: "string \<Rightarrow> bool"
  ta_j :: int
  ta_timeout :: "int option"
  ta_fix :: bool
  ta_checks :: string
  ta_config_file :: string
  ta_use_color :: bool
  ta_build_path :: "string option"
  ta_export_fixes :: "string option"
  ta_extra_arg :: "string list"
  ta_extra_arg_before :: "string list"
  ta_quiet :: bool
  ta_plugins :: "string list"
  ta_allow_no_checks :: bool
  ta_skip_non_compiling :: bool
  ta_warnings_as_errors :: string

definition source_extensions :: "string list" where
  "source_extensions =
     [''cpp'', ''cc'', ''c++'', ''cxx'', ''c'', ''cl'', ''h'', ''hpp'', ''m'', ''mm'', ''inc'']"

text \<open>The default pattern, anchored at both ends and without regard to case.\<close>

definition default_iregex :: "string \<Rightarrow> bool" where
  "default_iregex name =
     list_ex (\<lambda>ext. suffix (CHR ''.'' # ext) (map lower_char name)) source_extensions"

text \<open>What the parser returns when no option is given.\<close>

definition default_tidy_args :: tidy_args where
  "default_tidy_args =
     \<lparr>ta_clang_tidy_binary = ''clang-tidy'', ta_p = 0, ta_regex = None, ta_iregex = default_iregex,
      ta_j = 1, ta_timeout = None, ta_fix = False, ta_checks = [], ta_config_file = [],
      ta_use_color = False, ta_build_path = None, ta_export_fixes = None, ta_extra_arg = [],
      ta_extra_arg_before = [], ta_quiet = False, ta_plugins = [], ta_allow_no_checks = False,
      ta_skip_non_compiling = False, ta_warnings_as_errors = []\<rparr>"

text \<open>The arguments from the first \<open>--\<close> on are passed to every clang-tidy, the others are parsed.\<close>

definition split_arguments :: "string list \<Rightarrow> string list \<times> string list" where
  "split_arguments argv =
     (takeWhile (\<lambda>a. a \<noteq> ''--'') argv, dropWhile (\<lambda>a. a \<noteq> ''--'') argv)"

section \<open>The compilation database\<close>

text \<open>\<open>a / b\<close> and \<open>Path(b)\<close> as the text of the path.\<close>

definition path_div :: "string \<Rightarrow> string \<Rightarrow> string" where
  "path_div a b =
     (if path_root b \<noteq> [] then path_str (path_root b) (path_parts b)
      else path_str (path_root a) (path_parts a @ path_parts b))"

definition compile_commands_json :: "string \<Rightarrow> string option \<Rightarrow> string" where
  "compile_commands_json cwd build_path =
     path_div (case build_path of Some (c # cs) \<Rightarrow> path_div cwd (c # cs) | _ \<Rightarrow> cwd)
       ''compile_commands.json''"

text \<open>\<open>"file" in entry\<close>.\<close>

fun py_contains :: "pyval \<Rightarrow> string \<Rightarrow> bool res" where
  "py_contains (PDict kvs) k = Inr (map_of kvs k \<noteq> None)"
| "py_contains (PList xs) k = Inr (PStr k \<in> set xs)"
| "py_contains (PStr s) k = Inr (contains k s)"
| "py_contains _ k = Inl (TypeError ''argument is not iterable'')"

fun to_path :: "pyval \<Rightarrow> string res" where
  "to_path (PStr s) = Inr (path_str (path_root s) (path_parts s))"
| "to_path _ = Inl (TypeError ''expected str, bytes or os.PathLike object'')"

definition entry_file :: "pyval \<Rightarrow> string list res" where
  "entry_file entry =
     res_bind (py_contains entry ''file'') (\<lambda>has.
     if \<not> has then Inr []
     else res_bind (py_item entry ''file'') (\<lambda>f. res_bind (to_path f) (\<lambda>p. Inr [p])))"

text \<open>
  \<open>read\<close> is what opening and parsing the database gives. The set of the code is the list of its
  elements here: only membership is asked.
\<close>

definition get_compiling_files ::
  "(string \<Rightarrow> pyval res) \<Rightarrow> string \<Rightarrow> tidy_args \<Rightarrow> string list res" where
  "get_compiling_files read cwd a =
     res_bind (read (compile_commands_json cwd (ta_build_path a))) (\<lambda>db.
     res_bind (py_iter db) (\<lambda>entries.
     res_bind (res_map entry_file entries) (\<lambda>fs. Inr (concat fs))))"

section \<open>The changed lines of a diff\<close>

text \<open>
  The file header \<open>^\+\+\+\ "?(.*?/){p}([^ \t\n"]*)\<close>: each lazy group ends at the next slash of the
  line, and what follows the last one, up to white space or a quote, is the name. Dropping the
  optional quote never loses a slash, so the search needs no backtracking.
\<close>

fun strip_dirs :: "nat \<Rightarrow> string \<Rightarrow> string option" where
  "strip_dirs 0 s = Some s"
| "strip_dirs (Suc p) s =
     (case dropWhile (\<lambda>c. \<not> slash c \<and> c \<noteq> CHR 0x0A) s of
        c # t \<Rightarrow> if slash c then strip_dirs p t else None
      | [] \<Rightarrow> None)"

definition name_char :: "char \<Rightarrow> bool" where
  "name_char c \<longleftrightarrow> c \<notin> {CHR '' '', CHR 0x09, CHR 0x0A, CHR 0x22}"

definition drop_quote :: "string \<Rightarrow> string" where
  "drop_quote s = (if prefix [CHR 0x22] s then tl s else s)"

definition header_name :: "nat \<Rightarrow> string \<Rightarrow> string option" where
  "header_name p line =
     (if prefix ''+++ '' line
      then map_option (takeWhile name_char) (strip_dirs p (drop_quote (drop 4 line)))
      else None)"

text \<open>
  The hunk header \<open>^@@.*\+(\d+)(,(\d+))?\<close>: the dots are greedy, so the numbers are those after the
  last plus sign of the line that a digit follows.
\<close>

fun last_plus :: "string \<Rightarrow> string option" where
  "last_plus [] = None"
| "last_plus (c # s) =
     (case last_plus s of
        Some t \<Rightarrow> Some t
      | None \<Rightarrow> if c = CHR ''+'' \<and> s \<noteq> [] \<and> is_digit (hd s) then Some s else None)"

definition hunk_numbers :: "string \<Rightarrow> nat \<times> nat option" where
  "hunk_numbers s =
     (let rest = dropWhile is_digit s; count = takeWhile is_digit (tl rest)
      in (parse_digits (takeWhile is_digit s),
          if prefix '','' rest \<and> count \<noteq> [] then Some (parse_digits count) else None))"

definition hunk_header :: "string \<Rightarrow> (nat \<times> nat option) option" where
  "hunk_header line =
     (if prefix ''@@'' line
      then map_option hunk_numbers (last_plus (takeWhile (\<lambda>c. c \<noteq> CHR 0x0A) (drop 2 line)))
      else None)"

type_synonym line_range = "int \<times> int"
type_synonym lines_by_file = "(string \<times> line_range list) list"

text \<open>\<open>lines_by_file.setdefault(name, []).append(r)\<close>: a new key comes last.\<close>

fun append_range :: "string \<Rightarrow> line_range \<Rightarrow> lines_by_file \<Rightarrow> lines_by_file" where
  "append_range name r [] = [(name, [r])]"
| "append_range name r ((n, rs) # d) =
     (if n = name then (n, rs @ [r]) # d else (n, rs) # append_range name r d)"

definition selected :: "tidy_args \<Rightarrow> string \<Rightarrow> string list option \<Rightarrow> string \<Rightarrow> bool" where
  "selected a cwd compiling name \<longleftrightarrow>
     (case ta_regex a of Some r \<Rightarrow> r name | None \<Rightarrow> ta_iregex a name) \<and>
     (case compiling of None \<Rightarrow> True | Some fs \<Rightarrow> path_div cwd name \<in> set fs)"

text \<open>One line: the current file name and what has been collected.\<close>

definition diff_line ::
  "tidy_args \<Rightarrow> (string \<Rightarrow> bool) \<Rightarrow> string \<Rightarrow> string option \<times> lines_by_file
    \<Rightarrow> string option \<times> lines_by_file" where
  "diff_line a sel line st =
     (let filename = (case header_name (ta_p a) line of Some n \<Rightarrow> Some n | None \<Rightarrow> fst st)
      in (filename,
          case filename of
            None \<Rightarrow> snd st
          | Some name \<Rightarrow>
              if \<not> sel name then snd st
              else case hunk_header line of
                     None \<Rightarrow> snd st
                   | Some (start_line, group3) \<Rightarrow>
                       let line_count = (case group3 of None \<Rightarrow> 1 | Some n \<Rightarrow> n)
                       in if line_count = 0 then snd st
                          else append_range name
                                 (int start_line, int start_line + int line_count - 1) (snd st)))"

definition changed_lines :: "tidy_args \<Rightarrow> (string \<Rightarrow> bool) \<Rightarrow> string list \<Rightarrow> lines_by_file" where
  "changed_lines a sel lines = snd (fold (diff_line a sel) lines (None, []))"

section \<open>Command lines\<close>

text \<open>\<open>json.dumps\<close> escapes what is not printable ASCII.\<close>

definition to_ascii :: "string \<Rightarrow> string" where
  "to_ascii s = concat (map (\<lambda>c.
     let n = of_char c :: nat
     in if n < 127 then [c]
        else [CHR 0x5C, CHR ''u'', CHR ''0'', CHR ''0'', hex_digit (n div 16), hex_digit (n mod 16)]) s)"

definition line_filter_json :: "string \<Rightarrow> line_range list \<Rightarrow> string" where
  "line_filter_json name ranges =
     to_ascii (json_text (\<lambda>_. []) (PList [PDict [(''name'', PStr name),
       (''lines'', PList (map (\<lambda>(s, e). PList [PInt s, PInt e]) ranges))]]))"

definition common_clang_tidy_args :: "tidy_args \<Rightarrow> string list" where
  "common_clang_tidy_args a =
     (if ta_fix a then [''-fix''] else []) @
     (if ta_checks a \<noteq> [] then [''-checks='' @ ta_checks a] else []) @
     (if ta_config_file a \<noteq> [] then [''-config-file='' @ ta_config_file a] else []) @
     (if ta_quiet a then [''-quiet''] else []) @
     (case ta_build_path a of None \<Rightarrow> [] | Some b \<Rightarrow> [''-p='' @ b]) @
     (if ta_use_color a then [''--use-color''] else []) @
     (if ta_allow_no_checks a then [''--allow-no-checks''] else []) @
     map (\<lambda>x. ''-extra-arg='' @ x) (ta_extra_arg a) @
     map (\<lambda>x. ''-extra-arg-before='' @ x) (ta_extra_arg_before a) @
     map (\<lambda>x. ''-load='' @ x) (ta_plugins a) @
     (if ta_warnings_as_errors a \<noteq> [] then [''-warnings-as-errors='' @ ta_warnings_as_errors a] else [])"

text \<open>\<open>tmp\<close> is the temporary file of the exported fixes, \<open>extra\<close> the arguments from \<open>--\<close> on.\<close>

definition tidy_command :: "tidy_args \<Rightarrow> string list \<Rightarrow> string \<Rightarrow> string \<times> line_range list \<Rightarrow> string list" where
  "tidy_command a extra tmp f =
     [ta_clang_tidy_binary a, ''-line-filter='' @ line_filter_json (fst f) (snd f)] @
     (if ta_export_fixes a \<noteq> None then [''-export-fixes='' @ tmp] else []) @
     common_clang_tidy_args a @ [fst f] @ extra"

text \<open>\<open>mkstemp k\<close> is the name the \<open>k\<close>-th temporary file gets.\<close>

definition tidy_commands ::
  "tidy_args \<Rightarrow> string list \<Rightarrow> (nat \<Rightarrow> string) \<Rightarrow> lines_by_file \<Rightarrow> string list list" where
  "tidy_commands a extra mkstemp d =
     map (\<lambda>(k, f). tidy_command a extra (mkstemp k) f) (List.enumerate 0 d)"

lemma line_filter_example:
  "line_filter_json ''a.cpp'' [(1, 2), (7, 7)] =
     ''[{'' @ quoted_name @ '':'' @ q ''a.cpp'' @ '','' @ q ''lines'' @ '':[[1,2],[7,7]]}]''"
  if "quoted_name = [CHR 0x22] @ ''name'' @ [CHR 0x22]" and "q = (\<lambda>s. [CHR 0x22] @ s @ [CHR 0x22])"
  unfolding that by code_simp

section \<open>What a unified diff says\<close>

text \<open>
  The files of a diff as they are written: the lines before the file header, the directories that
  \<open>-p\<close> strips, the name, the rest of the header line, and the hunks with their heading and body.
\<close>

record hunk =
  hk_old :: string
  hk_start :: nat
  hk_count :: "nat option"
  hk_heading :: string
  hk_body :: "string list"

record file_patch =
  fp_preamble :: "string list"
  fp_quoted :: bool
  fp_dirs :: "string list"
  fp_name :: string
  fp_rest :: string
  fp_hunks :: "hunk list"

definition render_hunk :: "hunk \<Rightarrow> string list" where
  "render_hunk h =
     (''@@ -'' @ hk_old h @ '' +'' @ nat_str (hk_start h) @
      (case hk_count h of None \<Rightarrow> [] | Some n \<Rightarrow> '','' @ nat_str n) @ '' @@'' @ hk_heading h @ [CHR 0x0A])
     # hk_body h"

definition render_patch :: "file_patch \<Rightarrow> string list" where
  "render_patch f =
     fp_preamble f @
     [''+++ '' @ (if fp_quoted f then [CHR 0x22] else []) @
      concat (map (\<lambda>d. d @ ''/'') (fp_dirs f)) @ fp_name f @ fp_rest f] @
     concat (map render_hunk (fp_hunks f))"

definition plain_line :: "string \<Rightarrow> bool" where
  "plain_line l \<longleftrightarrow> \<not> prefix ''+++ '' l \<and> \<not> prefix ''@@'' l"

definition hunk_wf :: "hunk \<Rightarrow> bool" where
  "hunk_wf h \<longleftrightarrow> CHR 0x0A \<notin> set (hk_old h) \<and> CHR 0x0A \<notin> set (hk_heading h) \<and>
     last_plus (hk_heading h) = None \<and> list_all plain_line (hk_body h)"

definition patch_wf :: "nat \<Rightarrow> file_patch \<Rightarrow> bool" where
  "patch_wf p f \<longleftrightarrow> list_all plain_line (fp_preamble f) \<and> length (fp_dirs f) = p \<and>
     list_all (\<lambda>d. list_all name_char d \<and> CHR ''/'' \<notin> set d) (fp_dirs f) \<and>
     list_all name_char (fp_name f) \<and> (fp_rest f = [] \<or> \<not> name_char (hd (fp_rest f))) \<and>
     (fp_quoted f \<or> concat (map (\<lambda>d. d @ ''/'') (fp_dirs f)) @ fp_name f \<noteq> []) \<and>
     list_all hunk_wf (fp_hunks f)"

definition hunk_ranges :: "hunk \<Rightarrow> line_range list" where
  "hunk_ranges h =
     (let n = (case hk_count h of None \<Rightarrow> 1 | Some n \<Rightarrow> n)
      in if n = 0 then [] else [(int (hk_start h), int (hk_start h) + int n - 1)])"

definition added_ranges :: "string \<Rightarrow> file_patch list \<Rightarrow> line_range list" where
  "added_ranges name fs =
     concat (map (\<lambda>f. if fp_name f = name then concat (map hunk_ranges (fp_hunks f)) else []) fs)"

section \<open>Reading it back\<close>

definition ranges_of :: "lines_by_file \<Rightarrow> string \<Rightarrow> line_range list" where
  "ranges_of d n = (case map_of d n of None \<Rightarrow> [] | Some rs \<Rightarrow> rs)"

definition ranges_wf :: "lines_by_file \<Rightarrow> bool" where
  "ranges_wf d \<longleftrightarrow> distinct (map fst d) \<and> list_all (\<lambda>e. snd e \<noteq> []) d"

lemma ranges_of_append [simp]:
  "ranges_of (append_range n r d) m = ranges_of d m @ (if m = n then [r] else [])"
  by (induction n r d rule: append_range.induct) (auto simp: ranges_of_def)

lemma fst_append_range: "fst ` set (append_range n r d) = insert n (fst ` set d)"
  by (induction n r d rule: append_range.induct) auto

lemma append_range_wf: "ranges_wf d \<Longrightarrow> ranges_wf (append_range n r d)"
  by (induction n r d rule: append_range.induct) (auto simp: ranges_wf_def fst_append_range)

lemma map_of_ranges:
  "ranges_wf d \<Longrightarrow> map_of d n = (if ranges_of d n = [] then None else Some (ranges_of d n))"
  by (auto simp: ranges_wf_def ranges_of_def list_all_iff split: option.splits dest: map_of_SomeD)

lemma last_plus_append: "last_plus t = Some u \<Longrightarrow> last_plus (s @ t) = Some u"
  by (induction s) simp_all

lemma last_plus_none: "CHR ''+'' \<notin> set s \<Longrightarrow> last_plus t = None \<Longrightarrow> last_plus (s @ t) = None"
  by (induction s) auto

lemma nat_str_no_plus: "CHR ''+'' \<notin> set (nat_str n)" "CHR 0x0A \<notin> set (nat_str n)"
  using nat_str_digits [of n] by (auto simp: list_all_iff is_digit_def)

lemma takeWhile_line: "c \<notin> set s \<Longrightarrow> takeWhile (\<lambda>x. x \<noteq> c) (s @ [c]) = s"
  by (induction s) auto

lemma strip_dirs_dirs:
  "list_all (\<lambda>d. list_all name_char d \<and> CHR ''/'' \<notin> set d) ds \<Longrightarrow>
   strip_dirs (length ds) (concat (map (\<lambda>d. d @ ''/'') ds) @ s) = Some s"
proof (induction ds)
  case (Cons d ds)
  then have "dropWhile (\<lambda>c. \<not> slash c \<and> c \<noteq> CHR 0x0A) (d @ ''/'' @ t) = ''/'' @ t" for t
    by (subst dropWhile_append2) (auto simp: slash_def name_char_def list_all_iff)
  with Cons show ?case by (simp add: slash_def)
qed simp

lemma plain_line_kept:
  assumes "plain_line l"
  shows "diff_line a sel l st = st"
proof -
  have "header_name (ta_p a) l = None" "hunk_header l = None"
    using assms by (simp_all add: plain_line_def header_name_def hunk_header_def)
  then show ?thesis by (cases st) (simp add: diff_line_def split: option.splits)
qed

lemma plain_lines_kept: "list_all plain_line ls \<Longrightarrow> fold (diff_line a sel) ls st = st"
  by (induction ls) (simp_all add: plain_line_kept)

lemma header_name_rendered:
  assumes "patch_wf p f"
  shows "header_name p (''+++ '' @ (if fp_quoted f then [CHR 0x22] else []) @
      concat (map (\<lambda>d. d @ ''/'') (fp_dirs f)) @ fp_name f @ fp_rest f) = Some (fp_name f)"
proof -
  let ?s = "concat (map (\<lambda>d. d @ ''/'') (fp_dirs f)) @ fp_name f"
  have chars: "list_all name_char ?s" using assms
    by (auto simp: patch_wf_def list_all_iff name_char_def)
  have "drop_quote ((if fp_quoted f then [CHR 0x22] else []) @ ?s @ fp_rest f) = ?s @ fp_rest f"
    using assms chars
    by (cases ?s) (auto simp: drop_quote_def patch_wf_def name_char_def)
  moreover have "strip_dirs p (?s @ fp_rest f) = Some (fp_name f @ fp_rest f)"
    using strip_dirs_dirs [of "fp_dirs f"] assms by (simp add: patch_wf_def)
  moreover have "takeWhile name_char (fp_name f @ fp_rest f) = fp_name f"
    using assms by (cases "fp_rest f") (auto simp: patch_wf_def list_all_iff)
  ultimately show ?thesis by (simp add: header_name_def)
qed

lemma hunk_numbers_rendered:
  "hunk_numbers (nat_str s @ (case c of None \<Rightarrow> [] | Some n \<Rightarrow> '','' @ nat_str n) @ '' @@'' @ h) = (s, c)"
proof -
  have sep: "\<not> is_digit (CHR '','')" "\<not> is_digit (CHR '' '')" by code_simp+
  note tw = takeWhile_digits_append [OF nat_str_digits]
  show ?thesis
    by (cases c) (simp_all add: hunk_numbers_def tw sep Let_def)
qed

lemma hunk_header_rendered:
  assumes "hunk_wf h"
  shows "hunk_header (hd (render_hunk h)) = Some (hk_start h, hk_count h)"
proof -
  let ?num = "nat_str (hk_start h) @ (case hk_count h of None \<Rightarrow> [] | Some n \<Rightarrow> '','' @ nat_str n)"
  let ?tail = "?num @ '' @@'' @ hk_heading h"
  have "CHR 0x0A \<notin> set ('' -'' @ hk_old h @ '' +'' @ ?tail)"
    using assms nat_str_no_plus(2) by (auto simp: hunk_wf_def split: option.splits)
  then have "takeWhile (\<lambda>c. c \<noteq> CHR 0x0A) ('' -'' @ hk_old h @ '' +'' @ ?tail @ [CHR 0x0A])
      = '' -'' @ hk_old h @ '' +'' @ ?tail"
    using takeWhile_line [of "CHR 0x0A" "'' -'' @ hk_old h @ '' +'' @ ?tail"] by (simp only: append_assoc simp_thms)
  moreover have "last_plus ?tail = None"
    using assms last_plus_none [of ?num "'' @@'' @ hk_heading h"] nat_str_no_plus(1)
    by (auto simp: hunk_wf_def split: option.splits)
  then have "last_plus (''+'' @ ?tail) = Some ?tail"
    using nat_str_digits [of "hk_start h"] nat_str_nonempty [of "hk_start h"]
    by (cases "nat_str (hk_start h)") simp_all
  then have "last_plus ('' -'' @ hk_old h @ '' '' @ ''+'' @ ?tail) = Some ?tail"
    using last_plus_append [of "''+'' @ ?tail" ?tail "'' -'' @ hk_old h @ '' ''"] by (simp only: append_assoc)
  ultimately show ?thesis
    using hunk_numbers_rendered by (simp add: hunk_header_def render_hunk_def)
qed

text \<open>One hunk, one file, the whole diff: the ranges added to the name that is current.\<close>

definition extends :: "string \<Rightarrow> line_range list \<Rightarrow> lines_by_file \<Rightarrow> lines_by_file \<Rightarrow> bool" where
  "extends n rs d d' \<longleftrightarrow> (ranges_wf d \<longrightarrow> ranges_wf d') \<and>
     (\<forall>m. ranges_of d' m = ranges_of d m @ (if m = n then rs else []))"

lemma extends_refl [simp]: "extends n [] d d"
  by (simp add: extends_def)

lemma extends_trans: "extends n rs d d' \<Longrightarrow> extends n rs' d' d'' \<Longrightarrow> extends n (rs @ rs') d d''"
  by (simp add: extends_def)

lemma hunk_extends:
  assumes "hunk_wf h"
  shows "\<exists>d'. fold (diff_line a sel) (render_hunk h) (Some n, d) = (Some n, d') \<and>
    extends n (if sel n then hunk_ranges h else []) d d'"
proof -
  let ?l = "hd (render_hunk h)"
  have cons: "render_hunk h = ?l # hk_body h" by (simp add: render_hunk_def)
  have "header_name (ta_p a) ?l = None" by (simp add: render_hunk_def header_name_def)
  moreover note hunk_header_rendered [OF assms]
  moreover have "fold (diff_line a sel) (hk_body h) st = st" for st
    using assms by (simp add: hunk_wf_def plain_lines_kept)
  ultimately show ?thesis
    by (subst cons)
      (auto simp: diff_line_def hunk_ranges_def extends_def append_range_wf Let_def split: option.splits)
qed

lemma hunks_extend:
  assumes "list_all hunk_wf hs"
  shows "\<exists>d'. fold (diff_line a sel) (concat (map render_hunk hs)) (Some n, d) = (Some n, d') \<and>
    extends n (if sel n then concat (map hunk_ranges hs) else []) d d'"
  using assms
proof (induction hs arbitrary: d)
  case (Cons h hs)
  then obtain d1 where
    1: "fold (diff_line a sel) (render_hunk h) (Some n, d) = (Some n, d1)"
      "extends n (if sel n then hunk_ranges h else []) d d1"
    using hunk_extends [of h a sel n d] by auto
  from Cons obtain d2 where
    2: "fold (diff_line a sel) (concat (map render_hunk hs)) (Some n, d1) = (Some n, d2)"
      "extends n (if sel n then concat (map hunk_ranges hs) else []) d1 d2"
    by fastforce
  from 1 2 extends_trans [OF 1(2) 2(2)] show ?case by (auto split: if_splits)
qed simp

lemma patch_extends:
  assumes "patch_wf (ta_p a) f"
  shows "\<exists>d'. fold (diff_line a sel) (render_patch f) (cur, d) = (Some (fp_name f), d') \<and>
    extends (fp_name f) (if sel (fp_name f) then concat (map hunk_ranges (fp_hunks f)) else []) d d'"
proof -
  let ?l = "''+++ '' @ (if fp_quoted f then [CHR 0x22] else []) @
      concat (map (\<lambda>d. d @ ''/'') (fp_dirs f)) @ fp_name f @ fp_rest f"
  have "diff_line a sel ?l (cur, d) = (Some (fp_name f), d)"
    using header_name_rendered [OF assms] by (simp add: diff_line_def hunk_header_def)
  moreover have "fold (diff_line a sel) (fp_preamble f) st = st" for st
    using assms by (simp add: patch_wf_def plain_lines_kept)
  moreover have "list_all hunk_wf (fp_hunks f)" using assms by (simp add: patch_wf_def)
  ultimately show ?thesis
    using hunks_extend by (simp add: render_patch_def)
qed

lemma diff_extends:
  assumes "list_all (patch_wf (ta_p a)) fs" and "ranges_wf d"
  shows "ranges_wf (snd (fold (diff_line a sel) (concat (map render_patch fs)) (cur, d))) \<and>
    (\<forall>m. ranges_of (snd (fold (diff_line a sel) (concat (map render_patch fs)) (cur, d))) m =
      ranges_of d m @ (if sel m then added_ranges m fs else []))"
  using assms
proof (induction fs arbitrary: cur d)
  case (Cons f fs)
  then obtain d' where
    1: "fold (diff_line a sel) (render_patch f) (cur, d) = (Some (fp_name f), d')"
      "extends (fp_name f) (if sel (fp_name f) then concat (map hunk_ranges (fp_hunks f)) else []) d d'"
    using patch_extends [of a f sel cur d] by auto
  with Cons.prems have "ranges_wf d'" by (simp add: extends_def)
  with Cons.IH [of d' "Some (fp_name f)"] Cons.prems 1 show ?case
    by (auto simp: extends_def added_ranges_def)
qed (simp add: added_ranges_def)


definition example_patch :: file_patch where
  "example_patch =
     \<lparr>fp_preamble = [''diff --git a/src/a.cpp b/src/a.cpp'', ''--- a/src/a.cpp''], fp_quoted = False,
      fp_dirs = [''b''], fp_name = ''src/a.cpp'', fp_rest = [CHR 0x0A],
      fp_hunks =
       [\<lparr>hk_old = ''1,0'', hk_start = 3, hk_count = Some 2, hk_heading = '' int f()'', hk_body = [''+x'', ''+y'']\<rparr>,
        \<lparr>hk_old = ''7,2'', hk_start = 8, hk_count = Some 0, hk_heading = [], hk_body = [''-x'', ''-y'']\<rparr>,
        \<lparr>hk_old = ''12'', hk_start = 11, hk_count = None, hk_heading = [], hk_body = [''-x'', ''+z'']\<rparr>]\<rparr>"

lemma example_patch_wf: "list_all (patch_wf (ta_p (default_tidy_args\<lparr>ta_p := 1\<rparr>))) [example_patch]"
  by code_simp

lemma example_patch_ranges:
  "default_iregex ''src/a.cpp'' \<and> added_ranges ''src/a.cpp'' [example_patch] = [(3, 4), (11, 11)]"
  by code_simp


text \<open>
  Outside of that form the script reads something else. A plus sign before a digit in the heading of a
  hunk is taken for the new range; an added line that starts with two plus signs and a space is taken for
  a file header; a header with fewer directories than \<open>-p\<close> strips leaves the name of the file before.
\<close>

lemma heading_is_taken_for_the_range:
  "hunk_header ''@@ -10,0 +11,2 @@ return x+1;'' = Some (1, None)"
  by code_simp

lemma added_line_is_taken_for_a_header:
  "header_name 0 (''+'' @ ''++ i;'') = Some ''i;''"
  by code_simp

lemma short_header_keeps_the_file_before:
  "changed_lines (default_tidy_args\<lparr>ta_p := 1\<rparr>) default_iregex
     [''+++ b/a.cpp'', ''@@ -1 +1 @@'', ''+++ other.cpp'', ''@@ -7 +7 @@''] = [(''a.cpp'', [(1, 1), (7, 7)])]"
  by code_simp

end
