(* ===== verification/Tidy_Pool.thy ===== *)
theory Tidy_Pool imports Tidy_Diff "HOL-Library.Multiset" begin

text \<open>
  The second half of \<open>ci/clang-tidy-diff.py\<close>: the pool of worker threads that runs clang-tidy on the
  commands, the merging of the exported fixes, and \<open>main\<close> with its exit status. The interleaving of
  the main thread and the workers is an explicit list of events.
\<close>

section \<open>One run of clang-tidy\<close>

text \<open>
  What a command does: it cannot be started, or it ends with its two outputs and return code. The
  flag tells whether the watchdog of the worker is alive when the run is wound up: a watchdog that
  is not has fired, or is left over from an earlier run.
\<close>

datatype run_result =
    NotStarted (rr_error: string) (rr_alive: bool)
  | Ended (rr_stdout: "byte list") (rr_stderr: "byte list") (rr_code: int) (rr_decode_error: string) (rr_alive: bool)

text \<open>What is written, as code points.\<close>

datatype written = Stdout "nat list" | Stderr "nat list"

type_synonym command = "string list"

definition newline :: string where
  "newline = [CHR 0x0A]"

definition stderr_text :: "string \<Rightarrow> written" where
  "stderr_text s = Stderr (map of_char s)"

text \<open>\<open>": ".join(command)\<close> is what the handler of an exception appends to the text of the exception.\<close>

definition failed_message :: "string \<Rightarrow> command \<Rightarrow> written" where
  "failed_message e command = stderr_text (''Failed: '' @ e @ join_with '': '' command @ newline)"

definition signal_message :: "int \<Rightarrow> command \<Rightarrow> string" where
  "signal_message code command =
     ''Terminated by signal '' @ int_str (- code) @ '' : '' @ join_with '' '' command @ newline"

text \<open>
  The body of the \<open>try\<close>: whether the worker has a watchdog afterwards, the commands appended to
  \<open>failed_files\<close>, and what is written. \<open>rr_decode_error\<close> is the text of the exception when an output
  is not UTF-8.
\<close>

definition run_tidy_task ::
  "int option \<Rightarrow> bool \<Rightarrow> command \<Rightarrow> run_result \<Rightarrow> bool \<times> command list \<times> written list" where
  "run_tidy_task timeout watchdog command r =
     (case r of
        NotStarted e alive \<Rightarrow> (watchdog, [], [failed_message e command])
      | Ended out err code decode_error alive \<Rightarrow>
          let err' = err @ (if code < 0 then utf8_encode (signal_message code command) else [])
          in (timeout \<noteq> None \<or> watchdog,
              if code \<noteq> 0 then [command] else [],
              case utf8_decode (map unat out) of
                None \<Rightarrow> [failed_message decode_error command]
              | Some s \<Rightarrow>
                  Stdout (s @ map of_char newline) #
                  (if err' = [] then []
                   else case utf8_decode (map unat err') of
                          None \<Rightarrow> [failed_message decode_error command]
                        | Some t \<Rightarrow> [Stderr (t @ map of_char newline)])))"

text \<open>The \<open>finally\<close> clause.\<close>

definition wind_up :: "int option \<Rightarrow> bool \<Rightarrow> command \<Rightarrow> run_result \<Rightarrow> written list" where
  "wind_up timeout watchdog command r =
     (if timeout \<noteq> None \<and> watchdog \<and> \<not> rr_alive r
      then [stderr_text (''Terminated by timeout: '' @ join_with '' '' command @ newline)] else [])"

section \<open>The pool\<close>

datatype phase = Waiting | Running command | Winding command

record worker =
  wk_watchdog :: bool
  wk_phase :: phase

record pool =
  po_todo :: "command list"
  po_queue :: "command list"
  po_workers :: "worker list"
  po_failed :: "command list"
  po_written :: "written list"

text \<open>
  \<open>Put\<close> is a turn of the loop of \<open>main\<close>, which waits while the queue is full (a bound that is not
  positive is none). The others are turns of a worker: taking a command, running it, and the
  \<open>finally\<close> clause, after which the task is done.
\<close>

datatype pool_event = Put | Take nat | Run nat | Finish nat

definition set_worker :: "nat \<Rightarrow> worker \<Rightarrow> pool \<Rightarrow> pool" where
  "set_worker i w s = s\<lparr>po_workers := (po_workers s)[i := w]\<rparr>"

fun pool_do ::
  "int \<Rightarrow> int option \<Rightarrow> (command \<Rightarrow> run_result) \<Rightarrow> pool_event \<Rightarrow> pool \<Rightarrow> pool option" where
  "pool_do maxsize timeout outcome Put s =
     (case po_todo s of
        [] \<Rightarrow> None
      | c # cs \<Rightarrow>
          if maxsize \<le> 0 \<or> int (length (po_queue s)) < maxsize
          then Some (s\<lparr>po_todo := cs, po_queue := po_queue s @ [c]\<rparr>) else None)"
| "pool_do maxsize timeout outcome (Take i) s =
     (if i < length (po_workers s) \<and> wk_phase (po_workers s ! i) = Waiting
      then case po_queue s of
             [] \<Rightarrow> None
           | c # cs \<Rightarrow> Some (set_worker i ((po_workers s ! i)\<lparr>wk_phase := Running c\<rparr>) (s\<lparr>po_queue := cs\<rparr>))
      else None)"
| "pool_do maxsize timeout outcome (Run i) s =
     (if i < length (po_workers s)
      then case wk_phase (po_workers s ! i) of
             Running c \<Rightarrow>
               (case run_tidy_task timeout (wk_watchdog (po_workers s ! i)) c (outcome c) of
                  (watchdog, failed, ws) \<Rightarrow>
                    Some (set_worker i \<lparr>wk_watchdog = watchdog, wk_phase = Winding c\<rparr>
                      (s\<lparr>po_failed := po_failed s @ failed, po_written := po_written s @ ws\<rparr>)))
           | _ \<Rightarrow> None
      else None)"
| "pool_do maxsize timeout outcome (Finish i) s =
     (if i < length (po_workers s)
      then case wk_phase (po_workers s ! i) of
             Winding c \<Rightarrow>
               Some (set_worker i ((po_workers s ! i)\<lparr>wk_phase := Waiting\<rparr>)
                 (s\<lparr>po_written := po_written s @
                   wind_up timeout (wk_watchdog (po_workers s ! i)) c (outcome c)\<rparr>))
           | _ \<Rightarrow> None
      else None)"

text \<open>A schedule, up to its first event that cannot happen.\<close>

fun pool_run ::
  "int \<Rightarrow> int option \<Rightarrow> (command \<Rightarrow> run_result) \<Rightarrow> pool_event list \<Rightarrow> pool \<Rightarrow> pool option" where
  "pool_run maxsize timeout outcome [] s = Some s"
| "pool_run maxsize timeout outcome (e # es) s =
     (case pool_do maxsize timeout outcome e s of
        None \<Rightarrow> None
      | Some t \<Rightarrow> pool_run maxsize timeout outcome es t)"

text \<open>\<open>start_workers\<close>: \<open>range\<close> of a negative number is empty.\<close>

definition start_workers :: "int \<Rightarrow> worker list" where
  "start_workers max_tasks = replicate (nat max_tasks) \<lparr>wk_watchdog = False, wk_phase = Waiting\<rparr>"

definition start_pool :: "int \<Rightarrow> command list \<Rightarrow> pool" where
  "start_pool max_tasks commands =
     \<lparr>po_todo = commands, po_queue = [], po_workers = start_workers max_tasks, po_failed = [], po_written = []\<rparr>"

text \<open>\<open>main\<close> has put every command and \<open>task_queue.join()\<close> returns.\<close>

definition drained :: "pool \<Rightarrow> bool" where
  "drained s \<longleftrightarrow> po_todo s = [] \<and> po_queue s = [] \<and> list_all (\<lambda>w. wk_phase w = Waiting) (po_workers s)"

section \<open>Merging the fixes\<close>

definition mergekey :: string where
  "mergekey = ''Diagnostics''"

text \<open>The contents of the files of the directory, in the order they are listed.\<close>

fun merge_contents :: "pyval res list \<Rightarrow> pyval list res" where
  "merge_contents [] = Inr []"
| "merge_contents (r # rs) =
     res_bind r (\<lambda>content.
     if \<not> truthy content then merge_contents rs
     else res_bind (py_get content mergekey (PList [])) (\<lambda>d.
          res_bind (py_iter d) (\<lambda>xs.
          res_bind (merge_contents rs) (\<lambda>ys. Inr (xs @ ys)))))"

text \<open>The document written to the merge file; \<open>None\<close> empties it.\<close>

definition merge_replacement_files :: "pyval res list \<Rightarrow> pyval option res" where
  "merge_replacement_files contents =
     res_bind (merge_contents contents) (\<lambda>merged.
     Inr (if merged = [] then None
          else Some (PDict [(''MainSourceFile'', PStr []), (mergekey, PList merged)])))"

section \<open>The script\<close>

text \<open>
  What the script meets: the working directory, parsed JSON files, the number of processors, whether
  PyYAML can be imported, the file system, the runs of clang-tidy and the fixes they leave.
\<close>

record tidy_env =
  te_cwd :: string
  te_read :: "string \<Rightarrow> pyval res"
  te_cpu_count :: int
  te_yaml :: bool
  te_isdir :: "string \<Rightarrow> bool"
  te_makedirs :: "string \<Rightarrow> py_error option"
  te_mkdtemp :: string
  te_mkstemp :: "string option \<Rightarrow> nat \<Rightarrow> string"
  te_outcome :: "command \<Rightarrow> run_result"
  te_fixes :: "pyval res list"
  te_write :: "py_error option"
  te_rmtree :: "py_error option"

definition max_task_count :: "int \<Rightarrow> int \<Rightarrow> nat \<Rightarrow> int" where
  "max_task_count cpu_count j files = min (int files) (if j = 0 then cpu_count else j)"

text \<open>\<open>combine_fixes\<close> and \<open>export_fixes_dir\<close>.\<close>

definition export_plan :: "tidy_env \<Rightarrow> tidy_args \<Rightarrow> (bool \<times> string option) res" where
  "export_plan env a =
     (case ta_export_fixes a of
        None \<Rightarrow> Inr (False, None)
      | Some d \<Rightarrow>
          let create = suffix ''/'' d \<and> \<not> te_isdir env d
          in case (if create then te_makedirs env d else None) of
               Some e \<Rightarrow> Inl e
             | None \<Rightarrow>
                 if te_isdir env d \<or> create then Inr (False, Some d)
                 else if \<not> te_yaml env
                   then Inl (RuntimeError (''Cannot combine fixes in one yaml file. Either install PyYAML'' @
                     '' or specify an output directory.''))
                   else Inr (True, Some (te_mkdtemp env)))"

definition compiling_files :: "tidy_env \<Rightarrow> tidy_args \<Rightarrow> string list option res" where
  "compiling_files env a =
     (if ta_skip_non_compiling a
      then res_bind (get_compiling_files (te_read env) (te_cwd env) a) (\<lambda>fs. Inr (Some fs))
      else Inr None)"

text \<open>
  Up to the start of the workers: \<open>None\<close> when no relevant change is found, else whether the fixes
  are combined and the commands.
\<close>

definition tidy_setup ::
  "tidy_env \<Rightarrow> tidy_args \<Rightarrow> string list \<Rightarrow> string list \<Rightarrow> (bool \<times> command list) option res" where
  "tidy_setup env a extra diff =
     res_bind (compiling_files env a) (\<lambda>compiling.
     let d = changed_lines a (selected a (te_cwd env) compiling) diff
     in if \<not> list_ex (\<lambda>e. fst e \<noteq> []) d then Inr None
        else res_bind (export_plan env a) (\<lambda>(combine, dir).
             Inr (Some (combine, tidy_commands a extra (te_mkstemp env dir) d))))"

text \<open>The exit status once the queue is joined, and the removal of the temporary directory.\<close>

datatype tidy_end = Exits int | Raised py_error | Unfinished

definition merge_fails :: "tidy_env \<Rightarrow> bool" where
  "merge_fails env \<longleftrightarrow> isl (merge_replacement_files (te_fixes env)) \<or> te_write env \<noteq> None"

definition tidy_exit :: "tidy_env \<Rightarrow> bool \<Rightarrow> pool \<Rightarrow> tidy_end" where
  "tidy_exit env combine s =
     (let return_code = (if po_failed s \<noteq> [] then 1 else 0);
          return_code' = (if combine \<and> merge_fails env then 1 else return_code)
      in case (if combine then te_rmtree env else None) of
           Some e \<Rightarrow> Raised e
         | None \<Rightarrow> Exits return_code')"

text \<open>\<open>Unfinished\<close> is a schedule that stops before \<open>main\<close> returns.\<close>

definition tidy_main ::
  "tidy_env \<Rightarrow> tidy_args \<Rightarrow> string list \<Rightarrow> string list \<Rightarrow> pool_event list \<Rightarrow> tidy_end" where
  "tidy_main env a extra diff schedule =
     (case tidy_setup env a extra diff of
        Inl e \<Rightarrow> Raised e
      | Inr None \<Rightarrow> Exits 0
      | Inr (Some (combine, commands)) \<Rightarrow>
          let n = max_task_count (te_cpu_count env) (ta_j a) (length commands)
          in case pool_run n (ta_timeout a) (te_outcome env) schedule (start_pool n commands) of
               None \<Rightarrow> Unfinished
             | Some s \<Rightarrow> if drained s then tidy_exit env combine s else Unfinished)"

section \<open>Every interleaving does the same work\<close>

definition exits_nonzero :: "run_result \<Rightarrow> bool" where
  "exits_nonzero r = (case r of NotStarted e al \<Rightarrow> False | Ended out err code de al \<Rightarrow> code \<noteq> 0)"

text \<open>The events left until a command is done, and the commands no worker has run yet.\<close>

definition phase_work :: "worker \<Rightarrow> nat" where
  "phase_work w = (case wk_phase w of Waiting \<Rightarrow> 0 | Running c \<Rightarrow> 2 | Winding c \<Rightarrow> 1)"

definition phase_pending :: "worker \<Rightarrow> command multiset" where
  "phase_pending w = (case wk_phase w of Running c \<Rightarrow> {#c#} | _ \<Rightarrow> {#})"

definition work_left :: "pool \<Rightarrow> nat" where
  "work_left s = 4 * length (po_todo s) + 3 * length (po_queue s) + sum_list (map phase_work (po_workers s))"

definition pending :: "pool \<Rightarrow> command multiset" where
  "pending s = mset (po_todo s) + mset (po_queue s) + sum_list (map phase_pending (po_workers s))"

text \<open>The commands run so far, of which the failed ones are recorded.\<close>

definition accounted :: "(command \<Rightarrow> run_result) \<Rightarrow> command list \<Rightarrow> pool \<Rightarrow> bool" where
  "accounted outcome commands s \<longleftrightarrow>
     (\<exists>ran. mset commands = pending s + ran \<and>
        mset (po_failed s) = filter_mset (\<lambda>c. exits_nonzero (outcome c)) ran)"

lemma sum_list_update_worker:
  fixes f :: "worker \<Rightarrow> 'a :: cancel_comm_monoid_add"
  assumes "i < length ws"
  shows "sum_list (map f (ws[i := w])) + f (ws ! i) = sum_list (map f ws) + f w"
  using assms
proof (induction ws arbitrary: i)
  case (Cons v ws)
  show ?case
  proof (cases i)
    case 0
    then show ?thesis by (simp add: ac_simps)
  next
    case (Suc j)
    with Cons.IH [of j] Cons.prems show ?thesis by (simp add: add.assoc)
  qed
qed simp

lemma run_tidy_task_failed:
  "run_tidy_task timeout w c r = (w', failed, ws) \<Longrightarrow> failed = (if exits_nonzero r then [c] else [])"
  by (cases r) (auto simp: run_tidy_task_def exits_nonzero_def Let_def)

lemma set_worker_simps [simp]:
  "po_todo (set_worker i w s) = po_todo s" "po_queue (set_worker i w s) = po_queue s"
  "po_failed (set_worker i w s) = po_failed s" "po_workers (set_worker i w s) = (po_workers s)[i := w]"
  by (simp_all add: set_worker_def)

text \<open>What an event that happens does, by its kind.\<close>

lemma pool_do_cases:
  assumes "pool_do maxsize timeout outcome e s = Some t"
  obtains (put) c cs where "po_todo s = c # cs" "t = s\<lparr>po_todo := cs, po_queue := po_queue s @ [c]\<rparr>"
  | (take_task) i c cs where "i < length (po_workers s)" "wk_phase (po_workers s ! i) = Waiting" "po_queue s = c # cs"
      "t = set_worker i ((po_workers s ! i)\<lparr>wk_phase := Running c\<rparr>) (s\<lparr>po_queue := cs\<rparr>)"
  | (run) i c watchdog ws where "i < length (po_workers s)" "wk_phase (po_workers s ! i) = Running c"
      "t = set_worker i \<lparr>wk_watchdog = watchdog, wk_phase = Winding c\<rparr>
         (s\<lparr>po_failed := po_failed s @ (if exits_nonzero (outcome c) then [c] else []),
            po_written := po_written s @ ws\<rparr>)"
  | (finish) i c ws where "i < length (po_workers s)" "wk_phase (po_workers s ! i) = Winding c"
      "t = set_worker i ((po_workers s ! i)\<lparr>wk_phase := Waiting\<rparr>) (s\<lparr>po_written := po_written s @ ws\<rparr>)"
proof (cases e)
  case Put
  with assms put show ?thesis by (auto split: list.splits if_splits)
next
  case (Take i)
  with assms take_task show ?thesis by (auto split: list.splits if_splits)
next
  case (Run i)
  with assms obtain c where c: "i < length (po_workers s)" "wk_phase (po_workers s ! i) = Running c"
    by (auto split: phase.splits if_splits)
  obtain watchdog failed ws where
    r: "run_tidy_task timeout (wk_watchdog (po_workers s ! i)) c (outcome c) = (watchdog, failed, ws)"
    by (metis prod_cases3)
  from assms Run c r run_tidy_task_failed [OF r] run [OF c, of watchdog ws] show ?thesis by simp
next
  case (Finish i)
  with assms finish show ?thesis by (auto split: phase.splits if_splits)
qed

lemma pool_do_work:
  assumes "pool_do maxsize timeout outcome e s = Some t"
  shows "work_left s = Suc (work_left t) \<and> length (po_workers t) = length (po_workers s)"
  using assms
proof (cases rule: pool_do_cases)
  case (take_task i c cs)
  with sum_list_update_worker [OF take_task(1), of phase_work] show ?thesis
    by (simp add: work_left_def phase_work_def)
next
  case (run i c watchdog ws)
  with sum_list_update_worker [OF run(1), of phase_work "\<lparr>wk_watchdog = watchdog, wk_phase = Winding c\<rparr>"] show ?thesis
    by (simp add: work_left_def phase_work_def)
next
  case (finish i c ws)
  with sum_list_update_worker [OF finish(1), of phase_work] show ?thesis
    by (simp add: work_left_def phase_work_def)
qed (simp add: work_left_def)

lemma accounted_mono:
  assumes "accounted outcome commands s" and "pending s = pending t + new"
    and "mset (po_failed t) = mset (po_failed s) + filter_mset (\<lambda>c. exits_nonzero (outcome c)) new"
  shows "accounted outcome commands t"
proof -
  from assms(1) obtain ran where "mset commands = pending s + ran"
    "mset (po_failed s) = filter_mset (\<lambda>c. exits_nonzero (outcome c)) ran"
    by (auto simp: accounted_def)
  with assms(2,3) have "mset commands = pending t + (new + ran)"
    "mset (po_failed t) = filter_mset (\<lambda>c. exits_nonzero (outcome c)) (new + ran)"
    by (simp_all add: ac_simps)
  then show ?thesis unfolding accounted_def by blast
qed

lemma pool_do_accounted:
  assumes "pool_do maxsize timeout outcome e s = Some t" and "accounted outcome commands s"
  shows "accounted outcome commands t"
  using assms(1)
proof (cases rule: pool_do_cases)
  case (put c cs)
  then show ?thesis
    by (intro accounted_mono [OF assms(2), of t "{#}"]) (simp_all add: pending_def)
next
  case (take_task i c cs)
  with sum_list_update_worker [OF take_task(1), of phase_pending] show ?thesis
    by (intro accounted_mono [OF assms(2), of t "{#}"]) (simp_all add: pending_def phase_pending_def)
next
  case (run i c watchdog ws)
  with sum_list_update_worker [OF run(1), of phase_pending "\<lparr>wk_watchdog = watchdog, wk_phase = Winding c\<rparr>"] show ?thesis
    by (intro accounted_mono [OF assms(2), of t "{#c#}"]) (simp_all add: pending_def phase_pending_def)
next
  case (finish i c ws)
  with sum_list_update_worker [OF finish(1), of phase_pending] show ?thesis
    by (intro accounted_mono [OF assms(2), of t "{#}"]) (simp_all add: pending_def phase_pending_def)
qed

lemma pool_run_step:
  "pool_run maxsize timeout outcome (e # es) s = Some t \<longleftrightarrow>
     (\<exists>u. pool_do maxsize timeout outcome e s = Some u \<and> pool_run maxsize timeout outcome es u = Some t)"
  by (simp split: option.splits)

lemma pool_run_append:
  "pool_run maxsize timeout outcome es s = Some t \<Longrightarrow>
   pool_run maxsize timeout outcome (es @ fs) s = pool_run maxsize timeout outcome fs t"
  by (induction es arbitrary: s) (auto split: option.splits)

lemma pool_run_keeps:
  assumes "pool_run maxsize timeout outcome es s = Some t" and "accounted outcome commands s"
  shows "accounted outcome commands t \<and> work_left s = length es + work_left t \<and>
    length (po_workers t) = length (po_workers s)"
  using assms
proof (induction es arbitrary: s)
  case (Cons e es)
  then obtain u where u: "pool_do maxsize timeout outcome e s = Some u"
    "pool_run maxsize timeout outcome es u = Some t" unfolding pool_run_step by blast
  with Cons.IH [OF u(2)] Cons.prems pool_do_work [OF u(1)] pool_do_accounted [OF u(1)] show ?case by simp
qed simp

lemma drained_iff: "drained s \<longleftrightarrow> work_left s = 0"
  by (auto simp: drained_def work_left_def phase_work_def list_all_iff split: phase.splits)
    (metis phase.exhaust)

lemma idle_pending: "list_all (\<lambda>w. wk_phase w = Waiting) ws \<Longrightarrow> sum_list (map phase_pending ws) = {#}"
  by (induction ws) (simp_all add: phase_pending_def)

text \<open>With a worker there is always an event that can happen before the queue is drained.\<close>

lemma pool_progress:
  assumes "\<not> drained s" and "po_workers s \<noteq> []" and "0 < maxsize"
  shows "\<exists>e t. pool_do maxsize timeout outcome e s = Some t"
proof (cases "\<exists>i < length (po_workers s). wk_phase (po_workers s ! i) \<noteq> Waiting")
  case True
  then obtain i where i: "i < length (po_workers s)" "wk_phase (po_workers s ! i) \<noteq> Waiting" by blast
  show ?thesis
  proof (cases "wk_phase (po_workers s ! i)")
    case (Running c)
    with i have "\<exists>t. pool_do maxsize timeout outcome (Run i) s = Some t" by (simp split: prod.splits)
    then show ?thesis by blast
  next
    case (Winding c)
    with i have "\<exists>t. pool_do maxsize timeout outcome (Finish i) s = Some t" by simp
    then show ?thesis by blast
  qed (use i in simp)
next
  case False
  then have idle: "list_all (\<lambda>w. wk_phase w = Waiting) (po_workers s)" by (auto simp: list_all_length)
  show ?thesis
  proof (cases "po_queue s")
    case Nil
    with assms idle obtain c cs where "po_todo s = c # cs" by (cases "po_todo s") (auto simp: drained_def)
    with Nil assms(3) have "\<exists>t. pool_do maxsize timeout outcome Put s = Some t" by simp
    then show ?thesis by blast
  next
    case (Cons c cs)
    with assms(2) False have "\<exists>t. pool_do maxsize timeout outcome (Take 0) s = Some t" by simp
    then show ?thesis by blast
  qed
qed

lemma pool_finishes:
  assumes "po_workers s \<noteq> []" and "0 < maxsize"
  shows "\<exists>es t. pool_run maxsize timeout outcome es s = Some t \<and> drained t"
  using assms(1)
proof (induction "work_left s" arbitrary: s rule: less_induct)
  case less
  show ?case
  proof (cases "drained s")
    case True
    then show ?thesis by (intro exI [of _ "[]"]) simp
  next
    case False
    with pool_progress [OF _ less.prems assms(2)] obtain e u
      where u: "pool_do maxsize timeout outcome e s = Some u" by blast
    with pool_do_work [OF u] less.prems have "work_left u < work_left s" "po_workers u \<noteq> []" by auto
    with less.hyps obtain es t where "pool_run maxsize timeout outcome es u = Some t" "drained t" by blast
    with u show ?thesis by (metis pool_run_step)
  qed
qed

lemma start_pool_accounted: "accounted outcome commands (start_pool n commands)"
proof -
  have "sum_list (map phase_pending (start_workers n)) = {#}"
    by (intro idle_pending) (simp add: start_workers_def list_all_iff)
  then show ?thesis by (auto simp: accounted_def pending_def start_pool_def)
qed

lemma start_pool_work: "work_left (start_pool n commands) = 4 * length commands"
  by (simp add: work_left_def start_pool_def start_workers_def phase_work_def)

text \<open>The failed files of a drained pool are those of the commands that ended with another code than 0.\<close>

lemma drained_failed:
  assumes "pool_run maxsize timeout outcome es (start_pool n commands) = Some s" and "drained s"
  shows "mset (po_failed s) = filter_mset (\<lambda>c. exits_nonzero (outcome c)) (mset commands)"
proof -
  have "pending s = {#}"
    using assms(2) by (simp add: pending_def drained_def idle_pending)
  with pool_run_keeps [OF assms(1) start_pool_accounted] show ?thesis by (auto simp: accounted_def)
qed

lemma setup_commands:
  assumes "tidy_setup env a extra diff = Inr (Some (combine, commands))"
  shows "commands \<noteq> []"
  using assms
  by (auto simp: tidy_setup_def res_bind_Inr_iff Let_def tidy_commands_def enumerate_eq_zip list_ex_iff
      split: if_splits)

definition verdict :: "tidy_env \<Rightarrow> bool \<Rightarrow> command list \<Rightarrow> int" where
  "verdict env combine commands =
     (if (\<exists>c \<in> set commands. exits_nonzero (te_outcome env c)) \<or> combine \<and> merge_fails env then 1 else 0)"

lemma drained_exit:
  assumes "pool_run maxsize timeout (te_outcome env) es (start_pool n commands) = Some s" and "drained s"
    and "combine \<Longrightarrow> te_rmtree env = None"
  shows "tidy_exit env combine s = Exits (verdict env combine commands)"
proof -
  have "po_failed s = [] \<longleftrightarrow> mset (po_failed s) = {#}" by simp
  also have "\<dots> \<longleftrightarrow> set_mset (mset (po_failed s)) = {}" by simp
  also have "\<dots> \<longleftrightarrow> \<not> (\<exists>c \<in> set commands. exits_nonzero (te_outcome env c))"
    unfolding drained_failed [OF assms(1,2)] by auto
  finally show ?thesis using assms(3) by (auto simp: tidy_exit_def verdict_def)
qed


definition example_env :: "(command \<Rightarrow> run_result) \<Rightarrow> tidy_env" where
  "example_env outcome =
     \<lparr>te_cwd = ''/repo'', te_read = (\<lambda>_. Inl (FileNotFoundError [])), te_cpu_count = 4, te_yaml = True,
      te_isdir = (\<lambda>_. False), te_makedirs = (\<lambda>_. None), te_mkdtemp = ''/tmp/fixes'', te_mkstemp = (\<lambda>_ _. []),
      te_outcome = outcome, te_fixes = [], te_write = None, te_rmtree = None\<rparr>"

definition example_diff :: "string list" where
  "example_diff = [''+++ a.cpp'', ''@@ -1 +1 @@'', ''+++ b.h'', ''@@ -0,0 +5,2 @@'']"

definition example_commands :: "command list" where
  "example_commands = tidy_commands default_tidy_args [] (\<lambda>_. []) [(''a.cpp'', [(1, 1)]), (''b.h'', [(5, 6)])]"

definition example_schedule :: "pool_event list" where
  "example_schedule = [Put, Take 0, Put, Run 0, Finish 0, Take 0, Run 0, Finish 0]"

lemma example_setup:
  "tidy_setup (example_env f) default_tidy_args [] example_diff = Inr (Some (False, example_commands))"
proof -
  have "changed_lines default_tidy_args default_iregex example_diff = [(''a.cpp'', [(1, 1)]), (''b.h'', [(5, 6)])]"
    by code_simp
  moreover have "selected default_tidy_args cwd None = default_iregex" for cwd
    by (simp add: fun_eq_iff selected_def default_tidy_args_def)
  moreover have "ta_skip_non_compiling default_tidy_args = False" "ta_export_fixes default_tidy_args = None"
    by (simp_all add: default_tidy_args_def)
  ultimately show ?thesis
    by (simp add: tidy_setup_def compiling_files_def export_plan_def res_bind_def example_commands_def example_env_def)
qed


text \<open>
  A clang-tidy that cannot be started is not recorded as a failure: when none can, the script reports
  the exceptions and exits with 0, as if every file had been checked and found clean.
\<close>

lemma missing_clang_tidy_passes:
  assumes "\<forall>c. \<not> exits_nonzero (te_outcome env c)" and "\<not> combine"
  shows "verdict env combine commands = 0"
  using assms by (simp add: verdict_def)

lemma missing_clang_tidy_example:
  "tidy_main (example_env (\<lambda>c. NotStarted ''No such file'' False)) default_tidy_args [] example_diff example_schedule = Exits 0"
  by code_simp

text \<open>With a negative \<open>-j\<close> there is no worker, and \<open>main\<close> waits for ever.\<close>

lemma no_worker_never_ends:
  assumes "tidy_setup env a extra diff = Inr (Some (combine, commands))" and "ta_j a < 0"
  shows "tidy_main env a extra diff es = Unfinished"
proof -
  let ?n = "max_task_count (te_cpu_count env) (ta_j a) (length commands)"
  have none: "start_workers ?n = []" using assms(2) by (simp add: start_workers_def max_task_count_def)
  have "\<not> drained s" if "pool_run ?n (ta_timeout a) (te_outcome env) es p = Some s"
    "po_workers p = []" "po_todo p @ po_queue p \<noteq> []" for p s
    using that
  proof (induction es arbitrary: p)
    case (Cons e es)
    then obtain u where u: "pool_do ?n (ta_timeout a) (te_outcome env) e p = Some u"
      "pool_run ?n (ta_timeout a) (te_outcome env) es u = Some s" unfolding pool_run_step by blast
    from u(1) Cons.prems(2,3) have "po_workers u = [] \<and> po_todo u @ po_queue u \<noteq> []"
      by (cases rule: pool_do_cases) auto
    with Cons.IH u(2) show ?case by blast
  qed (auto simp: drained_def)
  with setup_commands [OF assms(1)] none show ?thesis
    using assms(1) by (auto simp: tidy_main_def Let_def start_pool_def split: option.splits)
qed

end
