(* ===== verification/Web_Server.thy ===== *)
theory Web_Server imports Http_Api begin

text \<open>
  \<open>DataCollectorServer\<close> and \<open>main\<close> of \<open>web_collector.py\<close>: creating the state and its collecting thread,
  binding the socket, serving until an exception leaves \<open>serve_forever\<close>, and closing in the
  \<open>finally\<close> clause. What happens while the server runs is a list of the steps of the collector machine.
\<close>

section \<open>Arguments\<close>

record server_args =
  sa_host :: string
  sa_port :: int
  sa_config :: string
  sa_log_dir :: string

text \<open>What the parser returns when no option is given.\<close>

definition default_server_args :: server_args where
  "default_server_args =
     \<lparr>sa_host = ''10.147.17.18'', sa_port = 8000, sa_config = default_config_path, sa_log_dir = default_log_dir\<rparr>"

section \<open>The server object\<close>

record 'r web_server =
  sv_state :: "'r collector"
  sv_address :: "(string \<times> int) option"

text \<open>\<open>sv_address\<close> is the bound address while the socket is open.\<close>

definition server_url :: "string \<times> int \<Rightarrow> string" where
  "server_url address = ''http://'' @ fst address @ '':'' @ int_str (snd address)"

text \<open>
  Whatever the constructor has created when it raises is kept beside the exception: a socket that
  cannot be bound leaves the state with its collecting thread.
\<close>

definition new_server ::
  "'r collector_env \<Rightarrow> (string \<times> int \<Rightarrow> (string \<times> int) res) \<Rightarrow> server_args \<Rightarrow> os
    \<Rightarrow> 'r web_server res \<times> 'r collector option" where
  "new_server env bind a w =
     (case new_collector env (sa_config a) (sa_log_dir a) w of
        Inl e \<Rightarrow> (Inl e, None)
      | Inr c \<Rightarrow>
          let c' = snd (start_background_collection c)
          in case bind (sa_host a, sa_port a) of
               Inl e \<Rightarrow> (Inl e, Some c')
             | Inr address \<Rightarrow> (Inr \<lparr>sv_state = c', sv_address = Some address\<rparr>, Some c'))"

datatype activity =
    Perform command
  | Elapse
  | StoreFrame nat int np_array "byte list"

fun act :: "'r collector_env \<Rightarrow> imencode \<Rightarrow> activity \<Rightarrow> 'r collector \<Rightarrow> 'r collector" where
  "act env enc (Perform cmd) c = run_command env enc cmd c"
| "act env enc Elapse c = c\<lparr>co_os := tick (co_os c)\<rparr>"
| "act env enc (StoreFrame i q f b) c =
     (if i < length (co_cameras c)
      then c\<lparr>co_cameras := (co_cameras c)[i := frame_commit q f b (co_cameras c ! i)]\<rparr> else c)"

definition serve_forever ::
  "'r collector_env \<Rightarrow> imencode \<Rightarrow> activity list \<Rightarrow> 'r web_server \<Rightarrow> 'r web_server" where
  "serve_forever env enc acts s = s\<lparr>sv_state := fold (act env enc) acts (sv_state s)\<rparr>"

text \<open>
  \<open>close()\<close>: when closing the state raises, the socket stays open. \<open>serve_forever\<close> has returned, so
  \<open>shutdown\<close> does not wait.
\<close>

definition close_server :: "'r collector_env \<Rightarrow> ('r web_server, unit) meth" where
  "close_server env s =
     (case close_collector env (sv_state s) of
        (Inl e, c) \<Rightarrow> (Inl e, s\<lparr>sv_state := c\<rparr>)
      | (Inr u, c) \<Rightarrow> (Inr (), s\<lparr>sv_state := c, sv_address := None\<rparr>))"

text \<open>\<open>ends\<close> is what leaves \<open>serve_forever\<close>: \<open>None\<close> is a \<open>KeyboardInterrupt\<close>, which is swallowed.\<close>

definition server_main ::
  "'r collector_env \<Rightarrow> imencode \<Rightarrow> (string \<times> int \<Rightarrow> (string \<times> int) res) \<Rightarrow> server_args \<Rightarrow> os
    \<Rightarrow> activity list \<Rightarrow> py_error option \<Rightarrow> int res \<times> 'r web_server option" where
  "server_main env enc bind a w acts ends =
     (case new_server env bind a w of
        (Inl e, c) \<Rightarrow> (Inl e, map_option (\<lambda>c. \<lparr>sv_state = c, sv_address = None\<rparr>) c)
      | (Inr s, _) \<Rightarrow>
          (case close_server env (serve_forever env enc acts s) of
             (Inl e, t) \<Rightarrow> (Inl e, Some t)
           | (Inr u, t) \<Rightarrow> (case ends of None \<Rightarrow> Inr 0 | Some e \<Rightarrow> Inl e, Some t)))"

section \<open>What main leaves behind\<close>

lemma act_reachable:
  "collector_reachable env enc p d c \<Longrightarrow> collector_reachable env enc p d (act env enc x c)"
  by (cases x) (auto intro: collector_reachable.step collector_step.intros)

lemma acts_reachable:
  "collector_reachable env enc p d c \<Longrightarrow> collector_reachable env enc p d (fold (act env enc) acts c)"
  by (induction acts arbitrary: c) (simp_all add: act_reachable)

lemma new_server_reachable:
  assumes "new_server env bind a boot = (Inr s, c)"
  shows "collector_reachable env enc (sa_config a) (sa_log_dir a) (sv_state s)"
proof -
  obtain c0 where "new_collector env (sa_config a) (sa_log_dir a) boot = Inr c0"
    and "sv_state s = run_command env enc StartBackground c0"
    using assms by (auto simp: new_server_def Let_def split: sum.splits)
  then show ?thesis
    by (metis collector_reachable.create collector_reachable.step collector_step.command)
qed


text \<open>A server that recorded when it was interrupted.\<close>

definition rec_args :: server_args where
  "rec_args = \<lparr>sa_host = ''localhost'', sa_port = 0, sa_config = ''cfg'', sa_log_dir = ''/log''\<rparr>"

lemma rec_new_server:
  "\<exists>s0 c0. new_server rec_env (\<lambda>_. Inr (''127.0.0.1'', 8123)) rec_args boot = (Inr s0, c0)"
  by (simp add: new_server_def rec_args_def new_collector_def Let_def load_layout_def rec_load)


text \<open>
  \<open>close()\<close> closes the state before it closes the server: a request that was being handled when the
  interrupt came can still start the application after \<open>stop_all\<close>, and nothing stops it then.
\<close>

lemma late_request_starts_the_app:
  "let c = run_command rec_env demo_encoder (StartApp ''cfg'') (run_command rec_env demo_encoder Close rec_start)
   in ph_alive (ce_os rec_env) (co_main c, co_os c)"
  by (simp add: rec_start_def new_collector_def Let_def load_layout_def rec_load boot_def
      close_is_stop_all stop_all_def ph_stop_if_running_def ph_alive_def
      start_main_app_def m_seq_def m_bind_def main_running_def on_main_def ph_running_def new_handle_def
      refresh_layout_if_needed_def reset_runtime_state_def ph_start_def ph_spawn_def rec_env_fields
      collector_snapshot_def detect_early_exit_def view_main_def view_logger_def logger_running_def
      on_logger_def tick_def alive_def)

end
