(* ===== verification/Ros_Files.thy ===== *)
theory Ros_Files imports Ros_Convert begin

text \<open>
  The edges of \<open>python/ros1_bag_to_mcap.py\<close>: the imports of its two packages, opening the bag and the
  output file, and \<open>main\<close>. A module is the list of the names it has.
\<close>

section \<open>Modules\<close>

datatype module_import = NoModule | ImportRaises py_error | Module "string list"

definition ensure_module :: "(string \<Rightarrow> module_import) \<Rightarrow> string \<Rightarrow> string list res" where
  "ensure_module import_module module_name =
     (case import_module module_name of
        NoModule \<Rightarrow> Inl (OtherException (''Missing Python dependency '' @ quoted module_name @
                       ''. Install it before running the converter.''))
      | ImportRaises e \<Rightarrow> Inl e
      | Module names \<Rightarrow> Inr names)"

section \<open>Opening the two files\<close>

text \<open>
  What the calls of the packages and of the file system do: \<open>cf_reader\<close> is creating and entering the
  reader, \<open>cf_start\<close> is the writer's \<open>start\<close>, when it has one.
\<close>

record converter_files =
  cf_import :: "string \<Rightarrow> module_import"
  cf_reader :: "unit res"
  cf_mkdir :: "unit res"
  cf_open :: "unit res"
  cf_writer :: "unit res"
  cf_start :: "unit res option"
  cf_has_deserialize :: bool

text \<open>The output: whether what was there is gone, and whether the handle is open.\<close>

record output_file =
  of_truncated :: bool
  of_open :: bool

definition untouched :: output_file where
  "untouched = \<lparr>of_truncated = False, of_open = False\<rparr>"

definition open_rosbag_reader :: "converter_files \<Rightarrow> unit res" where
  "open_rosbag_reader cf =
     res_bind (ensure_module (cf_import cf) ''rosbags.highlevel'') (\<lambda>names.
     if ''AnyReader'' \<in> set names then cf_reader cf
     else Inl (RuntimeError ''rosbags.highlevel.AnyReader is unavailable in this rosbags version''))"

definition open_mcap_writer :: "converter_files \<Rightarrow> (output_file, unit) meth" where
  "open_mcap_writer cf =
     m_bind (lift_res (ensure_module (cf_import cf) ''mcap.writer'')) (\<lambda>names.
     if ''Writer'' \<notin> set names then m_raise (RuntimeError ''mcap.writer.Writer is unavailable'')
     else m_seq (lift_res (cf_mkdir cf))
         (m_seq (lift_res (cf_open cf))
         (m_seq (m_modify (\<lambda>f. f\<lparr>of_truncated := True, of_open := True\<rparr>))
         (m_seq (lift_res (cf_writer cf))
           (case cf_start cf of None \<Rightarrow> m_return () | Some r \<Rightarrow> lift_res r)))))"

definition deserialize_message ::
  "bool \<Rightarrow> (byte list \<Rightarrow> string \<Rightarrow> ros_message res) \<Rightarrow> byte list \<Rightarrow> string \<Rightarrow> ros_message res" where
  "deserialize_message has_deserialize deserialize rawdata msgtype =
     (if has_deserialize then deserialize rawdata msgtype
      else Inl (RuntimeError ''rosbags reader does not provide a deserialize method''))"

section \<open>The program\<close>

text \<open>The environment of the conversion, with the opening of the files in its place.\<close>

definition with_files :: "converter_files \<Rightarrow> unit res \<Rightarrow> 'c bag_env \<Rightarrow> 'c bag_env" where
  "with_files cf writer env =
     env\<lparr>be_open_writer := writer, be_open_reader := open_rosbag_reader cf,
         be_deserialize := deserialize_message (cf_has_deserialize cf) (be_deserialize env)\<rparr>"

definition converter_main :: "converter_files \<Rightarrow> 'c bag_env \<Rightarrow> int res \<times> 'c trace \<times> output_file" where
  "converter_main cf env =
     (case open_mcap_writer cf untouched of
        (writer, f) \<Rightarrow>
          (case convert_bag (with_files cf writer env) of
             (r, tr) \<Rightarrow> (res_bind r (\<lambda>_. Inr 0), tr, f\<lparr>of_open := of_open f \<and> CloseFile \<notin> set tr\<rparr>)))"

text \<open>How opening the output ends.\<close>

lemma seq_lift_res: "m_seq (lift_res r) m s = (case r of Inl e \<Rightarrow> (Inl e, s) | Inr u \<Rightarrow> m s)"
  by (simp add: m_seq_def m_bind_def lift_res_def split: sum.splits)

lemma bind_lift_res: "m_bind (lift_res r) m s = (case r of Inl e \<Rightarrow> (Inl e, s) | Inr u \<Rightarrow> m u s)"
  by (simp add: m_bind_def lift_res_def split: sum.splits)

lemma lift_res_app: "lift_res r s = (r, s)"
  by (simp add: lift_res_def)

lemma seq_modify: "m_seq (m_modify h) m s = m (h s)"
  by (simp add: m_seq_def)

lemma open_mcap_writer_cases:
  assumes "open_mcap_writer cf untouched = (r, f)"
  obtains (opened) "r = Inr ()" "of_truncated f" "of_open f"
  | (unopened) e where "r = Inl e" "f = untouched"
  | (stranded) e where "r = Inl e" "of_truncated f" "of_open f" "isl (cf_writer cf) \<or> (\<exists>e. cf_start cf = Some (Inl e))"
proof -
  let ?F = "\<lparr>of_truncated = True, of_open = True\<rparr>"
  have chain: "(r, f) =
    (case ensure_module (cf_import cf) ''mcap.writer'' of Inl e \<Rightarrow> (Inl e, untouched) | Inr names \<Rightarrow>
      if ''Writer'' \<notin> set names then (Inl (RuntimeError ''mcap.writer.Writer is unavailable''), untouched)
      else case cf_mkdir cf of Inl e \<Rightarrow> (Inl e, untouched) | Inr u \<Rightarrow>
        (case cf_open cf of Inl e \<Rightarrow> (Inl e, untouched) | Inr u \<Rightarrow>
          (case cf_writer cf of Inl e \<Rightarrow> (Inl e, ?F) | Inr u \<Rightarrow>
            (case cf_start cf of None \<Rightarrow> (Inr (), ?F) | Some r \<Rightarrow> (r, ?F)))))"
    unfolding assms [symmetric] open_mcap_writer_def bind_lift_res
    by (simp add: seq_lift_res seq_modify lift_res_app untouched_def split: sum.split option.split)
  show ?thesis
  proof (cases "f = untouched \<and> isl r")
    case True
    then show ?thesis using unopened by (cases r) auto
  next
    case False
    with chain have w: "(r, f) = (case cf_writer cf of Inl e \<Rightarrow> (Inl e, ?F) | Inr u \<Rightarrow>
            (case cf_start cf of None \<Rightarrow> (Inr (), ?F) | Some r \<Rightarrow> (r, ?F)))"
      by (auto split: sum.splits if_splits)
    then have "f = ?F" by (auto split: sum.splits option.splits)
    with w opened stranded show ?thesis by (cases r) (auto split: sum.splits option.splits)
  qed
qed

lemma converter_main_unopened:
  "open_mcap_writer cf untouched = (Inl e, f0) \<Longrightarrow> converter_main cf env = (Inl e, [], f0)"
  by (simp add: converter_main_def convert_bag_def with_files_def res_bind_def)

lemma converter_main_opened:
  assumes "open_mcap_writer cf untouched = (Inr (), f0)" and "convert_bag (with_files cf (Inr ()) env) = (r0, tr)"
  shows "converter_main cf env = (res_bind r0 (\<lambda>_. Inr 0), tr, f0\<lparr>of_open := False\<rparr>)"
proof -
  have "CloseFile \<in> set tr" using assms(2) by (auto simp: convert_bag_def with_files_def split: prod.splits)
  with assms show ?thesis by (simp add: converter_main_def)
qed

text \<open>
  The exit status is 0 exactly if the conversion succeeded, and then the output is complete: the file
  was opened, the writer finished and the handle is closed. A handle stays open only if the writer
  itself could not be created or started on it. Every other failure after the imports has already
  emptied the output file: the input is not looked at before the output is opened.
\<close>

lemma converter_main_result:
  assumes "converter_main cf env = (r, tr, f)"
  shows "(r = Inr 0 \<longrightarrow> of_truncated f \<and> \<not> of_open f \<and> (\<exists>w. convert_bag (with_files cf w env) = (Inr (), tr))) \<and>
    (of_open f \<longrightarrow> tr = [] \<and> (isl (cf_writer cf) \<or> (\<exists>e. cf_start cf = Some (Inl e)))) \<and>
    (r \<noteq> Inr 0 \<longrightarrow> (\<exists>e. r = Inl e)) \<and> (tr \<noteq> [] \<longrightarrow> of_truncated f)"
proof -
  obtain w f0 where open': "open_mcap_writer cf untouched = (w, f0)" by (cases "open_mcap_writer cf untouched")
  show ?thesis
    using open'
  proof (cases rule: open_mcap_writer_cases)
    case opened
    obtain r0 where "convert_bag (with_files cf (Inr ()) env) = (r0, tr)"
      using converter_main_opened [OF open' [unfolded opened(1)]] assms by (metis prod.inject surj_pair)
    with converter_main_opened [OF open' [unfolded opened(1)] this] assms opened show ?thesis
      by (cases r0) auto
  next
    case (unopened e)
    with converter_main_unopened [of cf e f0 env] open' assms show ?thesis by (auto simp: untouched_def)
  next
    case (stranded e)
    with converter_main_unopened [of cf e f0 env] open' assms show ?thesis by auto
  qed
qed

text \<open>A bag that cannot be opened costs the file that was at the output path.\<close>

lemma unreadable_bag_empties_the_output:
  assumes "open_mcap_writer cf untouched = (Inr (), f)" and "open_rosbag_reader cf = Inl e"
  shows "converter_main cf env = (Inl e, [CloseFile], \<lparr>of_truncated = True, of_open = False\<rparr>)"
proof -
  have "convert_bag (with_files cf (Inr ()) env) = (Inl e, [CloseFile])"
    using assms(2) by (simp add: convert_bag_def convert_body_def with_files_def seq_lift_res)
  from converter_main_opened [OF assms(1) this]
  have "converter_main cf env = (Inl e, [CloseFile], f\<lparr>of_open := False\<rparr>)" by simp
  moreover have "of_truncated f" using assms(1) by (cases rule: open_mcap_writer_cases) auto
  ultimately show ?thesis by (cases f) simp
qed

end
