(* ===== verification/Rig_Diagnostics.thy ===== *)
theory Rig_Diagnostics imports Calibration_Rig begin

text \<open>
  What the calibration shows: the texts of \<open>camera.py\<close>, the projection without distortion, the
  diagnostics the solver's callback reports in \<open>optimization.py\<close>, and the drawings of \<open>utils.py\<close> as
  the calls that make them. Numbers are shown by a parameter.
\<close>

section \<open>Cameras and views\<close>

definition camera_text :: "(real \<Rightarrow> string) \<Rightarrow> string \<Rightarrow> calib_camera \<Rightarrow> string" where
  "camera_text repr name cam =
     (let n_tags = sum_list (map (\<lambda>v. length (vw_tags v)) (cc_views cam))
      in name @ '': fx:'' @ repr (cc_K cam 0 0) @ '', fy:'' @ repr (cc_K cam 1 1) @
         '', views='' @ int_str (int (length (cc_views cam))) @ '', tags='' @ int_str (int n_tags))"

definition observation_text :: "tag_observation \<Rightarrow> string" where
  "observation_text tag = ''Tag: '' @ int_str (to_id tag)"

definition add_tag :: "tag_observation \<Rightarrow> view \<Rightarrow> view" where
  "add_tag tag v = v\<lparr>vw_tags := vw_tags v @ [tag]\<rparr>"

definition pinhole_project :: "matrix \<Rightarrow> real \<times> real \<times> real \<Rightarrow> real \<times> real" where
  "pinhole_project K point =
     (case point of (x, y, z) \<Rightarrow> (K 0 0 * (x / z) + K 0 2, K 1 1 * (y / z) + K 1 2))"

definition norm2 :: "real \<times> real \<Rightarrow> real" where
  "norm2 p = sqrt (fst p ^ 2 + snd p ^ 2)"

text \<open>\<open>np.mean\<close> of a list that is not empty.\<close>

definition mean_of :: "real list \<Rightarrow> real" where
  "mean_of xs = sum_list xs / of_nat (length xs)"

text \<open>The figure of a view: the observed and the projected corners over the image, and its title.\<close>

record 'i residual_figure =
  rf_image :: 'i
  rf_observed :: "(real \<times> real) list"
  rf_projected :: "(real \<times> real) list"
  rf_title :: string

definition plot_view_residuals ::
    "(real \<Rightarrow> string) \<Rightarrow> 'i \<Rightarrow> (real \<times> real) list \<Rightarrow> (real \<times> real) list \<Rightarrow> (real \<times> real) list \<Rightarrow> 'i residual_figure" where
  "plot_view_residuals show2 img corners_2d corners_image residual =
     \<lparr>rf_image = img, rf_observed = corners_2d, rf_projected = corners_image,
      rf_title = ''Mean residual: '' @ show2 (mean_of (map norm2 residual)) @ '' px''\<rparr>"

section \<open>The solver's callback\<close>

record diagnostics =
  dg_iter :: nat
  dg_cost :: real
  dg_norm :: real
  dg_mean_err :: real

fun reshape2 :: "real list \<Rightarrow> (real \<times> real) list" where
  "reshape2 (x # y # xs) = (x, y) # reshape2 xs"
| "reshape2 _ = []"

definition mean_error :: "real list \<Rightarrow> real" where
  "mean_error res =
     (if length res = 0 then 0
      else if length res mod 2 = 0 then mean_of (map norm2 (reshape2 res))
      else mean_of (map abs res))"

text \<open>
  The callback counts before it evaluates, and an exception of the evaluation is only logged. The
  result is what it reports, if it does.
\<close>

definition ls_callback ::
    "rotations \<Rightarrow> (matrix \<Rightarrow> matrix) \<Rightarrow> real list \<Rightarrow> (nat \<times> rig, diagnostics option) meth" where
  "ls_callback rot minv xk s =
     (case s of (i, g) \<Rightarrow>
        (case residuals rot minv xk g of
           (Inl e, g') \<Rightarrow> (Inr None, (Suc i, g'))
         | (Inr res, g') \<Rightarrow>
             (Inr (Some \<lparr>dg_iter = Suc i, dg_cost = 1 / 2 * (\<Sum>x\<leftarrow>res. x ^ 2), dg_norm = sqrt (\<Sum>x\<leftarrow>res. x ^ 2),
                dg_mean_err = mean_error res\<rparr>), (Suc i, g'))))"

definition callback_text :: "(real \<Rightarrow> string) \<Rightarrow> (real \<Rightarrow> string) \<Rightarrow> diagnostics \<Rightarrow> string" where
  "callback_text show_e show_f d =
     ''[least_squares] iter='' @ int_str (int (dg_iter d)) @ '', cost='' @ show_e (dg_cost d) @ '', '' @
     ''||res||='' @ show_e (dg_norm d) @ '', mean_reproj_px='' @ show_f (dg_mean_err d)"

text \<open>The thread pool: \<open>None\<close> without \<open>parallel\<close>, else the value of \<open>max_workers\<close>.\<close>

definition rig_executor :: "pyval \<Rightarrow> pyval option res" where
  "rig_executor config =
     res_bind (py_get config ''parallel'' (PBool True)) (\<lambda>parallel.
     res_bind (py_get config ''max_workers'' PNone) (\<lambda>max_workers.
     Inr (if truthy parallel then Some max_workers else None)))"

section \<open>Drawings\<close>

datatype draw =
    Scatter "(real \<times> real \<times> real) list" string
  | DrawText "real \<times> real \<times> real" string
  | Arrow "real \<times> real \<times> real" "real \<times> real \<times> real" string
  | AxisLabels string string string

definition column :: "matrix \<Rightarrow> nat \<Rightarrow> real \<times> real \<times> real" where
  "column C j = (C 0 j, C 1 j, C 2 j)"

definition plot_camera_pose :: "matrix \<Rightarrow> string \<Rightarrow> string \<times> string \<times> string \<Rightarrow> draw list" where
  "plot_camera_pose pose name colors =
     (case (column pose 3, column pose 0, column pose 1, column pose 2, colors) of
        (p, (x0, x1, x2), (y0, y1, y2), (z0, z1, z2), (c0, c1, c2)) \<Rightarrow>
          [Arrow p (x0, x1, x2) c0, Arrow p (y0, y1, y2) c1, Arrow p (z0, z1, z2) c2, DrawText p name])"

definition tag_draws :: "int \<times> matrix \<times> (real \<times> real \<times> real) \<Rightarrow> draw list" where
  "tag_draws t =
     (case t of (tag_id, corners, center) \<Rightarrow>
        [Scatter (map (column corners) [0..<4]) (''Tag '' @ int_str tag_id)] @
        map (\<lambda>i. DrawText (column corners i) (int_str (int i))) [0..<4] @
        [DrawText center (''Tag '' @ int_str tag_id)])"

definition plot_camera_tags_gt ::
    "(int \<times> matrix \<times> (real \<times> real \<times> real)) list \<Rightarrow> matrix \<Rightarrow> matrix list \<Rightarrow> draw list" where
  "plot_camera_tags_gt tags pose_inertial_rig camera_poses_rig_cam =
     concat (map tag_draws tags) @
     plot_camera_pose pose_inertial_rig ''rig'' (''k'', ''k'', ''y'') @
     concat (map (\<lambda>(i, pose_rig_cam).
         plot_camera_pose (matmul pose_inertial_rig pose_rig_cam) (''cam'' @ int_str (int i)) (''r'', ''g'', ''b''))
       (List.enumerate 0 camera_poses_rig_cam)) @
     [AxisLabels ''X'' ''Y'' ''Z'']"

text \<open>A corner list that is empty raises when its first corner is labelled.\<close>

definition plot_3d_corners :: "(real \<times> real \<times> real) list list \<Rightarrow> int list \<Rightarrow> draw list res" where
  "plot_3d_corners corners_3d ids =
     res_bind (res_map (\<lambda>(corner, i).
         case corner of
           [] \<Rightarrow> Inl IndexError
         | c # cs \<Rightarrow> Inr [Scatter corner [], DrawText c (''Tag '' @ int_str i)]) (zip corners_3d ids)) (\<lambda>ds.
     Inr (concat ds @ [AxisLabels ''X'' ''Y'' ''Z'']))"

section \<open>What the diagnostics say\<close>

text \<open>
  The fisheye model moves the image of a point along the ray from the principal point through its
  image without distortion, by one factor for both axes.
\<close>

lemma fisheye_is_radial:
  "\<exists>s. fst (fisheye_project K d P) - K 0 2 = s * (fst (pinhole_project K P) - K 0 2) \<and>
       snd (fisheye_project K d P) - K 1 2 = s * (snd (pinhole_project K P) - K 1 2)"
proof -
  obtain x y z where P: "P = (x, y, z)" by (cases P)
  show ?thesis 
    unfolding P fisheye_project_def pinhole_project_def Let_def prod.case fst_conv snd_conv
    by (rule exI [where x = "(let r0 = sqrt ((x / z) ^ 2 + (y / z) ^ 2); r = (if r0 < 1 / 10 ^ 8 then 1 / 10 ^ 8 else r0); theta = arctan r
         in theta * (1 + d ! 0 * theta ^ 2 + d ! 1 * theta ^ 4 + d ! 2 * theta ^ 6 + d ! 3 * theta ^ 8) / r)"])
      (simp add: Let_def algebra_simps)
qed

lemma reshape2_sum: "length xs mod 2 = 0 \<Longrightarrow>
    (\<Sum>p\<leftarrow>reshape2 xs. norm2 p ^ 2) = (\<Sum>x\<leftarrow>xs. x ^ 2) \<and> 2 * length (reshape2 xs) = length xs"
  by (induction xs rule: reshape2.induct) (auto simp: norm2_def)

lemma deviations: "(\<Sum>x\<leftarrow>xs. (x - m) ^ 2) = (\<Sum>x\<leftarrow>xs. x ^ 2) - 2 * m * sum_list xs + of_nat (length xs) * (m :: real) ^ 2"
  by (induction xs) (simp_all add: power2_eq_square algebra_simps)

lemma mean_of_squared: "mean_of xs ^ 2 * of_nat (length xs) \<le> (\<Sum>x\<leftarrow>xs. x ^ 2)"
proof (cases "xs = []")
  case False
  then have n: "0 < real (length xs)" by simp
  have "0 \<le> (\<Sum>x\<leftarrow>xs. (x - mean_of xs) ^ 2)" by (intro sum_list_nonneg) auto
  then have "2 * mean_of xs * sum_list xs - of_nat (length xs) * mean_of xs ^ 2 \<le> (\<Sum>x\<leftarrow>xs. x ^ 2)"
    unfolding deviations by simp
  moreover have "sum_list xs = mean_of xs * of_nat (length xs)" using n by (simp add: mean_of_def)
  ultimately show ?thesis by (simp add: power2_eq_square algebra_simps)
qed simp

text \<open>
  On an even number of residuals the reported mean error is at most the root of the mean squared error
  that the reported cost stands for.
\<close>

lemma mean_error_below_cost:
  assumes "length res mod 2 = 0"
  shows "mean_error res ^ 2 * of_nat (length res) \<le> 2 * (\<Sum>x\<leftarrow>res. x ^ 2)"
proof (cases "res = []")
  case False
  have "mean_of (map norm2 (reshape2 res)) ^ 2 * of_nat (length (reshape2 res)) \<le> (\<Sum>x\<leftarrow>res. x ^ 2)"
    using mean_of_squared [of "map norm2 (reshape2 res)"] reshape2_sum [OF assms] by (simp add: o_def)
  moreover have "real (length res) = 2 * of_nat (length (reshape2 res))"
    using reshape2_sum [OF assms] by linarith
  ultimately show ?thesis using False assms by (simp add: mean_error_def)
qed (simp add: mean_error_def)

text \<open>The callback never raises, and it counts every call.\<close>

lemma callback_returns:
  "\<exists>r g'. ls_callback rot minv xk (i, g) = (Inr r, (Suc i, g'))"
  by (simp add: ls_callback_def split: prod.splits sum.splits)

end
