(* ===== verification/Session_Main.thy ===== *)
theory Session_Main imports Script_Properties begin

text \<open>
  \<open>main\<close> of \<open>record.py\<close> and of \<open>record_rgb_event.py\<close> with their exit status, the rows of the IMU log of
  a session, and what a camera rig knows of its recorders: the times they were started and the size
  of their directories.
\<close>

section \<open>The times a rig was started\<close>

text \<open>
  \<open>_start_times\<close> after \<open>start\<close>: the clock is read after each recorder that started; \<open>clock k\<close> is its
  \<open>k\<close>-th reading.
\<close>

definition start_times :: "(nat \<Rightarrow> real) \<Rightarrow> pylon \<Rightarrow> 'i rgb_rig \<Rightarrow> (string \<times> real) list" where
  "start_times clock py rig =
     (case start_each (basler_start py) (rr_names rig) [] (rr_recorders rig) of
        ((_, started), _) \<Rightarrow> zip started (map clock [0..<length started]))"

definition start_time :: "(string \<times> real) list \<Rightarrow> string \<Rightarrow> real res" where
  "start_time ts name = (case map_of ts name of None \<Rightarrow> Inl (KeyError name) | Some t \<Rightarrow> Inr t)"

text \<open>\<open>rglob("*")\<close> of a directory: for each entry whether it is a file, and its size.\<close>

definition dir_size_bytes :: "(bool \<times> int) list \<Rightarrow> int" where
  "dir_size_bytes entries = sum_list (map snd (filter fst entries))"

section \<open>The IMU log of a session\<close>

text \<open>\<open>make_on_imu_sample(sensor_name)\<close>: the lock makes each row a step.\<close>

definition session_on_sample ::
  "(real \<Rightarrow> string) \<Rightarrow> (imu_sample \<Rightarrow> string) \<Rightarrow> string \<Rightarrow> imu_sample \<Rightarrow> (csv_log, unit) meth" where
  "session_on_sample repr wall sensor_name sample =
     csv_write [(''sensor'', sensor_name), (''index'', int_str (is_index sample)), (''x'', repr (is_x sample)),
       (''y'', repr (is_y sample)), (''z'', repr (is_z sample)),
       (''host_timestamp_ns'', int_str (is_host_ns sample)), (''timestamp_source'', is_source sample),
       (''wall_time_iso'', wall sample)]"

text \<open>
  \<open>now_wall_iso()\<close>: the local time as the platform formats it, and the microseconds of \<open>time.time()\<close>.
\<close>

definition now_wall_iso :: "string \<Rightarrow> real \<Rightarrow> string" where
  "now_wall_iso local_time time =
     local_time @ ''.'' @ zpad 6 (int_str (py_trunc ((time - of_int \<lfloor>time\<rfloor>) * 1000000)))"

section \<open>The two scripts\<close>

definition rgb_event_setup ::
    "(string \<Rightarrow> py_error option) \<Rightarrow> (pyval \<Rightarrow> string) \<Rightarrow> string \<Rightarrow> string \<Rightarrow> real \<Rightarrow> real \<Rightarrow> real \<Rightarrow> pyval \<Rightarrow>
     (file_tree, 'i session option) meth" where
  "rgb_event_setup fails repr output_base bias_file fps exposure_us gain camera_info =
     m_bind (setup_rigs fails repr output_base bias_file fps exposure_us gain camera_info) (\<lambda>rigs.
       case rigs of
         None \<Rightarrow> m_return None
       | Some (_, rig, erig) \<Rightarrow> m_return (Some \<lparr>se_rgb = rig, se_events = erig, se_imus = None\<rparr>))"

text \<open>The exit status, and the manifest with the session once it is over.\<close>

definition rgb_event_main ::
    "(string \<Rightarrow> py_error option) \<Rightarrow> (pyval \<Rightarrow> string) \<Rightarrow> string \<Rightarrow> string \<Rightarrow> real \<Rightarrow> real \<Rightarrow> real \<Rightarrow>
     pylon \<Rightarrow> metavision \<Rightarrow> ('i session \<Rightarrow> 'i session) \<Rightarrow> pyval \<Rightarrow> file_tree \<Rightarrow>
     int res \<times> file_tree \<times> (csv_log \<times> 'i session) option" where
  "rgb_event_main fails repr output_base bias_file fps exposure_us gain py mv work camera_info t =
     (case rgb_event_setup fails repr output_base bias_file fps exposure_us gain camera_info t of
        (Inl e, t') \<Rightarrow> (Inl e, t', None)
      | (Inr None, t') \<Rightarrow> (Inr 1, t', None)
      | (Inr (Some s), t') \<Rightarrow>
          (case record_rgb_event py mv work s of
             (Inl e, s') \<Rightarrow> (Inl e, t', None)
           | (Inr manifest, s') \<Rightarrow> (Inr 0, t', Some (manifest, s'))))"

definition record_main ::
    "(string \<Rightarrow> py_error option) \<Rightarrow> (pyval \<Rightarrow> string) \<Rightarrow> string \<Rightarrow> string \<Rightarrow> record_args \<Rightarrow> bool \<Rightarrow>
     pylon \<Rightarrow> metavision \<Rightarrow> iio \<Rightarrow> string \<Rightarrow> real \<Rightarrow> ('i session \<Rightarrow> 'i session) \<Rightarrow> pyval \<Rightarrow> file_tree \<Rightarrow>
     int res \<times> file_tree \<times> (csv_log \<times> pyval \<times> 'i session) option" where
  "record_main fails repr output_base bias_file args skip_imu py mv io written_at elapsed_s work camera_info t =
     (case session_setup fails repr output_base bias_file (ra_fps args) (ra_exposure_us args) (ra_gain args)
             skip_imu camera_info t of
        (Inl e, t') \<Rightarrow> (Inl e, t', None)
      | (Inr None, t') \<Rightarrow> (Inr 1, t', None)
      | (Inr (Some s), t') \<Rightarrow>
          (case record_session py mv io args written_at elapsed_s work s of
             (Inl e, s') \<Rightarrow> (Inl e, t', None)
           | (Inr (manifest, metadata), s') \<Rightarrow> (Inr 0, t', Some (manifest, metadata, s'))))"

section \<open>record.py without an IMU is record_rgb_event.py\<close>

lemma resolved_is_dict:
  "resolve_camera_serials camera_info = Inr m \<Longrightarrow> \<exists>v. imu_entries camera_info = Inr v"
  by (cases camera_info)
    (simp_all add: resolve_camera_serials_def section_entries_def imu_entries_def res_bind_def)

lemma session_setup_skips_imu:
  "session_setup fails repr base bias fps exposure gain True info
     = rgb_event_setup fails repr base bias fps exposure gain info"
proof
  fix t
  show "session_setup fails repr base bias fps exposure gain True info t =
      rgb_event_setup fails repr base bias fps exposure gain info t"
  proof (cases "resolve_camera_serials info")
    case (Inl e)
    then show ?thesis by (simp add: session_setup_def rgb_event_setup_def setup_rigs_def m_bind_def res_bind_def)
  next
    case (Inr m)
    then obtain v where v: "imu_entries info = Inr v" using resolved_is_dict by blast
    show ?thesis
    proof (cases "resolve_event_camera_serials info")
      case (Inl e)
      with Inr show ?thesis
        by (simp add: session_setup_def rgb_event_setup_def setup_rigs_def m_bind_def res_bind_def)
    next
      case (Inr m')
      with \<open>resolve_camera_serials info = Inr m\<close> v show ?thesis
        by (simp add: session_setup_def rgb_event_setup_def session_imus_def m_bind_def res_bind_def m_return_def
            split: prod.splits sum.splits option.splits)
    qed
  qed
qed

lemma session_start_without_imu:
  assumes "se_imus s = None"
  shows "session_start py mv io s = rgb_event_start py mv s"
proof -
  obtain r1 s1 where rgb: "on_rgb (rgb_rig_start py) s = (r1, s1)" by (cases "on_rgb (rgb_rig_start py) s")
  then have none1: "se_imus s1 = None" using assms by (auto simp: on_rgb_def split: prod.splits)
  obtain r2 s2 where ev: "on_events_rig (event_rig_start mv) s1 = (r2, s2)"
    by (cases "on_events_rig (event_rig_start mv) s1")
  then have "se_imus s2 = None" using none1 by (auto simp: on_events_rig_def split: prod.splits)
  with rgb ev show ?thesis
    by (cases r1; cases r2)
      (simp_all add: session_start_def startup_def rgb_event_start_def m_seq_def m_bind_def m_catch_def)
qed

lemma record_session_without_imu:
  assumes "se_imus s = None"
  shows "record_session py mv io args written_at elapsed_s work s =
    (case record_rgb_event py mv work s of
       (r, s') \<Rightarrow> (res_bind r (\<lambda>manifest.
          Inr (manifest, metadata_payload written_at (session_metadata args elapsed_s s'))), s'))"
  using session_start_without_imu [OF assms]
  by (simp add: record_session_def record_rgb_event_def m_seq_def m_bind_def res_bind_def
      split: prod.splits sum.splits)

lemma rgb_event_setup_no_imu:
  "rgb_event_setup fails repr base bias fps exposure gain info t = (Inr (Some s), t') \<Longrightarrow> se_imus s = None"
  by (auto simp: rgb_event_setup_def m_bind_def split: prod.splits sum.splits option.splits)

text \<open>
  C26. With \<open>--skip-imu\<close>, \<open>record.py\<close> does what \<open>record_rgb_event.py\<close> does: on every configuration, file
  tree, device behaviour and recording it ends with the same exit status or exception, the same
  directories, the same recorders and the same manifest; it only adds \<open>metadata.json\<close>, the summary of
  that session.
\<close>

theorem skipping_the_imu_is_record_rgb_event:
  "record_main fails repr base bias args True py mv io written_at elapsed_s (work :: 'i session \<Rightarrow> 'i session) info t =
     (case rgb_event_main fails repr base bias (ra_fps args) (ra_exposure_us args) (ra_gain args) py mv work info t of
        (r, t', out) \<Rightarrow> (r, t', map_option (\<lambda>(manifest, s).
           (manifest, metadata_payload written_at (session_metadata args elapsed_s s), s)) out))"
proof -
  obtain r t' where prep: "rgb_event_setup fails repr base bias (ra_fps args) (ra_exposure_us args) (ra_gain args) info t
      = (r, t' :: file_tree)" and "r = (r :: 'i session option res)" by (metis surj_pair)
  show ?thesis
  proof (cases "\<exists>s. r = Inr (Some s)")
    case True
    then obtain s where r: "r = Inr (Some s)" by blast
    obtain q s' where run: "record_rgb_event py mv work s = (q, s')" by (metis surj_pair)
    have "se_imus s = None" using prep r rgb_event_setup_no_imu by metis
    then show ?thesis
      by (cases q) (simp_all add: record_main_def rgb_event_main_def session_setup_skips_imu prep r run
          record_session_without_imu res_bind_def)
  next
    case False
    then show ?thesis
      by (cases r; cases "projr r") (simp_all add: record_main_def rgb_event_main_def session_setup_skips_imu prep)
  qed
qed

section \<open>What a rig knows\<close>

lemma session_on_sample_row: "session_on_sample repr wall sensor s = imu_on_sample repr (wall s) sensor s"
  by (simp add: session_on_sample_def imu_on_sample_def imu_row_def)

lemma start_each_started:
  assumes "start_each start names started rs = ((None, started'), rs')"
  shows "started' = started @ names"
  using assms
  by (induction names arbitrary: started rs) (fastforce split: prod.splits sum.splits)+

text \<open>
  After a start that returned, every active camera has the start time read right after its own start,
  so with a clock that does not run backwards no camera counts from later than the last one.
\<close>

lemma start_times_complete:
  assumes "rgb_rig_start py rig = (Inr (), rig')"
  shows "map fst (start_times clock py rig) = rr_names rig \<and>
    map snd (start_times clock py rig) = map clock [0..<length (rr_names rig)]"
proof -
  obtain out started rs where run:
    "start_each (basler_start py) (rr_names rig) [] (rr_recorders rig) = ((out, started), rs)"
    by (metis surj_pair)
  have "out = None"
  proof (rule ccontr)
    assume "out \<noteq> None"
    then obtain e where "out = Some e" by blast
    with assms run have "\<exists>s. m_seq (stop_each basler_stop basler_close started) (m_raise e) rs = (Inr (), s)"
      by (auto simp: rgb_rig_start_def on_rgb_recorders_def rig_start_def split: prod.splits)
    then show False by (auto simp: m_seq_def m_bind_Inr_iff)
  qed
  with start_each_started run have "started = rr_names rig" by fastforce
  then show ?thesis by (simp add: start_times_def run)
qed

text \<open>The fraction always has six digits, also for times before the epoch.\<close>

lemma wall_fraction: "\<exists>us < 1000000. py_trunc ((time - of_int \<lfloor>time\<rfloor>) * 1000000) = int us"
proof -
  let ?f = "time - of_int \<lfloor>time\<rfloor>"
  have "0 \<le> ?f" "?f < 1" by linarith+
  then have "0 \<le> ?f * 1000000" "?f * 1000000 < 1000000" by simp_all
  then have "0 \<le> py_trunc (?f * 1000000)" "py_trunc (?f * 1000000) < 1000000"
    by (simp_all add: py_trunc_def floor_less_iff)
  then show ?thesis by (intro exI [of _ "nat (py_trunc (?f * 1000000))"]) simp
qed

lemma now_wall_iso_length: "length (now_wall_iso local_time time) = length local_time + 7"
proof -
  obtain us where us: "us < 1000000" "py_trunc ((time - of_int \<lfloor>time\<rfloor>) * 1000000) = int us"
    using wall_fraction by blast
  have "length (nat_str us) \<le> 6" using us(1) by (intro length_nat_str_le) simp_all
  with us(2) show ?thesis by (simp add: now_wall_iso_def int_str_def length_zpad)
qed

end
