(* ===== verification/Web_Page.thy ===== *)
theory Web_Page imports Web_View begin

text \<open>
  The document of the page in \<open>web_collector.py\<close>: the body as a tree of elements (white space between
  tags is left out), the elements the script looks up, what the page shows when it is loaded, and the
  \<open>run\<close> function with its timer.
\<close>

section \<open>The document\<close>

datatype html =
    Element (tag_of: string) (attributes: "(string \<times> string) list") (children: "html list")
  | Text string

definition div_class :: "string \<Rightarrow> html list \<Rightarrow> html" where
  "div_class c kids = Element ''div'' [(''class'', c)] kids"

definition button :: "string \<Rightarrow> string \<Rightarrow> html" where
  "button i label = Element ''button'' [(''id'', i), (''type'', ''button'')] [Text label]"

definition text_input :: "string \<Rightarrow> string \<Rightarrow> html" where
  "text_input i v = Element ''input'' [(''id'', i), (''type'', ''text''), (''value'', v)] []"

definition status_line :: "string \<Rightarrow> string \<Rightarrow> string \<Rightarrow> html" where
  "status_line label i shown = Element ''div'' [] [Text label, Element ''strong'' [(''id'', i)] [Text shown]]"

definition summary_box :: "string \<Rightarrow> string \<Rightarrow> html" where
  "summary_box label i =
     div_class ''summary-box''
       [Element ''span'' [(''class'', ''label'')] [Text label],
        Element ''div'' [(''id'', i), (''class'', ''summary-list'')] []]"

definition page_header :: html where
  "page_header =
     Element ''header'' []
       [div_class ''field-group''
          [Element ''label'' [(''for'', ''config-path'')] [Text ''Config''],
           div_class ''field-row''
             [text_input ''config-path'' ''__DEFAULT_CONFIG__'',
              button ''start-app'' ''Start app'', button ''stop-app'' ''Stop app'']],
        div_class ''field-group''
          [Element ''label'' [(''for'', ''log-dir'')] [Text ''Log folder''],
           div_class ''field-row''
             [text_input ''log-dir'' ''__DEFAULT_LOG_DIR__'',
              button ''start-log'' ''Start logging'', button ''stop-log'' ''Stop logging'']],
        div_class ''field-group''
          [Element ''label'' [] [Text ''Log file''],
           div_class ''field-row'' [Element ''div'' [(''id'', ''log-path''), (''class'', ''muted'')] [Text ''-'']]]]"

definition page_main :: html where
  "page_main =
     Element ''main'' []
       [div_class ''statusbar''
          [status_line ''App: '' ''app-state'' ''stopped'', status_line ''Logger: '' ''log-state'' ''stopped'',
           status_line ''Config: '' ''current-config'' ''-'', status_line ''Log dir: '' ''current-log-dir'' ''-''],
        Element ''div'' [(''id'', ''fatal-error''), (''class'', ''muted'')] [],
        Element ''section'' [(''class'', ''band'')]
          [Element ''h2'' [] [Text ''Camera Views''],
           Element ''div'' [(''id'', ''camera-grid''), (''class'', ''camera-grid'')] []],
        Element ''section'' [(''class'', ''band'')]
          [Element ''h2'' [] [Text ''Dt Summary''],
           div_class ''summary-grid'' [summary_box ''Cameras'' ''camera-summary'', summary_box ''IMUs'' ''imu-summary'']]]"

definition page_body :: html where
  "page_body = Element ''body'' [] [page_header, page_main]"

section \<open>Looking up elements\<close>

text \<open>The elements in document order, and those with an identifier.\<close>

fun elements :: "html \<Rightarrow> html list" where
  "elements (Text s) = []"
| "elements (Element t atts kids) = Element t atts kids # concat (map elements kids)"

definition with_id :: "string \<Rightarrow> html \<Rightarrow> html list" where
  "with_id i doc = filter (\<lambda>e. map_of (attributes e) ''id'' = Some i) (elements doc)"

definition get_element_by_id :: "string \<Rightarrow> html \<Rightarrow> html option" where
  "get_element_by_id i doc = (case with_id i doc of [] \<Rightarrow> None | e # es \<Rightarrow> Some e)"

fun text_content :: "html \<Rightarrow> string" where
  "text_content (Text s) = s"
| "text_content (Element t atts kids) = concat (map text_content kids)"

text \<open>The constants at the start of the script.\<close>

definition script_elements :: "(string \<times> string) list" where
  "script_elements =
     [(''configInput'', ''config-path''), (''logDirInput'', ''log-dir''), (''startAppButton'', ''start-app''),
      (''stopAppButton'', ''stop-app''), (''startLogButton'', ''start-log''), (''stopLogButton'', ''stop-log''),
      (''logPathElement'', ''log-path''), (''appStateElement'', ''app-state''), (''logStateElement'', ''log-state''),
      (''currentConfigElement'', ''current-config''), (''currentLogDirElement'', ''current-log-dir''),
      (''fatalErrorElement'', ''fatal-error''), (''cameraGrid'', ''camera-grid''),
      (''cameraSummary'', ''camera-summary''), (''imuSummary'', ''imu-summary'')]"

section \<open>The page when it is loaded\<close>

definition shown_at :: "string \<Rightarrow> string \<times> string" where
  "shown_at i =
     (case get_element_by_id i page_body of
        None \<Rightarrow> ([], [])
      | Some e \<Rightarrow> (text_content e, case map_of (attributes e) ''class'' of None \<Rightarrow> [] | Some c \<Rightarrow> c))"

text \<open>No button is disabled, no summary and no card is there.\<close>

definition loaded_display :: display where
  "loaded_display =
     \<lparr>ds_config = fst (shown_at ''current-config''), ds_log_dir = fst (shown_at ''current-log-dir''),
      ds_log_path = fst (shown_at ''log-path''), ds_fatal = fst (shown_at ''fatal-error''),
      ds_app = shown_at ''app-state'', ds_log = shown_at ''log-state'', ds_cameras = None, ds_imus = None,
      ds_captions = [],
      ds_client =
        \<lparr>cl_buttons =
           \<lparr>bt_app_label = fst (shown_at ''app-state''), bt_log_label = fst (shown_at ''log-state''),
            bt_start_app = False, bt_stop_app = False, bt_start_log = False, bt_stop_log = False\<rparr>,
         cl_cameras = [], cl_imus = [],
         cl_page = \<lparr>pg_store = [], pg_cards = [], pg_names = None, pg_urls = [], pg_next_url = 0\<rparr>\<rparr>\<rparr>"

section \<open>Polling\<close>

text \<open>
  \<open>run()\<close>: the first report, then the timer. Between two polls the server goes on, which is a function
  on its state. An error of the first report is shown as an alert, and then no timer is set; later
  errors are dropped.
\<close>

fun poll ::
  "(real \<Rightarrow> string) \<Rightarrow> string \<Rightarrow> http_env \<Rightarrow> 'r collector_env \<Rightarrow> ('r collector \<Rightarrow> 'r collector) list \<Rightarrow>
   'r collector \<times> display \<Rightarrow> 'r collector \<times> display" where
  "poll js_str fetch_error he env [] s = s"
| "poll js_str fetch_error he env (f # fs) s =
     poll js_str fetch_error he env fs (snd (fetch_state js_str fetch_error he env (f (fst s), snd s)))"

definition run_page ::
  "(real \<Rightarrow> string) \<Rightarrow> string \<Rightarrow> http_env \<Rightarrow> 'r collector_env \<Rightarrow> ('r collector \<Rightarrow> 'r collector) list \<Rightarrow>
   'r collector \<times> display \<Rightarrow> string option \<times> 'r collector \<times> display" where
  "run_page js_str fetch_error he env fs s =
     (case fetch_state js_str fetch_error he env s of
        (Some message, s') \<Rightarrow> (Some message, fold (\<lambda>f c. f c) fs (fst s'), snd s')
      | (None, s') \<Rightarrow> (None, poll js_str fetch_error he env fs s'))"

section \<open>What holds of the page\<close>

text \<open>Every element the script looks up is there exactly once, so none of its constants is \<open>null\<close>.\<close>

lemma script_elements_exist:
  "list_all (\<lambda>(name, i). length (with_id i page_body) = 1) script_elements"
  by code_simp

lemma labels_name_inputs:
  "list_all (\<lambda>e. case map_of (attributes e) ''for'' of None \<Rightarrow> True
     | Some i \<Rightarrow> map_option tag_of (get_element_by_id i page_body) = Some ''input'') (elements page_body)"
  by code_simp

lemma loaded_texts:
  "ds_app loaded_display = (''stopped'', []) \<and> ds_log loaded_display = (''stopped'', []) \<and>
   ds_config loaded_display = ''-'' \<and> ds_log_path loaded_display = ''-'' \<and> ds_fatal loaded_display = []"
  by code_simp

text \<open>
  Once the first report has arrived, what the page shows after each answered poll is that of the newest
  report; after a failed first report it never changes again, whatever the server does.
\<close>

lemma poll_append:
  "poll js_str fetch_error he env (fs @ gs) s = poll js_str fetch_error he env gs (poll js_str fetch_error he env fs s)"
  by (induction fs arbitrary: s) simp_all

lemma page_follows_the_server:
  assumes "fst (fetch_state js_str fetch_error he env s) = None"
  shows "run_page js_str fetch_error he env (fs @ [f]) s =
    (None, snd (fetch_state js_str fetch_error he env
       (let t = snd (run_page js_str fetch_error he env fs s)
        in (f (fst t), snd t))))"
  using assms by (cases "fetch_state js_str fetch_error he env s") (simp add: run_page_def poll_append Let_def)

lemma first_failure_is_final:
  assumes "fst (fetch_state js_str fetch_error he env s) = Some message"
  shows "fst (run_page js_str fetch_error he env fs s) = Some message \<and>
    snd (snd (run_page js_str fetch_error he env fs s)) = snd (snd (fetch_state js_str fetch_error he env s))"
  using assms by (cases "fetch_state js_str fetch_error he env s") (simp add: run_page_def)

end
