(* ===== verification/Command_Lines.thy ===== *)
theory Command_Lines imports Raw_Events Session_Main Web_Server Web_Properties Py_Numbers begin

text \<open>
  The options of the command line tools: each parser as the table its \<open>add_argument\<close> calls declare,
  and the values \<open>parse_args\<close> gives for the options of a command line. How \<open>argparse\<close> splits the
  words of a command line into options and their texts (abbreviations, equals signs, positional
  arguments) is left to it: the input here is the options with their texts, in order.
\<close>

section \<open>Options and their values\<close>

datatype arg_type = StrArg | FloatArg | IntArg

datatype option_action =
    Store arg_type pyval
  | Needed arg_type
  | StoreTrue

type_synonym option_table = "(string \<times> option_action) list"
type_synonym namespace = "(string \<times> pyval) list"

text \<open>The attribute of an option: without the two dashes, and with underscores.\<close>

definition dest_of :: "string \<Rightarrow> string" where
  "dest_of flag = map (\<lambda>c. if c = CHR ''-'' then CHR ''_'' else c) (drop 2 flag)"

text \<open>A usage error exits with status 2.\<close>

definition usage_error :: "string \<Rightarrow> py_error" where
  "usage_error m = OtherException (''SystemExit 2: '' @ m)"

definition convert_arg :: "arg_type \<Rightarrow> string \<Rightarrow> string \<Rightarrow> pyval res" where
  "convert_arg t flag s =
     (case (case t of StrArg \<Rightarrow> Inr (PStr s) | FloatArg \<Rightarrow> res_bind (parse_float s) (\<lambda>x. Inr (PFloat x))
                    | IntArg \<Rightarrow> res_bind (parse_int s) (\<lambda>n. Inr (PInt n))) of
        Inl e \<Rightarrow> Inl (usage_error (''argument '' @ flag @ '': invalid value''))
      | Inr v \<Rightarrow> Inr v)"

text \<open>One occurrence of an option, with its text if it has one.\<close>

definition option_value :: "string \<Rightarrow> option_action \<Rightarrow> string option \<Rightarrow> pyval res" where
  "option_value flag action g =
     (case (action, g) of
        (StoreTrue, None) \<Rightarrow> Inr (PBool True)
      | (StoreTrue, Some s) \<Rightarrow> Inl (usage_error (''argument '' @ flag @ '': ignored explicit argument''))
      | (_, None) \<Rightarrow> Inl (usage_error (''argument '' @ flag @ '': expected one argument''))
      | (Store t dflt, Some s) \<Rightarrow> convert_arg t flag s
      | (Needed t, Some s) \<Rightarrow> convert_arg t flag s)"

definition default_of :: "option_action \<Rightarrow> pyval" where
  "default_of action = (case action of Store t dflt \<Rightarrow> dflt | Needed t \<Rightarrow> PNone | StoreTrue \<Rightarrow> PBool False)"

definition default_namespace :: "option_table \<Rightarrow> namespace" where
  "default_namespace table = map (\<lambda>(flag, action). (dest_of flag, default_of action)) table"

text \<open>The occurrences are converted in order, each replacing the value before it; unknown ones are left over.\<close>

fun apply_given :: "option_table \<Rightarrow> (string \<times> string option) list \<Rightarrow> namespace \<Rightarrow> namespace res" where
  "apply_given table [] ns = Inr ns"
| "apply_given table ((flag, g) # gs) ns =
     (case map_of table flag of
        None \<Rightarrow> apply_given table gs ns
      | Some action \<Rightarrow>
          res_bind (option_value flag action g) (\<lambda>v. apply_given table gs (map_set (dest_of flag) v ns)))"

definition is_missing :: "(string \<times> string option) list \<Rightarrow> string \<times> option_action \<Rightarrow> bool" where
  "is_missing given opt \<longleftrightarrow> (\<exists>t. snd opt = Needed t) \<and> fst opt \<notin> set (map fst given)"

definition parse_options :: "option_table \<Rightarrow> (string \<times> string option) list \<Rightarrow> namespace res" where
  "parse_options table given =
     res_bind (apply_given table given (default_namespace table)) (\<lambda>ns.
     if \<exists>opt \<in> set table. is_missing given opt then Inl (usage_error ''the following arguments are required'')
     else if \<exists>g \<in> set given. map_of table (fst g) = None then Inl (usage_error ''unrecognized arguments'')
     else Inr ns)"

section \<open>The tools\<close>

definition default_camera_info :: pyval where
  "default_camera_info = PStr ''config/camera_info.yaml''"

definition capture_options :: option_table where
  "capture_options =
     [(''--fps'', Store FloatArg (PFloat 30)), (''--exposure-us'', Store FloatArg (PFloat 2000)),
      (''--gain'', Store FloatArg (PFloat 1))]"

definition duration_option :: "string \<times> option_action" where
  "duration_option = (''--duration'', Store FloatArg (PFloat 0))"

definition discover_options :: option_table where
  "discover_options = [(''--config'', Store StrArg default_camera_info), (''--auto-assign'', StoreTrue)]"

definition record_basler_options :: option_table where
  "record_basler_options =
     [(''--config'', Store StrArg default_camera_info), (''--camera'', Store StrArg (PStr ''RGB1'')),
      (''--serial'', Store StrArg (PStr [])), (''--output-dir'', Store StrArg (PStr ''output/record_basler''))] @
     capture_options @ [duration_option, (''--num-frames'', Store IntArg (PInt 0))]"

definition record_options :: option_table where
  "record_options =
     [(''--config'', Store StrArg default_camera_info), (''--output-dir'', Store StrArg (PStr ''output/record''))] @
     capture_options @ [(''--bias-file'', Store StrArg (PStr [])), duration_option, (''--skip-imu'', StoreTrue)]"

definition record_rgb_event_options :: option_table where
  "record_rgb_event_options =
     [(''--config'', Store StrArg default_camera_info), (''--output-dir'', Store StrArg (PStr ''output/record_rgb_event''))] @
     capture_options @ [(''--bias-file'', Store StrArg (PStr [])), duration_option]"

definition record_multi_rgb_options :: option_table where
  "record_multi_rgb_options =
     [(''--config'', Store StrArg default_camera_info), (''--output-dir'', Store StrArg (PStr ''output/record_multi_rgb''))] @
     capture_options @ [duration_option]"

definition record_imu_options :: option_table where
  "record_imu_options =
     [(''--config'', Store StrArg default_camera_info), (''--output-dir'', Store StrArg (PStr ''output/record_imu'')),
      duration_option]"

definition record_event_options :: option_table where
  "record_event_options =
     [(''--config'', Store StrArg default_camera_info), (''--camera'', Store StrArg (PStr ''Event1'')),
      (''--serial'', Store StrArg (PStr [])), (''--bias-file'', Store StrArg (PStr [])),
      (''--output-dir'', Store StrArg (PStr ''output/record_event'')), duration_option]"

definition visualize_dataset_options :: option_table where
  "visualize_dataset_options =
     [(''--input-dir'', Needed StrArg), (''--output-dir'', Store StrArg (PStr [])),
      (''--fps'', Store FloatArg (PFloat 0)), (''--event-delta-t-ms'', Store FloatArg (PFloat 45)),
      (''--denoise-us'', Store FloatArg (PFloat 10000)), (''--denoise-radius'', Store IntArg (PInt 10)),
      (''--denoise-min-neighbors'', Store IntArg (PInt 1)), (''--event-width'', Store IntArg (PInt 320)),
      (''--event-height'', Store IntArg (PInt 320)), (''--event-dot-radius'', Store IntArg (PInt 1)),
      (''--no-h264'', StoreTrue)]"

definition visualize_events_options :: option_table where
  "visualize_events_options =
     [(''--input'', Needed StrArg), (''--output'', Store StrArg (PStr [])),
      (''--delta-t-ms'', Store FloatArg (PFloat 45)), (''--gif'', StoreTrue), (''--gif-output'', Store StrArg (PStr [])),
      (''--denoise-us'', Store FloatArg (PFloat 10000)), (''--denoise-radius'', Store IntArg (PInt 10)),
      (''--denoise-min-neighbors'', Store IntArg (PInt 1))]"

text \<open>The positional files of \<open>analyze_latency.py\<close> are not in its table.\<close>

definition analyze_latency_options :: option_table where
  "analyze_latency_options = [(''--output'', Store StrArg (PStr []))]"

definition web_collector_options :: option_table where
  "web_collector_options =
     [(''--host'', Store StrArg (PStr ''10.147.17.18'')), (''--port'', Store IntArg (PInt 8000)),
      (''--config'', Store StrArg (PStr default_config_path)), (''--log-dir'', Store StrArg (PStr default_log_dir))]"

section \<open>What the tools get\<close>

definition dests_distinct :: "option_table \<Rightarrow> bool" where
  "dests_distinct table \<longleftrightarrow> distinct (map (dest_of \<circ> fst) table)"

text \<open>No two options of a tool share an attribute.\<close>

lemma tool_dests_distinct:
  "list_all dests_distinct [discover_options, record_basler_options, record_options, record_rgb_event_options,
     record_multi_rgb_options, record_imu_options, record_event_options, visualize_dataset_options,
     visualize_events_options, analyze_latency_options, web_collector_options]"
  by code_simp

text \<open>The last occurrence of an option decides its attribute.\<close>

lemma apply_given_last:
  assumes "apply_given table (gs @ [(flag, g)]) ns = Inr ns'" and "map_of table flag = Some action"
  shows "\<exists>v. option_value flag action g = Inr v \<and> map_of ns' (dest_of flag) = Some v"
  using assms
proof (induction table gs ns rule: apply_given.induct)
  case (1 table ns)
  then show ?case by (auto simp: res_bind_Inr_iff)
next
  case (2 table flag' g' gs ns)
  then show ?case by (auto simp: res_bind_Inr_iff split: option.splits)
qed

lemma decimal_option:
  "parse_options table [(flag, Some (decimal_text d))] = Inr ns \<Longrightarrow> map_of table flag = Some (Store FloatArg dflt) \<Longrightarrow>
   map_of ns (dest_of flag) = Some (PFloat (decimal_real d))"
  using apply_given_last [of table "[]" flag "Some (decimal_text d)" "default_namespace table" ns "Store FloatArg dflt"]
  by (auto simp: parse_options_def res_bind_Inr_iff option_value_def convert_arg_def split: if_splits)

text \<open>
  The documentation of \<open>visualize_dataset.py\<close> says that its denoising defaults match those of
  \<open>visualize_events.py\<close>: they do.
\<close>

lemma denoise_defaults_agree:
  "list_all (\<lambda>flag. map_of visualize_dataset_options flag = map_of visualize_events_options flag)
     [''--denoise-us'', ''--denoise-radius'', ''--denoise-min-neighbors''] \<and>
   map_of visualize_dataset_options ''--event-delta-t-ms'' = map_of visualize_events_options ''--delta-t-ms''"
  by (simp add: visualize_dataset_options_def visualize_events_options_def)

text \<open>\<open>record.py\<close> has the options of \<open>record_rgb_event.py\<close> with the same defaults, except for the directory.\<close>

lemma record_options_extend:
  "list_all (\<lambda>opt. fst opt = ''--output-dir'' \<or> opt \<in> set record_options) record_rgb_event_options"
  by (simp add: record_rgb_event_options_def record_options_def capture_options_def duration_option_def)

lemma input_is_required:
  "parse_options visualize_events_options [] = Inl (usage_error ''the following arguments are required'')"
  by (simp add: parse_options_def visualize_events_options_def default_namespace_def is_missing_def res_bind_def)

lemma default_server_namespace:
  "parse_options web_collector_options [] =
     Inr [(''host'', PStr (sa_host default_server_args)), (''port'', PInt (sa_port default_server_args)),
          (''config'', PStr (sa_config default_server_args)), (''log_dir'', PStr (sa_log_dir default_server_args))]"
  by (simp add: parse_options_def web_collector_options_def default_namespace_def is_missing_def res_bind_def
      dest_of_def default_of_def default_server_args_def)

end
