(* ===== verification/Spec2Isabelle.thy ===== *)
theory Spec2Isabelle imports Web_View Ros_Convert Recording_Session Dataset_Video Camera_Sync Calibration_Properties Discovery Calibration_Inputs Raw_Events Imu_Spectrum Script_Properties Dataset_Graphs Environment_Check Single_View Tidy_Pool Web_Server Ros_Files Rig_Diagnostics Session_Main Web_Page Command_Lines begin

text \<open>
  A verification library for the Python tools of this repository: the web server that runs the
  data collection application, the converter from ROS 1 bags to MCAP, the toolkit that records
  and renders data sets, and the calibration of the camera rig; and for the script of the continuous
  integration that runs clang-tidy on a patch. Paths are below \<open>src/python\<close>, or \<open>src\<close> for \<open>ci\<close>.

  \<^bold>\<open>The program.\<close>

  \<open>web_collector.py\<close> is an HTTP server with one shared object, \<open>DataCollectorState\<close>. The
  object starts and stops two child processes (the acquisition application and its logger),
  probes the shared memory file the application publishes, reads the newest sample of every
  camera and IMU out of it on a collecting thread, keeps running statistics, and answers the
  page, whose script polls the state and shows it. \<open>ros1_bag_to_mcap.py\<close> infers which
  connections of a bag are sensor streams and rewrites their messages through an MCAP writer.
  In \<open>dataset_collection\<close>, recorders (one per device) run a thread each, rigs start and stop
  recorders together, and the scripts \<open>record*.py\<close> start and stop rigs and write the logs; the
  other scripts discover the devices, render videos of the recordings and analyse their timing.
  \<open>calibration\<close> reads tag and camera tables, detects tags in images and minimises the
  reprojection error over the poses and the cameras. \<open>ci/clang-tidy-diff.py\<close>, a copy of LLVM's
  script, parses a unified diff and runs clang-tidy on the changed lines in a pool of threads.

  \<^bold>\<open>How the theories follow the code.\<close>

  \<^item> \<open>Prelude\<close>, \<open>Py_Strings\<close>, \<open>Byte_Codec\<close>: Python's exceptions as the values of \<open>py_error\<close>
    and fallible results as \<open>py_error + 'a\<close> (\<open>res\<close>); methods of an object with state
    \<open>'s\<close> as \<open>'s \<Rightarrow> (py_error + 'a) \<times> 's\<close> (\<open>meth\<close>, so that an exception keeps what the method
    had done before); the dynamically typed values of YAML and JSON (\<open>pyval\<close>); decimal numbers,
    stripping, splitting and \<open>pathlib\<close> joins on strings of code points below 256; little-endian
    fields, C structure layout, strict UTF-8.
  \<^item> The web collector. \<open>Running_Stats\<close> (\<open>RunningStats\<close>, \<open>rolling_stats\<close> and the page's
    \<open>WeightedStats\<close>), \<open>Log_Path\<close> (\<open>next_log_path\<close>), \<open>Config_Layout\<close>
    (\<open>parse_config_layout\<close>, \<open>load_config_layout\<close>), \<open>Shm_Probe\<close> (the \<open>ctypes\<close> headers and
    \<open>_SharedMemoryProbe\<close>), \<open>Sensor_State\<close> and \<open>Frame_Serving\<close> (\<open>_SensorState\<close>, each of
    its critical sections a step), \<open>Process_Handle\<close> (\<open>_ProcessHandle\<close> over an operating
    system where a process may exit between two polls), \<open>Data_Collector\<close>
    (\<open>DataCollectorState\<close>: the record \<open>collector\<close> has the attributes of the object and
    every method is an operation on it), \<open>Collector_Invariants\<close> and \<open>Collector_Machine\<close> (the
    inductive relation \<open>collector_step\<close> over requests, turns of the collecting thread, stored
    frames and passing time), \<open>Http_Api\<close> (the request handler), \<open>Web_Client\<close>,
    \<open>Web_Properties\<close> and \<open>Web_View\<close> (the script of the page, up to its clicks),
    \<open>Web_Page\<close> (the body of the document and the polling), \<open>Web_Server\<close> (\<open>DataCollectorServer\<close>
    and \<open>main\<close>).
  \<^item> The converter. \<open>Ros_Topics\<close> (the inference of output topics) and \<open>Ros_Convert\<close> (the
    conversion as the trace of the calls on the MCAP writer), \<open>Ros_Files\<close> (its imports, opening the
    two files, \<open>main\<close>).
  \<^item> The recording toolkit. \<open>Clock_Anchor\<close> (\<open>clock.py\<close>), \<open>Recording_Files\<close> and
    \<open>Csv_Log\<close> (\<open>dataset_writer.py\<close>), \<open>Basler_Recorder\<close>, \<open>Event_Records\<close>,
    \<open>Event_Denoise\<close>, \<open>Event_Recorder\<close>, \<open>Imu_Recorder\<close> (the modules of the same names),
    \<open>Device_Driver\<close> and \<open>Recording_Rigs\<close> (\<open>rgb_rig.py\<close>, \<open>event_rig.py\<close>),
    \<open>Recording_Content\<close> (what the loops leave on disk), \<open>Recording_Session\<close> (\<open>record.py\<close>,
    \<open>record_rgb_event.py\<close>), \<open>Event_Video\<close> and \<open>Dataset_Video\<close>
    (\<open>visualize_dataset.py\<close>), \<open>Camera_Sync\<close> (\<open>analyze_latency.py\<close>), \<open>Discovery\<close>
    (\<open>discover_cameras.py\<close>, \<open>discovery.py\<close>).
  \<^item> The scripts around them. \<open>Recording_Scripts\<close> and \<open>Script_Properties\<close>
    (\<open>resource_monitor.py\<close>, \<open>record_basler.py\<close>, \<open>record_event.py\<close>, \<open>record_imu.py\<close>,
    \<open>record_multi_rgb.py\<close> and \<open>record.py\<close> as a whole, with the metadata),
    \<open>Dataset_Graphs\<close> (the IMU graphs and \<open>main\<close> of \<open>visualize_dataset.py\<close>, the plots and
    \<open>main\<close> of \<open>analyze_latency.py\<close>), \<open>Raw_Events\<close> (\<open>visualize_events.py\<close>),
    \<open>Imu_Spectrum\<close> (\<open>plot_imu_fft.py\<close>, \<open>plot_log.py\<close>), \<open>Environment_Check\<close>
    (\<open>check_environment.py\<close>, \<open>main\<close> of \<open>discover_cameras.py\<close>), \<open>Session_Main\<close> (\<open>main\<close> of
    \<open>record.py\<close> and \<open>record_rgb_event.py\<close>, the start times of a rig), \<open>Command_Lines\<close> (the options
    of all the tools).
  \<^item> The calibration. \<open>Calibration_Rig\<close> (\<open>camera.py\<close>, \<open>optimization.py\<close>, the corners of
    \<open>tags3d.py\<close>) and \<open>Calibration_Properties\<close>; \<open>Py_Numbers\<close> (\<open>float\<close>, \<open>split\<close> and
    their inverses), \<open>Calibration_Data\<close> (\<open>gt.py\<close>, \<open>data.py\<close>, \<open>tags3d.py\<close>,
    \<open>main.py\<close>) and \<open>Calibration_Inputs\<close>; \<open>Single_View\<close> (\<open>single.py\<close>);
    \<open>Rig_Diagnostics\<close> (the solver's callback, the texts of \<open>camera.py\<close>, \<open>utils.py\<close>).
  \<^item> The clang-tidy driver. \<open>Tidy_Diff\<close> (options, compilation database, changed lines, command
    lines) and \<open>Tidy_Pool\<close> (\<open>run_tidy\<close> and the pool as a record on which each event of a schedule is
    an operation, merging, \<open>main\<close>).

  \<^bold>\<open>Interfaces.\<close> A contract that several parts share is a locale, interpreted on the model's
  own definitions: \<open>online_stats\<close> (the Python and the page's statistics), \<open>managed_process\<close>
  (what \<open>DataCollectorState\<close> relies on of a process handle), \<open>topic_inference\<close> (the camera
  and the IMU inference), \<open>recorder_driver\<close> (what the rigs need of a recorder; interpreted on
  the camera, event camera and IMU recorders), \<open>slot_device\<close> (the two kinds of devices
  \<open>auto_assign\<close> places).

  \<^bold>\<open>What the lemmas show.\<close> For the collector: the statistics are those of the whole window;
  the probe is ready exactly if the named buffers are there and never reads out of bounds; a
  frame served is the current one; in every reachable state each running process is owned, a
  reported log path is being written, an error stays shown, starting the logger is all or
  nothing and \<open>main\<close> leaves nothing running; a request with a readable body is answered; the
  buttons the page enables are accepted, and a click is the operation of its button. For
  the converter: the inferred topics cover the sensors, outputs are distinct, payloads decode to what was encoded, and the file is closed and
  finished exactly on success. For the toolkit: the clock is exact on linear clocks and is the
  least squares rate; frames plus drops account for the blocks of the camera; the event file
  decodes to the events written; a rig starts all of its recorders or none; recordings read back
  as they were taken; videos, graphs and plots show them; the reports of a recording agree; the
  frame limit is kept; \<open>record.py\<close> without an IMU is \<open>record_rgb_event.py\<close>; the spectrum is bounded;
  the verdict on a host is right. For the
  calibration: the tables read back, the cameras hold the images, the parameter vector holds the
  rig and the residuals are those of the observations. For the clang-tidy driver: the line ranges of a
  well-formed diff read back, and the exit status is the same for every interleaving, none of which
  deadlocks.

  \<^bold>\<open>Conventions.\<close> A Python float is a real number: rounding, NaN and infinities are not
  modelled; Python integers are unbounded; machine integers and bytes are words. A thread is the
  list of the turns of its loop, given with what the outside answered in each turn, so loops are
  structural recursions and terminate; the interleaving of the collector is the step relation, that of the clang-tidy workers a list of
  events.
  Where a recursion is not structural (\<open>next_counter\<close>, the decimal printer, the header walk of
  the probe, the chunks of the event video) a measure is proved to decrease, so no definition
  carries fuel: every operation is a total function, and an exception is one of its values.
  Code that is not in the repository is a parameter of the definitions that use it: the operating
  system (processes, listings, clocks), the YAML and JSON parsers, the camera SDKs (Pylon,
  Metavision, libiio), psutil, NumPy's sorting, OpenCV, ffmpeg, SciPy's rotations and solver, the
  rosbags reader and the MCAP writer. A theorem that relies on such a part says so in a
  hypothesis, and its witness instantiates the part by a concrete function.

  \<^bold>\<open>Not modelled.\<close> The style sheet of the page; how \<open>argparse\<close> splits the words of a command line,
  signal handlers and console output, except where a script's decision depends on them; how matplotlib,
  OpenCV and the GIF writer draw (a figure is the data it shows, or the list of its drawing calls); what
  module-level imports do, apart from those the code reacts to; \<open>set_pose_rig\<close> of \<open>camera.py\<close>, which
  nothing calls; how the regular expression engine runs a pattern given on the command line; the unit
  tests; the C++ core and its applications, which the collector sees only as processes and as bytes in
  shared memory.
\<close>

end
